(* ===== verification/Prelude.thy ===== *)
theory Prelude
  imports Main "HOL-Library.Word" "HOL-Library.Sublist"
begin

text \<open>
  What every component of the model shares: the return code of the code base, the type
  synonyms and fact collections, and general lemmas on lists, maps and folds.
\<close>

unbundle bit_operations_syntax

named_theorems queue_simps \<open>how the queue operations act on the queue's content\<close>
named_theorems link_simps \<open>how the keyed queues of a link context or a memory channel act\<close>
named_theorems node_simps \<open>how the node's handlers act on its tables\<close>

section \<open>Return codes and machine integers\<close>

(* src/src/fediux/common/common.h:48-51 retcode *)
datatype retcode = SUCCESS | FAIL

type_synonym u8 = "8 word"
type_synonym u16 = "16 word"
type_synonym u32 = "32 word"
type_synonym u64 = "64 word"
type_synonym i64 = "64 word"

lemma retcode_not_SUCCESS [simp]: "r \<noteq> SUCCESS \<longleftrightarrow> r = FAIL"
  by (cases r) auto

lemma retcode_not_FAIL [simp]: "r \<noteq> FAIL \<longleftrightarrow> r = SUCCESS"
  by (cases r) auto

section \<open>Lists\<close>

lemma concat_map_range_chunks:
  assumes "mono f" "f 0 = 0"
  shows "concat (map (\<lambda>i. take (f (Suc i) - f i) (drop (f i) xs)) [0..<k]) = take (f k) xs"
proof (induction k)
  case 0
  then show ?case using assms(2) by simp
next
  case (Suc k)
  have le: "f k \<le> f (Suc k)" using assms(1) by (simp add: monoD)
  have "concat (map (\<lambda>i. take (f (Suc i) - f i) (drop (f i) xs)) [0..<Suc k])
        = take (f k) xs @ take (f (Suc k) - f k) (drop (f k) xs)"
    by (simp add: Suc.IH)
  also have "\<dots> = take (f (Suc k)) xs"
    using le by (metis le_add_diff_inverse take_add)
  finally show ?case .
qed

section \<open>Maps\<close>

text \<open>
  \<open>std::map::insert\<close> and \<open>std::unordered_map::insert\<close> leave an entry that is already there
  alone; \<open>operator[]\<close> assignment replaces it (that is \<open>m(k \<mapsto> v)\<close>).
\<close>

definition map_insert :: "'k \<Rightarrow> 'v \<Rightarrow> ('k \<rightharpoonup> 'v) \<Rightarrow> ('k \<rightharpoonup> 'v)" where
  "map_insert k v m = (case m k of None \<Rightarrow> m(k \<mapsto> v) | Some _ \<Rightarrow> m)"

lemma map_insert_apply:
  "map_insert k v m k' = (if k' = k \<and> m k = None then Some v else m k')"
  by (auto simp: map_insert_def split: option.splits)

lemma dom_map_insert [simp]: "dom (map_insert k v m) = insert k (dom m)"
  by (auto simp: map_insert_apply split: if_splits)

lemma map_insert_same [simp]: "map_insert k v m k = Some (case m k of None \<Rightarrow> v | Some w \<Rightarrow> w)"
  by (auto simp: map_insert_apply split: option.splits)

lemma map_insert_other [simp]: "k' \<noteq> k \<Longrightarrow> map_insert k v m k' = m k'"
  by (simp add: map_insert_apply)

section \<open>Results of C++ code\<close>

text \<open>
  A call returns a value, throws (with the text of the exception), or does what the language
  does not define: a read outside a string or vector, the \<open>top\<close> of an empty stack, a null
  pointer dereferenced. \<open>Undef\<close> says that the source reaches such a point.
\<close>

datatype 'a cpp = Ret 'a | Throw string | Undef

fun cbind :: "'a cpp \<Rightarrow> ('a \<Rightarrow> 'b cpp) \<Rightarrow> 'b cpp" where
  "cbind (Ret x) f = f x"
| "cbind (Throw e) f = Throw e"
| "cbind Undef f = Undef"

lemma cbind_Ret_iff: "cbind m f = Ret y \<longleftrightarrow> (\<exists>x. m = Ret x \<and> f x = Ret y)"
  by (cases m) auto

lemma cbind_assoc: "cbind (cbind m f) g = cbind m (\<lambda>x. cbind (f x) g)"
  by (cases m) auto

lemma cbind_cong [fundef_cong]:
  "m = m' \<Longrightarrow> (\<And>x. m' = Ret x \<Longrightarrow> f x = f' x) \<Longrightarrow> cbind m f = cbind m' f'"
  by (cases m') auto

definition nth_cpp :: "'a list \<Rightarrow> nat \<Rightarrow> 'a cpp" where
  "nth_cpp xs i = (if i < length xs then Ret (xs ! i) else Undef)"

lemma nth_cpp_Ret [simp]: "i < length xs \<Longrightarrow> nth_cpp xs i = Ret (xs ! i)"
  by (simp add: nth_cpp_def)

end
