(* ===== verification/Threadsafe_Queue.thy ===== *)
theory Threadsafe_Queue
  imports Prelude
begin

text \<open>
  \<^verbatim>\<open>ThreadSafeQueue\<close> (src/fediux/util/threadsafe_queue.h): the content of the queue and its
  stop flag, one definition per method. Each method runs under the queue's mutex, so each is
  one atomic operation here; the condition variable and the order of its notifications are
  modelled in the theory Cond_Queue. A blocking method returns \<open>Blocked\<close> when its wait
  predicate is false: the call has no result until another operation changes the queue.

  The locale \<open>fifo\<close> is the contract that the clients of a queue use; it is interpreted on
  the operations of the code.
\<close>

section \<open>State and operations\<close>

(* src/src/fediux/util/threadsafe_queue.h:78-83 ThreadSafeQueue *)
record 'a tsq =
  m_queue :: "'a list"
  stop_flag :: bool

definition new_tsq :: "'a tsq" where
  "new_tsq = \<lparr>m_queue = [], stop_flag = False\<rparr>"

datatype 'a pop_result = Blocked | Stopped | Popped 'a

(* src/src/fediux/util/threadsafe_queue.h:21-27 ThreadSafeQueue::emplace *)
definition tsq_emplace :: "'a \<Rightarrow> 'a tsq \<Rightarrow> 'a tsq" where
  "tsq_emplace x q = q\<lparr>m_queue := m_queue q @ [x]\<rparr>"

(* src/src/fediux/util/threadsafe_queue.h:13-19 ThreadSafeQueue::push *)
definition tsq_push :: "'a \<Rightarrow> 'a tsq \<Rightarrow> 'a tsq" where
  "tsq_push x q = tsq_emplace x q"

(* src/src/fediux/util/threadsafe_queue.h:29-32 ThreadSafeQueue::empty *)
definition tsq_empty :: "'a tsq \<Rightarrow> bool" where
  "tsq_empty q \<longleftrightarrow> m_queue q = []"

(* src/src/fediux/util/threadsafe_queue.h:34-43 ThreadSafeQueue::try_pop *)
definition tsq_try_pop :: "'a tsq \<Rightarrow> 'a option \<times> 'a tsq" where
  "tsq_try_pop q = (case m_queue q of
     [] \<Rightarrow> (None, q)
   | x # xs \<Rightarrow> (Some x, q\<lparr>m_queue := xs\<rparr>))"

text \<open>The wait predicate \<open>stop_.load() || !m_queue.empty()\<close>, and what follows it.\<close>

(* src/src/fediux/util/threadsafe_queue.h:45-56 ThreadSafeQueue::wait_and_pop *)
definition tsq_wait_and_pop :: "'a tsq \<Rightarrow> 'a pop_result \<times> 'a tsq" where
  "tsq_wait_and_pop q =
     (if \<not> (stop_flag q \<or> \<not> tsq_empty q) then (Blocked, q)
      else if stop_flag q then (Stopped, q)
      else (Popped (hd (m_queue q)), q\<lparr>m_queue := tl (m_queue q)\<rparr>))"

text \<open>\<open>pop\<close> returns a default-constructed value when the queue was stopped.\<close>

(* src/src/fediux/util/threadsafe_queue.h:58-71 ThreadSafeQueue::pop *)
definition tsq_pop :: "'a \<Rightarrow> 'a tsq \<Rightarrow> 'a option \<times> 'a tsq" where
  "tsq_pop dflt q =
     (if \<not> (stop_flag q \<or> \<not> tsq_empty q) then (None, q)
      else if stop_flag q then (Some dflt, q)
      else (Some (hd (m_queue q)), q\<lparr>m_queue := tl (m_queue q)\<rparr>))"

(* src/src/fediux/util/threadsafe_queue.h:73-76 ThreadSafeQueue::shutdown *)
definition tsq_shutdown :: "'a tsq \<Rightarrow> 'a tsq" where
  "tsq_shutdown q = q\<lparr>stop_flag := True\<rparr>"

section \<open>How the operations act\<close>

lemma new_tsq_simps [simp]:
  "m_queue new_tsq = []" "stop_flag new_tsq = False"
  by (simp_all add: new_tsq_def)

lemma tsq_push_simps [simp, queue_simps]:
  "m_queue (tsq_push x q) = m_queue q @ [x]"
  "stop_flag (tsq_push x q) = stop_flag q"
  by (simp_all add: tsq_push_def tsq_emplace_def)

lemma tsq_shutdown_simps [simp, queue_simps]:
  "m_queue (tsq_shutdown q) = m_queue q"
  "stop_flag (tsq_shutdown q) = True"
  by (simp_all add: tsq_shutdown_def)

lemma wait_and_pop_Cons [queue_simps]:
  "\<not> stop_flag q \<Longrightarrow> m_queue q = x # xs \<Longrightarrow>
   tsq_wait_and_pop q = (Popped x, q\<lparr>m_queue := xs\<rparr>)"
  by (simp add: tsq_wait_and_pop_def tsq_empty_def)

lemma wait_and_pop_Nil [queue_simps]:
  "\<not> stop_flag q \<Longrightarrow> m_queue q = [] \<Longrightarrow> tsq_wait_and_pop q = (Blocked, q)"
  by (simp add: tsq_wait_and_pop_def tsq_empty_def)

lemma wait_and_pop_stopped [queue_simps]:
  "stop_flag q \<Longrightarrow> tsq_wait_and_pop q = (Stopped, q)"
  by (simp add: tsq_wait_and_pop_def)

lemma wait_and_pop_Popped_iff:
  "tsq_wait_and_pop q = (Popped x, q') \<longleftrightarrow>
     \<not> stop_flag q \<and> m_queue q \<noteq> [] \<and> x = hd (m_queue q) \<and> q' = q\<lparr>m_queue := tl (m_queue q)\<rparr>"
  by (auto simp: tsq_wait_and_pop_def tsq_empty_def split: if_splits)

lemma wait_and_pop_Blocked_iff:
  "fst (tsq_wait_and_pop q) = Blocked \<longleftrightarrow> \<not> stop_flag q \<and> m_queue q = []"
  by (auto simp: tsq_wait_and_pop_def tsq_empty_def)

lemma wait_and_pop_agrees_pop:
  "tsq_pop d q = (case tsq_wait_and_pop q of
      (Blocked, q') \<Rightarrow> (None, q') | (Stopped, q') \<Rightarrow> (Some d, q') | (Popped x, q') \<Rightarrow> (Some x, q'))"
  by (simp add: tsq_pop_def tsq_wait_and_pop_def)

section \<open>The queue contract\<close>

text \<open>
  A client of a queue puts messages in and takes them out. \<open>items\<close> is what the queue holds,
  \<open>live\<close> says that the queue has not been shut down.
\<close>

locale fifo =
  fixes put :: "'a \<Rightarrow> 'q \<Rightarrow> 'q"
    and take_front :: "'q \<Rightarrow> 'a pop_result \<times> 'q"
    and items :: "'q \<Rightarrow> 'a list"
    and live :: "'q \<Rightarrow> bool"
  assumes items_put: "items (put x q) = items q @ [x]"
    and live_put: "live (put x q) = live q"
    and front_Cons: "live q \<Longrightarrow> items q = x # xs \<Longrightarrow>
      \<exists>q'. take_front q = (Popped x, q') \<and> items q' = xs \<and> live q'"
    and front_Nil: "live q \<Longrightarrow> items q = [] \<Longrightarrow> take_front q = (Blocked, q)"
    and front_dead: "\<not> live q \<Longrightarrow> take_front q = (Stopped, q)"
begin

definition put_all :: "'a list \<Rightarrow> 'q \<Rightarrow> 'q" where
  "put_all xs q = fold put xs q"

primrec take_n :: "nat \<Rightarrow> 'q \<Rightarrow> 'a pop_result list \<times> 'q" where
  "take_n 0 q = ([], q)"
| "take_n (Suc n) q = (let (r, q') = take_front q; (rs, q'') = take_n n q' in (r # rs, q''))"

lemma items_put_all: "items (put_all xs q) = items q @ xs"
  by (induction xs arbitrary: q) (simp_all add: put_all_def items_put)

lemma live_put_all: "live (put_all xs q) = live q"
  by (induction xs arbitrary: q) (simp_all add: put_all_def live_put)

lemma take_n_items:
  assumes "live q" "items q = xs @ ys"
  shows "\<exists>q'. take_n (length xs) q = (map Popped xs, q') \<and> items q' = ys \<and> live q'"
  using assms
proof (induction xs arbitrary: q)
  case Nil
  then show ?case by simp
next
  case (Cons x xs)
  from Cons.prems front_Cons [of q x "xs @ ys"] obtain q1 where
    q1: "take_front q = (Popped x, q1)" "items q1 = xs @ ys" "live q1" by auto
  from Cons.IH [OF q1(3,2)] obtain q2 where
    "take_n (length xs) q1 = (map Popped xs, q2)" "items q2 = ys" "live q2" by auto
  with q1 show ?case by simp
qed

lemma fifo_order:
  assumes "live q" "items q = []"
  shows "fst (take_n (length xs) (put_all xs q)) = map Popped xs"
proof -
  have "live (put_all xs q)" "items (put_all xs q) = xs @ []"
    using assms by (simp_all add: items_put_all live_put_all)
  from take_n_items [OF this] show ?thesis by auto
qed

lemma dead_never_blocks: "\<not> live q \<Longrightarrow> fst (take_front q) \<noteq> Blocked"
  by (simp add: front_dead)

end

interpretation tsq: fifo tsq_push tsq_wait_and_pop m_queue "\<lambda>q. \<not> stop_flag q"
  by unfold_locales (auto simp: queue_simps)

end
