(* ===== verification/Cond_Queue.thy ===== *)
theory Cond_Queue
  imports Threadsafe_Queue
begin

text \<open>
  The blocking protocol of \<^verbatim>\<open>ThreadSafeQueue\<close>: threads that wait on \<open>m_cv\<close> under
  \<open>m_mutex\<close>, and the notifications of \<open>emplace\<close> and \<open>shutdown\<close>. A step is one action of
  one thread between two scheduling points:
  \<^item> a consumer takes the mutex (\<open>enter\<close>), tests the wait predicate, and either finishes or
    blocks; testing and blocking are two steps, because \<open>shutdown\<close> does not take the mutex
    and can run between them;
  \<^item> a notified consumer (\<open>woken\<close>) must take the mutex again before it tests;
  \<^item> \<open>emplace\<close> changes the queue while no other thread holds the mutex, and notifies after it
    released it; \<open>shutdown\<close> stores the flag without the mutex, and then notifies.
  Each \<open>notify_one\<close> still to be performed counts in \<open>pending\<close>; a notification that finds no
  sleeping thread is lost, as for \<open>std::condition_variable\<close>. Spurious wake-ups, which the
  standard allows but does not promise, are left out.
\<close>

section \<open>The state of the protocol\<close>

(* src/src/fediux/util/threadsafe_queue.h:78-83 ThreadSafeQueue *)
record 'a cvq =
  tq :: "'a tsq"
  sleeping :: "nat list"
  woken :: "nat list"
  holder :: "(nat \<times> bool) option" \<comment> \<open>the thread in the mutex; True: its test failed\<close>
  pending :: nat
  delivered :: "(nat \<times> 'a pop_result) list"

definition init_cvq :: "'a cvq" where
  "init_cvq = \<lparr>tq = new_tsq, sleeping = [], woken = [], holder = None, pending = 0,
               delivered = []\<rparr>"

datatype 'a cv_label =
    Enter nat | TestOk nat | TestFail nat | Sleep nat | Rewake nat
  | Emplace 'a | Notify nat | NotifyNone | Shutdown | TryPop

text \<open>
  \<open>wait(lock, pred)\<close> is \<open>while (!pred()) wait(lock)\<close>: \<open>TestFail\<close> and \<open>Sleep\<close> are one
  iteration, \<open>Rewake\<close> the return of the inner wait.
\<close>

(* src/src/fediux/util/threadsafe_queue.h:21-76 ThreadSafeQueue *)
inductive cv_step :: "'a cvq \<Rightarrow> 'a cv_label \<Rightarrow> 'a cvq \<Rightarrow> bool" where
  enter: "holder s = None \<Longrightarrow> t \<notin> set (sleeping s) \<Longrightarrow> t \<notin> set (woken s) \<Longrightarrow>
    cv_step s (Enter t) (s\<lparr>holder := Some (t, False)\<rparr>)"
| test_ok: "holder s = Some (t, False) \<Longrightarrow> tsq_wait_and_pop (tq s) = (r, q') \<Longrightarrow> r \<noteq> Blocked \<Longrightarrow>
    cv_step s (TestOk t)
      (s\<lparr>tq := q', holder := None, delivered := delivered s @ [(t, r)]\<rparr>)"
| test_fail: "holder s = Some (t, False) \<Longrightarrow> fst (tsq_wait_and_pop (tq s)) = Blocked \<Longrightarrow>
    cv_step s (TestFail t) (s\<lparr>holder := Some (t, True)\<rparr>)"
| sleep: "holder s = Some (t, True) \<Longrightarrow>
    cv_step s (Sleep t) (s\<lparr>holder := None, sleeping := sleeping s @ [t]\<rparr>)"
| rewake: "holder s = None \<Longrightarrow> t \<in> set (woken s) \<Longrightarrow>
    cv_step s (Rewake t) (s\<lparr>holder := Some (t, False), woken := remove1 t (woken s)\<rparr>)"
| emplace: "holder s = None \<Longrightarrow>
    cv_step s (Emplace x) (s\<lparr>tq := tsq_push x (tq s), pending := Suc (pending s)\<rparr>)"
| notify: "pending s = Suc n \<Longrightarrow> t \<in> set (sleeping s) \<Longrightarrow>
    cv_step s (Notify t)
      (s\<lparr>pending := n, sleeping := remove1 t (sleeping s), woken := woken s @ [t]\<rparr>)"
| notify_none: "pending s = Suc n \<Longrightarrow> sleeping s = [] \<Longrightarrow>
    cv_step s NotifyNone (s\<lparr>pending := n\<rparr>)"
| shutdown: "cv_step s Shutdown (s\<lparr>tq := tsq_shutdown (tq s), pending := Suc (pending s)\<rparr>)"
| try_pop: "holder s = None \<Longrightarrow> tsq_try_pop (tq s) = (r, q') \<Longrightarrow>
    cv_step s TryPop (s\<lparr>tq := q'\<rparr>)"

inductive cv_reach :: "'a cvq \<Rightarrow> bool" where
  cv_init: "cv_reach init_cvq"
| cv_next: "cv_reach s \<Longrightarrow> cv_step s l s' \<Longrightarrow> cv_reach s'"

section \<open>No push is lost\<close>

text \<open>
  While the queue runs, every item in it is matched by a notification still to be sent, by a
  woken thread, or by the thread that is about to test; only when nobody sleeps may items be
  left unmatched. A thread whose test failed saw an empty queue, and nobody can fill it before
  it sleeps.
\<close>

definition helpers :: "'a cvq \<Rightarrow> nat" where
  "helpers s = pending s + length (woken s) + (case holder s of Some (_, False) \<Rightarrow> 1 | _ \<Rightarrow> 0)"

definition cv_inv :: "'a cvq \<Rightarrow> bool" where
  "cv_inv s \<longleftrightarrow> (\<not> stop_flag (tq s) \<longrightarrow>
     (sleeping s \<noteq> [] \<longrightarrow> length (m_queue (tq s)) \<le> helpers s) \<and>
     (\<forall>t. holder s = Some (t, True) \<longrightarrow> m_queue (tq s) = []))"

lemma cv_inv_init: "cv_inv init_cvq"
  by (simp add: cv_inv_def init_cvq_def)

lemma try_pop_simps:
  "tsq_try_pop q = (r, q') \<Longrightarrow> stop_flag q' = stop_flag q \<and> m_queue q' = tl (m_queue q)"
  by (auto simp: tsq_try_pop_def split: list.splits)

lemma wait_and_pop_effect:
  "tsq_wait_and_pop q = (r, q') \<Longrightarrow> r \<noteq> Blocked \<Longrightarrow> \<not> stop_flag q' \<Longrightarrow>
   \<not> stop_flag q \<and> m_queue q \<noteq> [] \<and> m_queue q' = tl (m_queue q)"
  by (auto simp: tsq_wait_and_pop_def tsq_empty_def split: if_splits)

lemma cv_step_inv: "cv_step s l s' \<Longrightarrow> cv_inv s \<Longrightarrow> cv_inv s'"
proof (induction rule: cv_step.induct)
  case (test_ok s t r q')
  then show ?case
    by (auto simp: cv_inv_def helpers_def dest!: wait_and_pop_effect)
next
  case (test_fail s t)
  then show ?case
    by (auto simp: cv_inv_def wait_and_pop_Blocked_iff)
next
  case (sleep s t)
  then show ?case by (auto simp: cv_inv_def)
next
  case (rewake s t)
  then show ?case
    by (auto simp: cv_inv_def helpers_def length_remove1 length_pos_if_in_set Suc_le_eq)
next
  case (notify s n t)
  then show ?case
    by (auto simp: cv_inv_def helpers_def)
next
  case (try_pop s r q')
  then show ?case
    by (auto simp: cv_inv_def helpers_def dest!: try_pop_simps)
qed (auto simp: cv_inv_def helpers_def)

lemma cv_reach_inv: "cv_reach s \<Longrightarrow> cv_inv s"
  by (induction rule: cv_reach.induct) (auto intro: cv_inv_init cv_step_inv)

text \<open>No push is lost.\<close>

theorem push_wakes_a_consumer:
  assumes "cv_reach s" "\<not> stop_flag (tq s)" "m_queue (tq s) \<noteq> []" "sleeping s \<noteq> []"
  shows "pending s > 0 \<or> woken s \<noteq> [] \<or> (\<exists>t. holder s = Some (t, False))"
proof -
  from assms cv_reach_inv [of s] have "length (m_queue (tq s)) \<le> helpers s"
    by (auto simp: cv_inv_def)
  with assms(3) have "0 < helpers s" by (cases "m_queue (tq s)") auto
  then show ?thesis
    by (auto simp: helpers_def split: option.splits bool.splits)
qed

text \<open>The hypotheses can hold together: one consumer sleeps, then one item is pushed.\<close>

definition demo_sleeper :: "nat cvq" where
  "demo_sleeper = init_cvq\<lparr>sleeping := [0]\<rparr>"

lemma demo_sleeper_reach: "cv_reach demo_sleeper"
proof -
  let ?a = "init_cvq\<lparr>holder := Some (0, False)\<rparr> :: nat cvq"
  let ?b = "init_cvq\<lparr>holder := Some (0, True)\<rparr> :: nat cvq"
  have "cv_step (init_cvq :: nat cvq) (Enter 0) ?a"
    using cv_step.enter [of init_cvq 0] by (simp add: init_cvq_def)
  moreover have "cv_step ?a (TestFail 0) ?b"
    using cv_step.test_fail [of ?a 0] by (simp add: init_cvq_def wait_and_pop_Blocked_iff)
  moreover have "cv_step ?b (Sleep 0) demo_sleeper"
    using cv_step.sleep [of ?b 0] by (simp add: init_cvq_def demo_sleeper_def)
  ultimately show ?thesis by (meson cv_init cv_next)
qed

theorem push_wakes_a_consumer_witness:
  "let s = demo_sleeper\<lparr>tq := tsq_push 7 new_tsq, pending := 1\<rparr> in
   pending s > 0 \<or> woken s \<noteq> [] \<or> (\<exists>t. holder s = Some (t, False))"
proof -
  let ?s = "demo_sleeper\<lparr>tq := tsq_push 7 new_tsq, pending := 1\<rparr>"
  have "cv_step demo_sleeper (Emplace 7) ?s"
    using cv_step.emplace [of demo_sleeper 7] by (simp add: demo_sleeper_def init_cvq_def)
  then have "cv_reach ?s" by (rule cv_next [OF demo_sleeper_reach])
  then show ?thesis
    unfolding Let_def
    by (rule push_wakes_a_consumer) (simp_all add: demo_sleeper_def)
qed

section \<open>What shutdown does not do\<close>








end
