(* ===== verification/Link_Context.thy ===== *)
theory Link_Context
  imports Threadsafe_Queue
begin

text \<open>
  \<^verbatim>\<open>LinkContext\<close> (src/fediux/util/network/link_context.cc): the per-task table of receive,
  send and completion queues, each found (and created when missing) by a string key, and the
  operations on them. A blocking call that would wait returns no result (\<open>None\<close>).

  The locale \<open>mailbox\<close> is the contract of a keyed message store: what is fetched under a key is
  what was posted under that key, in that order. It gives a \<open>fifo\<close> for each key.
\<close>

section \<open>The mailbox contract\<close>

locale mailbox =
  fixes post :: "'k \<Rightarrow> 'm \<Rightarrow> 's \<Rightarrow> 's"
    and fetch :: "'k \<Rightarrow> 's \<Rightarrow> 'm pop_result \<times> 's"
    and box :: "'s \<Rightarrow> 'k \<Rightarrow> 'm list"
    and opened :: "'s \<Rightarrow> bool"
  assumes box_post: "box (post k m s) k' = (if k' = k then box s k @ [m] else box s k')"
    and opened_post: "opened (post k m s) = opened s"
    and fetch_Cons: "opened s \<Longrightarrow> box s k = m # ms \<Longrightarrow>
      \<exists>s'. fetch k s = (Popped m, s') \<and> opened s' \<and>
           (\<forall>k'. box s' k' = (if k' = k then ms else box s k'))"
    and fetch_Nil: "opened s \<Longrightarrow> box s k = [] \<Longrightarrow>
      \<exists>s'. fetch k s = (Blocked, s') \<and> opened s' \<and> (\<forall>k'. box s' k' = box s k')"
begin

definition post_all :: "('k \<times> 'm) list \<Rightarrow> 's \<Rightarrow> 's" where
  "post_all kms s = fold (\<lambda>(k, m). post k m) kms s"

primrec fetch_n :: "nat \<Rightarrow> 'k \<Rightarrow> 's \<Rightarrow> 'm pop_result list \<times> 's" where
  "fetch_n 0 k s = ([], s)"
| "fetch_n (Suc n) k s = (let (r, s') = fetch k s; (rs, s'') = fetch_n n k s' in (r # rs, s''))"

lemma post_all_Cons: "post_all ((k, m) # kms) s = post_all kms (post k m s)"
  by (simp add: post_all_def)

lemma box_post_all: "box (post_all kms s) k = box s k @ map snd (filter (\<lambda>p. fst p = k) kms)"
proof (induction kms arbitrary: s)
  case Nil
  then show ?case by (simp add: post_all_def)
next
  case (Cons p kms)
  then show ?case by (cases p) (simp add: post_all_Cons box_post)
qed

lemma opened_post_all: "opened (post_all kms s) = opened s"
proof (induction kms arbitrary: s)
  case Nil
  then show ?case by (simp add: post_all_def)
next
  case (Cons p kms)
  then show ?case by (cases p) (simp add: post_all_Cons opened_post)
qed

lemma fetch_n_box:
  assumes "opened s" "box s k = ms @ rest"
  shows "\<exists>s'. fetch_n (length ms) k s = (map Popped ms, s') \<and> opened s' \<and>
              (\<forall>k'. box s' k' = (if k' = k then rest else box s k'))"
  using assms
proof (induction ms arbitrary: s)
  case Nil
  then show ?case by (intro exI [of _ s]) auto
next
  case (Cons m ms)
  from Cons.prems fetch_Cons [of s k m "ms @ rest"] obtain s1 where
    s1: "fetch k s = (Popped m, s1)" "opened s1"
      "\<forall>k'. box s1 k' = (if k' = k then ms @ rest else box s k')" by auto
  from Cons.IH [OF s1(2)] s1(3) obtain s2 where
    "fetch_n (length ms) k s1 = (map Popped ms, s2)" "opened s2"
    "\<forall>k'. box s2 k' = (if k' = k then rest else box s1 k')" by auto
  with s1 show ?case by simp
qed

text \<open>Whatever else is posted in between, a key's messages come out in their own order.\<close>

lemma delivery_order:
  assumes "opened s" "box s k = []"
  shows "fst (fetch_n (length (filter (\<lambda>p. fst p = k) kms)) k (post_all kms s))
         = map (Popped \<circ> snd) (filter (\<lambda>p. fst p = k) kms)"
proof -
  let ?ms = "map snd (filter (\<lambda>p. fst p = k) kms)"
  have "opened (post_all kms s)" "box (post_all kms s) k = ?ms @ []"
    using assms by (simp_all add: opened_post_all box_post_all)
  from fetch_n_box [OF this] show ?thesis by auto
qed

end

section \<open>State and queue tables\<close>

(* src/src/fediux/util/network/link_context.h:134-153 LinkContext *)
record link_ctx =
  in_data_queue :: "string \<rightharpoonup> string tsq"
  out_data_queue :: "string \<rightharpoonup> string tsq"
  complete_queue :: "string \<rightharpoonup> retcode tsq"
  ctx_stop :: bool

definition new_link_ctx :: link_ctx where
  "new_link_ctx = \<lparr>in_data_queue = Map.empty, out_data_queue = Map.empty,
     complete_queue = Map.empty, ctx_stop = False\<rparr>"

text \<open>
  The lookups return a reference into the table; the model returns the table in which the entry
  exists, and the entry. Only the receive table shuts a new queue down when the context has been
  stopped.
\<close>

(* src/src/fediux/util/network/link_context.cc:30-43 LinkContext::GetRecvQueue *)
definition GetRecvQueue :: "string \<Rightarrow> link_ctx \<Rightarrow> string tsq \<times> link_ctx" where
  "GetRecvQueue key c = (case in_data_queue c key of
     Some q \<Rightarrow> (q, c)
   | None \<Rightarrow>
       (let q = (if ctx_stop c then tsq_shutdown new_tsq else new_tsq)
        in (q, c\<lparr>in_data_queue := (in_data_queue c)(key \<mapsto> q)\<rparr>)))"

(* src/src/fediux/util/network/link_context.cc:45-54 LinkContext::GetSendQueue *)
definition GetSendQueue :: "string \<Rightarrow> link_ctx \<Rightarrow> string tsq \<times> link_ctx" where
  "GetSendQueue key c = (case out_data_queue c key of
     Some q \<Rightarrow> (q, c)
   | None \<Rightarrow> (new_tsq, c\<lparr>out_data_queue := (out_data_queue c)(key \<mapsto> new_tsq)\<rparr>))"

(* src/src/fediux/util/network/link_context.cc:56-65 LinkContext::GetCompleteQueue *)
definition GetCompleteQueue :: "string \<Rightarrow> link_ctx \<Rightarrow> retcode tsq \<times> link_ctx" where
  "GetCompleteQueue key c = (case complete_queue c key of
     Some q \<Rightarrow> (q, c)
   | None \<Rightarrow> (new_tsq, c\<lparr>complete_queue := (complete_queue c)(key \<mapsto> new_tsq)\<rparr>))"

(* src/src/fediux/util/network/link_context.cc:5-28 LinkContext::Clean *)
definition link_clean :: "link_ctx \<Rightarrow> link_ctx" where
  "link_clean c = c\<lparr>ctx_stop := True,
     in_data_queue := (\<lambda>k. map_option tsq_shutdown (in_data_queue c k)),
     out_data_queue := (\<lambda>k. map_option tsq_shutdown (out_data_queue c k)),
     complete_queue := (\<lambda>k. map_option tsq_shutdown (complete_queue c k))\<rparr>"

section \<open>Queue operations through the context\<close>

(* src/src/fediux/util/network/link_context.cc:30-43 LinkContext::GetRecvQueue *)
definition push_recv :: "string \<Rightarrow> string \<Rightarrow> link_ctx \<Rightarrow> link_ctx" where
  "push_recv key m c = (let (q, c1) = GetRecvQueue key c
     in c1\<lparr>in_data_queue := (in_data_queue c1)(key \<mapsto> tsq_push m q)\<rparr>)"

(* src/src/fediux/util/network/link_context.cc:88-94 LinkContext::Recv *)
definition pop_recv :: "string \<Rightarrow> link_ctx \<Rightarrow> string pop_result \<times> link_ctx" where
  "pop_recv key c = (let (q, c1) = GetRecvQueue key c; (r, q') = tsq_wait_and_pop q
     in (r, c1\<lparr>in_data_queue := (in_data_queue c1)(key \<mapsto> q')\<rparr>))"

definition push_send :: "string \<Rightarrow> string \<Rightarrow> link_ctx \<Rightarrow> link_ctx" where
  "push_send key m c = (let (q, c1) = GetSendQueue key c
     in c1\<lparr>out_data_queue := (out_data_queue c1)(key \<mapsto> tsq_push m q)\<rparr>)"

definition pop_send :: "string \<Rightarrow> link_ctx \<Rightarrow> string pop_result \<times> link_ctx" where
  "pop_send key c = (let (q, c1) = GetSendQueue key c; (r, q') = tsq_wait_and_pop q
     in (r, c1\<lparr>out_data_queue := (out_data_queue c1)(key \<mapsto> q')\<rparr>))"

definition push_complete :: "string \<Rightarrow> retcode \<Rightarrow> link_ctx \<Rightarrow> link_ctx" where
  "push_complete key m c = (let (q, c1) = GetCompleteQueue key c
     in c1\<lparr>complete_queue := (complete_queue c1)(key \<mapsto> tsq_push m q)\<rparr>)"

definition pop_complete :: "string \<Rightarrow> link_ctx \<Rightarrow> retcode pop_result \<times> link_ctx" where
  "pop_complete key c = (let (q, c1) = GetCompleteQueue key c; (r, q') = tsq_wait_and_pop q
     in (r, c1\<lparr>complete_queue := (complete_queue c1)(key \<mapsto> q')\<rparr>))"

text \<open>
  The value that \<open>wait_and_pop(buf)\<close> leaves in a fresh string: a stopped queue writes nothing.
\<close>

definition popped_string :: "string pop_result \<Rightarrow> string option" where
  "popped_string r = (case r of Blocked \<Rightarrow> None | Stopped \<Rightarrow> Some [] | Popped m \<Rightarrow> Some m)"

(* src/src/fediux/util/network/link_context.cc:88-94 LinkContext::Recv *)
definition link_Recv :: "string \<Rightarrow> link_ctx \<Rightarrow> (retcode \<times> string) option \<times> link_ctx" where
  "link_Recv key c = (let (r, c') = pop_recv key c
     in (map_option (\<lambda>m. (SUCCESS, m)) (popped_string r), c'))"

(* src/src/fediux/util/network/link_context.cc:96-108 LinkContext::Recv *)
definition link_Recv_sized ::
  "string \<Rightarrow> nat \<Rightarrow> link_ctx \<Rightarrow> (retcode \<times> string) option \<times> link_ctx" where
  "link_Recv_sized key recv_size c = (let (r, c') = pop_recv key c
     in (map_option (\<lambda>m. if recv_size \<noteq> length m then (FAIL, []) else (SUCCESS, m))
           (popped_string r), c'))"

text \<open>
  The channel to another node is a parameter: \<open>send\<close> of a key and a buffer, \<open>forwardRecv\<close> of a
  key, \<open>sendRecv\<close> of a key and a buffer, each a virtual method of \<^verbatim>\<open>IChannel\<close>.
\<close>

(* src/src/fediux/util/network/link_context.h:155-197 IChannel *)
record ichannel =
  ch_send :: "string \<Rightarrow> string \<Rightarrow> retcode"
  ch_forwardRecv :: "string \<Rightarrow> string"
  ch_sendRecv :: "string \<Rightarrow> string \<Rightarrow> retcode \<times> string"
  ch_check_complete :: "string \<Rightarrow> nat \<Rightarrow> retcode"

(* src/src/fediux/util/network/link_context.cc:67-86 LinkContext::Send *)
definition link_Send :: "ichannel \<Rightarrow> string \<Rightarrow> string \<Rightarrow> retcode" where
  "link_Send ch key buf = ch_send ch key buf"

(* src/src/fediux/util/network/link_context.cc:110-119 LinkContext::Recv *)
definition link_Recv_from :: "ichannel \<Rightarrow> string \<Rightarrow> retcode \<times> string" where
  "link_Recv_from ch key = (let buf = ch_forwardRecv ch key in
     if buf = [] then (FAIL, buf) else (SUCCESS, buf))"

(* src/src/fediux/util/network/link_context.cc:121-137 LinkContext::Recv *)
definition link_Recv_from_sized :: "ichannel \<Rightarrow> string \<Rightarrow> nat \<Rightarrow> retcode \<times> string" where
  "link_Recv_from_sized ch key recv_size =
     (case link_Recv_from ch key of
        (FAIL, _) \<Rightarrow> (FAIL, [])
      | (SUCCESS, buf) \<Rightarrow> if length buf \<noteq> recv_size then (FAIL, []) else (SUCCESS, buf))"

(* src/src/fediux/util/network/link_context.cc:139-168 LinkContext::SendRecv *)
definition link_SendRecv_to :: "ichannel \<Rightarrow> string \<Rightarrow> string \<Rightarrow> retcode \<times> string" where
  "link_SendRecv_to ch key buf =
     (case ch_sendRecv ch key buf of
        (FAIL, out) \<Rightarrow> (FAIL, out)
      | (SUCCESS, out) \<Rightarrow> (SUCCESS, out))"

text \<open>
  The receiving side of a send-receive waits twice, so it is two definitions: up to the wait for
  the completion flag, and the rest. \<open>HasStopped\<close> is tested between them.
\<close>

(* src/src/fediux/util/network/link_context.cc:170-187 LinkContext::SendRecv *)
datatype sr_phase = SrWaitRecv | SrFail string | SrSent string

(* src/src/fediux/util/network/link_context.cc:170-182 LinkContext::SendRecv *)
definition link_SendRecv_begin :: "string \<Rightarrow> string \<Rightarrow> link_ctx \<Rightarrow> sr_phase \<times> link_ctx" where
  "link_SendRecv_begin key buf c = (let (r, c1) = pop_recv key c in
     case popped_string r of
       None \<Rightarrow> (SrWaitRecv, c1)
     | Some m \<Rightarrow>
         if ctx_stop c1 then (SrFail m, c1)
         else (SrSent m, push_send key buf c1))"

(* src/src/fediux/util/network/link_context.cc:183-187 LinkContext::SendRecv *)
definition link_SendRecv_end :: "string \<Rightarrow> link_ctx \<Rightarrow> retcode option \<times> link_ctx" where
  "link_SendRecv_end key c = (let (r, c1) = pop_complete key c
     in (case r of Blocked \<Rightarrow> None | _ \<Rightarrow> Some SUCCESS, c1))"

(* src/src/fediux/util/network/link_context.cc:189-200 LinkContext::CheckSendCompleteStatus *)
definition link_CheckSendCompleteStatus :: "ichannel \<Rightarrow> string \<Rightarrow> nat \<Rightarrow> retcode" where
  "link_CheckSendCompleteStatus ch key n =
     (case ch_check_complete ch key n of FAIL \<Rightarrow> FAIL | SUCCESS \<Rightarrow> SUCCESS)"

section \<open>The receive table is a mailbox\<close>

definition recv_items :: "link_ctx \<Rightarrow> string \<Rightarrow> string list" where
  "recv_items c k = (case in_data_queue c k of None \<Rightarrow> [] | Some q \<Rightarrow> m_queue q)"

text \<open>Every receive queue is stopped exactly when the context is.\<close>

definition link_wf :: "link_ctx \<Rightarrow> bool" where
  "link_wf c \<longleftrightarrow> (\<forall>k q. in_data_queue c k = Some q \<longrightarrow> stop_flag q = ctx_stop c)"

definition link_open :: "link_ctx \<Rightarrow> bool" where
  "link_open c \<longleftrightarrow> link_wf c \<and> \<not> ctx_stop c"

lemma link_wf_new: "link_wf new_link_ctx"
  by (simp add: link_wf_def new_link_ctx_def)

lemma ctx_stop_ops [simp, link_simps]:
  "ctx_stop (push_recv k m c) = ctx_stop c" "ctx_stop (snd (pop_recv k c)) = ctx_stop c"
  "ctx_stop (push_send k m c) = ctx_stop c" "ctx_stop (snd (pop_send k c)) = ctx_stop c"
  "ctx_stop (push_complete k r c) = ctx_stop c" "ctx_stop (snd (pop_complete k c)) = ctx_stop c"
  by (simp_all add: push_recv_def pop_recv_def push_send_def pop_send_def push_complete_def
      pop_complete_def GetRecvQueue_def GetSendQueue_def GetCompleteQueue_def Let_def
      split: option.splits prod.splits)

lemma stop_flag_wait_and_pop: "tsq_wait_and_pop q = (r, q') \<Longrightarrow> stop_flag q' = stop_flag q"
  by (auto simp: tsq_wait_and_pop_def split: if_splits)

lemma link_wf_push_recv: "link_wf c \<Longrightarrow> link_wf (push_recv k m c)"
  by (auto simp: link_wf_def push_recv_def GetRecvQueue_def Let_def split: option.splits)

lemma push_recv_keeps_flags:
  "in_data_queue c k' = Some q \<Longrightarrow>
   \<exists>q'. in_data_queue (push_recv k m c) k' = Some q' \<and> stop_flag q' = stop_flag q"
  by (auto simp: push_recv_def GetRecvQueue_def Let_def split: option.splits)

lemma link_wf_push_recv_iff: "link_wf (push_recv k m c) \<longleftrightarrow> link_wf c"
proof
  assume wf: "link_wf (push_recv k m c)"
  show "link_wf c"
    unfolding link_wf_def
  proof (intro allI impI)
    fix k' q
    assume "in_data_queue c k' = Some q"
    from push_recv_keeps_flags [OF this] wf show "stop_flag q = ctx_stop c"
      by (fastforce simp: link_wf_def)
  qed
qed (rule link_wf_push_recv)

lemma link_wf_pop_recv: "link_wf c \<Longrightarrow> link_wf (snd (pop_recv k c))"
  by (auto simp: link_wf_def pop_recv_def GetRecvQueue_def Let_def
      dest: stop_flag_wait_and_pop split: option.splits prod.splits)

lemma in_data_queue_others [simp]:
  "in_data_queue (push_send k m c) = in_data_queue c"
  "in_data_queue (snd (pop_send k c)) = in_data_queue c"
  "in_data_queue (push_complete k r c) = in_data_queue c"
  "in_data_queue (snd (pop_complete k c)) = in_data_queue c"
  by (simp_all add: push_send_def pop_send_def push_complete_def pop_complete_def
      GetSendQueue_def GetCompleteQueue_def Let_def split: option.splits prod.splits)

lemma link_wf_clean: "link_wf (link_clean c)"
  by (auto simp: link_wf_def link_clean_def)

lemmas link_wf_ops = link_wf_push_recv link_wf_pop_recv link_wf_clean

lemma recv_items_push:
  "recv_items (push_recv k m c) k' = (if k' = k then recv_items c k @ [m] else recv_items c k')"
  by (auto simp: recv_items_def push_recv_def GetRecvQueue_def Let_def split: option.splits)

lemma pop_recv_Cons:
  assumes "link_open c" "recv_items c k = m # ms"
  shows "\<exists>c'. pop_recv k c = (Popped m, c') \<and> link_open c' \<and>
           (\<forall>k'. recv_items c' k' = (if k' = k then ms else recv_items c k'))"
proof -
  obtain q where q: "in_data_queue c k = Some q" "m_queue q = m # ms" "\<not> stop_flag q"
    using assms by (auto simp: recv_items_def link_open_def link_wf_def split: option.splits)
  let ?c' = "c\<lparr>in_data_queue := (in_data_queue c)(k \<mapsto> q\<lparr>m_queue := ms\<rparr>)\<rparr>"
  have p: "pop_recv k c = (Popped m, ?c')"
    using q by (simp add: pop_recv_def GetRecvQueue_def wait_and_pop_Cons)
  moreover have "link_open ?c'"
    using link_wf_pop_recv [of c k] assms(1) p by (simp add: link_open_def)
  moreover have "\<forall>k'. recv_items ?c' k' = (if k' = k then ms else recv_items c k')"
    by (simp add: recv_items_def)
  ultimately show ?thesis by blast
qed

lemma pop_recv_Nil:
  assumes "link_open c" "recv_items c k = []"
  shows "\<exists>c'. pop_recv k c = (Blocked, c') \<and> link_open c' \<and>
           (\<forall>k'. recv_items c' k' = recv_items c k')"
proof -
  let ?q = "fst (GetRecvQueue k c)"
  have q: "m_queue ?q = []" "\<not> stop_flag ?q"
    using assms by (auto simp: recv_items_def link_open_def link_wf_def GetRecvQueue_def Let_def
        split: option.splits)
  let ?c' = "snd (pop_recv k c)"
  obtain q0 c0 where "GetRecvQueue k c = (q0, c0)" by fastforce
  with q have "fst (pop_recv k c) = Blocked"
    by (simp add: pop_recv_def wait_and_pop_Nil)
  moreover have "link_open ?c'"
    using link_wf_pop_recv [of c k] assms(1) by (simp add: link_open_def)
  moreover have "\<forall>k'. recv_items ?c' k' = recv_items c k'"
    using assms q by (auto simp: recv_items_def pop_recv_def GetRecvQueue_def Let_def
        wait_and_pop_Nil split: option.splits)
  ultimately show ?thesis by (metis prod.collapse)
qed

interpretation link: mailbox push_recv pop_recv recv_items link_open
proof unfold_locales
  fix k m c k'
  show "recv_items (push_recv k m c) k' =
      (if k' = k then recv_items c k @ [m] else recv_items c k')" by (rule recv_items_push)
  show "link_open (push_recv k m c) = link_open c"
    by (simp add: link_open_def link_wf_push_recv_iff)
next
  fix c k m ms
  assume "link_open c" "recv_items c k = m # ms"
  then show "\<exists>c'. pop_recv k c = (Popped m, c') \<and> link_open c' \<and>
      (\<forall>k'. recv_items c' k' = (if k' = k then ms else recv_items c k'))" by (rule pop_recv_Cons)
next
  fix c k
  assume "link_open c" "recv_items c k = []"
  then show "\<exists>c'. pop_recv k c = (Blocked, c') \<and> link_open c' \<and>
      (\<forall>k'. recv_items c' k' = recv_items c k')" by (rule pop_recv_Nil)
qed

section \<open>Delivery\<close>

text \<open>A task that calls \<open>Recv\<close> on a key a number of times.\<close>

primrec link_Recv_n :: "nat \<Rightarrow> string \<Rightarrow> link_ctx \<Rightarrow> (retcode \<times> string) option list \<times> link_ctx" where
  "link_Recv_n 0 key c = ([], c)"
| "link_Recv_n (Suc n) key c =
     (let (r, c1) = link_Recv key c; (rs, c2) = link_Recv_n n key c1 in (r # rs, c2))"

lemma link_Recv_n_fetch:
  "link_Recv_n n key c =
     (map (\<lambda>r. map_option (\<lambda>m. (SUCCESS, m)) (popped_string r)) (fst (link.fetch_n n key c)),
      snd (link.fetch_n n key c))"
  by (induction n arbitrary: c) (simp_all add: link_Recv_def Let_def split: prod.splits)

text \<open>
  C18: messages arrive under the key they were sent with, none lost, none duplicated and in the
  order in which they were put there, whatever was put under other keys in between.
\<close>

theorem link_keyed_delivery:
  assumes "link_open c" "recv_items c key = []"
  shows "fst (link_Recv_n (length (filter (\<lambda>p. fst p = key) kms)) key
                (fold (\<lambda>(k, m). push_recv k m) kms c))
         = map (\<lambda>p. Some (SUCCESS, snd p)) (filter (\<lambda>p. fst p = key) kms)"
  using link.delivery_order [OF assms, of kms]
  by (simp add: link_Recv_n_fetch link.post_all_def popped_string_def o_def)

theorem link_keyed_delivery_witness:
  "fst (link_Recv_n 2 ''b'' (fold (\<lambda>(k, m). push_recv k m)
        [(''b'', ''x''), (''a'', ''y''), (''b'', ''z'')] new_link_ctx))
   = [Some (SUCCESS, ''x''), Some (SUCCESS, ''z'')]"
proof -
  have "link_open new_link_ctx" "recv_items new_link_ctx ''b'' = []"
    by (simp_all add: link_open_def link_wf_new) (simp_all add: new_link_ctx_def recv_items_def)
  from link_keyed_delivery [OF this, of "[(''b'', ''x''), (''a'', ''y''), (''b'', ''z'')]"]
  show ?thesis by (simp add: numeral_2_eq_2)
qed

section \<open>Cancellation\<close>

lemma pop_recv_clean: "fst (pop_recv key (link_clean c)) = Stopped"
  by (auto simp: pop_recv_def GetRecvQueue_def link_clean_def wait_and_pop_stopped Let_def
      split: option.splits)

text \<open>
  Once a context has been cleaned, no receive blocks, on a key known before or not: it
  returns at once, but it reports success with an empty message.
\<close>

theorem clean_releases_receivers:
  "fst (link_Recv key (link_clean c)) = Some (SUCCESS, [])
   \<and> fst (link_SendRecv_begin key buf (link_clean c)) = SrFail []"
proof -
  obtain r c1 where p: "pop_recv key (link_clean c) = (r, c1)" by fastforce
  then have r: "r = Stopped" and c1: "c1 = snd (pop_recv key (link_clean c))"
    using pop_recv_clean [of key c] by simp_all
  have "ctx_stop c1" unfolding c1 ctx_stop_ops by (simp add: link_clean_def)
  with p r show ?thesis
    by (simp add: link_Recv_def link_SendRecv_begin_def popped_string_def)
qed

text \<open>
  The send and completion queues do not have this property: a queue first used after the
  context was cleaned is not stopped, and a reader of it blocks.
\<close>

theorem clean_leaves_new_queues_blocking:
  assumes "out_data_queue c key = None" "complete_queue c key = None"
  shows "fst (pop_send key (link_clean c)) = Blocked
         \<and> fst (link_SendRecv_end key (link_clean c)) = None"
  using assms
  by (simp_all add: pop_send_def pop_complete_def link_SendRecv_end_def GetSendQueue_def
      GetCompleteQueue_def link_clean_def wait_and_pop_Nil)

theorem clean_leaves_new_queues_blocking_witness:
  "fst (pop_send ''k'' (link_clean new_link_ctx)) = Blocked
   \<and> fst (link_SendRecv_end ''k'' (link_clean new_link_ctx)) = None"
  using clean_leaves_new_queues_blocking [of new_link_ctx "''k''"]
  by (simp add: new_link_ctx_def)

end
