(* ===== verification/Channels.thy ===== *)
theory Channels
  imports Link_Context
begin

text \<open>
  The channels that the protocols are given: \<^verbatim>\<open>SimpleMemoryChannel\<close> (a keyed table of queues
  shared by the channels of one process, mem_channel.cc), \<^verbatim>\<open>MPCTaskChannel\<close> (mpc_channel.cc) and
  \<^verbatim>\<open>TaskMessagePassInterface\<close> (message_interface.cc), which adapts a channel to the buffers of
  the socket interface of the PSI library. The lemmas say that two ends of a channel agree on
  their keys, that a memory channel is a \<open>mailbox\<close>, and that a sequence of buffers sent is the
  sequence received.
\<close>

section \<open>Keys\<close>

(* src/src/fediux/util/network/mem_channel.h:32-37 SimpleMemoryChannel *)
definition channel_key :: "string \<Rightarrow> string \<Rightarrow> string \<Rightarrow> string" where
  "channel_key req from to = req @ ''_'' @ from @ ''_'' @ to"

(* src/src/fediux/util/network/mem_channel.h:66-75 SimpleMemoryChannel *)
record mem_channel =
  request_id :: string
  local_node_id :: string
  peer_node_id :: string
  send_key :: string
  recv_key :: string

(* src/src/fediux/util/network/mem_channel.h:19-54 SimpleMemoryChannel::SimpleMemoryChannel *)
definition new_mem_channel ::
  "string \<Rightarrow> string \<Rightarrow> string \<Rightarrow> (string \<rightharpoonup> string tsq) option \<Rightarrow>
   (mem_channel \<times> (string \<rightharpoonup> string tsq)) cpp" where
  "new_mem_channel req loc peer storage =
     (let ch = \<lparr>request_id = req, local_node_id = loc, peer_node_id = peer,
                send_key = channel_key req loc peer, recv_key = channel_key req peer loc\<rparr>
      in case storage of
        None \<Rightarrow> Throw ''storage is invalid''
      | Some st \<Rightarrow> Ret (ch, map_insert (recv_key ch) new_tsq (map_insert (send_key ch) new_tsq st)))"

section \<open>Memory channel operations\<close>

text \<open>\<open>(*storage_)[key]\<close> creates an empty queue for a missing key.\<close>

definition storage_at :: "(string \<rightharpoonup> string tsq) \<Rightarrow> string \<Rightarrow> string tsq" where
  "storage_at st k = (case st k of None \<Rightarrow> new_tsq | Some q \<Rightarrow> q)"

(* src/src/fediux/util/network/mem_channel.cc:20-22 SimpleMemoryChannel::SendImpl *)
definition mem_post :: "string \<Rightarrow> string \<Rightarrow> (string \<rightharpoonup> string tsq) \<Rightarrow> (string \<rightharpoonup> string tsq)" where
  "mem_post key m st = st(key \<mapsto> tsq_push m (storage_at st key))"

(* src/src/fediux/util/network/mem_channel.cc:20-36 SimpleMemoryChannel::SendImpl *)
definition mem_SendImpl ::
  "mem_channel \<Rightarrow> string \<Rightarrow> (string \<rightharpoonup> string tsq) \<Rightarrow> retcode \<times> (string \<rightharpoonup> string tsq)" where
  "mem_SendImpl ch buf st = (SUCCESS, mem_post (send_key ch) buf st)"

(* src/src/fediux/util/network/mem_channel.cc:38-54 SimpleMemoryChannel::RecvImpl *)
definition mem_fetch ::
  "string \<Rightarrow> (string \<rightharpoonup> string tsq) \<Rightarrow> string pop_result \<times> (string \<rightharpoonup> string tsq)" where
  "mem_fetch key st = (let (r, q) = tsq_wait_and_pop (storage_at st key) in (r, st(key \<mapsto> q)))"

(* src/src/fediux/util/network/mem_channel.cc:38-54 SimpleMemoryChannel::RecvImpl *)
definition mem_RecvImpl ::
  "mem_channel \<Rightarrow> (string \<rightharpoonup> string tsq) \<Rightarrow>
   (retcode \<times> string) option \<times> (string \<rightharpoonup> string tsq)" where
  "mem_RecvImpl ch st = (let (r, st') = mem_fetch (recv_key ch) st
     in (map_option (\<lambda>m. (SUCCESS, m)) (popped_string r), st'))"

(* src/src/fediux/util/network/mem_channel.cc:56-79 SimpleMemoryChannel::RecvImpl *)
definition mem_RecvImpl_sized ::
  "mem_channel \<Rightarrow> nat \<Rightarrow> (string \<rightharpoonup> string tsq) \<Rightarrow>
   (retcode \<times> string) option \<times> (string \<rightharpoonup> string tsq)" where
  "mem_RecvImpl_sized ch recv_size st = (let (r, st') = mem_fetch (recv_key ch) st
     in (map_option (\<lambda>m. if length m \<noteq> recv_size then (FAIL, []) else (SUCCESS, m))
           (popped_string r), st'))"

definition mem_items :: "(string \<rightharpoonup> string tsq) \<Rightarrow> string \<Rightarrow> string list" where
  "mem_items st k = m_queue (storage_at st k)"

text \<open>No code shuts a queue of the shared table down.\<close>

definition mem_open :: "(string \<rightharpoonup> string tsq) \<Rightarrow> bool" where
  "mem_open st \<longleftrightarrow> (\<forall>k. \<not> stop_flag (storage_at st k))"

lemma storage_at_upd [simp]: "storage_at (st(k \<mapsto> q)) k' = (if k' = k then q else storage_at st k')"
  by (simp add: storage_at_def)

lemma storage_at_insert [simp]: "storage_at (map_insert k new_tsq st) k' = storage_at st k'"
  by (auto simp: storage_at_def map_insert_apply split: option.splits)

interpretation mem: mailbox mem_post mem_fetch mem_items mem_open
proof unfold_locales
  fix k m st k'
  show "mem_items (mem_post k m st) k' = (if k' = k then mem_items st k @ [m] else mem_items st k')"
    by (simp add: mem_items_def mem_post_def)
  show "mem_open (mem_post k m st) = mem_open st"
    by (auto simp: mem_open_def mem_post_def)
next
  fix st :: "string \<rightharpoonup> string tsq" and k m ms
  assume "mem_open st" "mem_items st k = m # ms"
  then show "\<exists>st'. mem_fetch k st = (Popped m, st') \<and> mem_open st' \<and>
      (\<forall>k'. mem_items st' k' = (if k' = k then ms else mem_items st k'))"
    by (simp add: mem_fetch_def mem_items_def mem_open_def wait_and_pop_Cons)
next
  fix st :: "string \<rightharpoonup> string tsq" and k
  assume "mem_open st" "mem_items st k = []"
  then show "\<exists>st'. mem_fetch k st = (Blocked, st') \<and> mem_open st' \<and>
      (\<forall>k'. mem_items st' k' = mem_items st k')"
    by (simp add: mem_fetch_def mem_items_def mem_open_def wait_and_pop_Nil)
qed

text \<open>
  Keys are text: a channel's key determines its two ends only when the node names have no
  underscore of their own.
\<close>

lemma append_sep_unique:
  "xs @ d # ys = xs' @ d # ys' \<Longrightarrow> d \<notin> set ys \<Longrightarrow> d \<notin> set ys' \<Longrightarrow> xs = xs' \<and> ys = ys'"
proof (induction xs arbitrary: xs')
  case Nil
  then show ?case by (cases xs') auto
next
  case (Cons x xs)
  then show ?case by (cases xs') auto
qed

lemma channel_key_inj:
  assumes "channel_key p a b = channel_key p' a' b'"
    "CHR ''_'' \<notin> set a" "CHR ''_'' \<notin> set b" "CHR ''_'' \<notin> set a'" "CHR ''_'' \<notin> set b'"
  shows "p = p' \<and> a = a' \<and> b = b'"
proof -
  have "(p @ CHR ''_'' # a) @ CHR ''_'' # b = (p' @ CHR ''_'' # a') @ CHR ''_'' # b'"
    using assms(1) by (simp add: channel_key_def)
  from append_sep_unique [OF this] assms(3,5)
  have 1: "p @ CHR ''_'' # a = p' @ CHR ''_'' # a'" "b = b'" by auto
  from append_sep_unique [OF 1(1)] assms(2,4) 1(2) show ?thesis by auto
qed

section \<open>Message passing interface\<close>

(* src/src/fediux/util/network/message_interface.h:137-154 TaskMessagePassInterface *)
record msg_iface =
  send_count :: int
  recv_count :: int
  recv_wait_queue :: "nat list"

(* src/src/fediux/util/network/message_interface.cc:111-140 TaskMessagePassInterface::_channelRecv *)
datatype errcode = NoError | OperationCanceled | BrokenPipe | Interrupted | MessageSize

text \<open>
  The channel is a parameter with a state of its own. \<open>cancelled i\<close> is the value of \<open>cancel_\<close> at
  its \<open>i\<close>-th test, since another thread may set it at any time. The loop returns the bytes
  handled, the error flag, the number of tests so far and the channel's state.
\<close>

(* src/src/fediux/util/network/message_interface.cc:25-62 TaskMessagePassInterface::_channelSend *)
fun channel_send_loop ::
  "(string \<Rightarrow> 'n \<Rightarrow> retcode \<times> 'n) \<Rightarrow> (nat \<Rightarrow> bool) \<Rightarrow> nat \<Rightarrow> string list \<Rightarrow> nat \<Rightarrow> 'n \<Rightarrow>
   nat \<times> bool \<times> nat \<times> 'n" where
  "channel_send_loop send cancelled i [] bytes n = (bytes, False, i, n)"
| "channel_send_loop send cancelled i (b # bs) bytes n =
     (if cancelled i then (bytes, False, Suc i, n)
      else case send b n of
        (FAIL, n') \<Rightarrow> (bytes, True, Suc i, n')
      | (SUCCESS, n') \<Rightarrow>
          channel_send_loop send cancelled (Suc i) bs (bytes + length b) n')"

(* src/src/fediux/util/network/message_interface.cc:11-82 TaskMessagePassInterface::_channelSend *)
definition channelSend ::
  "(string \<Rightarrow> 'n \<Rightarrow> retcode \<times> 'n) \<Rightarrow> (nat \<Rightarrow> bool) \<Rightarrow> string list \<Rightarrow> msg_iface \<Rightarrow> 'n \<Rightarrow>
   errcode \<times> nat \<times> msg_iface \<times> 'n" where
  "channelSend send cancelled buffers f n =
     (let f1 = f\<lparr>send_count := send_count f + 1\<rparr>;
          (bytes, errors, i, n') = channel_send_loop send cancelled 0 buffers 0 n
      in if cancelled i then (OperationCanceled, bytes, f1, n')
         else if errors then (BrokenPipe, bytes, f1, n')
         else (NoError, bytes, f1\<lparr>send_count := send_count f1 - 1\<rparr>, n'))"

text \<open>
  Receiving fills buffers of given sizes. A channel that has nothing (it was shut down, or the
  message was empty) gives the empty string.
\<close>

(* src/src/fediux/util/network/message_interface.cc:101-159 TaskMessagePassInterface::_channelRecv *)
fun channel_recv_loop ::
  "('n \<Rightarrow> string \<times> 'n) \<Rightarrow> (nat \<Rightarrow> bool) \<Rightarrow> nat \<Rightarrow> nat list \<Rightarrow> string list \<Rightarrow> nat \<Rightarrow> 'n \<Rightarrow>
   errcode \<times> string list \<times> nat \<times> 'n" where
  "channel_recv_loop recv cancelled i [] got bytes n = (NoError, got, bytes, n)"
| "channel_recv_loop recv cancelled i (sz # sizes) got bytes n =
     (if cancelled i then (OperationCanceled, got, bytes, n)
      else let (s, n') = recv n in
        if s = [] then (Interrupted, got, bytes, n')
        else if length s \<noteq> sz then (MessageSize, got, bytes, n')
        else channel_recv_loop recv cancelled (Suc i) sizes (got @ [s]) (bytes + sz) n')"

text \<open>
  A receiver first queues up behind the waiting ones. \<open>None\<close> says that it waits; its lock is
  then in the queue.
\<close>

(* src/src/fediux/util/network/message_interface.cc:88-99 TaskMessagePassInterface::_channelRecv *)
definition channelRecv_enter :: "nat \<Rightarrow> msg_iface \<Rightarrow> bool \<times> msg_iface" where
  "channelRecv_enter t f =
     (if recv_wait_queue f \<noteq> [] then (False, f\<lparr>recv_wait_queue := recv_wait_queue f @ [t]\<rparr>)
      else (True, f\<lparr>recv_count := recv_count f + 1\<rparr>))"

(* src/src/fediux/util/network/message_interface.cc:163-172 TaskMessagePassInterface::_channelRecv *)
definition channelRecv_leave :: "msg_iface \<Rightarrow> msg_iface" where
  "channelRecv_leave f = f\<lparr>recv_count := recv_count f - 1,
     recv_wait_queue := (case recv_wait_queue f of [] \<Rightarrow> [] | _ # ts \<Rightarrow> ts)\<rparr>"

(* src/src/fediux/util/network/message_interface.cc:101-161 TaskMessagePassInterface::_channelRecv *)
definition channelRecv_body ::
  "('n \<Rightarrow> string \<times> 'n) \<Rightarrow> (nat \<Rightarrow> bool) \<Rightarrow> nat list \<Rightarrow> 'n \<Rightarrow>
   errcode \<times> string list \<times> nat \<times> 'n" where
  "channelRecv_body recv cancelled sizes n = channel_recv_loop recv cancelled 0 sizes [] 0 n"

datatype recv_event = RecvEnter nat | RecvLeave

fun recv_trace :: "recv_event list \<Rightarrow> msg_iface \<Rightarrow> bool list \<times> msg_iface" where
  "recv_trace [] f = ([], f)"
| "recv_trace (RecvEnter t # es) f =
     (let (go, f1) = channelRecv_enter t f; (gs, f2) = recv_trace es f1 in (go # gs, f2))"
| "recv_trace (RecvLeave # es) f = recv_trace es (channelRecv_leave f)"

section \<open>MPC task channel\<close>

(* src/src/fediux/util/network/mpc_channel.h:125-136 MPCTaskChannel *)
record mpc_channel =
  mc_send_key :: string
  mc_recv_key :: string

text \<open>
  The first constructor never sets the sub task id, so its keys carry the empty one; the others
  take it from the link context.
\<close>

(* src/src/fediux/util/network/mpc_channel.h:21-52 MPCTaskChannel::MPCTaskChannel *)
definition new_mpc_channel_ids :: "string \<Rightarrow> string \<Rightarrow> string \<Rightarrow> mpc_channel" where
  "new_mpc_channel_ids req loc peer =
     \<lparr>mc_send_key = channel_key (req @ ''_'' @ []) loc peer,
      mc_recv_key = channel_key (req @ ''_'' @ []) peer loc\<rparr>"

(* src/src/fediux/util/network/mpc_channel.h:54-113 MPCTaskChannel::MPCTaskChannel *)
definition new_mpc_channel :: "string \<Rightarrow> string \<Rightarrow> string \<Rightarrow> string \<Rightarrow> mpc_channel" where
  "new_mpc_channel req sub loc peer =
     \<lparr>mc_send_key = channel_key (req @ ''_'' @ sub) loc peer,
      mc_recv_key = channel_key (req @ ''_'' @ sub) peer loc\<rparr>"

(* src/src/fediux/util/network/mpc_channel.cc:11-42 MPCTaskChannel::SendImpl *)
definition mpc_SendImpl :: "ichannel \<Rightarrow> mpc_channel \<Rightarrow> string \<Rightarrow> retcode" where
  "mpc_SendImpl send_channel ch buf =
     (if ch_send send_channel (mc_send_key ch) buf \<noteq> SUCCESS then FAIL else SUCCESS)"

(* src/src/fediux/util/network/mpc_channel.cc:44-57 MPCTaskChannel::RecvImpl *)
definition mpc_RecvImpl :: "ichannel \<Rightarrow> mpc_channel \<Rightarrow> retcode \<times> string" where
  "mpc_RecvImpl recv_channel ch = (SUCCESS, ch_forwardRecv recv_channel (mc_recv_key ch))"

(* src/src/fediux/util/network/mpc_channel.cc:59-80 MPCTaskChannel::RecvImpl *)
definition mpc_RecvImpl_sized :: "ichannel \<Rightarrow> mpc_channel \<Rightarrow> nat \<Rightarrow> retcode \<times> string option" where
  "mpc_RecvImpl_sized recv_channel ch recv_size =
     (let tmp = ch_forwardRecv recv_channel (mc_recv_key ch)
      in if length tmp \<noteq> recv_size then (FAIL, None) else (SUCCESS, Some tmp))"

lemma mpc_channel_keys:
  "mc_send_key (new_mpc_channel req sub a b) = mc_recv_key (new_mpc_channel req sub b a)"
  by (simp add: new_mpc_channel_def)

section \<open>Delivery over a memory channel\<close>

primrec mem_Recv_n :: "nat \<Rightarrow> mem_channel \<Rightarrow> (string \<rightharpoonup> string tsq) \<Rightarrow>
    (retcode \<times> string) option list \<times> (string \<rightharpoonup> string tsq)" where
  "mem_Recv_n 0 ch st = ([], st)"
| "mem_Recv_n (Suc n) ch st =
     (let (r, st1) = mem_RecvImpl ch st; (rs, st2) = mem_Recv_n n ch st1 in (r # rs, st2))"

definition mem_Send_all ::
  "mem_channel \<Rightarrow> string list \<Rightarrow> (string \<rightharpoonup> string tsq) \<Rightarrow> (string \<rightharpoonup> string tsq)" where
  "mem_Send_all ch ms st = fold (\<lambda>m s. snd (mem_SendImpl ch m s)) ms st"

lemma mem_fetch_n_add:
  "mem.fetch_n (n + m) k s =
     (fst (mem.fetch_n n k s) @ fst (mem.fetch_n m k (snd (mem.fetch_n n k s))),
      snd (mem.fetch_n m k (snd (mem.fetch_n n k s))))"
  by (induction n arbitrary: s) (simp_all add: Let_def split: prod.splits)

lemma mem_Recv_n_fetch:
  "mem_Recv_n n ch st =
     (map (\<lambda>r. map_option (\<lambda>m. (SUCCESS, m)) (popped_string r))
        (fst (mem.fetch_n n (recv_key ch) st)),
      snd (mem.fetch_n n (recv_key ch) st))"
  by (induction n arbitrary: st) (simp_all add: mem_RecvImpl_def Let_def split: prod.splits)

lemma mem_Send_all_post:
  "mem_Send_all ch ms st = mem.post_all (map (Pair (send_key ch)) ms) st"
  by (simp add: mem_Send_all_def mem.post_all_def fold_map o_def mem_SendImpl_def)

lemma new_mem_channel_Ret:
  "new_mem_channel req a b (Some st) = Ret (ch, st') \<Longrightarrow>
   send_key ch = channel_key req a b \<and> recv_key ch = channel_key req b a
   \<and> (\<forall>k. storage_at st' k = storage_at st k)"
  by (auto simp: new_mem_channel_def Let_def)

text \<open>
  Two memory channels made for the two ends of a connection over one shared table deliver: the
  messages the one sends, while the other sends its own and whatever is left in other queues, are
  the ones the other receives, in their order, and nothing is left over: a further receive waits.
\<close>

theorem mem_channel_delivers:
  assumes "new_mem_channel req a b (Some st) = Ret (chA, st1)"
    "new_mem_channel req b a (Some st1) = Ret (chB, st2)"
    "mem_open st" "mem_items st (channel_key req a b) = []"
    "channel_key req a b \<noteq> channel_key req b a"
  shows "fst (mem_Recv_n (Suc (length ms)) chB (mem_Send_all chA ms (mem_Send_all chB back st2)))
         = map (\<lambda>m. Some (SUCCESS, m)) ms @ [None]"
proof -
  let ?k = "channel_key req a b"
  let ?s = "mem_Send_all chA ms (mem_Send_all chB back st2)"
  note ch = new_mem_channel_Ret [OF assms(1)] new_mem_channel_Ret [OF assms(2)]
  have "mem_open st2" "mem_items st2 ?k = []"
    using assms(3,4) ch by (simp_all add: mem_open_def mem_items_def)
  then have o: "mem_open ?s" and i: "mem_items ?s ?k = ms @ []"
    using ch assms(5)
    by (simp_all add: mem_Send_all_post mem.opened_post_all mem.box_post_all filter_map o_def)
  obtain s' where s': "mem.fetch_n (length ms) ?k ?s = (map Popped ms, s')" "mem_open s'"
      "mem_items s' ?k = []"
    using mem.fetch_n_box [OF o i] by auto
  obtain s'' where "mem_fetch ?k s' = (Blocked, s'')"
    using mem.fetch_Nil [OF s'(2,3)] by blast
  with s' mem_fetch_n_add [of "length ms" 1 ?k ?s]
  have "fst (mem.fetch_n (Suc (length ms)) ?k ?s) = map Popped ms @ [Blocked]"
    by (simp del: mem.fetch_n.simps(2) add: mem.fetch_n.simps(2) [of 0])
  then show ?thesis
    using ch by (simp add: mem_Recv_n_fetch popped_string_def o_def del: mem.fetch_n.simps)
qed

theorem mem_channel_delivers_witness:
  "\<exists>st chA chB. fst (mem_Recv_n 3 chB (mem_Send_all chA [''x'', []] (mem_Send_all chB [''y''] st)))
     = [Some (SUCCESS, ''x''), Some (SUCCESS, []), None]"
proof -
  obtain chA st1 where A: "new_mem_channel ''r'' ''a'' ''b'' (Some Map.empty) = Ret (chA, st1)"
    by (simp add: new_mem_channel_def Let_def)
  obtain chB st2 where B: "new_mem_channel ''r'' ''b'' ''a'' (Some st1) = Ret (chB, st2)"
    by (simp add: new_mem_channel_def Let_def)
  have "mem_open Map.empty" "mem_items Map.empty (channel_key ''r'' ''a'' ''b'') = []"
    "channel_key ''r'' ''a'' ''b'' \<noteq> channel_key ''r'' ''b'' ''a''"
    by (simp_all add: mem_open_def mem_items_def storage_at_def new_tsq_def channel_key_def)
  from mem_channel_delivers [OF A B this, of "[''x'', []]" "[''y'']"]
  show ?thesis by (auto simp: eval_nat_numeral)
qed

text \<open>
  The keys of a channel are joined with underscores and nothing escapes them: when node names
  have none, a key tells its request and its two ends apart, and otherwise two connections of
  different nodes can share a queue.
\<close>

theorem channel_keys_separate:
  "(channel_key p a b = channel_key p' a' b' \<and> CHR ''_'' \<notin> set (a @ b @ a' @ b')
      \<longrightarrow> p = p' \<and> a = a' \<and> b = b')
   \<and> channel_key ''r'' ''a_b'' ''c'' = channel_key ''r'' ''a'' ''b_c''"
  using channel_key_inj [of p a b p' a' b'] by (auto simp: channel_key_def)

theorem channel_keys_separate_witness:
  "channel_key ''r'' ''a'' ''b'' \<noteq> channel_key ''r'' ''a'' ''c''
   \<and> channel_key ''r'' ''a_b'' ''c'' = channel_key ''r'' ''a'' ''b_c''"
  using channel_keys_separate [of "''r''" "''a''" "''b''" "''r''" "''a''" "''c''"]
    channel_keys_separate [of "''r''" "''a''" "''b''" "''r''" "''a''" "''b''"] by auto

section \<open>Delivery through the message interface\<close>

text \<open>
  The two ends of the interface over the receive queue of a link context: what is sent under a
  key is put there by the receiver's server, and receiving takes it out.
\<close>

definition put_recv :: "string \<Rightarrow> string \<Rightarrow> link_ctx \<Rightarrow> retcode \<times> link_ctx" where
  "put_recv key m c = (SUCCESS, push_recv key m c)"

definition take_recv :: "string \<Rightarrow> link_ctx \<Rightarrow> string \<times> link_ctx" where
  "take_recv key c = (case pop_recv key c of (r, c') \<Rightarrow>
     (case popped_string r of None \<Rightarrow> [] | Some m \<Rightarrow> m, c'))"

lemma send_loop_link:
  "channel_send_loop (put_recv key) (\<lambda>_. False) i bs k c =
     (k + sum_list (map length bs), False, i + length bs, fold (push_recv key) bs c)"
  by (induction bs arbitrary: i k c) (simp_all add: put_recv_def)

lemma recv_loop_link:
  assumes "link_open c" "recv_items c key = bs" "[] \<notin> set bs"
  shows "\<exists>c'. channel_recv_loop (take_recv key) (\<lambda>_. False) i (map length bs) got k c =
    (NoError, got @ bs, k + sum_list (map length bs), c') \<and> recv_items c' key = []"
  using assms
proof (induction bs arbitrary: i got k c)
  case Nil
  then show ?case by auto
next
  case (Cons b bs)
  from pop_recv_Cons [OF Cons.prems(1,2)] obtain c1 where
    c1: "pop_recv key c = (Popped b, c1)" "link_open c1" "recv_items c1 key = bs" by auto
  from Cons.IH [OF c1(2,3), of "Suc i" "got @ [b]" "k + length b"] Cons.prems(3) c1(1)
  show ?case by (auto simp: take_recv_def popped_string_def add.assoc)
qed

lemma fold_push_recv:
  "link_open (fold (push_recv key) bs c) = link_open c \<and>
   recv_items (fold (push_recv key) bs c) key = recv_items c key @ bs"
  by (induction bs arbitrary: c) (simp_all add: link.box_post link.opened_post)

text \<open>
  Buffers sent through the interface arrive: a receiver that asks for the same sizes gets the
  same buffers and the same number of bytes, both ends report no error, and the sender's count of
  running sends is back where it was. It holds for buffers that are not empty, since the receiver
  takes an empty message for a queue that was shut down.
\<close>

theorem iface_buffers_arrive:
  assumes "link_open c" "recv_items c key = []" "[] \<notin> set buffers"
  shows "\<exists>c1 c2. channelSend (put_recv key) (\<lambda>_. False) buffers f c
             = (NoError, sum_list (map length buffers), f, c1)
         \<and> channelRecv_body (take_recv key) (\<lambda>_. False) (map length buffers) c1
             = (NoError, buffers, sum_list (map length buffers), c2)"
proof -
  let ?c1 = "fold (push_recv key) buffers c"
  have "link_open ?c1" "recv_items ?c1 key = buffers"
    using fold_push_recv [of key buffers c] assms(1,2) by simp_all
  from recv_loop_link [OF this assms(3), of 0 "[]" 0] show ?thesis
    by (auto simp: channelSend_def send_loop_link channelRecv_body_def)
qed

theorem iface_buffers_arrive_witness:
  "\<exists>c1 c2. channelSend (put_recv ''k'') (\<lambda>_. False) [''ab'', ''c''] \<lparr>send_count = 0, recv_count = 0,
        recv_wait_queue = []\<rparr> new_link_ctx
      = (NoError, 3, \<lparr>send_count = 0, recv_count = 0, recv_wait_queue = []\<rparr>, c1)
    \<and> channelRecv_body (take_recv ''k'') (\<lambda>_. False) [2, 1] c1 = (NoError, [''ab'', ''c''], 3, c2)"
proof -
  have "link_open new_link_ctx" "recv_items new_link_ctx ''k'' = []"
    by (simp_all add: link_open_def link_wf_new) (simp_all add: new_link_ctx_def recv_items_def)
  from iface_buffers_arrive [OF this, of "[''ab'', ''c'']"
      "\<lparr>send_count = 0, recv_count = 0, recv_wait_queue = []\<rparr>"]
  show ?thesis by (simp add: numeral_eq_Suc)
qed

lemma empty_buffer_interrupts:
  "link_open c \<Longrightarrow> recv_items c key = [] # ms \<Longrightarrow>
   fst (channelRecv_body (take_recv key) (\<lambda>_. False) (0 # sizes) c) = Interrupted"
  using pop_recv_Cons [of c key "[]" ms]
  by (auto simp: channelRecv_body_def take_recv_def popped_string_def)

text \<open>
  The wait queue that is meant to order concurrent receivers never holds one: from a new
  interface, whatever receivers come and go, each goes straight on. A failed or cancelled send
  leaves the count of running sends one too high.
\<close>

theorem receivers_are_not_ordered:
  "fst (recv_trace es \<lparr>send_count = 0, recv_count = 0, recv_wait_queue = []\<rparr>)
     = map (\<lambda>_. True) (filter (\<lambda>e. e \<noteq> RecvLeave) es)
   \<and> send_count (fst (snd (snd (channelSend (\<lambda>b n. (FAIL, n)) (\<lambda>_. False) (b # bs) f c))))
     = send_count f + 1"
proof
  have "recv_wait_queue f = [] \<Longrightarrow>
      fst (recv_trace es f) = map (\<lambda>_. True) (filter (\<lambda>e. e \<noteq> RecvLeave) es)" for f
  proof (induction es arbitrary: f)
    case (Cons e es)
    then show ?case
      by (cases e) (simp_all add: channelRecv_enter_def channelRecv_leave_def case_prod_beta)
  qed simp
  then show "fst (recv_trace es \<lparr>send_count = 0, recv_count = 0, recv_wait_queue = []\<rparr>)
     = map (\<lambda>_. True) (filter (\<lambda>e. e \<noteq> RecvLeave) es)" by simp
qed (simp add: channelSend_def)

end
