(* ===== verification/Str_Util.thy ===== *)
theory Str_Util
  imports Prelude
begin

text \<open>
  String helpers of src/fediux/util/util.cc and the textual form of a node's address
  (src/fediux/common/common.h): splitting on a character with \<open>std::getline\<close>, splitting on a
  pattern with \<open>std::string::find\<close>, decimal printing and \<open>std::stoi\<close>, and the printers and
  parsers of \<^verbatim>\<open>Node\<close>.
\<close>

section \<open>Splitting\<close>

text \<open>
  One \<open>getline(ss, substr, delimiter)\<close> takes the characters up to the delimiter and drops it;
  the stream stays good unless the end of the string was reached first.
\<close>

(* src/src/fediux/util/util.cc:18-26 str_split *)
function str_split_char :: "char \<Rightarrow> string \<Rightarrow> string list" where
  "str_split_char d s =
     (let w = takeWhile (\<lambda>c. c \<noteq> d) s in
      case dropWhile (\<lambda>c. c \<noteq> d) s of
        [] \<Rightarrow> [w]
      | _ # rest \<Rightarrow> w # str_split_char d rest)"
  by pat_completeness auto
termination
proof (relation "measure (\<lambda>(d, s). length s)", simp)
  fix d :: char and s w c rest
  assume "dropWhile (\<lambda>c. c \<noteq> d) s = c # rest"
  then have "length (c # rest) \<le> length s" by (metis length_dropWhile_le)
  then show "((d, rest), d, s) \<in> measure (\<lambda>(d, s). length s)" by simp
qed

declare str_split_char.simps [simp del]

text \<open>\<open>str.find(pattern)\<close>: the offset of the first occurrence.\<close>

fun find_sub :: "string \<Rightarrow> string \<Rightarrow> nat option" where
  "find_sub pat [] = (if pat = [] then Some 0 else None)"
| "find_sub pat (c # cs) =
     (if prefix pat (c # cs) then Some 0 else map_option Suc (find_sub pat cs))"

text \<open>
  The loop works on the rest of the string from \<open>pos1\<close>. For an empty pattern the position
  never advances and the code does not return; the model gives \<open>None\<close>.
\<close>

function split_pat_loop :: "string \<Rightarrow> string \<Rightarrow> string list" where
  "split_pat_loop pat s =
     (if pat = [] then []
      else case find_sub pat s of
        None \<Rightarrow> (if s \<noteq> [] then [s] else [])
      | Some k \<Rightarrow> take k s # split_pat_loop pat (drop (k + length pat) s))"
  by pat_completeness auto
termination
proof (relation "measure (\<lambda>(pat, s). length s)")
  fix pat s :: string and k
  assume p: "pat \<noteq> []" and k: "find_sub pat s = Some k"
  have "s \<noteq> []" using p k by auto
  with p show "((pat, drop (k + length pat) s), pat, s) \<in> measure (\<lambda>(pat, s). length s)"
    by (cases s) auto
qed simp

declare split_pat_loop.simps [simp del]

(* src/src/fediux/util/util.cc:28-42 str_split *)
definition str_split_pat :: "string \<Rightarrow> string \<Rightarrow> string list option" where
  "str_split_pat s pat = (if pat = [] then None else Some (split_pat_loop pat s))"

fun join_with :: "string \<Rightarrow> string list \<Rightarrow> string" where
  "join_with sep [] = []"
| "join_with sep [w] = w"
| "join_with sep (w # ws) = w @ sep @ join_with sep ws"

lemma join_with_Cons: "ws \<noteq> [] \<Longrightarrow> join_with sep (w # ws) = w @ sep @ join_with sep ws"
  by (cases ws) simp_all

lemma str_split_char_last: "d \<notin> set s \<Longrightarrow> str_split_char d s = [s]"
proof -
  assume "d \<notin> set s"
  then have "dropWhile (\<lambda>c. c \<noteq> d) s = []" "takeWhile (\<lambda>c. c \<noteq> d) s = s"
    by (auto simp: dropWhile_eq_Nil_conv takeWhile_eq_all_conv)
  then show ?thesis by (subst str_split_char.simps) (simp only: Let_def list.case)
qed

lemma str_split_char_step: "d \<notin> set w \<Longrightarrow> str_split_char d (w @ d # s) = w # str_split_char d s"
proof -
  assume "d \<notin> set w"
  then have a: "\<And>c. c \<in> set w \<Longrightarrow> c \<noteq> d" by auto
  have "takeWhile (\<lambda>c. c \<noteq> d) (w @ d # s) = w" "dropWhile (\<lambda>c. c \<noteq> d) (w @ d # s) = d # s"
    using a by (simp_all add: takeWhile_append2 dropWhile_append2)
  then show ?thesis by (subst str_split_char.simps) (simp add: Let_def)
qed

lemma str_split_char_join:
  "ws \<noteq> [] \<Longrightarrow> \<forall>w \<in> set ws. d \<notin> set w \<Longrightarrow> str_split_char d (join_with [d] ws) = ws"
proof (induction ws)
  case (Cons w ws)
  then show ?case
    by (cases "ws = []") (simp_all add: str_split_char_last str_split_char_step join_with_Cons)
qed simp

lemma find_sub_none: "h \<notin> set s \<Longrightarrow> h \<in> set pat \<Longrightarrow> find_sub pat s = None"
  by (induction s) (auto dest!: set_mono_prefix)

lemma find_sub_first:
  "h \<notin> set w \<Longrightarrow> pat \<noteq> [] \<Longrightarrow> hd pat = h \<Longrightarrow> find_sub pat (w @ pat @ s) = Some (length w)"
proof (induction w)
  case Nil
  then show ?case by (cases pat) auto
next
  case (Cons c w)
  then have "\<not> prefix pat ((c # w) @ pat @ s)" by (cases pat) auto
  with Cons show ?case by simp
qed

lemma split_pat_step:
  assumes "h \<notin> set w" "pat \<noteq> []" "hd pat = h"
  shows "split_pat_loop pat (w @ pat @ s) = w # split_pat_loop pat s"
  using assms find_sub_first [OF assms]
  by (subst split_pat_loop.simps) simp

lemma split_pat_last:
  assumes "h \<notin> set w" "pat \<noteq> []" "hd pat = h"
  shows "split_pat_loop pat w = (if w = [] then [] else [w])"
proof -
  have "find_sub pat w = None" using assms by (intro find_sub_none [of h]) (auto intro: hd_in_set)
  with assms show ?thesis by (subst split_pat_loop.simps) simp
qed

text \<open>
  Splitting a joined record gives its fields back, but an empty last field disappears.
\<close>

lemma split_pat_join:
  assumes "pat \<noteq> []" "ws \<noteq> []" "\<forall>w \<in> set ws. hd pat \<notin> set w"
  shows "split_pat_loop pat (join_with pat ws) = (if last ws = [] then butlast ws else ws)"
  using assms(2,3)
proof (induction ws)
  case (Cons w ws)
  then show ?case
    using assms(1)
    by (cases "ws = []") (auto simp: split_pat_last split_pat_step join_with_Cons)
qed simp

section \<open>Decimal numbers\<close>

text \<open>\<open>std::to_string\<close> on unsigned values, and \<open>std::stoi\<close>.\<close>

definition digit_char :: "nat \<Rightarrow> char" where
  "digit_char k = char_of (48 + k mod 10)"

definition is_digit :: "char \<Rightarrow> bool" where
  "is_digit c \<longleftrightarrow> 48 \<le> (of_char c :: nat) \<and> (of_char c :: nat) \<le> 57"

definition digit_val :: "char \<Rightarrow> nat" where
  "digit_val c = of_char c - 48"

fun dec_string :: "nat \<Rightarrow> string" where
  "dec_string n = (if n < 10 then [digit_char n] else dec_string (n div 10) @ [digit_char n])"

declare dec_string.simps [simp del]

definition dec_val :: "string \<Rightarrow> nat" where
  "dec_val = foldl (\<lambda>a c. 10 * a + digit_val c) 0"

definition is_space_char :: "char \<Rightarrow> bool" where
  "is_space_char c \<longleftrightarrow> (of_char c :: nat) \<in> {32, 9, 10, 11, 12, 13}"

text \<open>
  \<open>std::stoi\<close> skips white space, takes an optional sign and the digits that follow, and
  throws when there is no digit or the value does not fit an \<open>int\<close>. \<open>None\<close> is the throw.
\<close>

definition stoi :: "string \<Rightarrow> int option" where
  "stoi s0 =
     (let s = dropWhile is_space_char s0;
          neg = (s \<noteq> [] \<and> hd s = CHR ''-'');
          s1 = (if s \<noteq> [] \<and> (hd s = CHR ''-'' \<or> hd s = CHR ''+'') then tl s else s);
          ds = takeWhile is_digit s1;
          v = (if neg then - int (dec_val ds) else int (dec_val ds))
      in if ds = [] then None
         else if - (2 ^ 31) \<le> v \<and> v < 2 ^ 31 then Some v else None)"

lemma of_char_digit [simp]: "(of_char (digit_char k) :: nat) = 48 + k mod 10"
proof -
  have "48 + k mod 10 < 256" using mod_less_divisor [of 10 k] by linarith
  then show ?thesis by (simp add: digit_char_def)
qed

lemma digit_char_props [simp]:
  "is_digit (digit_char k)" "digit_val (digit_char k) = k mod 10" "\<not> is_space_char (digit_char k)"
  by (auto simp: is_digit_def digit_val_def is_space_char_def)

lemma dec_string_digits: "c \<in> set (dec_string n) \<Longrightarrow> is_digit c"
proof (induction n rule: dec_string.induct)
  case (1 n)
  then show ?case by (cases "n < 10") (subst (asm) dec_string.simps; auto)+
qed

lemma dec_string_nonempty [simp]: "dec_string n \<noteq> []"
  by (subst dec_string.simps) simp

lemma dec_val_snoc: "dec_val (s @ [c]) = 10 * dec_val s + digit_val c"
  by (simp add: dec_val_def)

lemma dec_val_dec_string [simp]: "dec_val (dec_string n) = n"
proof (induction n rule: dec_string.induct)
  case (1 n)
  show ?case
  proof (cases "n < 10")
    case True
    then show ?thesis by (subst dec_string.simps) (simp add: dec_val_def)
  next
    case False
    then have "dec_val (dec_string n) = 10 * (n div 10) + n mod 10"
      by (subst dec_string.simps) (simp add: dec_val_snoc "1.IH")
    then show ?thesis by simp
  qed
qed

lemma digit_not_special:
  assumes "is_digit c"
  shows "\<not> is_space_char c" "c \<noteq> CHR ''-''" "c \<noteq> CHR ''+''" "c \<noteq> CHR '':''"
  using assms by (auto simp: is_digit_def is_space_char_def)

lemma stoi_dec:
  "stoi (dec_string n) = (if n < 2 ^ 31 then Some (int n) else None)"
proof -
  obtain c cs where ds: "dec_string n = c # cs" by (cases "dec_string n") auto
  have dig: "\<forall>x \<in> set (c # cs). is_digit x" using dec_string_digits ds by metis
  then have c: "is_digit c" "c \<noteq> CHR ''-''" "c \<noteq> CHR ''+''" "\<not> is_space_char c"
    using digit_not_special by auto
  have tw: "takeWhile is_digit cs = cs" using dig by (simp add: takeWhile_eq_all_conv)
  have "dec_val (c # cs) = n" using ds dec_val_dec_string by metis
  then show ?thesis using c by (simp add: stoi_def ds Let_def tw)
qed

lemma stoi_dec_string: "n < 2 ^ 31 \<Longrightarrow> stoi (dec_string n) = Some (int n)"
  by (simp add: stoi_dec)

end
