(* ===== verification/Node_Common.thy ===== *)
theory Node_Common
  imports Str_Util
begin

text \<open>
  The address of a node and the roles of the parties (src/fediux/common/common.h), with the
  textual form that configuration files and logs use, and the parsers of it
  (\<open>Node::fromString\<close>, and \<open>parseToNode\<close> of src/fediux/util/util.cc).
\<close>

section \<open>Roles\<close>

definition PARTY_CLIENT :: string where "PARTY_CLIENT = ''CLIENT''"
definition PARTY_SERVER :: string where "PARTY_SERVER = ''SERVER''"
definition PARTY_TEE_COMPUTE :: string where "PARTY_TEE_COMPUTE = ''TEE_COMPUTE''"
definition AUX_COMPUTE_NODE :: string where "AUX_COMPUTE_NODE = ''AUXILIARY_COMPUTE_NODE''"
definition SCHEDULER_NODE :: string where "SCHEDULER_NODE = ''SCHEDULER_NODE''"
definition PROXY_NODE :: string where "PROXY_NODE = ''PROXY_NODE''"
definition ROLE_SCHEDULER :: string where "ROLE_SCHEDULER = ''SCHEDULER''"
definition DATA_RECORD_SEP :: string where "DATA_RECORD_SEP = ''####''"

lemmas party_defs = PARTY_CLIENT_def PARTY_SERVER_def PARTY_TEE_COMPUTE_def
  AUX_COMPUTE_NODE_def SCHEDULER_NODE_def PROXY_NODE_def ROLE_SCHEDULER_def

(* src/src/fediux/common/common.h:85-87 RoleValidation::IsClient *)
definition IsClient :: "string \<Rightarrow> bool" where
  "IsClient party_name \<longleftrightarrow> party_name = PARTY_CLIENT"

(* src/src/fediux/common/common.h:89-91 RoleValidation::IsServer *)
definition IsServer :: "string \<Rightarrow> bool" where
  "IsServer party_name \<longleftrightarrow> party_name = PARTY_SERVER"

(* src/src/fediux/common/common.h:93-95 RoleValidation::IsTeeCompute *)
definition IsTeeCompute :: "string \<Rightarrow> bool" where
  "IsTeeCompute party_name \<longleftrightarrow> party_name = PARTY_TEE_COMPUTE"

lemma roles_exclusive:
  "IsClient p \<Longrightarrow> \<not> IsServer p" "IsClient p \<Longrightarrow> \<not> IsTeeCompute p"
  "IsServer p \<Longrightarrow> \<not> IsTeeCompute p"
  by (auto simp: IsClient_def IsServer_def IsTeeCompute_def party_defs)

section \<open>Node addresses\<close>

(* src/src/fediux/common/common.h:102-163 Node *)
record node =
  node_id :: string
  node_ip :: string
  node_port :: nat
  node_use_tls :: bool
  node_role :: string

definition empty_node :: node where
  "empty_node = \<lparr>node_id = [], node_ip = [], node_port = 0, node_use_tls = False, node_role = []\<rparr>"

(* src/src/fediux/common/common.h:123-131 Node::to_string *)
definition node_to_string :: "node \<Rightarrow> string" where
  "node_to_string n =
     node_id n @ '':'' @ node_ip n @ '':'' @ dec_string (node_port n) @ '':'' @
     (if node_use_tls n then ''1'' else ''0'') @ '':'' @ node_role n"

text \<open>
  \<open>fromString\<close> fills an existing object. It indexes the fields without a check, and the role
  is written only when there are exactly five of them. A negative port of the text is converted
  to \<open>uint32_t\<close>.
\<close>

(* src/src/fediux/common/common.h:132-150 Node::fromString *)
definition node_fromString :: "string \<Rightarrow> node \<Rightarrow> node cpp" where
  "node_fromString s n =
     (let v = str_split_char (CHR '':'') s in
      if length v < 4 then Undef
      else case stoi (v ! 2) of
        None \<Rightarrow> Throw ''stoi''
      | Some p \<Rightarrow>
          (let n1 = n\<lparr>node_id := v ! 0, node_ip := v ! 1, node_port := nat (p mod 2 ^ 32),
                      node_use_tls := (v ! 3 = ''1'')\<rparr>
           in Ret (if length v = 5 then n1\<lparr>node_role := v ! 4\<rparr> else n1)))"

(* src/src/fediux/util/util.cc:90-102 parseToNode *)
definition parseToNode :: "string \<Rightarrow> node \<Rightarrow> (retcode \<times> node) cpp" where
  "parseToNode s n =
     (let addr_info = str_split_char (CHR '':'') s in
      if length addr_info < 4 then Ret (FAIL, n)
      else case stoi (addr_info ! 2) of
        None \<Rightarrow> Throw ''stoi''
      | Some p \<Rightarrow> Ret (SUCCESS,
          n\<lparr>node_id := addr_info ! 0, node_ip := addr_info ! 1, node_port := nat (p mod 2 ^ 32),
            node_use_tls := (addr_info ! 3 = ''1'')\<rparr>))"

text \<open>The protobuf form of a node has the same five fields.\<close>

(* src/src/fediux/util/util.cc:72-79 pbNode2Node *)
definition pbNode2Node :: "node \<Rightarrow> node" where
  "pbNode2Node pb = \<lparr>node_id = node_id pb, node_ip = node_ip pb, node_port = node_port pb,
                     node_use_tls = node_use_tls pb, node_role = node_role pb\<rparr>"

(* src/src/fediux/util/util.cc:81-88 node2PbNode *)
definition node2PbNode :: "node \<Rightarrow> node" where
  "node2PbNode n = \<lparr>node_id = node_id n, node_ip = node_ip n, node_port = node_port n,
                    node_use_tls = node_use_tls n, node_role = node_role n\<rparr>"

lemma pbNode_roundtrip [simp]: "pbNode2Node (node2PbNode n) = n"
  by (simp add: pbNode2Node_def node2PbNode_def)

section \<open>Printing and parsing\<close>

definition plain_fields :: "node \<Rightarrow> bool" where
  "plain_fields n \<longleftrightarrow> CHR '':'' \<notin> set (node_id n) \<and> CHR '':'' \<notin> set (node_ip n) \<and>
     CHR '':'' \<notin> set (node_role n) \<and> node_port n < 2 ^ 31"

definition node_fields :: "node \<Rightarrow> string list" where
  "node_fields n = [node_id n, node_ip n, dec_string (node_port n),
     (if node_use_tls n then ''1'' else ''0''), node_role n]"

lemma node_to_string_join: "node_to_string n = join_with '':'' (node_fields n)"
  by (simp add: node_to_string_def node_fields_def)

lemma node_split:
  assumes "plain_fields n"
  shows "str_split_char (CHR '':'') (node_to_string n) = node_fields n"
proof -
  have "CHR '':'' \<notin> set (dec_string (node_port n))"
    using dec_string_digits digit_not_special(4) by blast
  with assms have "\<forall>w \<in> set (node_fields n). CHR '':'' \<notin> set w"
    by (auto simp: plain_fields_def node_fields_def)
  then show ?thesis
    using str_split_char_join [of "node_fields n" "CHR '':''"]
    by (simp add: node_to_string_join node_fields_def)
qed

text \<open>
  Reading back a printed node gives the node, whatever the object held before.
\<close>

theorem node_string_roundtrip:
  assumes "plain_fields n"
  shows "node_fromString (node_to_string n) old = Ret n"
proof -
  have "stoi (dec_string (node_port n)) = Some (int (node_port n))" "node_port n < 2 ^ 32"
    using assms by (auto simp: plain_fields_def intro: stoi_dec_string)
  then show ?thesis
    by (simp add: node_fromString_def node_split [OF assms] node_fields_def Let_def nat_mod_as_int)
qed

theorem node_string_roundtrip_witness:
  "node_fromString (node_to_string \<lparr>node_id = ''n0'', node_ip = ''10.0.0.1'', node_port = 50050,
      node_use_tls = True, node_role = ''default''\<rparr>) empty_node
   = Ret \<lparr>node_id = ''n0'', node_ip = ''10.0.0.1'', node_port = 50050,
      node_use_tls = True, node_role = ''default''\<rparr>"
  by (rule node_string_roundtrip) (simp add: plain_fields_def)

end
