(* ===== verification/Grpc_Channel.thy ===== *)
theory Grpc_Channel
  imports Link_Context Node_Common
begin

text \<open>
  The transport between nodes: the client \<^verbatim>\<open>GrpcChannel\<close> (grpc_link_context.cc) and the data
  handlers of the server \<^verbatim>\<open>VMNodeInterface\<close> (node/node_interface.cc). gRPC itself is a parameter:
  a call takes the state \<open>'n\<close> of the network and gives a reply, or \<open>None\<close> when its status is not
  OK. The node behind the server is a parameter too, here; Node_Impl gives it.
\<close>

section \<open>Messages\<close>

(* src/src/fediux/protos/common.proto:135-140 TaskContext *)
record task_ctx =
  job_id :: string
  task_id :: string
  sub_task_id :: string
  tc_request_id :: string

definition empty_task_ctx :: task_ctx where
  "empty_task_ctx = \<lparr>job_id = [], task_id = [], sub_task_id = [], tc_request_id = []\<rparr>"

(* src/src/fediux/protos/worker.proto:44-49 TaskRequest *)
record task_request =
  rq_task_info :: task_ctx
  rq_role :: string
  rq_data_len :: nat
  rq_data :: string

(* src/src/fediux/protos/worker.proto:51-56 TaskResponse *)
record task_response =
  rs_ret_code :: retcode
  rs_msg_info :: string
  rs_data_len :: nat
  rs_data :: string

(* src/src/fediux/common/common.h:20-20 LIMITED_PACKAGE_SIZE *)
definition LIMITED_PACKAGE_SIZE :: nat where
  "LIMITED_PACKAGE_SIZE = 3 * 1024 * 1024"

section \<open>Packages\<close>

text \<open>
  The loop that cuts data into packages, shared by the three builders: it runs at least once, so
  that empty data gives one empty package.
\<close>

(* src/src/fediux/util/network/grpc_link_context.cc:203-230 GrpcChannel::buildTaskRequest *)
function split_packages :: "string \<Rightarrow> nat \<Rightarrow> string list" where
  "split_packages data sended =
     (let data_len = min LIMITED_PACKAGE_SIZE (length data - sended);
          package = take data_len (drop sended data);
          sended' = sended + data_len
      in if sended' < length data then package # split_packages data sended' else [package])"
  by pat_completeness auto
termination
  by (relation "measure (\<lambda>(data, sended). length data - sended)")
     (auto simp: LIMITED_PACKAGE_SIZE_def)

declare split_packages.simps [simp del]

(* src/src/fediux/util/network/grpc_link_context.cc:23-33 GrpcChannel::BuildTaskInfo *)
definition BuildTaskInfo :: "task_ctx option \<Rightarrow> retcode \<times> task_ctx" where
  "BuildTaskInfo ctx = (case ctx of None \<Rightarrow> (FAIL, empty_task_ctx) | Some i \<Rightarrow> (SUCCESS, i))"

(* src/src/fediux/util/network/grpc_link_context.cc:195-232 GrpcChannel::buildTaskRequest *)
definition buildTaskRequest :: "task_ctx option \<Rightarrow> string \<Rightarrow> string \<Rightarrow> task_request list" where
  "buildTaskRequest ctx role data =
     map (\<lambda>p. \<lparr>rq_task_info = snd (BuildTaskInfo ctx), rq_role = role,
               rq_data_len = length data, rq_data = p\<rparr>) (split_packages data 0)"

(* src/src/fediux/node/node_interface.cc:405-438 VMNodeInterface::BuildTaskRequest *)
definition iface_BuildTaskRequest :: "task_ctx \<Rightarrow> string \<Rightarrow> string \<Rightarrow> task_request list" where
  "iface_BuildTaskRequest task_info key data =
     map (\<lambda>p. \<lparr>rq_task_info = task_info, rq_role = key,
               rq_data_len = length data, rq_data = p\<rparr>) (split_packages data 0)"

(* src/src/fediux/node/node_interface.cc:375-403 VMNodeInterface::BuildTaskResponse *)
definition iface_BuildTaskResponse :: "string \<Rightarrow> task_response list" where
  "iface_BuildTaskResponse data =
     map (\<lambda>p. \<lparr>rs_ret_code = SUCCESS, rs_msg_info = [], rs_data_len = length data, rs_data = p\<rparr>)
       (split_packages data 0)"

lemma concat_split_packages: "concat (split_packages data sended) = drop sended data"
proof (induction data sended rule: split_packages.induct)
  case (1 data sended)
  show ?case
  proof (cases "sended + min LIMITED_PACKAGE_SIZE (length data - sended) < length data")
    case True
    with 1 show ?thesis
      by (subst split_packages.simps)
         (simp add: Let_def add.commute drop_drop [symmetric] del: drop_drop)
  next
    case False
    then show ?thesis
      by (subst split_packages.simps) (auto simp: Let_def LIMITED_PACKAGE_SIZE_def min_def)
  qed
qed

lemma split_packages_bounded: "p \<in> set (split_packages data sended) \<Longrightarrow> length p \<le> LIMITED_PACKAGE_SIZE"
proof (induction data sended rule: split_packages.induct)
  case (1 data sended)
  show ?case
  proof (cases "sended + min LIMITED_PACKAGE_SIZE (length data - sended) < length data")
    case True
    with 1(2) have "length p \<le> LIMITED_PACKAGE_SIZE \<or> p \<in> set (split_packages data
        (sended + min LIMITED_PACKAGE_SIZE (length data - sended)))"
      by (subst (asm) split_packages.simps) (auto simp: Let_def split: if_splits)
    with 1(1) [OF refl refl refl True] show ?thesis by auto
  next
    case False
    then have "split_packages data sended
        = [take (min LIMITED_PACKAGE_SIZE (length data - sended)) (drop sended data)]"
      by (subst split_packages.simps) (simp only: Let_def if_False)
    with 1(2) show ?thesis by simp
  qed
qed

lemma split_packages_nonempty [simp]: "split_packages data sended \<noteq> []"
  by (subst split_packages.simps) (simp add: Let_def)

lemma length_split_packages:
  "sended \<le> length data \<Longrightarrow> length (split_packages data sended) =
     max 1 ((length data - sended + LIMITED_PACKAGE_SIZE - 1) div LIMITED_PACKAGE_SIZE)"
proof (induction data sended rule: split_packages.induct)
  case (1 data sended)
  let ?M = LIMITED_PACKAGE_SIZE and ?r = "length data - sended"
  have M: "0 < ?M" by (simp add: LIMITED_PACKAGE_SIZE_def)
  show ?case
  proof (cases "sended + min ?M ?r < length data")
    case True
    then have r: "?M < ?r" by auto
    have "(?r + ?M - 1) div ?M = Suc ((?r - ?M + ?M - 1) div ?M)"
      using r M div_add_self2 [of ?M "?r - 1"] by (simp add: le_div_geq)
    moreover have "1 \<le> (?r - ?M + ?M - 1) div ?M"
      using r M by (simp add: Suc_le_eq div_greater_zero_iff)
    ultimately show ?thesis
      using 1 True r by (subst split_packages.simps) (simp add: Let_def)
  next
    case False
    then have "(?r + ?M - 1) div ?M \<le> 1"
      using 1(2) M by (intro less_Suc_eq_le [THEN iffD1] less_mult_imp_div_less) auto
    with False show ?thesis by (subst split_packages.simps) (simp add: Let_def)
  qed
qed

section \<open>Retried calls\<close>

(* src/src/fediux/util/network/grpc_link_context.h:71-71 retry_max_times_ *)
definition retry_max_times :: nat where "retry_max_times = 3"

text \<open>The loop of every control call: up to three attempts, the first reply wins.\<close>

(* src/src/fediux/util/network/grpc_link_context.cc:333-365 GrpcChannel::executeTask *)
function rpc_retry :: "('n \<Rightarrow> 'r option \<times> 'n) \<Rightarrow> nat \<Rightarrow> 'n \<Rightarrow> (retcode \<times> 'r option) \<times> 'n" where
  "rpc_retry call retry_time n =
     (case call n of
        (Some reply, n') \<Rightarrow> ((SUCCESS, Some reply), n')
      | (None, n') \<Rightarrow>
          if Suc retry_time < retry_max_times then rpc_retry call (Suc retry_time) n'
          else ((FAIL, None), n'))"
  by pat_completeness auto
termination
  by (relation "measure (\<lambda>(call, retry_time, n). retry_max_times - retry_time)") auto

declare rpc_retry.simps [simp del]

(* src/src/fediux/util/network/grpc_link_context.cc:328-367 GrpcChannel::executeTask *)
definition grpc_executeTask where
  "grpc_executeTask stub_ExecuteTask request n = rpc_retry (stub_ExecuteTask request) 0 n"

(* src/src/fediux/util/network/grpc_link_context.cc:369-406 GrpcChannel::StopTask *)
definition grpc_StopTask where
  "grpc_StopTask stub_StopTask request n = rpc_retry (stub_StopTask request) 0 n"

(* src/src/fediux/util/network/grpc_link_context.cc:408-446 GrpcChannel::killTask *)
definition grpc_killTask where
  "grpc_killTask stub_KillTask request n = rpc_retry (stub_KillTask request) 0 n"

(* src/src/fediux/util/network/grpc_link_context.cc:448-486 GrpcChannel::updateTaskStatus *)
definition grpc_updateTaskStatus where
  "grpc_updateTaskStatus stub_UpdateTaskStatus request n =
     rpc_retry (stub_UpdateTaskStatus request) 0 n"

(* src/src/fediux/util/network/grpc_link_context.cc:488-525 GrpcChannel::fetchTaskStatus *)
definition grpc_fetchTaskStatus where
  "grpc_fetchTaskStatus stub_FetchTaskStatus request n =
     rpc_retry (stub_FetchTaskStatus request) 0 n"

(* src/src/fediux/util/network/grpc_link_context.cc:590-634 GrpcChannel::CheckSendCompleteStatus *)
definition grpc_CheckSendCompleteStatus ::
  "(task_ctx \<times> string \<times> nat \<Rightarrow> 'n \<Rightarrow> unit option \<times> 'n) \<Rightarrow> task_ctx option \<Rightarrow> string \<Rightarrow> nat \<Rightarrow>
   'n \<Rightarrow> (retcode \<times> unit option) \<times> 'n" where
  "grpc_CheckSendCompleteStatus stub_CompleteStatus ctx key expected n =
     rpc_retry (stub_CompleteStatus (snd (BuildTaskInfo ctx), key, expected)) 0 n"

(* src/src/fediux/util/network/grpc_link_context.cc:636-674 GrpcChannel::NewDataset *)
definition grpc_NewDataset where
  "grpc_NewDataset stub_NewDataset request n = rpc_retry (stub_NewDataset request) 0 n"

text \<open>
  \<^verbatim>\<open>submitTask\<close> has the same body, but its loop is \<^verbatim>\<open>do { ... } while (0)\<close>: \<^verbatim>\<open>continue\<close> goes to the
  condition, which ends the loop, and the function returns success.
\<close>

(* src/src/fediux/util/network/grpc_link_context.cc:287-326 GrpcChannel::submitTask *)
definition grpc_submitTask ::
  "('q \<Rightarrow> 'n \<Rightarrow> 'r option \<times> 'n) \<Rightarrow> 'q \<Rightarrow> 'n \<Rightarrow> (retcode \<times> 'r option) \<times> 'n" where
  "grpc_submitTask stub_SubmitTask request n =
     (case stub_SubmitTask request n of
        (Some reply, n') \<Rightarrow> ((SUCCESS, Some reply), n')
      | (None, n') \<Rightarrow>
          if Suc 0 < retry_max_times then ((SUCCESS, None), n') else ((FAIL, None), n'))"

section \<open>Data calls of the client\<close>

text \<open>\<open>stub_Send\<close> is the stream of one attempt: it gives the response's return code.\<close>

(* src/src/fediux/util/network/grpc_link_context.cc:142-190 GrpcChannel::send *)
function send_retry ::
  "(task_request list \<Rightarrow> 'n \<Rightarrow> retcode option \<times> 'n) \<Rightarrow> task_request list \<Rightarrow> nat \<Rightarrow> 'n \<Rightarrow>
   retcode \<times> 'n" where
  "send_retry stub_Send requests retry_time n =
     (case stub_Send requests n of
        (Some ret_code, n') \<Rightarrow> (if ret_code \<noteq> SUCCESS then (FAIL, n') else (SUCCESS, n'))
      | (None, n') \<Rightarrow>
          if Suc retry_time < retry_max_times then send_retry stub_Send requests (Suc retry_time) n'
          else (FAIL, n'))"
  by pat_completeness auto
termination
  by (relation "measure (\<lambda>(stub_Send, requests, retry_time, n). retry_max_times - retry_time)") auto

declare send_retry.simps [simp del]

(* src/src/fediux/util/network/grpc_link_context.cc:132-193 GrpcChannel::send *)
definition grpc_send ::
  "(task_request list \<Rightarrow> 'n \<Rightarrow> retcode option \<times> 'n) \<Rightarrow> task_ctx option \<Rightarrow> string \<Rightarrow> string \<Rightarrow> 'n \<Rightarrow>
   retcode \<times> 'n" where
  "grpc_send stub_Send ctx role data n = send_retry stub_Send (buildTaskRequest ctx role data) 0 n"

(* src/src/fediux/util/network/grpc_link_context.cc:106-131 GrpcChannel::send_wrapper *)
definition grpc_send_wrapper ::
  "(task_request list \<Rightarrow> 'n \<Rightarrow> retcode option \<times> 'n) \<Rightarrow> task_ctx option \<Rightarrow> string \<Rightarrow> string \<Rightarrow> 'n \<Rightarrow>
   bool \<times> 'n" where
  "grpc_send_wrapper stub_Send ctx role data n =
     (let (ret, n') = grpc_send stub_Send ctx role data n in (ret = SUCCESS, n'))"

text \<open>
  \<open>stub_SendRecv\<close> and \<open>stub_ForwardRecv\<close> give the responses that are read and whether the final
  status is OK. What was received is appended to the caller's buffer.
\<close>

(* src/src/fediux/util/network/grpc_link_context.cc:57-104 GrpcChannel::sendRecv *)
definition grpc_sendRecv ::
  "(task_request list \<Rightarrow> 'n \<Rightarrow> (task_response list \<times> bool) \<times> 'n) \<Rightarrow> task_ctx option \<Rightarrow>
   string \<Rightarrow> string \<Rightarrow> string \<Rightarrow> 'n \<Rightarrow> (retcode \<times> string) \<times> 'n" where
  "grpc_sendRecv stub_SendRecv ctx role data recv_data n =
     (let ((responses, ok), n') = stub_SendRecv (buildTaskRequest ctx role data) n;
          recv_data' = fold (\<lambda>r acc. acc @ rs_data r) responses recv_data
      in ((if ok then SUCCESS else FAIL, recv_data'), n'))"

(* src/src/fediux/util/network/grpc_link_context.cc:234-285 GrpcChannel::forwardRecv *)
definition grpc_forwardRecv ::
  "(task_request \<Rightarrow> 'n \<Rightarrow> (task_request list \<times> bool) \<times> 'n) \<Rightarrow> task_ctx option \<Rightarrow> string \<Rightarrow> 'n \<Rightarrow>
   string \<times> 'n" where
  "grpc_forwardRecv stub_ForwardRecv ctx role n =
     (let ((responses, ok), n') = stub_ForwardRecv \<lparr>rq_task_info = snd (BuildTaskInfo ctx),
            rq_role = role, rq_data_len = 0, rq_data = []\<rparr> n;
          tmp_buff = fold (\<lambda>r acc. acc @ rq_data r) responses []
      in (if ok then tmp_buff else [], n'))"

text \<open>The blocks of a dataset are kept up to the first response that reports an error.\<close>

(* src/src/fediux/util/network/grpc_link_context.cc:564-574 GrpcChannel::DownloadData *)
fun download_loop :: "(bool \<times> string) list \<Rightarrow> string list \<Rightarrow> bool \<times> string list" where
  "download_loop [] data = (False, data)"
| "download_loop ((ok, block) # rs) data =
     (if \<not> ok then (True, data) else download_loop rs (data @ [block]))"

(* src/src/fediux/util/network/grpc_link_context.cc:552-588 GrpcChannel::DownloadData *)
definition grpc_DownloadData ::
  "('q \<Rightarrow> (bool \<times> string) list \<times> bool) \<Rightarrow> 'q \<Rightarrow> string list \<Rightarrow> retcode \<times> string list" where
  "grpc_DownloadData stub_DownloadData request data =
     (let (responses, status_ok) = stub_DownloadData request;
          (has_error, data') = download_loop responses data
      in (if \<not> status_ok then FAIL else if has_error then FAIL else SUCCESS, data'))"

text \<open>Channels are kept by the text of their node; \<open>build\<close> makes a new one.\<close>

(* src/src/fediux/util/network/grpc_link_context.cc:527-550 GrpcLinkContext::getChannel *)
definition getChannel ::
  "(node \<Rightarrow> 'ch) \<Rightarrow> node \<Rightarrow> (string \<rightharpoonup> 'ch) \<Rightarrow> 'ch \<times> (string \<rightharpoonup> 'ch)" where
  "getChannel build nd connection_mgr =
     (case connection_mgr (node_to_string nd) of
        Some ch \<Rightarrow> (ch, connection_mgr)
      | None \<Rightarrow> (build nd, connection_mgr(node_to_string nd \<mapsto> build nd)))"

section \<open>Data handlers of the server\<close>

text \<open>
  The node's operations are parameters: \<open>process_recv\<close>, \<open>process_send\<close>, \<open>process_forward\<close>. The
  handlers read a whole stream; its first request gives the task and the key.
\<close>

(* src/src/fediux/node/node_interface.cc:117-139 VMNodeInterface::Send *)
definition stream_meta :: "task_request list \<Rightarrow> task_ctx \<times> string" where
  "stream_meta reqs =
     (case reqs of [] \<Rightarrow> (empty_task_ctx, []) | r # _ \<Rightarrow> (rq_task_info r, rq_role r))"

(* src/src/fediux/node/node_interface.cc:125-141 VMNodeInterface::Send *)
definition stream_data :: "task_request list \<Rightarrow> string" where
  "stream_data reqs = concat (map rq_data reqs)"

(* src/src/fediux/node/node_interface.cc:114-153 VMNodeInterface::Send *)
definition iface_Send ::
  "(task_ctx \<Rightarrow> string \<Rightarrow> string \<Rightarrow> 's \<Rightarrow> retcode \<times> 's) \<Rightarrow> task_request list \<Rightarrow> 's \<Rightarrow>
   retcode \<times> 's" where
  "iface_Send process_recv reqs s =
     (let (task_info, key) = stream_meta reqs;
          (ret, s') = process_recv task_info key (stream_data reqs) s;
          ret_code = SUCCESS;
          ret_code = (if ret \<noteq> SUCCESS then FAIL else ret_code);
          ret_code = SUCCESS
      in (ret_code, s'))"

(* src/src/fediux/node/node_interface.cc:210-213 VMNodeInterface::SendRecv *)
definition fail_response :: "string \<Rightarrow> task_response" where
  "fail_response msg = \<lparr>rs_ret_code = FAIL, rs_msg_info = msg, rs_data_len = 0, rs_data = []\<rparr>"

(* src/src/fediux/node/node_interface.cc:155-179 VMNodeInterface::Recv *)
definition iface_Recv ::
  "(task_ctx \<Rightarrow> string \<Rightarrow> 's \<Rightarrow> (retcode \<times> string) \<times> 's) \<Rightarrow> task_request \<Rightarrow> 's \<Rightarrow>
   task_response list \<times> 's" where
  "iface_Recv process_send req s =
     (let ((ret, send_data), s') = process_send (rq_task_info req) (rq_role req) s
      in (if ret \<noteq> SUCCESS
          then [fail_response (''no data is available for key:'' @ rq_role req)]
          else iface_BuildTaskResponse send_data, s'))"

(* src/src/fediux/node/node_interface.cc:181-236 VMNodeInterface::SendRecv *)
definition iface_SendRecv ::
  "(task_ctx \<Rightarrow> string \<Rightarrow> string \<Rightarrow> 's \<Rightarrow> retcode \<times> 's) \<Rightarrow>
   (task_ctx \<Rightarrow> string \<Rightarrow> 's \<Rightarrow> (retcode \<times> string) \<times> 's) \<Rightarrow> task_request list \<Rightarrow> 's \<Rightarrow>
   task_response list \<times> 's" where
  "iface_SendRecv process_recv process_send reqs s =
     (let (task_info, key) = stream_meta reqs;
          (ret, s1) = process_recv task_info key (stream_data reqs) s
      in if ret \<noteq> SUCCESS then ([fail_response ''ProcessReceivedData encountes error''], s1)
         else let ((ret2, send_data), s2) = process_send task_info key s1
         in (if ret2 \<noteq> SUCCESS then [fail_response (''no data is available for key:'' @ key)]
             else iface_BuildTaskResponse send_data, s2))"

(* src/src/fediux/node/node_interface.cc:297-321 VMNodeInterface::ForwardRecv *)
definition iface_ForwardRecv ::
  "(task_ctx \<Rightarrow> string \<Rightarrow> 's \<Rightarrow> (retcode \<times> string) \<times> 's) \<Rightarrow> task_request \<Rightarrow> 's \<Rightarrow>
   task_request list \<times> 's" where
  "iface_ForwardRecv process_forward req s =
     (let ((ret, recv_data), s') = process_forward (rq_task_info req) (rq_role req) s
      in (if ret \<noteq> SUCCESS
          then [\<lparr>rq_task_info = empty_task_ctx, rq_role = [], rq_data_len = 0, rq_data = []\<rparr>]
          else iface_BuildTaskRequest (rq_task_info req) (rq_role req) recv_data, s'))"

text \<open>
  A handler waits for a task's worker: \<open>ready i\<close> and \<open>cancelled i\<close> are what the \<open>i\<close>-th tests give
  (\<open>cancelled 0\<close> is the test before the loop) and \<open>elapsed i\<close> the milliseconds since the start.
  A timeout of -1 waits for ever, so the loop is partial.
\<close>

(* src/src/fediux/node/node_interface.cc:347-371 VMNodeInterface::WaitUntilWorkerReady *)
partial_function (option) wait_ready_loop ::
  "(nat \<Rightarrow> bool) \<Rightarrow> (nat \<Rightarrow> bool) \<Rightarrow> (nat \<Rightarrow> int) \<Rightarrow> int \<Rightarrow> nat \<Rightarrow> retcode option" where
  "wait_ready_loop ready cancelled elapsed timeout_ms i =
     (if ready i then Some SUCCESS
      else if cancelled (Suc i) then Some FAIL
      else if timeout_ms = -1 then wait_ready_loop ready cancelled elapsed timeout_ms (Suc i)
      else if elapsed i > timeout_ms then Some FAIL
      else wait_ready_loop ready cancelled elapsed timeout_ms (Suc i))"

(* src/src/fediux/node/node_interface.cc:336-373 VMNodeInterface::WaitUntilWorkerReady *)
definition iface_WaitUntilWorkerReady ::
  "(nat \<Rightarrow> bool) \<Rightarrow> (nat \<Rightarrow> bool) \<Rightarrow> (nat \<Rightarrow> int) \<Rightarrow> int \<Rightarrow> retcode option" where
  "iface_WaitUntilWorkerReady ready cancelled elapsed timeout_ms =
     (if cancelled 0 then Some FAIL else wait_ready_loop ready cancelled elapsed timeout_ms 0)"

section \<open>What a call gives\<close>

text \<open>The network after a number of failed attempts, and the outcome of the next.\<close>

definition attempt :: "('n \<Rightarrow> 'r option \<times> 'n) \<Rightarrow> 'n \<Rightarrow> nat \<Rightarrow> 'r option \<times> 'n" where
  "attempt call n k = call (((\<lambda>s. snd (call s)) ^^ k) n)"

lemma attempt_0: "attempt call n 0 = call n"
  by (simp add: attempt_def)

lemma attempt_Suc: "attempt call n (Suc k) = attempt call (snd (call n)) k"
  by (simp add: attempt_def funpow_Suc_right del: funpow.simps)

lemma rpc_retry_cases:
  "rpc_retry call 0 n =
     (case attempt call n 0 of (Some r, n') \<Rightarrow> ((SUCCESS, Some r), n') | (None, _) \<Rightarrow>
      (case attempt call n 1 of (Some r, n') \<Rightarrow> ((SUCCESS, Some r), n') | (None, _) \<Rightarrow>
       (case attempt call n 2 of (Some r, n') \<Rightarrow> ((SUCCESS, Some r), n') | (None, n') \<Rightarrow>
          ((FAIL, None), n'))))"
proof -
  obtain a0 n0 a1 n1 a2 n2 where *: "call n = (a0, n0)" "call n0 = (a1, n1)" "call n1 = (a2, n2)"
    by (meson surj_pair)
  then show ?thesis
    by (cases a0; cases a1; cases a2)
       (simp_all add: rpc_retry.simps [of call] retry_max_times_def attempt_0 attempt_Suc
        numeral_2_eq_2)
qed

lemma send_retry_is_rpc_retry:
  "send_retry stub_Send reqs t n =
     (case rpc_retry (stub_Send reqs) t n of
        ((SUCCESS, Some r), n') \<Rightarrow> (r, n') | (_, n') \<Rightarrow> (FAIL, n'))"
proof (induction stub_Send reqs t n rule: send_retry.induct)
  case (1 stub_Send reqs t n)
  show ?case
    using 1 by (subst send_retry.simps, subst rpc_retry.simps)
      (auto split: prod.splits option.splits retcode.splits)
qed

lemma fold_append_data: "fold (\<lambda>r acc. acc @ f r) rs acc = acc @ concat (map f rs)"
  by (induction rs arbitrary: acc) simp_all

lemmas package_simps = buildTaskRequest_def iface_BuildTaskRequest_def iface_BuildTaskResponse_def
  stream_data_def concat_split_packages o_def

lemma stream_of_request [simp]:
  "stream_data (buildTaskRequest ctx role data) = data"
  "stream_meta (buildTaskRequest ctx role data) = (snd (BuildTaskInfo ctx), role)"
  by (simp add: package_simps)
     (cases "split_packages data 0", simp_all add: buildTaskRequest_def stream_meta_def)

lemma concat_responses [simp]:
  "concat (map rs_data (iface_BuildTaskResponse data)) = data"
  "concat (map rq_data (iface_BuildTaskRequest info key data)) = data"
  by (simp_all add: package_simps)

section \<open>What a call promises\<close>

text \<open>
  A control call makes up to three attempts: it fails exactly when all three do, and otherwise
  it returns the reply of the first one that does not. Submitting a task is the exception: its loop
  makes one attempt only, and reports success when that fails.
\<close>

theorem control_call_retries:
  "(let call = stub req; res = grpc_executeTask stub req n
    in (\<exists>k<3. \<exists>r. (\<forall>j. j < k \<longrightarrow> fst (attempt call n j) = None)
            \<and> fst (attempt call n k) = Some r \<and> fst res = (SUCCESS, Some r))
       \<or> (\<forall>j. j < 3 \<longrightarrow> fst (attempt call n j) = None) \<and> fst res = (FAIL, None))
   \<and> (fst (stub req n) = None \<longrightarrow> fst (grpc_submitTask stub req n) = (SUCCESS, None))"
proof
  let ?a = "attempt (stub req) n"
  have lt3: "(\<forall>j. j < 3 \<longrightarrow> P j) \<longleftrightarrow> P 0 \<and> P 1 \<and> P (2 :: nat)" for P
    by (auto simp: numeral_3_eq_3 less_Suc_eq numeral_2_eq_2)
  have lt2: "(\<forall>j. j < 2 \<longrightarrow> P j) \<longleftrightarrow> P 0 \<and> P (1 :: nat)" for P
    by (auto simp: less_Suc_eq numeral_2_eq_2)
  consider r where "fst (?a 0) = Some r" | r where "fst (?a 0) = None" "fst (?a 1) = Some r"
    | r where "fst (?a 0) = None" "fst (?a 1) = None" "fst (?a 2) = Some r"
    | "fst (?a 0) = None" "fst (?a 1) = None" "fst (?a 2) = None"
    by fastforce
  then have "(\<exists>k<3. \<exists>r. (\<forall>j. j < k \<longrightarrow> fst (?a j) = None)
            \<and> fst (?a k) = Some r \<and> fst (grpc_executeTask stub req n) = (SUCCESS, Some r))
       \<or> (\<forall>j. j < 3 \<longrightarrow> fst (?a j) = None) \<and> fst (grpc_executeTask stub req n) = (FAIL, None)"
  proof cases
    case 1
    then show ?thesis
      by (intro disjI1 exI [of _ 0]) (auto simp: grpc_executeTask_def rpc_retry_cases split: prod.splits)
  next
    case 2
    then show ?thesis
      by (intro disjI1 exI [of _ 1]) (auto simp: grpc_executeTask_def rpc_retry_cases split: prod.splits)
  next
    case 3
    then show ?thesis
      by (intro disjI1 exI [of _ 2]) (auto simp: grpc_executeTask_def rpc_retry_cases lt2 split: prod.splits)
  next
    case 4
    then show ?thesis
      by (intro disjI2) (auto simp: grpc_executeTask_def rpc_retry_cases lt3 split: prod.splits)
  qed
  then show "let call = stub req; res = grpc_executeTask stub req n
    in (\<exists>k<3. \<exists>r. (\<forall>j. j < k \<longrightarrow> fst (attempt call n j) = None)
            \<and> fst (attempt call n k) = Some r \<and> fst res = (SUCCESS, Some r))
       \<or> (\<forall>j. j < 3 \<longrightarrow> fst (attempt call n j) = None) \<and> fst res = (FAIL, None)"
    by (simp only: Let_def)
  show "fst (stub req n) = None \<longrightarrow> fst (grpc_submitTask stub req n) = (SUCCESS, None)"
    by (auto simp: grpc_submitTask_def retry_max_times_def split: prod.splits)
qed

text \<open>The witness runs the calls against a network that fails twice and then answers.\<close>

theorem control_call_retries_witness:
  "fst (grpc_executeTask (\<lambda>q n. (if n < 2 then None else Some (q + n), Suc n)) 5 (0 :: nat))
     = (SUCCESS, Some 7)
   \<and> fst (grpc_submitTask (\<lambda>q n. (if n < 2 then None else Some (q + n), Suc n)) 5 (0 :: nat))
     = (SUCCESS, None)"
proof -
  let ?stub = "\<lambda>(q :: nat) (n :: nat). (if n < 2 then None else Some (q + n), Suc n)"
  have "((\<lambda>s. snd (?stub 5 s)) ^^ k) 0 = k" for k
    by (induction k) simp_all
  then have a: "attempt (?stub 5) 0 = ?stub 5"
    by (simp add: attempt_def fun_eq_iff)
  note t = control_call_retries [of ?stub 5 0, unfolded Let_def a]
  have "fst (grpc_executeTask ?stub 5 0) = (SUCCESS, Some 7)"
  proof -
    have "\<not> (\<forall>j::nat. j < 3 \<longrightarrow> fst (?stub 5 j) = None)"
      by (intro notI) (drule spec [of _ 2], simp)
    with t obtain k r where "k < 3" "fst (?stub 5 k) = Some r"
        "fst (grpc_executeTask ?stub 5 0) = (SUCCESS, Some r)" by blast
    then show ?thesis by (cases "k = 2") (auto split: if_splits)
  qed
  with t show ?thesis by simp
qed

text \<open>
  C27: data of any length arrives whole. The requests that carry it have at most 3 MB each, the
  server's handler hands its node the task, the key and the very data, once per attempt that went
  through; but it answers success whatever the node says, so the sender is told of a failed
  delivery only when the call itself fails.
\<close>

theorem sent_data_arrives:
  "iface_Send process (buildTaskRequest (Some info) key data) s
     = (SUCCESS, snd (process info key data s))
   \<and> (\<forall>r. r \<in> set (buildTaskRequest (Some info) key data)
        \<longrightarrow> length (rq_data r) \<le> 3 * 1024 * 1024 \<and> rq_data_len r = length data)"
proof
  show "iface_Send process (buildTaskRequest (Some info) key data) s
     = (SUCCESS, snd (process info key data s))"
    by (simp add: iface_Send_def BuildTaskInfo_def split: prod.splits)
  show "\<forall>r. r \<in> set (buildTaskRequest (Some info) key data)
        \<longrightarrow> length (rq_data r) \<le> 3 * 1024 * 1024 \<and> rq_data_len r = length data"
    using split_packages_bounded [of _ data 0]
    by (auto simp: buildTaskRequest_def LIMITED_PACKAGE_SIZE_def)
qed

theorem sent_data_arrives_witness:
  "iface_Send (\<lambda>info key data s. (FAIL, s @ [(key, data)]))
     (buildTaskRequest (Some empty_task_ctx) ''k'' (replicate 4000000 CHR ''x'')) []
   = (SUCCESS, [(''k'', replicate 4000000 CHR ''x'')])"
  using sent_data_arrives [of "\<lambda>info key data s. (FAIL, s @ [(key, data)])" empty_task_ctx "''k''"
      "replicate 4000000 CHR ''x''" "[]"] by (simp only: snd_conv append_Nil)

text \<open>
  A send-receive over a working connection gives the caller the node's answer to its data. When
  the node refuses the data or has none to send, the caller is told that the call succeeded, with
  nothing received.
\<close>

theorem send_recv_answers:
  "grpc_sendRecv (\<lambda>reqs s. let (rs, s') = iface_SendRecv process answer reqs s in ((rs, True), s'))
      (Some info) key data [] s
   = (let (ret, s1) = process info key data s
      in if ret = FAIL then ((SUCCESS, []), s1)
         else let ((ret2, out), s2) = answer info key s1
              in ((SUCCESS, if ret2 = FAIL then [] else out), s2))"
  by (auto simp: grpc_sendRecv_def iface_SendRecv_def BuildTaskInfo_def fold_append_data
      fail_response_def Let_def split: prod.splits)

end
