(* ===== verification/Express_Columns.thy ===== *)
theory Express_Columns
  imports Str_Util "HOL-Library.List_Lexorder" "HOL-Library.Char_ord"
begin

text \<open>
  The columns of an expression (executor/express.cc): \<^verbatim>\<open>ColumnConfig\<close>, which keeps the owner and the
  type of each column, and \<^verbatim>\<open>FeedDict\<close>, which keeps the values of the local ones. A \<^verbatim>\<open>std::map\<close> is
  an association list with distinct keys; a 64-bit integer is a word; a double is a type \<open>'d\<close> of
  the model, with the conversion \<open>to_fp\<close> from integers as a parameter. \<^verbatim>\<open>RaiseException\<close> throws.
  The lemmas say that whatever is imported, in whatever order, all stored columns are local and
  have one common length, which is what the evaluation of an expression rests on.
\<close>

section \<open>Column configuration\<close>

(* src/src/fediux/executor/express.h:134-134 ColDtype *)
datatype coltype = INT64 | FP64

(* src/src/fediux/executor/express.h:132-156 ColumnConfig *)
record col_config =
  cfg_party :: u32
  col_owner :: "(string \<times> u32) list"
  col_dtype :: "(string \<times> coltype) list"
  local_col :: "(string \<times> bool) list"

(* src/src/fediux/executor/express.h:136-136 ColumnConfig::ColumnConfig *)
definition new_col_config :: "u32 \<Rightarrow> col_config" where
  "new_col_config p = \<lparr>cfg_party = p, col_owner = [], col_dtype = [], local_col = []\<rparr>"

text \<open>\<^verbatim>\<open>std::map::insert\<close> leaves an existing entry alone.\<close>

definition al_insert :: "'k \<Rightarrow> 'v \<Rightarrow> ('k \<times> 'v) list \<Rightarrow> ('k \<times> 'v) list" where
  "al_insert k v al = (case map_of al k of None \<Rightarrow> al @ [(k, v)] | Some _ \<Rightarrow> al)"

(* src/src/fediux/executor/express.cc:21-34 ColumnConfig::importColumnDtype *)
definition cfg_importColumnDtype :: "string \<Rightarrow> coltype \<Rightarrow> col_config \<Rightarrow> int \<times> col_config" where
  "cfg_importColumnDtype col dtype c =
     (case map_of (col_dtype c) col of
        Some _ \<Rightarrow> (-1, c)
      | None \<Rightarrow> (0, c\<lparr>col_dtype := al_insert col dtype (col_dtype c)\<rparr>))"

(* src/src/fediux/executor/express.cc:36-49 ColumnConfig::importColumnOwner *)
definition cfg_importColumnOwner :: "string \<Rightarrow> u32 \<Rightarrow> col_config \<Rightarrow> (int \<times> col_config) cpp" where
  "cfg_importColumnOwner col party c =
     (case map_of (col_owner c) col of
        Some p \<Rightarrow> Throw (''Column '' @ col @ [CHR 0x27] @ ''s owner attr is imported, value is ''
                         @ dec_string (unat p) @ ''.'')
      | None \<Rightarrow> Ret (0, c\<lparr>col_owner := al_insert col party (col_owner c)\<rparr>))"

(* src/src/fediux/executor/express.cc:51-63 ColumnConfig::getColumnDtype *)
definition cfg_getColumnDtype :: "string \<Rightarrow> col_config \<Rightarrow> (int \<times> coltype) cpp" where
  "cfg_getColumnDtype col c =
     (case map_of (col_dtype c) col of
        None \<Rightarrow> Throw (''Can'' @ [CHR 0x27] @ ''t find dtype attr for column '' @ col @ ''.'')
      | Some dtype \<Rightarrow> Ret (0, dtype))"

text \<open>The columns are gone through in the order of their names: the first without a type is named.\<close>

(* src/src/fediux/executor/express.cc:65-110 ColumnConfig::resolveLocalColumn *)
definition cfg_resolveLocalColumn :: "col_config \<Rightarrow> (int \<times> col_config) cpp" where
  "cfg_resolveLocalColumn c =
     (if length (col_dtype c) \<noteq> length (col_owner c)
      then Throw (''Count of owner attr and dtype attr must be the same.col_dtype size: '' @ dec_string (length (col_dtype c)) @
        '' col_owner size: '' @ dec_string (length (col_owner c)))
      else if list_ex (\<lambda>(col, _). map_of (col_dtype c) col = None) (col_owner c)
      then (let col = hd (sort (map fst (filter (\<lambda>(col, _). map_of (col_dtype c) col = None) (col_owner c))))
        in Throw (''Import column '' @ col @ [CHR 0x27] @ ''s owner attr, but don'' @ [CHR 0x27] @ ''t import it'' @
             [CHR 0x27] @ ''s dtype attr.''))
      else Ret (0, c\<lparr>local_col :=
             fold (\<lambda>(col, p). al_insert col (p = cfg_party c)) (col_owner c) (local_col c)\<rparr>))"

(* src/src/fediux/executor/express.cc:112-124 ColumnConfig::getColumnLocality *)
definition cfg_getColumnLocality :: "string \<Rightarrow> col_config \<Rightarrow> (int \<times> bool) cpp" where
  "cfg_getColumnLocality col c =
     (case map_of (local_col c) col of
        None \<Rightarrow> Throw (''Can'' @ [CHR 0x27] @ ''t find column locality by column name '' @ col @ ''.'')
      | Some is_local \<Rightarrow> Ret (0, is_local))"

(* src/src/fediux/executor/express.cc:126-137 ColumnConfig::hasFP64Column *)
definition cfg_hasFP64Column :: "col_config \<Rightarrow> bool" where
  "cfg_hasFP64Column c = list_ex (\<lambda>(_, dtype). dtype = FP64) (col_dtype c)"

(* src/src/fediux/executor/express.cc:139-145 ColumnConfig::Clean *)
definition cfg_Clean :: "col_config \<Rightarrow> col_config" where
  "cfg_Clean c = c\<lparr>col_owner := [], col_dtype := [], local_col := []\<rparr>"

section \<open>Column values\<close>

(* src/src/fediux/executor/express.h:159-194 FeedDict *)
record 'd feed_dict =
  float_run :: bool
  val_count :: int
  fp64_col :: "(string \<times> 'd list) list"
  int64_col :: "(string \<times> i64 list) list"

(* src/src/fediux/executor/express.h:161-165 FeedDict::FeedDict *)
definition new_feed_dict :: "bool \<Rightarrow> 'd feed_dict" where
  "new_feed_dict fr = \<lparr>float_run = fr, val_count = -1, fp64_col = [], int64_col = []\<rparr>"

(* src/src/fediux/executor/express.h:179-181 FeedDict::getColumnValuesCount *)
definition getColumnValuesCount :: "'d feed_dict \<Rightarrow> u32" where
  "getColumnValuesCount f = word_of_int (val_count f)"

(* src/src/fediux/executor/express.cc:153-167 FeedDict::checkLocalColumn *)
definition fd_checkLocalColumn :: "col_config \<Rightarrow> string \<Rightarrow> int cpp" where
  "fd_checkLocalColumn c col =
     cbind (cfg_getColumnLocality col c) (\<lambda>(ret, is_local).
       if ret \<noteq> 0 then Throw (''Get column locality by column name '' @ col @ '' failed.'')
       else if \<not> is_local then Ret 0 else Ret 0)"

(* src/src/fediux/executor/express.cc:169-179 FeedDict::setOrCheckValueCount *)
definition setOrCheckValueCount :: "int \<Rightarrow> 'd feed_dict \<Rightarrow> int \<times> 'd feed_dict" where
  "setOrCheckValueCount new_count f =
     (let f = (if val_count f = -1 then f\<lparr>val_count := new_count\<rparr> else f)
      in if val_count f \<noteq> new_count then (-1, f) else (0, f))"

text \<open>The imports return the vector too: on success its elements were moved out of it.\<close>

(* src/src/fediux/executor/express.cc:244-281 FeedDict::importColumnValues *)
definition fd_import_fp64 ::
  "col_config \<Rightarrow> string \<Rightarrow> 'd list \<Rightarrow> 'd feed_dict \<Rightarrow> (int \<times> 'd list \<times> 'd feed_dict) cpp" where
  "fd_import_fp64 c col vec f =
     cbind (cfg_getColumnLocality col c) (\<lambda>(ret, is_local).
       if ret < 0 then Ret (-1, vec, f)
       else if \<not> is_local then Ret (-1, vec, f)
       else let (ret, f) = setOrCheckValueCount (int (length vec)) f in
         if ret \<noteq> 0 then Ret (-2, vec, f)
         else if \<not> float_run f then Ret (-1, vec, f)
         else if map_of (fp64_col f) col \<noteq> None then Ret (-2, vec, f)
         else Ret (0, [], f\<lparr>fp64_col := al_insert col vec (fp64_col f)\<rparr>))"

text \<open>
  In a floating point run an integer column is converted, imported as such, and then inserted a
  second time from the vector whose elements were moved out: the second insertion does nothing.
\<close>

(* src/src/fediux/executor/express.cc:181-242 FeedDict::importColumnValues *)
definition fd_import_i64 ::
  "(i64 \<Rightarrow> 'd) \<Rightarrow> col_config \<Rightarrow> string \<Rightarrow> i64 list \<Rightarrow> 'd feed_dict \<Rightarrow>
   (int \<times> i64 list \<times> 'd feed_dict) cpp" where
  "fd_import_i64 to_fp c col vec f =
     cbind (cfg_getColumnLocality col c) (\<lambda>(ret, is_local).
       if ret < 0 then Ret (-1, vec, f)
       else if \<not> is_local then Ret (-1, vec, f)
       else cbind (cfg_getColumnDtype col c) (\<lambda>(ret, dtype).
         if ret \<noteq> 0 then Ret (-2, vec, f)
         else if dtype \<noteq> INT64 then Ret (-2, vec, f)
         else let (ret, f) = setOrCheckValueCount (int (length vec)) f in
           if ret \<noteq> 0 then Ret (-2, vec, f)
           else if float_run f then
             cbind (fd_import_fp64 c col (map to_fp vec) f) (\<lambda>(ret, moved, f).
               if ret \<noteq> 0 then Ret (-3, vec, f)
               else Ret (0, [], f\<lparr>fp64_col := al_insert col moved (fp64_col f)\<rparr>))
           else if map_of (int64_col f) col \<noteq> None then Ret (-4, vec, f)
           else Ret (0, [], f\<lparr>int64_col := al_insert col vec (int64_col f)\<rparr>)))"

(* src/src/fediux/executor/express.cc:283-313 FeedDict::getColumnValues *)
definition fd_get_i64 :: "col_config \<Rightarrow> string \<Rightarrow> 'd feed_dict \<Rightarrow> (int \<times> i64 list) cpp" where
  "fd_get_i64 c col f =
     cbind (cfg_getColumnLocality col c) (\<lambda>(ret, is_local).
       if ret < 0 then Ret (-1, [])
       else if \<not> is_local then Ret (-1, [])
       else if float_run f then Ret (-1, [])
       else case map_of (int64_col f) col of None \<Rightarrow> Ret (-2, []) | Some vec \<Rightarrow> Ret (0, vec))"

(* src/src/fediux/executor/express.cc:315-345 FeedDict::getColumnValues *)
definition fd_get_fp64 :: "col_config \<Rightarrow> string \<Rightarrow> 'd feed_dict \<Rightarrow> (int \<times> 'd list) cpp" where
  "fd_get_fp64 c col f =
     cbind (cfg_getColumnLocality col c) (\<lambda>(ret, is_local).
       if ret < 0 then Ret (-1, [])
       else if \<not> is_local then Ret (-1, [])
       else if \<not> float_run f then Ret (-1, [])
       else case map_of (fp64_col f) col of None \<Rightarrow> Ret (-2, []) | Some vec \<Rightarrow> Ret (0, vec))"

(* src/src/fediux/executor/express.cc:347-352 FeedDict::Clean *)
definition fd_Clean :: "'d feed_dict \<Rightarrow> 'd feed_dict" where
  "fd_Clean f = f\<lparr>float_run := False, fp64_col := [], int64_col := []\<rparr>"

section \<open>Association lists\<close>

lemma map_of_al_insert:
  "map_of (al_insert k v al) k' = (case map_of al k' of Some w \<Rightarrow> Some w | None \<Rightarrow>
     if k' = k then Some v else None)"
  by (auto simp: al_insert_def map_add_def split: option.splits)

lemma al_insert_present [simp]: "map_of al k = Some w \<Longrightarrow> al_insert k v al = al"
  by (simp add: al_insert_def)

lemma set_al_insert: "set (al_insert k v al) \<subseteq> insert (k, v) (set al)"
  by (auto simp: al_insert_def split: option.splits)

lemma distinct_al_insert: "distinct (map fst al) \<Longrightarrow> distinct (map fst (al_insert k v al))"
  by (auto simp: al_insert_def map_of_eq_None_iff split: option.splits)

section \<open>Configuration\<close>

text \<open>After a resolve, a column is local exactly when its owner is the party itself.\<close>

lemma map_of_fold_al_insert:
  "distinct (map fst xs) \<Longrightarrow>
   map_of (fold (\<lambda>(col, p). al_insert col (g p)) xs al) k =
     (case map_of al k of Some w \<Rightarrow> Some w | None \<Rightarrow> map_option g (map_of xs k))"
proof (induction xs arbitrary: al)
  case Nil
  then show ?case by (simp split: option.splits)
next
  case (Cons x xs)
  obtain col p where x: "x = (col, p)" by fastforce
  from Cons.prems x have "map_of xs col = None"
    by (simp add: map_of_eq_None_iff image_iff)
  with Cons x show ?case by (auto simp: map_of_al_insert split: option.splits)
qed

lemma resolve_locality:
  assumes "cfg_resolveLocalColumn c = Ret (r, c')" "distinct (map fst (col_owner c))" "local_col c = []"
  shows "r = 0 \<and> map_of (local_col c') col = map_option (\<lambda>p. p = cfg_party c) (map_of (col_owner c) col)"
  using assms map_of_fold_al_insert [OF assms(2), of "\<lambda>p. p = cfg_party c" "[]" col]
  by (auto simp: cfg_resolveLocalColumn_def split: if_splits)

section \<open>The values kept\<close>

text \<open>
  The values a party holds are well formed: each stored column is local, columns of the other
  number type are absent, and all have the length that was counted.
\<close>

definition fd_wf :: "col_config \<Rightarrow> 'd feed_dict \<Rightarrow> bool" where
  "fd_wf c f \<longleftrightarrow>
     (\<forall>(col, v) \<in> set (fp64_col f). int (length v) = val_count f \<and> map_of (local_col c) col = Some True)
     \<and> (\<forall>(col, v) \<in> set (int64_col f). int (length v) = val_count f \<and> map_of (local_col c) col = Some True)
     \<and> (if float_run f then int64_col f = [] else fp64_col f = [])
     \<and> distinct (map fst (fp64_col f)) \<and> distinct (map fst (int64_col f)) \<and> -1 \<le> val_count f"

lemma fd_wf_new: "fd_wf c (new_feed_dict fr)"
  by (simp add: fd_wf_def new_feed_dict_def)

lemma setOrCheck_wf:
  assumes "setOrCheckValueCount n f = (r, f')" "fd_wf c f" "0 \<le> n"
  shows "fd_wf c f' \<and> float_run f' = float_run f \<and> fp64_col f' = fp64_col f
    \<and> int64_col f' = int64_col f \<and> (r = 0 \<longrightarrow> val_count f' = n)
    \<and> (val_count f \<noteq> -1 \<longrightarrow> val_count f' = val_count f)"
proof (cases "val_count f = -1")
  case True
  with assms(2) have "fp64_col f = []"
    unfolding fd_wf_def by (cases "fp64_col f") auto
  moreover from True assms(2) have "int64_col f = []"
    unfolding fd_wf_def by (cases "int64_col f") auto
  ultimately have "fp64_col f = []" "int64_col f = []" by auto
  with True assms show ?thesis
    by (auto simp: setOrCheckValueCount_def Let_def fd_wf_def split: if_splits)
next
  case False
  with assms show ?thesis
    by (auto simp: setOrCheckValueCount_def Let_def split: if_splits)
qed

lemma fd_wf_insert_fp64:
  "fd_wf c f \<Longrightarrow> float_run f \<Longrightarrow> int (length v) = val_count f \<Longrightarrow>
   map_of (local_col c) col = Some True \<Longrightarrow> fd_wf c (f\<lparr>fp64_col := al_insert col v (fp64_col f)\<rparr>)"
  using set_al_insert [of col v "fp64_col f"] distinct_al_insert [of "fp64_col f" col v]
  by (fastforce simp: fd_wf_def)

lemma fd_wf_insert_i64:
  "fd_wf c f \<Longrightarrow> \<not> float_run f \<Longrightarrow> int (length v) = val_count f \<Longrightarrow>
   map_of (local_col c) col = Some True \<Longrightarrow> fd_wf c (f\<lparr>int64_col := al_insert col v (int64_col f)\<rparr>)"
  using set_al_insert [of col v "int64_col f"] distinct_al_insert [of "int64_col f" col v]
  by (fastforce simp: fd_wf_def)

lemma cfg_getColumnLocality_Ret [simp]:
  "cfg_getColumnLocality col c = Ret (r, b) \<longleftrightarrow> r = 0 \<and> map_of (local_col c) col = Some b"
  by (auto simp: cfg_getColumnLocality_def split: option.splits)

lemma cfg_getColumnDtype_Ret [simp]:
  "cfg_getColumnDtype col c = Ret (r, t) \<longleftrightarrow> r = 0 \<and> map_of (col_dtype c) col = Some t"
  by (auto simp: cfg_getColumnDtype_def split: option.splits)

lemma fd_import_fp64_wf:
  assumes "fd_import_fp64 c col vec f = Ret (r, vec', f')" "fd_wf c f"
  shows "fd_wf c f' \<and> float_run f' = float_run f \<and> (val_count f \<noteq> -1 \<longrightarrow> val_count f' = val_count f)
    \<and> (r = 0 \<longrightarrow> map_of (fp64_col f') col = Some vec \<and> val_count f' = int (length vec))"
proof -
  obtain b where b: "map_of (local_col c) col = Some b"
    using assms(1) by (auto simp: fd_import_fp64_def cbind_Ret_iff)
  obtain s f1 where s: "setOrCheckValueCount (int (length vec)) f = (s, f1)" by fastforce
  note wf1 = setOrCheck_wf [OF s assms(2)]
  show ?thesis
  proof (cases "b \<and> s = 0 \<and> float_run f1 \<and> map_of (fp64_col f1) col = None")
    case True
    then have "f' = f1\<lparr>fp64_col := al_insert col vec (fp64_col f1)\<rparr>" "r = 0"
      using assms(1) b s by (auto simp: fd_import_fp64_def cbind_Ret_iff)
    with True wf1 b fd_wf_insert_fp64 [of c f1 vec col] show ?thesis
      by (auto simp: map_of_al_insert)
  next
    case False
    then have "f' = f \<or> f' = f1" "r \<noteq> 0"
      using assms(1) b s by (auto simp: fd_import_fp64_def cbind_Ret_iff split: if_splits)
    with wf1 assms(2) show ?thesis by auto
  qed
qed

lemma fd_import_i64_wf:
  assumes "fd_import_i64 to_fp c col vec f = Ret (r, vec', f')" "fd_wf c f"
  shows "fd_wf c f' \<and> float_run f' = float_run f \<and> (val_count f \<noteq> -1 \<longrightarrow> val_count f' = val_count f)
    \<and> (r = 0 \<longrightarrow> val_count f' = int (length vec) \<and>
         (if float_run f then map_of (fp64_col f') col = Some (map to_fp vec)
          else map_of (int64_col f') col = Some vec))"
proof -
  obtain b where b: "map_of (local_col c) col = Some b"
    using assms(1) by (auto simp: fd_import_i64_def cbind_Ret_iff)
  obtain s f1 where s: "setOrCheckValueCount (int (length vec)) f = (s, f1)" by fastforce
  note wf1 = setOrCheck_wf [OF s assms(2)]
  consider (early) "f' = f \<or> f' = f1" "r \<noteq> 0"
    | (fp) q moved f2 where "b" "s = 0" "float_run f1"
        "fd_import_fp64 c col (map to_fp vec) f1 = Ret (q, moved, f2)"
        "if q \<noteq> 0 then f' = f2 \<and> r = -3
         else f' = f2\<lparr>fp64_col := al_insert col moved (fp64_col f2)\<rparr> \<and> r = 0"
    | (int) "b" "s = 0" "\<not> float_run f1" "map_of (int64_col f1) col = None"
        "f' = f1\<lparr>int64_col := al_insert col vec (int64_col f1)\<rparr>" "r = 0"
    using assms(1) b s
    by (auto simp: fd_import_i64_def cbind_Ret_iff split: if_splits)
  then show ?thesis
  proof cases
    case early
    with wf1 assms(2) show ?thesis by auto
  next
    case fp
    note w = fd_import_fp64_wf [OF fp(4)]
    from w wf1 fp have "q = 0 \<Longrightarrow> al_insert col moved (fp64_col f2) = fp64_col f2" by simp
    with w wf1 fp show ?thesis by (auto split: if_splits)
  next
    case int
    with wf1 b fd_wf_insert_i64 [of c f1 vec col] show ?thesis
      by (auto simp: map_of_al_insert)
  qed
qed

datatype 'd import = ImportI64 string "i64 list" | ImportFP64 string "'d list"

(* src/src/fediux/executor/express.h:294-299 LocalExpressExecutor::importColumnValues *)
fun run_imports ::
  "(i64 \<Rightarrow> 'd) \<Rightarrow> col_config \<Rightarrow> 'd import list \<Rightarrow> 'd feed_dict \<Rightarrow> 'd feed_dict cpp" where
  "run_imports to_fp c [] f = Ret f"
| "run_imports to_fp c (ImportI64 col vec # is) f =
     cbind (fd_import_i64 to_fp c col vec f) (\<lambda>(r, _, f'). run_imports to_fp c is f')"
| "run_imports to_fp c (ImportFP64 col vec # is) f =
     cbind (fd_import_fp64 c col vec f) (\<lambda>(r, _, f'). run_imports to_fp c is f')"

lemma run_imports_wf:
  "run_imports to_fp c is f = Ret f' \<Longrightarrow> fd_wf c f \<Longrightarrow> fd_wf c f' \<and> float_run f' = float_run f"
proof (induction to_fp c "is" f arbitrary: f' rule: run_imports.induct)
  case (2 to_fp c col vec "is" f)
  then show ?case by (fastforce simp: cbind_Ret_iff dest: fd_import_i64_wf)
next
  case (3 to_fp c col vec "is" f)
  then show ?case by (fastforce simp: cbind_Ret_iff dest: fd_import_fp64_wf)
qed simp

lemma fd_get_i64_Ret:
  "fd_get_i64 c col f = Ret (0, v) \<longleftrightarrow>
     \<not> float_run f \<and> map_of (local_col c) col = Some True \<and> map_of (int64_col f) col = Some v"
  by (auto simp: fd_get_i64_def cbind_Ret_iff split: option.splits if_splits)

lemma fd_get_fp64_Ret:
  "fd_get_fp64 c col f = Ret (0, v) \<longleftrightarrow>
     float_run f \<and> map_of (local_col c) col = Some True \<and> map_of (fp64_col f) col = Some v"
  by (auto simp: fd_get_fp64_def cbind_Ret_iff split: option.splits if_splits)

lemma fd_wf_get:
  "fd_wf c f \<Longrightarrow> map_of (int64_col f) col = Some v \<Longrightarrow> int (length v) = val_count f"
  "fd_wf c f \<Longrightarrow> map_of (fp64_col f) col = Some w \<Longrightarrow> int (length w) = val_count f"
  by (auto simp: fd_wf_def dest!: map_of_SomeD)

text \<open>
  Whatever a party imports, in whatever order and whether or not single imports fail, the
  columns that can be read back afterwards are its own and all have the same length, and that
  length is the number of rows the evaluation works with.
\<close>

theorem imported_columns_have_one_length:
  assumes "run_imports to_fp c is (new_feed_dict False) = Ret f"
    "fd_get_i64 c col f = Ret (0, v)" "fd_get_i64 c col' f = Ret (0, v')"
    "length v < 2 ^ 32"
  shows "length v = length v' \<and> unat (getColumnValuesCount f) = length v
    \<and> map_of (local_col c) col = Some True"
proof -
  have wf: "fd_wf c f"
    using run_imports_wf [OF assms(1) fd_wf_new] by simp
  from assms(2,3) have
    "map_of (int64_col f) col = Some v" "map_of (int64_col f) col' = Some v'"
    "map_of (local_col c) col = Some True"
    by (simp_all add: fd_get_i64_Ret)
  moreover from this(1,2) have n: "int (length v) = val_count f" "int (length v') = val_count f"
    using fd_wf_get(1) [OF wf] by blast+
  moreover have "unat (getColumnValuesCount f) = length v"
    using assms(4) by (simp add: getColumnValuesCount_def n(1) [symmetric] unat_of_nat take_bit_nat_eq_self)
  ultimately show ?thesis by simp
qed

theorem imported_columns_have_one_length_witness:
  "\<exists>f. run_imports id \<lparr>cfg_party = 0, col_owner = [(''a'', 0), (''b'', 0)],
        col_dtype = [(''a'', INT64), (''b'', INT64)], local_col = [(''a'', True), (''b'', True)]\<rparr>
        [ImportI64 ''a'' [1, 2], ImportI64 ''b'' [3], ImportI64 ''b'' [3, 4]] (new_feed_dict False)
      = Ret f \<and> unat (getColumnValuesCount f) = 2"
proof -
  let ?c = "\<lparr>cfg_party = 0, col_owner = [(''a'', 0), (''b'', 0)],
    col_dtype = [(''a'', INT64), (''b'', INT64)], local_col = [(''a'', True), (''b'', True)]\<rparr>"
  obtain f where f: "run_imports id ?c
      [ImportI64 ''a'' [1, 2], ImportI64 ''b'' [3], ImportI64 ''b'' [3, 4]] (new_feed_dict False) = Ret f"
    "fd_get_i64 ?c ''a'' f = Ret (0, [1, 2])" "fd_get_i64 ?c ''b'' f = Ret (0, [3, 4])"
    by (simp add: fd_import_i64_def cfg_getColumnLocality_def cfg_getColumnDtype_def
        setOrCheckValueCount_def new_feed_dict_def al_insert_def fd_get_i64_def Let_def
        del: cfg_getColumnLocality_Ret cfg_getColumnDtype_Ret)
  from imported_columns_have_one_length [OF f] f(1) show ?thesis by simp
qed

end
