(* ===== verification/Express_Parse.thy ===== *)
theory Express_Parse
  imports Express_Columns
begin

text \<open>
  The parser of expressions (executor/express.cc): infix text to postfix tokens by operator
  precedence, and the check of the result. The text is read by index up to its terminating zero;
  reading on behind that is undefined. The lemmas say that the parser implements the grammar of
  arithmetic expressions: products bind closer than sums, operators of one precedence associate
  to the left, parentheses group, and \<open>(-x)\<close> is a negative constant.
\<close>

section \<open>Parser\<close>

(* src/src/fediux/executor/express.cc:364-369 MPCExpressExecutor::isOperator *)
definition isOperatorChar :: "char \<Rightarrow> bool" where
  "isOperatorChar op \<longleftrightarrow> op = CHR ''+'' \<or> op = CHR ''-'' \<or> op = CHR ''*'' \<or> op = CHR ''/''"

(* src/src/fediux/executor/express.cc:371-383 MPCExpressExecutor::isOperator *)
definition isOperator :: "string \<Rightarrow> bool" where
  "isOperator op \<longleftrightarrow> op = ''+'' \<or> op = ''-'' \<or> op = ''*'' \<or> op = ''/''"

(* src/src/fediux/executor/express.cc:385-403 MPCExpressExecutor::Priority *)
definition Priority :: "char \<Rightarrow> int" where
  "Priority c = (if c = CHR ''+'' \<or> c = CHR ''-'' then 1
                 else if c = CHR ''*'' \<or> c = CHR ''/'' then 2 else 0)"

text \<open>The first character of \<^verbatim>\<open>c_str()\<close>; stacks are lists with the top first.\<close>

definition c_str0 :: "string \<Rightarrow> char" where
  "c_str0 s = (case s of [] \<Rightarrow> CHR 0x00 | c # _ \<Rightarrow> c)"

(* src/src/fediux/executor/express.cc:452-455 MPCExpressExecutor::parseExpress *)
record pstate =
  p_temp :: string
  p_ops :: "string list"
  p_out :: "string list"

(* src/src/fediux/executor/express.cc:494-497 MPCExpressExecutor::parseExpress *)
definition flush_temp :: "pstate \<Rightarrow> pstate" where
  "flush_temp st = (if p_temp st \<noteq> [] then st\<lparr>p_out := p_temp st # p_out st, p_temp := []\<rparr> else st)"

text \<open>An operator pops what binds at least as close, down to a parenthesis.\<close>

(* src/src/fediux/executor/express.cc:499-513 MPCExpressExecutor::parseExpress *)
fun push_operator :: "char \<Rightarrow> string list \<Rightarrow> string list \<Rightarrow> string list \<times> string list" where
  "push_operator c [] out = ([[c]], out)"
| "push_operator c (op # ops) out =
     (if c_str0 op = CHR ''('' then ([c] # op # ops, out)
      else if Priority c > Priority (c_str0 op) then ([c] # op # ops, out)
      else push_operator c ops (op # out))"

text \<open>A closing parenthesis pops down to the opening one; a pending token goes out first.\<close>

(* src/src/fediux/executor/express.cc:520-531 MPCExpressExecutor::parseExpress *)
fun close_paren :: "pstate \<Rightarrow> string list \<Rightarrow> pstate" where
  "close_paren st [] = st\<lparr>p_ops := []\<rparr>"
| "close_paren st (op # ops) =
     (if c_str0 op = CHR ''('' then st\<lparr>p_ops := ops\<rparr>
      else let st = flush_temp st in close_paren (st\<lparr>p_out := op # p_out st\<rparr>) ops)"

(* src/src/fediux/executor/express.cc:492-535 MPCExpressExecutor::parseExpress *)
definition parse_char :: "char \<Rightarrow> pstate \<Rightarrow> pstate" where
  "parse_char c st =
     (if isOperatorChar c then
        let st = flush_temp st; (ops, out) = push_operator c (p_ops st) (p_out st)
        in st\<lparr>p_ops := ops, p_out := out\<rparr>
      else if c = CHR ''('' then st\<lparr>p_ops := ''('' # p_ops st\<rparr>
      else if c = CHR '')'' then close_paren st (p_ops st)
      else st\<lparr>p_temp := p_temp st @ [c]\<rparr>)"

text \<open>
  The loop over the text: \<open>prev\<close> is \<open>expr[i - 1]\<close>, or \<open>None\<close> at the start. A minus at the start
  takes all characters up to the next operator, a minus after an opening parenthesis all up to
  the closing one, and neither looks for the end of the text.
\<close>

(* src/src/fediux/executor/express.cc:457-536 MPCExpressExecutor::parseExpress *)
function parse_loop :: "char option \<Rightarrow> string \<Rightarrow> pstate \<Rightarrow> pstate cpp" where
  "parse_loop prev [] st = Ret (flush_temp st)"
| "parse_loop prev (c # cs) st =
     (if c = CHR ''-'' \<and> prev = None then
        let t = takeWhile (\<lambda>x. \<not> isOperatorChar x) cs; rest = dropWhile (\<lambda>x. \<not> isOperatorChar x) cs
        in if rest = [] then Undef
           else parse_loop (Some (last (c # t))) rest (st\<lparr>p_temp := p_temp st @ c # t\<rparr>)
      else if c = CHR ''-'' \<and> prev = Some CHR ''('' then
        let t = takeWhile (\<lambda>x. x \<noteq> CHR '')'') cs; rest = dropWhile (\<lambda>x. x \<noteq> CHR '')'') cs
        in if rest = [] then Undef
           else parse_loop (Some (last (c # t))) rest (st\<lparr>p_temp := p_temp st @ c # t\<rparr>)
      else parse_loop (Some c) cs (parse_char c st))"
  by pat_completeness auto
termination
  by (relation "measure (\<lambda>(prev, cs, st). length cs)")
     (auto simp: less_Suc_eq_le length_dropWhile_le)

declare parse_loop.simps(2) [simp del]

text \<open>
  The output is moved on top of the operators that are left, which makes one stack of both. The
  member \<open>suffix_stk_\<close> is also the operator stack while the text is read.
\<close>

(* src/src/fediux/executor/express.cc:450-555 MPCExpressExecutor::parseExpress *)
definition parseExpress :: "string \<Rightarrow> string list \<Rightarrow> string list cpp" where
  "parseExpress expr suffix_stk =
     cbind (parse_loop None expr \<lparr>p_temp = [], p_ops = suffix_stk, p_out = []\<rparr>)
       (\<lambda>st. Ret (rev (p_out st) @ p_ops st))"

section \<open>Check\<close>

(* src/src/fediux/executor/express.cc:405-448 MPCExpressExecutor::checkExpress *)
definition checkExpress :: "string list \<Rightarrow> bool" where
  "checkExpress suffix_stk =
     (if list_ex (\<lambda>s. s = ''('' \<or> s = '')'') suffix_stk then False
      else let num_op = (of_nat (length (filter isOperator suffix_stk)) :: 16 word) in
        if (of_nat (length suffix_stk) :: 64 word) - of_nat (unat num_op)
             \<noteq> of_nat (unat num_op + 1) then False
        else if list_ex (\<lambda>s. CHR ''('' \<in> set s \<or> CHR '')'' \<in> set s) suffix_stk then False
        else True)"

text \<open>Importing leaves the postfix on the stack, and the text in \<open>expr_\<close> when it is accepted.\<close>

(* src/src/fediux/executor/express.cc:600-610 MPCExpressExecutor::importExpress *)
definition importExpress :: "string \<Rightarrow> string list \<times> string \<Rightarrow> (int \<times> string list \<times> string) cpp" where
  "importExpress expr s =
     cbind (parseExpress expr (fst s)) (\<lambda>suffix.
       if \<not> checkExpress suffix then Ret (-1, suffix, snd s) else Ret (0, suffix, expr))"

section \<open>Grammar\<close>

datatype syn = Name string | NegConst string | Par syn | Bin char syn syn

primrec syn_text :: "syn \<Rightarrow> string" where
  "syn_text (Name s) = s"
| "syn_text (NegConst s) = ''(-'' @ s @ '')''"
| "syn_text (Par e) = ''('' @ syn_text e @ '')''"
| "syn_text (Bin c l r) = syn_text l @ c # syn_text r"

primrec postfix :: "syn \<Rightarrow> string list" where
  "postfix (Name s) = [s]"
| "postfix (NegConst s) = [CHR ''-'' # s]"
| "postfix (Par e) = postfix e"
| "postfix (Bin c l r) = postfix l @ postfix r @ [[c]]"

primrec syn_level :: "syn \<Rightarrow> int" where
  "syn_level (Name s) = 3"
| "syn_level (NegConst s) = 3"
| "syn_level (Par e) = 3"
| "syn_level (Bin c l r) = Priority c"

definition plain_char :: "char \<Rightarrow> bool" where
  "plain_char c \<longleftrightarrow> \<not> isOperatorChar c \<and> c \<noteq> CHR ''('' \<and> c \<noteq> CHR '')''"

primrec wf_syn :: "syn \<Rightarrow> bool" where
  "wf_syn (Name s) \<longleftrightarrow> s \<noteq> [] \<and> list_all plain_char s"
| "wf_syn (NegConst s) \<longleftrightarrow> s \<noteq> [] \<and> list_all plain_char s"
| "wf_syn (Par e) \<longleftrightarrow> wf_syn e"
| "wf_syn (Bin c l r) \<longleftrightarrow> isOperatorChar c \<and> Priority c \<le> syn_level l \<and> Priority c < syn_level r
     \<and> wf_syn l \<and> wf_syn r"

primrec num_ops :: "syn \<Rightarrow> nat" where
  "num_ops (Name s) = 0"
| "num_ops (NegConst s) = 0"
| "num_ops (Par e) = num_ops e"
| "num_ops (Bin c l r) = Suc (num_ops l + num_ops r)"

section \<open>The parser follows the grammar\<close>

lemma c_str0_Cons [simp]: "c_str0 (c # s) = c"
  by (simp add: c_str0_def)

lemma flush_temp_simps [simp]:
  "p_temp (flush_temp st) = []" "p_ops (flush_temp st) = p_ops st"
  "flush_temp (flush_temp st) = flush_temp st"
  "p_temp st = [] \<Longrightarrow> flush_temp st = st"
  by (simp_all add: flush_temp_def)

lemma plain_char_simps [simp]:
  "plain_char c \<Longrightarrow> \<not> isOperatorChar c" "plain_char c \<Longrightarrow> c \<noteq> CHR ''-''"
  "plain_char c \<Longrightarrow> c \<noteq> CHR ''(''" "plain_char c \<Longrightarrow> c \<noteq> CHR '')''"
  by (auto simp: plain_char_def isOperatorChar_def)

lemma operator_chars [simp]:
  "isOperatorChar c \<Longrightarrow> c \<noteq> CHR ''(''" "isOperatorChar c \<Longrightarrow> c \<noteq> CHR '')''"
  "\<not> isOperatorChar CHR ''(''" "\<not> isOperatorChar CHR '')''" "isOperatorChar CHR ''-''"
  by (auto simp: isOperatorChar_def)

text \<open>An operator stack on which a subexpression of the given level keeps to itself.\<close>

definition ops_below :: "int \<Rightarrow> string list \<Rightarrow> bool" where
  "ops_below q ops \<longleftrightarrow>
     (ops = [] \<or> c_str0 (hd ops) = CHR ''('' \<or> Priority (c_str0 (hd ops)) < q)"

definition ops_above :: "int \<Rightarrow> string list \<Rightarrow> bool" where
  "ops_above q ops \<longleftrightarrow> (\<forall>op \<in> set ops. c_str0 op \<noteq> CHR ''('' \<and> q \<le> Priority (c_str0 op))"

lemma ops_above_simps [simp]:
  "ops_above q []"
  "ops_above q (op # ops) \<longleftrightarrow> c_str0 op \<noteq> CHR ''('' \<and> q \<le> Priority (c_str0 op) \<and> ops_above q ops"
  "ops_above q (xs @ ys) \<longleftrightarrow> ops_above q xs \<and> ops_above q ys"
  by (auto simp: ops_above_def)

lemma ops_above_mono: "ops_above q ops \<Longrightarrow> q' \<le> q \<Longrightarrow> ops_above q' ops"
  by (auto simp: ops_above_def)

lemma ops_below_mono: "ops_below q ops \<Longrightarrow> q \<le> q' \<Longrightarrow> ops_below q' ops"
  by (auto simp: ops_below_def)

lemma push_operator_pops:
  "ops_above (Priority c) ops' \<Longrightarrow> ops_below (Priority c) ops \<Longrightarrow>
   push_operator c (ops' @ ops) out = ([c] # ops, rev ops' @ out)"
proof (induction ops' arbitrary: out)
  case Nil
  then show ?case by (cases ops) (auto simp: ops_below_def)
qed auto

lemma close_paren_pops:
  "ops_above q ops' \<Longrightarrow> close_paren st (ops' @ ''('' # ops) =
     (if ops' = [] then st\<lparr>p_ops := ops\<rparr>
      else (flush_temp st)\<lparr>p_out := rev ops' @ p_out (flush_temp st), p_ops := ops\<rparr>)"
proof (induction ops' arbitrary: st)
  case (Cons op ops')
  let ?st = "(flush_temp st)\<lparr>p_out := op # p_out (flush_temp st)\<rparr>"
  have "flush_temp ?st = ?st" by simp
  with Cons show ?case by (cases "ops' = []") (simp_all add: Let_def)
qed simp

lemma parse_loop_char:
  "c \<noteq> CHR ''-'' \<or> prev \<noteq> None \<and> prev \<noteq> Some CHR ''('' \<Longrightarrow>
   parse_loop prev (c # cs) st = parse_loop (Some c) cs (parse_char c st)"
  by (subst parse_loop.simps) auto

lemma parse_plain:
  "list_all plain_char s \<Longrightarrow> s \<noteq> [] \<Longrightarrow>
   parse_loop prev (s @ rest) st = parse_loop (Some (last s)) rest (st\<lparr>p_temp := p_temp st @ s\<rparr>)"
proof (induction s arbitrary: prev st)
  case (Cons c s)
  then have "parse_loop prev ((c # s) @ rest) st
      = parse_loop (Some c) (s @ rest) (st\<lparr>p_temp := p_temp st @ [c]\<rparr>)"
    by (simp add: parse_loop_char parse_char_def)
  with Cons show ?case by (cases "s = []") simp_all
qed simp

lemma parse_neg_const:
  assumes "list_all plain_char s"
  shows "parse_loop prev (''(-'' @ s @ '')'' @ rest) st
    = parse_loop (Some CHR '')'') rest (st\<lparr>p_temp := p_temp st @ CHR ''-'' # s\<rparr>)"
proof -
  have t: "takeWhile (\<lambda>x. x \<noteq> CHR '')'') (s @ CHR '')'' # rest) = s"
    "dropWhile (\<lambda>x. x \<noteq> CHR '')'') (s @ CHR '')'' # rest) = CHR '')'' # rest"
    using assms by (induction s) auto
  show ?thesis
    by (simp add: parse_loop_char parse_char_def parse_loop.simps(2) [of "Some CHR ''(''"] t Let_def)
qed

lemma parse_syn:
  assumes "wf_syn e" "p_temp st = []" "ops_below (syn_level e) (p_ops st)"
  shows "\<exists>l st' ops'. (\<forall>rest. parse_loop prev (syn_text e @ rest) st = parse_loop (Some l) rest st')
    \<and> l \<noteq> CHR ''('' \<and> p_ops st' = ops' @ p_ops st \<and> ops_above (syn_level e) ops'
    \<and> rev (p_out (flush_temp st')) @ ops' = rev (p_out st) @ postfix e"
  using assms
proof (induction e arbitrary: prev st)
  case (Name s)
  then have "last s \<noteq> CHR ''(''"
    by (metis last_in_set list_all_iff plain_char_simps(3) wf_syn.simps(1))
  with Name show ?case
    by (intro exI [of _ "last s"] exI [of _ "st\<lparr>p_temp := s\<rparr>"] exI [of _ "[]"])
       (simp add: parse_plain flush_temp_def)
next
  case (NegConst s)
  then show ?case
    by (intro exI [of _ "CHR '')''"] exI [of _ "st\<lparr>p_temp := CHR ''-'' # s\<rparr>"] exI [of _ "[]"])
       (use parse_neg_const in \<open>simp add: flush_temp_def\<close>)
next
  case (Par e)
  let ?st = "st\<lparr>p_ops := ''('' # p_ops st\<rparr>"
  have "ops_below (syn_level e) (p_ops ?st)" by (simp add: ops_below_def)
  with Par.IH [of ?st "Some CHR ''(''"] Par.prems obtain l st1 ops1 where
    1: "\<forall>rest. parse_loop (Some CHR ''('') (syn_text e @ rest) ?st = parse_loop (Some l) rest st1"
      "l \<noteq> CHR ''(''" "p_ops st1 = ops1 @ ''('' # p_ops st" "ops_above (syn_level e) ops1"
      "rev (p_out (flush_temp st1)) @ ops1 = rev (p_out st) @ postfix e"
    by auto
  let ?st2 = "close_paren st1 (p_ops st1)"
  have "parse_loop prev (syn_text (Par e) @ rest) st = parse_loop (Some CHR '')'') rest ?st2" for rest
    using 1(1) [rule_format, of "CHR '')'' # rest"]
    by (simp add: parse_loop_char parse_char_def)
  moreover have "p_ops ?st2 = p_ops st"
    "rev (p_out (flush_temp ?st2)) = rev (p_out st) @ postfix e"
    using 1(5) by (cases "p_temp st1 = []"; cases "ops1 = []";
      simp add: 1(3) close_paren_pops [OF 1(4)] flush_temp_def)+
  ultimately show ?case
    by (intro exI [of _ "CHR '')''"] exI [of _ ?st2] exI [of _ "[]"]) simp
next
  case (Bin c l r)
  from Bin.prems have wf: "isOperatorChar c" "Priority c \<le> syn_level l" "Priority c < syn_level r"
    "wf_syn l" "wf_syn r" and below: "ops_below (Priority c) (p_ops st)" by simp_all
  from Bin.IH(1) [OF wf(4) Bin.prems(2) ops_below_mono [OF below wf(2)], of prev]
  obtain x st1 ops1 where
    1: "\<forall>rest. parse_loop prev (syn_text l @ rest) st = parse_loop (Some x) rest st1"
      "x \<noteq> CHR ''(''" "p_ops st1 = ops1 @ p_ops st" "ops_above (syn_level l) ops1"
      "rev (p_out (flush_temp st1)) @ ops1 = rev (p_out st) @ postfix l" by auto
  let ?st2 = "parse_char c st1"
  have st2: "?st2 = (flush_temp st1)\<lparr>p_ops := [c] # p_ops st,
      p_out := rev ops1 @ p_out (flush_temp st1)\<rparr>"
    using push_operator_pops [OF ops_above_mono [OF 1(4) wf(2)] below]
    by (simp add: parse_char_def wf(1) 1(3) Let_def)
  then have "ops_below (syn_level r) (p_ops ?st2)" "p_temp ?st2 = []"
    using wf(3) by (simp_all add: ops_below_def)
  from Bin.IH(2) [OF wf(5) this(2,1), of "Some c"] obtain y st3 ops3 where
    3: "\<forall>rest. parse_loop (Some c) (syn_text r @ rest) ?st2 = parse_loop (Some y) rest st3"
      "y \<noteq> CHR ''(''" "p_ops st3 = ops3 @ [c] # p_ops st" "ops_above (syn_level r) ops3"
      "rev (p_out (flush_temp st3)) @ ops3
         = (rev (p_out (flush_temp st1)) @ ops1) @ postfix r"
    using st2 by auto
  have "parse_loop prev (syn_text (Bin c l r) @ rest) st = parse_loop (Some y) rest st3" for rest
    using 1(1) [rule_format, of "c # syn_text r @ rest"] 1(2) 3(1)
    by (simp add: parse_loop_char)
  moreover have "ops_above (Priority c) (ops3 @ [[c]])"
    using ops_above_mono [OF 3(4)] wf(1,3) by simp
  moreover have "rev (p_out (flush_temp st3)) @ ops3 @ [[c]] = rev (p_out st) @ postfix (Bin c l r)"
    using 3(5) 1(5) by simp
  ultimately show ?case
    by (intro exI [of _ y] exI [of _ st3] exI [of _ "ops3 @ [[c]]"]) (simp add: 3(2,3))
qed

lemma parseExpress_syn:
  assumes "wf_syn e"
  shows "parseExpress (syn_text e) [] = Ret (postfix e)"
proof -
  let ?st = "\<lparr>p_temp = [], p_ops = [], p_out = []\<rparr>"
  obtain l st' ops' where
    1: "\<forall>rest. parse_loop None (syn_text e @ rest) ?st = parse_loop (Some l) rest st'"
    "p_ops st' = ops'" "rev (p_out (flush_temp st')) @ ops' = postfix e"
    using parse_syn [OF assms, of ?st None] by (auto simp: ops_below_def)
  from 1(1) [rule_format, of "[]"] 1(2,3) show ?thesis
    by (simp add: parseExpress_def)
qed

section \<open>The check accepts what the grammar gives\<close>

lemma isOperator_single: "isOperatorChar c \<longleftrightarrow> isOperator [c]"
  by (auto simp: isOperatorChar_def isOperator_def)

lemma plain_not_operator:
  "list_all plain_char s \<Longrightarrow> \<not> isOperator s" "s \<noteq> [] \<Longrightarrow> \<not> isOperator (CHR ''-'' # s)"
  by (auto simp: isOperator_def plain_char_def isOperatorChar_def)

lemma postfix_counts:
  "wf_syn e \<Longrightarrow> length (filter isOperator (postfix e)) = num_ops e
     \<and> length (postfix e) = 2 * num_ops e + 1"
  by (induction e) (auto simp: plain_not_operator isOperator_single)

lemma plain_no_parens:
  "list_all plain_char s \<Longrightarrow> CHR ''('' \<notin> set s \<and> CHR '')'' \<notin> set s"
proof -
  assume "list_all plain_char s"
  then have "\<not> plain_char c \<Longrightarrow> c \<notin> set s" for c by (induction s) auto
  from this [of "CHR ''(''"] this [of "CHR '')''"] show ?thesis
    by (simp add: plain_char_def)
qed

lemma postfix_no_parens:
  "wf_syn e \<Longrightarrow> \<forall>t \<in> set (postfix e). CHR ''('' \<notin> set t \<and> CHR '')'' \<notin> set t"
proof (induction e)
  case (Bin c l r)
  then have "c \<noteq> CHR ''(''" "c \<noteq> CHR '')''" by simp_all
  with Bin show ?case by (simp add: ball_Un not_sym)
next
  case (Name s)
  then show ?case by (simp add: plain_no_parens)
next
  case (NegConst s)
  then show ?case by (simp add: plain_no_parens)
qed simp

lemma checkExpress_postfix:
  assumes "wf_syn e" "num_ops e < 2 ^ 16"
  shows "checkExpress (postfix e)"
proof -
  have u: "unat (of_nat (num_ops e) :: 16 word) = num_ops e"
    using assms(2) by (simp add: unat_of_nat take_bit_nat_eq_self)
  note count = postfix_counts [OF assms(1), THEN conjunct1]
    postfix_counts [OF assms(1), THEN conjunct2]
  have n: "(of_nat (2 * num_ops e + 1) :: 64 word) - of_nat (num_ops e) = of_nat (num_ops e + 1)"
    by simp
  have "\<not> list_ex (\<lambda>s. s = ''('' \<or> s = '')'') (postfix e)"
    "\<not> list_ex (\<lambda>s. CHR ''('' \<in> set s \<or> CHR '')'' \<in> set s) (postfix e)"
    using postfix_no_parens [OF assms(1)] by (auto simp: list_ex_iff)
  then show ?thesis
    by (simp only: checkExpress_def Let_def count u n if_False simp_thms)
qed

text \<open>
  C16: the parser implements the grammar. The text of any expression of names, negative constants
  in parentheses, groups and the four operators, with products closer than sums and association to
  the left, with fewer than 65536 operators, is accepted, and what is left on the stack is the
  postfix form of its tree.
\<close>

theorem import_parses_grammar:
  assumes "wf_syn e" "num_ops e < 2 ^ 16"
  shows "importExpress (syn_text e) ([], old) = Ret (0, postfix e, syn_text e)"
  by (simp add: importExpress_def parseExpress_syn [OF assms(1)] checkExpress_postfix [OF assms])

theorem import_parses_grammar_witness:
  "importExpress ''a-b*(c+(-2))-d'' ([], [])
     = Ret (0, [''a'', ''b'', ''c'', ''-2'', ''+'', ''*'', ''-'', ''d'', ''-''], ''a-b*(c+(-2))-d'')"
proof -
  let ?e = "Bin CHR ''-'' (Bin CHR ''-'' (Name ''a'') (Bin CHR ''*'' (Name ''b'')
    (Par (Bin CHR ''+'' (Name ''c'') (NegConst ''2''))))) (Name ''d'')"
  have "wf_syn ?e" "num_ops ?e < 2 ^ 16"
    by (simp_all add: isOperatorChar_def plain_char_def Priority_def)
  from import_parses_grammar [OF this] show ?thesis by simp
qed

text \<open>
  The check counts operators and does not look at their places: a text that lacks an operand
  in one place and an operator in another is accepted, and so is one that writes two names without
  an operator between them, which become one name. A minus at the start of a text with no further
  operator, and an unclosed negative constant, read behind the end of the text.
\<close>

theorem import_accepts_malformed:
  "importExpress ''(a+)b'' ([], []) = Ret (0, [''a'', ''+'', ''b''], ''(a+)b'')
   \<and> importExpress ''a(b)+c'' ([], []) = Ret (0, [''ab'', ''c'', ''+''], ''a(b)+c'')
   \<and> importExpress ''-5'' ([], []) = Undef
   \<and> importExpress ''a+(-5'' ([], []) = Undef"
  by (simp add: importExpress_def parseExpress_def parse_loop.simps parse_char_def
      isOperatorChar_def Priority_def flush_temp_def checkExpress_def isOperator_def Let_def)

end
