(* ===== verification/Express_Eval.thy ===== *)
theory Express_Eval
  imports Express_Parse
begin

text \<open>
  The evaluation of an expression (executor/express.cc): \<^verbatim>\<open>MPCExpressExecutor\<close>, which runs the
  postfix tokens on secret shares, and \<^verbatim>\<open>LocalExpressExecutor\<close>, which runs them on plain columns
  and is what the tests compare it with. The MPC protocol (\<^verbatim>\<open>MPCOperator\<close> over the aby3 library) and
  the arithmetic of doubles are parameters. A union read through the wrong member, a null
  reference, the top of an empty stack and the overflow of a signed integer are undefined.
\<close>

section \<open>Token values\<close>

(* src/src/fediux/executor/express.h:79-79 TokenType *)
datatype toktype = COLUMN | VALUE

(* src/src/fediux/executor/express.h:80-126 MPCExpressExecutor::TokenValue *)
datatype ('d, 'si, 'sf) tokval =
    FpCol "'d list"
  | I64Col "i64 list"
  | FpVal 'd
  | I64Val i64
  | Remote
  | ShFp 'sf
  | ShI64 'si

record 'd fp_arith =
  f_add :: "'d \<Rightarrow> 'd \<Rightarrow> 'd"
  f_sub :: "'d \<Rightarrow> 'd \<Rightarrow> 'd"
  f_mul :: "'d \<Rightarrow> 'd \<Rightarrow> 'd"
  f_div :: "'d \<Rightarrow> 'd \<Rightarrow> 'd"
  f_one :: 'd
  f_of_i64 :: "i64 \<Rightarrow> 'd"
  f_stod :: "string \<Rightarrow> 'd cpp"

text \<open>
  The protocol: each call takes the party's state \<open>'m\<close> of the protocol and may throw. A row count
  goes with the calls that create shares, since the caller sizes the share first.
\<close>

record ('m, 'si, 'sf, 'd, 'fx) mpc_op =
  op_share_i64 :: "u32 \<Rightarrow> i64 list \<Rightarrow> 'm \<Rightarrow> ('si \<times> 'm) cpp"
  op_share_i64_remote :: "u32 \<Rightarrow> 'm \<Rightarrow> ('si \<times> 'm) cpp"
  op_add_i64 :: "'si list \<Rightarrow> 'm \<Rightarrow> ('si \<times> 'm) cpp"
  op_add_const_i64 :: "i64 \<Rightarrow> 'si \<Rightarrow> 'm \<Rightarrow> ('si \<times> 'm) cpp"
  op_sub_i64 :: "'si \<Rightarrow> 'si list \<Rightarrow> 'm \<Rightarrow> ('si \<times> 'm) cpp"
  op_sub_const_i64 :: "i64 \<Rightarrow> 'si \<Rightarrow> bool \<Rightarrow> 'm \<Rightarrow> ('si \<times> 'm) cpp"
  op_mul_i64 :: "'si \<Rightarrow> 'si \<Rightarrow> 'm \<Rightarrow> ('si \<times> 'm) cpp"
  op_mul_const_i64 :: "i64 \<Rightarrow> 'si \<Rightarrow> 'm \<Rightarrow> ('si \<times> 'm) cpp"
  op_reveal_i64 :: "'si \<Rightarrow> 'm \<Rightarrow> (i64 list \<times> 'm) cpp"
  op_reveal_i64_to :: "'si \<Rightarrow> u32 \<Rightarrow> 'm \<Rightarrow> 'm cpp"
  op_share_fp :: "u32 \<Rightarrow> 'd list \<Rightarrow> 'm \<Rightarrow> ('sf \<times> 'm) cpp"
  op_share_fp_remote :: "u32 \<Rightarrow> 'm \<Rightarrow> ('sf \<times> 'm) cpp"
  op_add_fp :: "'sf list \<Rightarrow> 'm \<Rightarrow> ('sf \<times> 'm) cpp"
  op_add_const_fp :: "'fx \<Rightarrow> 'sf \<Rightarrow> 'm \<Rightarrow> ('sf \<times> 'm) cpp"
  op_sub_fp :: "'sf \<Rightarrow> 'sf list \<Rightarrow> 'm \<Rightarrow> ('sf \<times> 'm) cpp"
  op_sub_const_fp :: "'fx \<Rightarrow> 'sf \<Rightarrow> bool \<Rightarrow> 'm \<Rightarrow> ('sf \<times> 'm) cpp"
  op_mul_fp :: "'sf \<Rightarrow> 'sf \<Rightarrow> 'm \<Rightarrow> ('sf \<times> 'm) cpp"
  op_mul_const_fp :: "'fx \<Rightarrow> 'sf \<Rightarrow> 'm \<Rightarrow> ('sf \<times> 'm) cpp"
  op_div_fp :: "'sf \<Rightarrow> 'sf \<Rightarrow> 'm \<Rightarrow> ('sf \<times> 'm) cpp"
  op_reveal_fp :: "'sf \<Rightarrow> 'm \<Rightarrow> ('d list \<times> 'm) cpp"
  op_reveal_fp_to :: "'sf \<Rightarrow> u32 \<Rightarrow> 'm \<Rightarrow> 'm cpp"
  op_fix :: "'d \<Rightarrow> 'fx"
  op_unfix :: "'fx \<Rightarrow> 'd"

(* src/src/fediux/executor/express.h:238-246 MPCExpressExecutor *)
record ('d, 'si, 'sf) executor =
  x_fp64_run :: bool
  x_expr :: string
  x_suffix :: "string list"
  x_cfg :: "col_config option"
  x_feed :: "'d feed_dict option"
  x_tokval :: "string \<rightharpoonup> ('d, 'si, 'sf) tokval"
  x_toktype :: "string \<rightharpoonup> toktype"
  x_party :: u32

definition deref :: "'a option \<Rightarrow> 'a cpp" where
  "deref p = (case p of None \<Rightarrow> Undef | Some a \<Rightarrow> Ret a)"

lemma deref_simps [simp]: "deref (Some a) = Ret a" "deref None = Undef"
  by (simp_all add: deref_def)

text \<open>\<^verbatim>\<open>atol\<close>: white space, a sign, and the digits up to the first other character.\<close>

definition c_atol :: "string \<Rightarrow> i64" where
  "c_atol s0 = (let s = dropWhile is_space_char s0 in
     case s of [] \<Rightarrow> 0
     | c # cs \<Rightarrow> if c = CHR ''-'' then - of_nat (dec_val (takeWhile is_digit cs))
                 else if c = CHR ''+'' then of_nat (dec_val (takeWhile is_digit cs))
                 else of_nat (dec_val (takeWhile is_digit s)))"

section \<open>Set-up\<close>

(* src/src/fediux/executor/express.cc:557-560 MPCExpressExecutor::initColumnConfig *)
definition x_initColumnConfig :: "u32 \<Rightarrow> ('d, 'si, 'sf) executor \<Rightarrow> ('d, 'si, 'sf) executor" where
  "x_initColumnConfig p x = x\<lparr>x_cfg := Some (new_col_config p)\<rparr>"

(* src/src/fediux/executor/express.cc:562-574 MPCExpressExecutor::importColumnDtype *)
definition x_importColumnDtype ::
  "string \<Rightarrow> bool \<Rightarrow> ('d, 'si, 'sf) executor \<Rightarrow> (int \<times> ('d, 'si, 'sf) executor) cpp" where
  "x_importColumnDtype col is_fp64 x =
     cbind (deref (x_cfg x)) (\<lambda>c.
       let (r, c') = cfg_importColumnDtype col (if is_fp64 then FP64 else INT64) c
       in Ret (r, x\<lparr>x_cfg := Some c'\<rparr>))"

(* src/src/fediux/executor/express.cc:576-581 MPCExpressExecutor::importColumnOwner *)
definition x_importColumnOwner ::
  "string \<Rightarrow> u32 \<Rightarrow> ('d, 'si, 'sf) executor \<Rightarrow> (int \<times> ('d, 'si, 'sf) executor) cpp" where
  "x_importColumnOwner col p x =
     cbind (deref (x_cfg x)) (\<lambda>c. cbind (cfg_importColumnOwner col p c) (\<lambda>(r, c').
       Ret (r, x\<lparr>x_cfg := Some c'\<rparr>)))"

(* src/src/fediux/executor/express.cc:583-586 MPCExpressExecutor::InitFeedDict *)
definition x_InitFeedDict :: "('d, 'si, 'sf) executor \<Rightarrow> ('d, 'si, 'sf) executor" where
  "x_InitFeedDict x = (case x_feed x of
     None \<Rightarrow> x\<lparr>x_feed := Some (new_feed_dict (x_fp64_run x))\<rparr> | Some _ \<Rightarrow> x)"

(* src/src/fediux/executor/express.cc:588-598 MPCExpressExecutor::importColumnValues *)
definition x_importColumnValues ::
  "'d fp_arith \<Rightarrow> string \<Rightarrow> i64 list + 'd list \<Rightarrow> ('d, 'si, 'sf) executor \<Rightarrow>
   (int \<times> ('d, 'si, 'sf) executor) cpp" where
  "x_importColumnValues ar col vec x =
     cbind (deref (x_feed x)) (\<lambda>f. cbind (deref (x_cfg x)) (\<lambda>c.
       case vec of
         Inl v \<Rightarrow> cbind (fd_import_i64 (f_of_i64 ar) c col v f)
                   (\<lambda>(r, _, f'). Ret (r, x\<lparr>x_feed := Some f'\<rparr>))
       | Inr v \<Rightarrow> cbind (fd_import_fp64 c col v f)
                   (\<lambda>(r, _, f'). Ret (r, x\<lparr>x_feed := Some f'\<rparr>))))"

text \<open>
  The tokens are sorted into columns and constants by asking for the column's type, which throws
  when there is no such column: the branch for constants is never reached.
\<close>

(* src/src/fediux/executor/express.cc:623-645 MPCExpressExecutor::resolveRunMode *)
fun resolve_tokens ::
  "col_config \<Rightarrow> string list \<Rightarrow> (string \<rightharpoonup> toktype) \<Rightarrow> bool \<Rightarrow> bool \<Rightarrow>
   ((string \<rightharpoonup> toktype) \<times> bool \<times> bool) cpp" where
  "resolve_tokens c [] tt has_div has_fp = Ret (tt, has_div, has_fp)"
| "resolve_tokens c (tok # toks) tt has_div has_fp =
     (if isOperator tok then resolve_tokens c toks tt (has_div \<or> tok = ''/'') has_fp
      else cbind (cfg_getColumnDtype tok c) (\<lambda>(ret, dtype).
        if ret = 0 then resolve_tokens c toks (map_insert tok COLUMN tt) has_div has_fp
        else resolve_tokens c toks (map_insert tok VALUE tt) has_div
               (has_fp \<or> CHR ''.'' \<in> set tok)))"

(* src/src/fediux/executor/express.cc:612-660 MPCExpressExecutor::resolveRunMode *)
definition x_resolveRunMode ::
  "('d, 'si, 'sf) executor \<Rightarrow> (int \<times> ('d, 'si, 'sf) executor) cpp" where
  "x_resolveRunMode x =
     cbind (deref (x_cfg x)) (\<lambda>c. cbind (cfg_resolveLocalColumn c) (\<lambda>(ret, c').
       if ret \<noteq> 0 then Ret (-1, x\<lparr>x_cfg := Some c'\<rparr>)
       else cbind (resolve_tokens c' (x_suffix x) (x_toktype x) False False)
         (\<lambda>(tt, has_div_op, has_fp64_val).
           Ret (0, x\<lparr>x_cfg := Some c', x_toktype := tt,
                     x_fp64_run := (has_div_op \<or> cfg_hasFP64Column c' \<or> has_fp64_val)\<rparr>))))"

(* src/src/fediux/executor/express.cc:600-610 MPCExpressExecutor::importExpress *)
definition x_importExpress ::
  "string \<Rightarrow> ('d, 'si, 'sf) executor \<Rightarrow> (int \<times> ('d, 'si, 'sf) executor) cpp" where
  "x_importExpress expr x =
     cbind (importExpress expr (x_suffix x, x_expr x)) (\<lambda>(r, suffix, e).
       Ret (r, x\<lparr>x_suffix := suffix, x_expr := e\<rparr>))"

text \<open>\<^verbatim>\<open>token_type_map_[token]\<close> gives the first constant of the enum for a missing token.\<close>

(* src/src/fediux/executor/express.cc:783-783 MPCExpressExecutor::createTokenValue *)
definition token_type :: "(string \<rightharpoonup> toktype) \<Rightarrow> string \<Rightarrow> toktype" where
  "token_type tt tok = (case tt tok of None \<Rightarrow> COLUMN | Some t \<Rightarrow> t)"

(* src/src/fediux/executor/express.cc:831-840 MPCExpressExecutor::createTokenValue *)
definition const_token ::
  "'d fp_arith \<Rightarrow> bool \<Rightarrow> string \<Rightarrow> ('d, 'si, 'sf) tokval cpp" where
  "const_token ar fp tok =
     (if fp then cbind (f_stod ar tok) (\<lambda>d. Ret (FpVal d)) else Ret (I64Val (c_atol tok)))"

(* src/src/fediux/executor/express.cc:780-845 MPCExpressExecutor::createTokenValue *)
definition x_createTokenValue ::
  "'d fp_arith \<Rightarrow> ('d, 'si, 'sf) executor \<Rightarrow> string \<Rightarrow> (int \<times> ('d, 'si, 'sf) tokval) cpp" where
  "x_createTokenValue ar x tok =
     (case token_type (x_toktype x) tok of
        COLUMN \<Rightarrow>
          cbind (deref (x_cfg x)) (\<lambda>c. cbind (cfg_getColumnLocality tok c) (\<lambda>(ret, is_local).
            if ret \<noteq> 0 then Ret (-2, Remote)
            else if \<not> is_local then Ret (0, Remote)
            else cbind (deref (x_feed x)) (\<lambda>f.
              if x_fp64_run x then
                cbind (fd_get_fp64 c tok f) (\<lambda>(r, v). if r \<noteq> 0 then Ret (-2, Remote) else Ret (0, FpCol v))
              else
                cbind (fd_get_i64 c tok f) (\<lambda>(r, v). if r \<noteq> 0 then Ret (-2, Remote) else Ret (0, I64Col v)))))
      | VALUE \<Rightarrow> cbind (const_token ar (x_fp64_run x) tok) (\<lambda>v. Ret (0, v)))"

end
