(* ===== verification/Express_Mpc.thy ===== *)
theory Express_Mpc
  imports Express_Eval
begin

text \<open>
  \<^verbatim>\<open>MPCExpressExecutor::runMPCEvaluate\<close> and the operators it runs (executor/express.cc).
\<close>

section \<open>Operands\<close>

(* src/src/fediux/executor/express.cc:706-722 MPCExpressExecutor::constructI64Matrix *)
definition constructI64Matrix :: "('d, 'si, 'sf) tokval \<Rightarrow> i64 list cpp" where
  "constructI64Matrix v = (case v of I64Val _ \<Rightarrow> Undef | I64Col col \<Rightarrow> Ret col | _ \<Rightarrow> Undef)"

(* src/src/fediux/executor/express.cc:724-735 MPCExpressExecutor::createI64Shares *)
definition createI64Shares ::
  "('m, 'si, 'sf, 'd, 'fx) mpc_op \<Rightarrow> u32 \<Rightarrow> ('d, 'si, 'sf) tokval \<Rightarrow> 'm \<Rightarrow> ('si \<times> 'm) cpp" where
  "createI64Shares op rows v m =
     (case v of Remote \<Rightarrow> op_share_i64_remote op rows m
      | _ \<Rightarrow> cbind (constructI64Matrix v) (\<lambda>col. op_share_i64 op rows col m))"

(* src/src/fediux/executor/express.cc:737-752 MPCExpressExecutor::constructFP64Matrix *)
definition constructFP64Matrix :: "('d, 'si, 'sf) tokval \<Rightarrow> 'd list cpp" where
  "constructFP64Matrix v = (case v of FpVal _ \<Rightarrow> Undef | FpCol col \<Rightarrow> Ret col | _ \<Rightarrow> Undef)"

(* src/src/fediux/executor/express.cc:754-765 MPCExpressExecutor::createFP64Shares *)
definition createFP64Shares ::
  "('m, 'si, 'sf, 'd, 'fx) mpc_op \<Rightarrow> u32 \<Rightarrow> ('d, 'si, 'sf) tokval \<Rightarrow> 'm \<Rightarrow> ('sf \<times> 'm) cpp" where
  "createFP64Shares op rows v m =
     (case v of Remote \<Rightarrow> op_share_fp_remote op rows m
      | _ \<Rightarrow> cbind (constructFP64Matrix v) (\<lambda>col. op_share_fp op rows col m))"

text \<open>
  The common first half of the operators: a column is shared first, a constant is kept, a share
  is taken as it is, and anything else is read through a pointer that is not one.
\<close>

datatype ('s, 'k) operand = Share 's | Const 'k

(* src/src/fediux/executor/express.cc:903-921 MPCExpressExecutor::runMPCAddI64 *)
definition i64_operand ::
  "('m, 'si, 'sf, 'd, 'fx) mpc_op \<Rightarrow> u32 \<Rightarrow> ('d, 'si, 'sf) tokval \<Rightarrow> 'm \<Rightarrow>
   (('si, i64) operand \<times> 'm) cpp" where
  "i64_operand op rows v m =
     (case v of
        I64Col _ \<Rightarrow> cbind (createI64Shares op rows v m) (\<lambda>(s, m'). Ret (Share s, m'))
      | Remote \<Rightarrow> cbind (createI64Shares op rows v m) (\<lambda>(s, m'). Ret (Share s, m'))
      | I64Val k \<Rightarrow> Ret (Const k, m)
      | ShI64 s \<Rightarrow> Ret (Share s, m)
      | _ \<Rightarrow> Undef)"

(* src/src/fediux/executor/express.cc:857-875 MPCExpressExecutor::runMPCAddFP64 *)
definition fp_operand ::
  "('m, 'si, 'sf, 'd, 'fx) mpc_op \<Rightarrow> u32 \<Rightarrow> ('d, 'si, 'sf) tokval \<Rightarrow> 'm \<Rightarrow>
   (('sf, 'fx) operand \<times> 'm) cpp" where
  "fp_operand op rows v m =
     (case v of
        FpCol _ \<Rightarrow> cbind (createFP64Shares op rows v m) (\<lambda>(s, m'). Ret (Share s, m'))
      | Remote \<Rightarrow> cbind (createFP64Shares op rows v m) (\<lambda>(s, m'). Ret (Share s, m'))
      | FpVal d \<Rightarrow> Ret (Const (op_fix op d), m)
      | ShFp s \<Rightarrow> Ret (Share s, m)
      | _ \<Rightarrow> Undef)"

section \<open>Operators\<close>

text \<open>Two constants: the share that the constant should be added to is a null pointer.\<close>

(* src/src/fediux/executor/express.cc:847-892 MPCExpressExecutor::runMPCAddFP64 *)
definition runMPCAddFP64 ::
  "('m, 'si, 'sf, 'd, 'fx) mpc_op \<Rightarrow> u32 \<Rightarrow> ('d, 'si, 'sf) tokval \<Rightarrow> ('d, 'si, 'sf) tokval \<Rightarrow>
   'm \<Rightarrow> (('d, 'si, 'sf) tokval \<times> 'm) cpp" where
  "runMPCAddFP64 op rows val1 val2 m =
     cbind (fp_operand op rows val1 m) (\<lambda>(a, m1). cbind (fp_operand op rows val2 m1) (\<lambda>(b, m2).
       cbind (case (a, b) of
           (Share s, Share t) \<Rightarrow> op_add_fp op [s, t] m2
         | (Const k, Share t) \<Rightarrow> op_add_const_fp op k t m2
         | (Share s, Const k) \<Rightarrow> op_add_const_fp op k s m2
         | (Const _, Const _) \<Rightarrow> Undef)
       (\<lambda>(r, m3). Ret (ShFp r, m3))))"

(* src/src/fediux/executor/express.cc:894-938 MPCExpressExecutor::runMPCAddI64 *)
definition runMPCAddI64 ::
  "('m, 'si, 'sf, 'd, 'fx) mpc_op \<Rightarrow> u32 \<Rightarrow> ('d, 'si, 'sf) tokval \<Rightarrow> ('d, 'si, 'sf) tokval \<Rightarrow>
   'm \<Rightarrow> (('d, 'si, 'sf) tokval \<times> 'm) cpp" where
  "runMPCAddI64 op rows val1 val2 m =
     cbind (i64_operand op rows val1 m) (\<lambda>(a, m1). cbind (i64_operand op rows val2 m1) (\<lambda>(b, m2).
       cbind (case (a, b) of
           (Share s, Share t) \<Rightarrow> op_add_i64 op [s, t] m2
         | (Const k, Share t) \<Rightarrow> op_add_const_i64 op k t m2
         | (Share s, Const k) \<Rightarrow> op_add_const_i64 op k s m2
         | (Const _, Const _) \<Rightarrow> Undef)
       (\<lambda>(r, m3). Ret (ShI64 r, m3))))"

(* src/src/fediux/executor/express.cc:940-982 MPCExpressExecutor::runMPCSubFP64 *)
definition runMPCSubFP64 ::
  "('m, 'si, 'sf, 'd, 'fx) mpc_op \<Rightarrow> u32 \<Rightarrow> ('d, 'si, 'sf) tokval \<Rightarrow> ('d, 'si, 'sf) tokval \<Rightarrow>
   'm \<Rightarrow> (('d, 'si, 'sf) tokval \<times> 'm) cpp" where
  "runMPCSubFP64 op rows val1 val2 m =
     cbind (fp_operand op rows val1 m) (\<lambda>(a, m1). cbind (fp_operand op rows val2 m1) (\<lambda>(b, m2).
       cbind (case (a, b) of
           (Share s, Share t) \<Rightarrow> op_sub_fp op s [t] m2
         | (Const k, Share t) \<Rightarrow> op_sub_const_fp op k t False m2
         | (Share s, Const k) \<Rightarrow> op_sub_const_fp op k s True m2
         | (Const _, Const _) \<Rightarrow> Undef)
       (\<lambda>(r, m3). Ret (ShFp r, m3))))"

(* src/src/fediux/executor/express.cc:984-1030 MPCExpressExecutor::runMPCSubI64 *)
definition runMPCSubI64 ::
  "('m, 'si, 'sf, 'd, 'fx) mpc_op \<Rightarrow> u32 \<Rightarrow> ('d, 'si, 'sf) tokval \<Rightarrow> ('d, 'si, 'sf) tokval \<Rightarrow>
   'm \<Rightarrow> (('d, 'si, 'sf) tokval \<times> 'm) cpp" where
  "runMPCSubI64 op rows val1 val2 m =
     cbind (i64_operand op rows val1 m) (\<lambda>(a, m1). cbind (i64_operand op rows val2 m1) (\<lambda>(b, m2).
       cbind (case (a, b) of
           (Share s, Share t) \<Rightarrow> op_sub_i64 op s [t] m2
         | (Const k, Share t) \<Rightarrow> op_sub_const_i64 op k t False m2
         | (Share s, Const k) \<Rightarrow> op_sub_const_i64 op k s True m2
         | (Const _, Const _) \<Rightarrow> Undef)
       (\<lambda>(r, m3). Ret (ShI64 r, m3))))"

(* src/src/fediux/executor/express.cc:1032-1070 MPCExpressExecutor::runMPCMulFP64 *)
definition runMPCMulFP64 ::
  "('m, 'si, 'sf, 'd, 'fx) mpc_op \<Rightarrow> u32 \<Rightarrow> ('d, 'si, 'sf) tokval \<Rightarrow> ('d, 'si, 'sf) tokval \<Rightarrow>
   'm \<Rightarrow> (('d, 'si, 'sf) tokval \<times> 'm) cpp" where
  "runMPCMulFP64 op rows val1 val2 m =
     cbind (fp_operand op rows val1 m) (\<lambda>(a, m1). cbind (fp_operand op rows val2 m1) (\<lambda>(b, m2).
       cbind (case (a, b) of
           (Share s, Share t) \<Rightarrow> op_mul_fp op s t m2
         | (Const k, Share t) \<Rightarrow> op_mul_const_fp op k t m2
         | (Share s, Const k) \<Rightarrow> op_mul_const_fp op k s m2
         | (Const _, Const _) \<Rightarrow> Undef)
       (\<lambda>(r, m3). Ret (ShFp r, m3))))"

(* src/src/fediux/executor/express.cc:1072-1118 MPCExpressExecutor::runMPCMulI64 *)
definition runMPCMulI64 ::
  "('m, 'si, 'sf, 'd, 'fx) mpc_op \<Rightarrow> u32 \<Rightarrow> ('d, 'si, 'sf) tokval \<Rightarrow> ('d, 'si, 'sf) tokval \<Rightarrow>
   'm \<Rightarrow> (('d, 'si, 'sf) tokval \<times> 'm) cpp" where
  "runMPCMulI64 op rows val1 val2 m =
     cbind (i64_operand op rows val1 m) (\<lambda>(a, m1). cbind (i64_operand op rows val2 m1) (\<lambda>(b, m2).
       cbind (case (a, b) of
           (Share s, Share t) \<Rightarrow> op_mul_i64 op s t m2
         | (Const k, Share t) \<Rightarrow> op_mul_const_i64 op k t m2
         | (Share s, Const k) \<Rightarrow> op_mul_const_i64 op k s m2
         | (Const _, Const _) \<Rightarrow> Undef)
       (\<lambda>(r, m3). Ret (ShI64 r, m3))))"

text \<open>
  Division shares a constant dividend, by the first party, and multiplies with the reciprocal of
  a constant divisor.
\<close>

(* src/src/fediux/executor/express.cc:1120-1170 MPCExpressExecutor::runMPCDivFP64 *)
definition runMPCDivFP64 ::
  "'d fp_arith \<Rightarrow> ('m, 'si, 'sf, 'd, 'fx) mpc_op \<Rightarrow> u32 \<Rightarrow> u32 \<Rightarrow>
   ('d, 'si, 'sf) tokval \<Rightarrow> ('d, 'si, 'sf) tokval \<Rightarrow> 'm \<Rightarrow> (('d, 'si, 'sf) tokval \<times> 'm) cpp" where
  "runMPCDivFP64 ar op party rows val1 val2 m =
     cbind (case val1 of
         FpVal d \<Rightarrow>
           cbind (if party = 0 then op_share_fp op rows (replicate (unat rows) d) m
                  else op_share_fp_remote op rows m) (\<lambda>(s, m1). Ret (Share s, m1))
       | _ \<Rightarrow> fp_operand op rows val1 m)
     (\<lambda>(a, m1). cbind (fp_operand op rows val2 m1) (\<lambda>(b, m2).
       cbind (case (a, b) of
           (Share s, Share t) \<Rightarrow> op_div_fp op s t m2
         | (Share s, Const k) \<Rightarrow>
             (case val1 of FpVal _ \<Rightarrow> Undef
              | _ \<Rightarrow> op_mul_const_fp op (op_fix op (f_div ar (f_one ar) (op_unfix op k))) s m2)
         | (Const _, _) \<Rightarrow> Undef)
       (\<lambda>(r, m3). Ret (ShFp r, m3))))"

section \<open>Evaluation\<close>

text \<open>The two stacks give up two entries each; an empty stack has no top.\<close>

(* src/src/fediux/executor/express.cc:1172-1188 MPCExpressExecutor::BeforeMPCRun *)
definition BeforeMPCRun ::
  "string list \<Rightarrow> 'v list \<Rightarrow> (string \<times> string \<times> 'v \<times> 'v \<times> string list \<times> 'v list) cpp" where
  "BeforeMPCRun token_stk val_stk =
     (case (token_stk, val_stk) of
        (b # a # ts, val2 # val1 # vs) \<Rightarrow> Ret (a, b, val1, val2, ts, vs)
      | _ \<Rightarrow> Undef)"

(* src/src/fediux/executor/express.cc:1190-1198 MPCExpressExecutor::AfterMPCRun *)
definition AfterMPCRun ::
  "string \<Rightarrow> 'v \<Rightarrow> string list \<Rightarrow> 'v list \<Rightarrow> (string \<rightharpoonup> 'v) \<Rightarrow>
   string list \<times> 'v list \<times> (string \<rightharpoonup> 'v)" where
  "AfterMPCRun new_token res token_stk val_stk tv =
     (new_token # token_stk, res # val_stk, tv(new_token \<mapsto> res))"

(* src/src/fediux/executor/express.cc:1206-1268 MPCExpressExecutor::runMPCEvaluate *)
definition runMPCOperator ::
  "'d fp_arith \<Rightarrow> ('m, 'si, 'sf, 'd, 'fx) mpc_op \<Rightarrow> bool \<Rightarrow> u32 \<Rightarrow> u32 \<Rightarrow> string \<Rightarrow>
   ('d, 'si, 'sf) tokval \<Rightarrow> ('d, 'si, 'sf) tokval \<Rightarrow> 'm \<Rightarrow> (('d, 'si, 'sf) tokval \<times> 'm) cpp" where
  "runMPCOperator ar op fp party rows tok val1 val2 m =
     (if tok = ''+'' then
        (if fp then runMPCAddFP64 op rows val1 val2 m else runMPCAddI64 op rows val1 val2 m)
      else if tok = ''-'' then
        (if fp then runMPCSubFP64 op rows val1 val2 m else runMPCSubI64 op rows val1 val2 m)
      else if tok = ''*'' then
        (if fp then runMPCMulFP64 op rows val1 val2 m else runMPCMulI64 op rows val1 val2 m)
      else runMPCDivFP64 ar op party rows val1 val2 m)"

(* src/src/fediux/executor/express.cc:1222-1222 MPCExpressExecutor::runMPCEvaluate *)
definition joined :: "string \<Rightarrow> string \<Rightarrow> string \<Rightarrow> string" where
  "joined a tok b = ''('' @ a @ tok @ b @ '')''"

text \<open>
  The loop over the postfix tokens. It gives the return value, the tokens that are left, the token
  stack, the values by token and the state of the protocol.
\<close>

(* src/src/fediux/executor/express.cc:1204-1283 MPCExpressExecutor::runMPCEvaluate *)
fun mpc_loop ::
  "'d fp_arith \<Rightarrow> ('m, 'si, 'sf, 'd, 'fx) mpc_op \<Rightarrow> ('d, 'si, 'sf) executor \<Rightarrow> u32 \<Rightarrow>
   string list \<Rightarrow> string list \<Rightarrow> ('d, 'si, 'sf) tokval list \<Rightarrow>
   (string \<rightharpoonup> ('d, 'si, 'sf) tokval) \<Rightarrow> 'm \<Rightarrow>
   (int \<times> string list \<times> string list \<times> (string \<rightharpoonup> ('d, 'si, 'sf) tokval) \<times> 'm) cpp" where
  "mpc_loop ar op x rows [] stk1 val_stk tv m = Ret (0, [], stk1, tv, m)"
| "mpc_loop ar op x rows (tok # toks) stk1 val_stk tv m =
     (if isOperator tok then
        cbind (BeforeMPCRun stk1 val_stk) (\<lambda>(a, b, val1, val2, stk1, val_stk).
          cbind (runMPCOperator ar op (x_fp64_run x) (x_party x) rows tok val1 val2 m) (\<lambda>(res, m).
            let (stk1, val_stk, tv) = AfterMPCRun (joined a tok b) res stk1 val_stk tv
            in mpc_loop ar op x rows toks stk1 val_stk tv m))
      else
        cbind (x_createTokenValue ar x tok) (\<lambda>(ret, v).
          if ret \<noteq> 0 then Ret (-1, toks, tok # stk1, tv, m)
          else mpc_loop ar op x rows toks (tok # stk1) (v # val_stk) (tv(tok \<mapsto> v)) m))"

(* src/src/fediux/executor/express.cc:1200-1291 MPCExpressExecutor::runMPCEvaluate *)
definition runMPCEvaluate ::
  "'d fp_arith \<Rightarrow> ('m, 'si, 'sf, 'd, 'fx) mpc_op \<Rightarrow> ('d, 'si, 'sf) executor \<Rightarrow> 'm \<Rightarrow>
   (int \<times> ('d, 'si, 'sf) executor \<times> 'm) cpp" where
  "runMPCEvaluate ar op x m =
     cbind (case x_feed x of None \<Rightarrow> (if list_ex isOperator (x_suffix x) then Undef else Ret 0)
            | Some f \<Rightarrow> Ret (getColumnValuesCount f)) (\<lambda>rows.
     cbind (mpc_loop ar op x rows (x_suffix x) [] [] (x_tokval x) m) (\<lambda>(ret, suffix, stk1, tv, m').
       if ret \<noteq> 0 then Ret (ret, x\<lparr>x_suffix := suffix, x_tokval := tv\<rparr>, m')
       else Ret (0, x\<lparr>x_suffix := rev stk1, x_tokval := tv\<rparr>, m')))"

section \<open>Reveal\<close>

(* src/src/fediux/executor/express.cc:1331-1346 MPCExpressExecutor::revealMPCResult *)
fun reveal_i64_loop ::
  "('m, 'si, 'sf, 'd, 'fx) mpc_op \<Rightarrow> u32 \<Rightarrow> 'si \<Rightarrow> u32 list \<Rightarrow> i64 list \<Rightarrow> 'm \<Rightarrow>
   (i64 list \<times> 'm) cpp" where
  "reveal_i64_loop op me s [] vec m = Ret (vec, m)"
| "reveal_i64_loop op me s (p # ps) vec m =
     (if me = p then cbind (op_reveal_i64 op s m) (\<lambda>(v, m'). reveal_i64_loop op me s ps (vec @ v) m')
      else cbind (op_reveal_i64_to op s p m) (\<lambda>m'. reveal_i64_loop op me s ps vec m'))"

(* src/src/fediux/executor/express.cc:1302-1317 MPCExpressExecutor::revealMPCResult *)
fun reveal_fp_loop ::
  "('m, 'si, 'sf, 'd, 'fx) mpc_op \<Rightarrow> u32 \<Rightarrow> 'sf \<Rightarrow> u32 list \<Rightarrow> 'd list \<Rightarrow> 'm \<Rightarrow>
   ('d list \<times> 'm) cpp" where
  "reveal_fp_loop op me s [] vec m = Ret (vec, m)"
| "reveal_fp_loop op me s (p # ps) vec m =
     (if me = p then cbind (op_reveal_fp op s m) (\<lambda>(v, m'). reveal_fp_loop op me s ps (vec @ v) m')
      else cbind (op_reveal_fp_to op s p m) (\<lambda>m'. reveal_fp_loop op me s ps vec m'))"

text \<open>
  The value of the last token is read as a share whatever it is, so that an expression of a single
  column, whose value is no share, is read through the wrong pointer.
\<close>

(* src/src/fediux/executor/express.cc:1293-1320 MPCExpressExecutor::revealMPCResult *)
definition revealMPCResult_fp ::
  "('m, 'si, 'sf, 'd, 'fx) mpc_op \<Rightarrow> u32 list \<Rightarrow> 'd list \<Rightarrow> ('d, 'si, 'sf) executor \<Rightarrow> 'm \<Rightarrow>
   ('d list \<times> ('d, 'si, 'sf) executor \<times> 'm) cpp" where
  "revealMPCResult_fp op parties vec x m =
     (case x_suffix x of [] \<Rightarrow> Undef
      | final # rest \<Rightarrow>
          (case x_tokval x final of
             Some (ShFp s) \<Rightarrow> cbind (reveal_fp_loop op (x_party x) s parties vec m) (\<lambda>(v, m').
               Ret (v, x\<lparr>x_suffix := rest\<rparr>, m'))
           | _ \<Rightarrow> Undef))"

(* src/src/fediux/executor/express.cc:1322-1349 MPCExpressExecutor::revealMPCResult *)
definition revealMPCResult_i64 ::
  "('m, 'si, 'sf, 'd, 'fx) mpc_op \<Rightarrow> u32 list \<Rightarrow> i64 list \<Rightarrow> ('d, 'si, 'sf) executor \<Rightarrow> 'm \<Rightarrow>
   (i64 list \<times> ('d, 'si, 'sf) executor \<times> 'm) cpp" where
  "revealMPCResult_i64 op parties vec x m =
     (case x_suffix x of [] \<Rightarrow> Undef
      | final # rest \<Rightarrow>
          (case x_tokval x final of
             Some (ShI64 s) \<Rightarrow> cbind (reveal_i64_loop op (x_party x) s parties vec m) (\<lambda>(v, m').
               Ret (v, x\<lparr>x_suffix := rest\<rparr>, m'))
           | _ \<Rightarrow> Undef))"

(* src/src/fediux/executor/express.cc:1351-1381 MPCExpressExecutor::Clean *)
definition x_Clean :: "('d, 'si, 'sf) executor \<Rightarrow> ('d, 'si, 'sf) executor" where
  "x_Clean x = x\<lparr>x_cfg := None, x_feed := None, x_suffix := [], x_tokval := Map.empty,
     x_toktype := Map.empty\<rparr>"

end
