(* ===== verification/Express_Local.thy ===== *)
theory Express_Local
  imports Express_Mpc
begin

text \<open>
  \<^verbatim>\<open>LocalExpressExecutor\<close> (executor/express.cc): it borrows the expression, the run mode and the
  token types of an MPC executor, keeps columns of its own, and runs the postfix tokens on plain
  vectors. The sum of two signed integers that does not fit is undefined.
\<close>

section \<open>Vectors\<close>

definition signed_fits :: "int \<Rightarrow> bool" where
  "signed_fits z \<longleftrightarrow> - (2 ^ 63) \<le> z \<and> z < 2 ^ 63"

definition signed_i64 :: "int \<Rightarrow> i64 cpp" where
  "signed_i64 z = (if signed_fits z then Ret (word_of_int z) else Undef)"

definition add_i64 :: "i64 \<Rightarrow> i64 \<Rightarrow> i64 cpp" where "add_i64 a b = signed_i64 (sint a + sint b)"
definition sub_i64 :: "i64 \<Rightarrow> i64 \<Rightarrow> i64 cpp" where "sub_i64 a b = signed_i64 (sint a - sint b)"
definition mul_i64 :: "i64 \<Rightarrow> i64 \<Rightarrow> i64 cpp" where "mul_i64 a b = signed_i64 (sint a * sint b)"

fun cmap :: "('a \<Rightarrow> 'b cpp) \<Rightarrow> 'a list \<Rightarrow> 'b list cpp" where
  "cmap f [] = Ret []"
| "cmap f (a # as) = cbind (f a) (\<lambda>b. cbind (cmap f as) (\<lambda>bs. Ret (b # bs)))"

text \<open>The loops run over the first vector's length and index the second.\<close>

fun cmap2 :: "('a \<Rightarrow> 'b \<Rightarrow> 'c cpp) \<Rightarrow> 'a list \<Rightarrow> 'b list \<Rightarrow> 'c list cpp" where
  "cmap2 f [] bs = Ret []"
| "cmap2 f (a # as) [] = Undef"
| "cmap2 f (a # as) (b # bs) = cbind (f a b) (\<lambda>c. cbind (cmap2 f as bs) (\<lambda>cs. Ret (c # cs)))"

text \<open>
  The three cases of each operator: two vectors, a constant and a vector, a vector and a constant.
  Two constants end in the second case, with a constant read as a vector.
\<close>

(* src/src/fediux/executor/express.cc:1495-1515 LocalExpressExecutor::runLocalEvaluate *)
definition lift_i64 ::
  "(i64 \<Rightarrow> i64 \<Rightarrow> i64 cpp) \<Rightarrow> ('d, 'si, 'sf) tokval \<Rightarrow> ('d, 'si, 'sf) tokval \<Rightarrow>
   ('d, 'si, 'sf) tokval cpp" where
  "lift_i64 f val1 val2 =
     (case (val1, val2) of
        (I64Col as, I64Col bs) \<Rightarrow> cbind (cmap2 f as bs) (\<lambda>v. Ret (I64Col v))
      | (I64Val k, I64Col bs) \<Rightarrow> cbind (cmap (f k) bs) (\<lambda>v. Ret (I64Col v))
      | (I64Col as, I64Val k) \<Rightarrow> cbind (cmap (\<lambda>a. f a k) as) (\<lambda>v. Ret (I64Col v))
      | _ \<Rightarrow> Undef)"

(* src/src/fediux/executor/express.cc:1473-1493 LocalExpressExecutor::runLocalEvaluate *)
definition lift_fp ::
  "('d \<Rightarrow> 'd \<Rightarrow> 'd) \<Rightarrow> ('d, 'si, 'sf) tokval \<Rightarrow> ('d, 'si, 'sf) tokval \<Rightarrow>
   ('d, 'si, 'sf) tokval cpp" where
  "lift_fp f val1 val2 =
     (case (val1, val2) of
        (FpCol as, FpCol bs) \<Rightarrow> cbind (cmap2 (\<lambda>a b. Ret (f a b)) as bs) (\<lambda>v. Ret (FpCol v))
      | (FpVal k, FpCol bs) \<Rightarrow> Ret (FpCol (map (f k) bs))
      | (FpCol as, FpVal k) \<Rightarrow> Ret (FpCol (map (\<lambda>a. f a k) as))
      | _ \<Rightarrow> Undef)"

text \<open>A constant on the right of a sum is added from the left.\<close>

(* src/src/fediux/executor/express.cc:1415-1466 LocalExpressExecutor::runLocalEvaluate *)
definition local_add ::
  "'d fp_arith \<Rightarrow> bool \<Rightarrow> ('d, 'si, 'sf) tokval \<Rightarrow> ('d, 'si, 'sf) tokval \<Rightarrow>
   ('d, 'si, 'sf) tokval cpp" where
  "local_add ar fp val1 val2 =
     (if fp then
        (case (val1, val2) of
           (FpCol as, FpVal k) \<Rightarrow> Ret (FpCol (map (\<lambda>a. f_add ar k a) as))
         | _ \<Rightarrow> lift_fp (f_add ar) val1 val2)
      else
        (case (val1, val2) of
           (I64Col as, I64Val k) \<Rightarrow> cbind (cmap (\<lambda>a. add_i64 k a) as) (\<lambda>v. Ret (I64Col v))
         | _ \<Rightarrow> lift_i64 add_i64 val1 val2))"

(* src/src/fediux/executor/express.cc:1467-1518 LocalExpressExecutor::runLocalEvaluate *)
definition local_sub ::
  "'d fp_arith \<Rightarrow> bool \<Rightarrow> ('d, 'si, 'sf) tokval \<Rightarrow> ('d, 'si, 'sf) tokval \<Rightarrow>
   ('d, 'si, 'sf) tokval cpp" where
  "local_sub ar fp val1 val2 =
     (if fp then lift_fp (f_sub ar) val1 val2 else lift_i64 sub_i64 val1 val2)"

(* src/src/fediux/executor/express.cc:1519-1570 LocalExpressExecutor::runLocalEvaluate *)
definition local_mul ::
  "'d fp_arith \<Rightarrow> bool \<Rightarrow> ('d, 'si, 'sf) tokval \<Rightarrow> ('d, 'si, 'sf) tokval \<Rightarrow>
   ('d, 'si, 'sf) tokval cpp" where
  "local_mul ar fp val1 val2 =
     (if fp then lift_fp (f_mul ar) val1 val2 else lift_i64 mul_i64 val1 val2)"

(* src/src/fediux/executor/express.cc:1571-1598 LocalExpressExecutor::runLocalEvaluate *)
definition local_div ::
  "'d fp_arith \<Rightarrow> ('d, 'si, 'sf) tokval \<Rightarrow> ('d, 'si, 'sf) tokval \<Rightarrow>
   ('d, 'si, 'sf) tokval cpp" where
  "local_div ar val1 val2 = lift_fp (f_div ar) val1 val2"

(* src/src/fediux/executor/express.cc:1413-1599 LocalExpressExecutor::runLocalEvaluate *)
definition runLocalOperator ::
  "'d fp_arith \<Rightarrow> bool \<Rightarrow> string \<Rightarrow> ('d, 'si, 'sf) tokval \<Rightarrow> ('d, 'si, 'sf) tokval \<Rightarrow>
   ('d, 'si, 'sf) tokval cpp" where
  "runLocalOperator ar fp tok val1 val2 =
     (if tok = ''+'' then local_add ar fp val1 val2
      else if tok = ''-'' then local_sub ar fp val1 val2
      else if tok = ''*'' then local_mul ar fp val1 val2
      else local_div ar val1 val2)"

section \<open>Executor\<close>

(* src/src/fediux/executor/express.h:317-322 LocalExpressExecutor *)
record ('d, 'si, 'sf) local_exec =
  l_tokval :: "string \<rightharpoonup> ('d, 'si, 'sf) tokval"
  l_feed :: "'d feed_dict"
  l_cfg :: col_config
  l_double :: "'d list"
  l_int64 :: "i64 list"

text \<open>The new configuration takes every known column for a local one.\<close>

(* src/src/fediux/executor/express.cc:1632-1649 LocalExpressExecutor::createNewColumnConfig *)
definition createNewColumnConfig :: "col_config \<Rightarrow> col_config" where
  "createNewColumnConfig c =
     \<lparr>cfg_party = cfg_party c, col_owner = [],
      col_dtype = fold (\<lambda>(col, t). al_insert col t) (col_dtype c) [],
      local_col = fold (\<lambda>(col, _). al_insert col True) (local_col c) []\<rparr>"

(* src/src/fediux/executor/express.cc:1651-1654 LocalExpressExecutor::creatNewFeedDict *)
definition creatNewFeedDict :: "bool \<Rightarrow> 'd feed_dict" where
  "creatNewFeedDict fp64_run = new_feed_dict fp64_run"

text \<open>\<^verbatim>\<open>init\<close> imports all columns, all of one number type, and ignores what the imports return.\<close>

(* src/src/fediux/executor/express.h:267-272 LocalExpressExecutor::init *)
definition local_init ::
  "'d fp_arith \<Rightarrow> ('d, 'si, 'sf) executor \<Rightarrow> 'd import list \<Rightarrow> ('d, 'si, 'sf) local_exec cpp" where
  "local_init ar x cols =
     cbind (deref (x_cfg x)) (\<lambda>c.
       let c' = createNewColumnConfig c in
       cbind (run_imports (f_of_i64 ar) c' cols (creatNewFeedDict (x_fp64_run x))) (\<lambda>f.
         Ret \<lparr>l_tokval = Map.empty, l_feed = f, l_cfg = c', l_double = [], l_int64 = []\<rparr>))"

(* src/src/fediux/executor/express.cc:1656-1685 LocalExpressExecutor::createTokenValue *)
definition local_createTokenValue ::
  "'d fp_arith \<Rightarrow> ('d, 'si, 'sf) executor \<Rightarrow> ('d, 'si, 'sf) local_exec \<Rightarrow> string \<Rightarrow>
   (int \<times> ('d, 'si, 'sf) tokval) cpp" where
  "local_createTokenValue ar x l tok =
     (case token_type (x_toktype x) tok of
        COLUMN \<Rightarrow>
          (if x_fp64_run x then
             cbind (fd_get_fp64 (l_cfg l) tok (l_feed l)) (\<lambda>(r, v).
               if r \<noteq> 0 then Ret (-1, Remote) else Ret (0, FpCol v))
           else
             cbind (fd_get_i64 (l_cfg l) tok (l_feed l)) (\<lambda>(r, v).
               if r \<noteq> 0 then Ret (-1, Remote) else Ret (0, I64Col v)))
      | VALUE \<Rightarrow> cbind (const_token ar (x_fp64_run x) tok) (\<lambda>v. Ret (0, v)))"

(* src/src/fediux/executor/express.cc:1409-1615 LocalExpressExecutor::runLocalEvaluate *)
fun local_loop ::
  "'d fp_arith \<Rightarrow> ('d, 'si, 'sf) executor \<Rightarrow> ('d, 'si, 'sf) local_exec \<Rightarrow>
   string list \<Rightarrow> string list \<Rightarrow> ('d, 'si, 'sf) tokval list \<Rightarrow>
   (string \<rightharpoonup> ('d, 'si, 'sf) tokval) \<Rightarrow>
   (int \<times> string list \<times> string list \<times> (string \<rightharpoonup> ('d, 'si, 'sf) tokval)) cpp" where
  "local_loop ar x l [] stk1 val_stk tv = Ret (0, [], stk1, tv)"
| "local_loop ar x l (tok # toks) stk1 val_stk tv =
     (if isOperator tok then
        cbind (BeforeMPCRun stk1 val_stk) (\<lambda>(a, b, val1, val2, stk1, val_stk).
          cbind (runLocalOperator ar (x_fp64_run x) tok val1 val2) (\<lambda>res.
            let (stk1, val_stk, tv) = AfterMPCRun (joined a tok b) res stk1 val_stk tv
            in local_loop ar x l toks stk1 val_stk tv))
      else
        cbind (local_createTokenValue ar x l tok) (\<lambda>(ret, v).
          if ret \<noteq> 0 then Ret (-1, toks, tok # stk1, tv)
          else local_loop ar x l toks (tok # stk1) (v # val_stk) (tv(tok \<mapsto> v))))"

text \<open>
  The expression is parsed again, onto whatever is left on the executor's stack. The result is
  the value of the last token.
\<close>

(* src/src/fediux/executor/express.cc:1404-1630 LocalExpressExecutor::runLocalEvaluate *)
definition runLocalEvaluate ::
  "'d fp_arith \<Rightarrow> ('d, 'si, 'sf) executor \<Rightarrow> ('d, 'si, 'sf) local_exec \<Rightarrow>
   (int \<times> ('d, 'si, 'sf) executor \<times> ('d, 'si, 'sf) local_exec) cpp" where
  "runLocalEvaluate ar x l =
     cbind (parseExpress (x_expr x) (x_suffix x)) (\<lambda>toks.
     cbind (local_loop ar x l toks [] [] (l_tokval l)) (\<lambda>(ret, toks', stk1, tv).
       if ret \<noteq> 0 then Ret (ret, x\<lparr>x_suffix := toks'\<rparr>, l\<lparr>l_tokval := tv\<rparr>)
       else (case rev stk1 of
          [] \<Rightarrow> Undef
        | final # rest \<Rightarrow>
            (case tv final of
               Some (FpCol v) \<Rightarrow>
                 Ret (0, x\<lparr>x_suffix := rest\<rparr>, l\<lparr>l_tokval := tv, l_double := l_double l @ v\<rparr>)
             | Some (I64Col v) \<Rightarrow>
                 Ret (0, x\<lparr>x_suffix := rest\<rparr>, l\<lparr>l_tokval := tv, l_int64 := l_int64 l @ v\<rparr>)
             | _ \<Rightarrow> Undef))))"

section \<open>Meaning of an expression\<close>

text \<open>
  The meaning on columns of 64-bit integers, row by row and modulo \<open>2 ^ 64\<close>; and whether all
  intermediate results fit a signed integer.
\<close>

definition word_op :: "char \<Rightarrow> i64 \<Rightarrow> i64 \<Rightarrow> i64" where
  "word_op c a b = (if c = CHR ''+'' then a + b else if c = CHR ''-'' then a - b else a * b)"

definition int_op :: "char \<Rightarrow> int \<Rightarrow> int \<Rightarrow> int" where
  "int_op c a b = (if c = CHR ''+'' then a + b else if c = CHR ''-'' then a - b else a * b)"

primrec meaning :: "(string \<Rightarrow> i64 list) \<Rightarrow> syn \<Rightarrow> i64 list" where
  "meaning env (Name s) = env s"
| "meaning env (NegConst s) = env (CHR ''-'' # s)"
| "meaning env (Par e) = meaning env e"
| "meaning env (Bin c l r) = map2 (word_op c) (meaning env l) (meaning env r)"

primrec fits :: "(string \<Rightarrow> i64 list) \<Rightarrow> syn \<Rightarrow> bool" where
  "fits env (Name s) \<longleftrightarrow> True"
| "fits env (NegConst s) \<longleftrightarrow> True"
| "fits env (Par e) \<longleftrightarrow> fits env e"
| "fits env (Bin c l r) \<longleftrightarrow> fits env l \<and> fits env r \<and>
     list_all2 (\<lambda>a b. signed_fits (int_op c (sint a) (sint b))) (meaning env l) (meaning env r)"

primrec leaves :: "syn \<Rightarrow> string list" where
  "leaves (Name s) = [s]"
| "leaves (NegConst s) = [CHR ''-'' # s]"
| "leaves (Par e) = leaves e"
| "leaves (Bin c l r) = leaves l @ leaves r"

primrec no_div :: "syn \<Rightarrow> bool" where
  "no_div (Name s) \<longleftrightarrow> True"
| "no_div (NegConst s) \<longleftrightarrow> True"
| "no_div (Par e) \<longleftrightarrow> no_div e"
| "no_div (Bin c l r) \<longleftrightarrow> c \<noteq> CHR ''/'' \<and> no_div l \<and> no_div r"

text \<open>The text of the token a subexpression leaves on the token stack.\<close>

primrec tok_text :: "syn \<Rightarrow> string" where
  "tok_text (Name s) = s"
| "tok_text (NegConst s) = CHR ''-'' # s"
| "tok_text (Par e) = tok_text e"
| "tok_text (Bin c l r) = joined (tok_text l) [c] (tok_text r)"

lemma length_meaning:
  "(\<And>t. t \<in> set (leaves e) \<Longrightarrow> length (env t) = n) \<Longrightarrow> length (meaning env e) = n"
  by (induction e) auto

lemma leaf_not_operator: "wf_syn e \<Longrightarrow> t \<in> set (leaves e) \<Longrightarrow> \<not> isOperator t"
  by (induction e) (auto simp: plain_not_operator)

lemma word_op_signed:
  "signed_fits (int_op c (sint a) (sint b)) \<Longrightarrow>
   signed_i64 (int_op c (sint a) (sint b)) = Ret (word_op c a b)"
  by (simp add: signed_i64_def int_op_def word_op_def)

lemma cmap2_fits:
  "list_all2 P as bs \<Longrightarrow> (\<And>a b. P a b \<Longrightarrow> f a b = Ret (g a b)) \<Longrightarrow> cmap2 f as bs = Ret (map2 g as bs)"
  by (induction as bs rule: list_all2_induct) simp_all

lemma operator_cases:
  "isOperatorChar c \<Longrightarrow> c \<noteq> CHR ''/'' \<Longrightarrow> c = CHR ''+'' \<or> c = CHR ''-'' \<or> c = CHR ''*''"
  by (auto simp: isOperatorChar_def)

lemma runLocalOperator_fits:
  assumes "isOperatorChar c" "c \<noteq> CHR ''/''"
    "list_all2 (\<lambda>a b. signed_fits (int_op c (sint a) (sint b))) as bs"
  shows "runLocalOperator ar False [c] (I64Col as) (I64Col bs) = Ret (I64Col (map2 (word_op c) as bs))"
proof -
  have "cmap2 (\<lambda>a b. signed_i64 (int_op c (sint a) (sint b))) as bs = Ret (map2 (word_op c) as bs)"
    using assms(3) by (rule cmap2_fits) (rule word_op_signed)
  then show ?thesis
    using operator_cases [OF assms(1,2)]
    by (auto simp: runLocalOperator_def local_add_def local_sub_def local_mul_def lift_i64_def
        add_i64_def [abs_def] sub_i64_def [abs_def] mul_i64_def [abs_def] int_op_def)
qed

lemma local_loop_syn:
  assumes "wf_syn e" "no_div e" "fits env e" "\<not> x_fp64_run x"
    "\<And>t. t \<in> set (leaves e) \<Longrightarrow> local_createTokenValue ar x l t = Ret (0, I64Col (env t))"
  shows "\<exists>tv'. (\<forall>toks. local_loop ar x l (postfix e @ toks) stk vs tv
      = local_loop ar x l toks (tok_text e # stk) (I64Col (meaning env e) # vs) tv')
    \<and> tv' (tok_text e) = Some (I64Col (meaning env e))"
  using assms
proof (induction e arbitrary: stk vs tv)
  case (Name s)
  then show ?case
    by (intro exI [of _ "tv(s \<mapsto> I64Col (env s))"]) (simp add: plain_not_operator fun_upd_def)
next
  case (NegConst s)
  let ?t = "CHR ''-'' # s"
  from NegConst show ?case
    by (intro exI [of _ "tv(?t \<mapsto> I64Col (env ?t))"]) (simp add: plain_not_operator fun_upd_def)
next
  case (Par e)
  then show ?case by simp
next
  case (Bin c el er)
  from Bin.prems have op: "isOperatorChar c" "c \<noteq> CHR ''/''" by simp_all
  from Bin.IH(1) [of stk vs tv] Bin.prems obtain tv1 where
    1: "\<forall>toks. local_loop ar x l (postfix el @ toks) stk vs tv
      = local_loop ar x l toks (tok_text el # stk) (I64Col (meaning env el) # vs) tv1" by auto
  from Bin.IH(2) [of "tok_text el # stk" "I64Col (meaning env el) # vs" tv1] Bin.prems
  obtain tv2 where 2: "\<forall>toks. local_loop ar x l (postfix er @ toks)
        (tok_text el # stk) (I64Col (meaning env el) # vs) tv1
      = local_loop ar x l toks (tok_text er # tok_text el # stk)
          (I64Col (meaning env er) # I64Col (meaning env el) # vs) tv2" by auto
  from Bin.prems(3) have "list_all2 (\<lambda>a b. signed_fits (int_op c (sint a) (sint b)))
      (meaning env el) (meaning env er)" by simp
  note run = runLocalOperator_fits [OF op this]
  let ?tv = "tv2(joined (tok_text el) [c] (tok_text er) \<mapsto> I64Col (meaning env (Bin c el er)))"
  from 1 2 Bin.prems(4) op(1) show ?case
    by (intro exI [of _ ?tv])
       (simp add: isOperator_single [symmetric] BeforeMPCRun_def AfterMPCRun_def run fun_upd_def)
qed

end
