(* ===== verification/Express_Correct.thy ===== *)
theory Express_Correct
  imports Express_Local
begin

text \<open>
  What the executors compute. An expression without division over integer columns means its value
  row by row modulo \<open>2 ^ 64\<close>. The local executor computes it when no intermediate result overflows;
  the MPC executor computes it over any protocol that shares, adds, subtracts, multiplies and
  reveals correctly, and every party makes the same calls in the same order.
\<close>

section \<open>The protocol\<close>

text \<open>
  What the protocol promises: \<open>plain s\<close> is the column that the share \<open>s\<close> hides, if its parts fit
  together, and \<open>inputs m\<close> the columns that the parties will contribute from here on. Sharing takes
  the next one, at its owner (who knows it) as at the others.
\<close>

definition mpc_laws ::
  "('m, 'si, 'sf, 'd, 'fx) mpc_op \<Rightarrow> ('si \<Rightarrow> i64 list option) \<Rightarrow> ('m \<Rightarrow> i64 list list) \<Rightarrow> bool" where
  "mpc_laws op plain inputs \<longleftrightarrow>
     (\<forall>rows v vs m. inputs m = v # vs \<and> length v = unat rows \<longrightarrow>
        (\<exists>s m'. op_share_i64 op rows v m = Ret (s, m') \<and> plain s = Some v \<and> inputs m' = vs)
        \<and> (\<exists>s m'. op_share_i64_remote op rows m = Ret (s, m') \<and> plain s = Some v \<and> inputs m' = vs))
     \<and> (\<forall>s t a b m. plain s = Some a \<and> plain t = Some b \<and> length a = length b \<longrightarrow>
        (\<exists>u m'. op_add_i64 op [s, t] m = Ret (u, m')
           \<and> plain u = Some (map2 (+) a b) \<and> inputs m' = inputs m)
        \<and> (\<exists>u m'. op_sub_i64 op s [t] m = Ret (u, m')
           \<and> plain u = Some (map2 (-) a b) \<and> inputs m' = inputs m)
        \<and> (\<exists>u m'. op_mul_i64 op s t m = Ret (u, m')
           \<and> plain u = Some (map2 (*) a b) \<and> inputs m' = inputs m))
     \<and> (\<forall>s a m. plain s = Some a \<longrightarrow> (\<exists>m'. op_reveal_i64 op s m = Ret (a, m')))
     \<and> (\<forall>s a p m. plain s = Some a \<longrightarrow> (\<exists>m'. op_reveal_i64_to op s p m = Ret m'))"

lemma mpc_laws_share:
  assumes "mpc_laws op plain inputs" "inputs m = v # vs" "length v = unat rows"
  shows "\<exists>s m'. op_share_i64 op rows v m = Ret (s, m') \<and> plain s = Some v \<and> inputs m' = vs"
    "\<exists>s m'. op_share_i64_remote op rows m = Ret (s, m') \<and> plain s = Some v \<and> inputs m' = vs"
  using assms unfolding mpc_laws_def by blast+

lemma mpc_laws_op:
  assumes "mpc_laws op plain inputs" "plain s = Some a" "plain t = Some b" "length a = length b"
  shows "\<exists>u m'. op_add_i64 op [s, t] m = Ret (u, m')
      \<and> plain u = Some (map2 (+) a b) \<and> inputs m' = inputs m"
    "\<exists>u m'. op_sub_i64 op s [t] m = Ret (u, m')
      \<and> plain u = Some (map2 (-) a b) \<and> inputs m' = inputs m"
    "\<exists>u m'. op_mul_i64 op s t m = Ret (u, m')
      \<and> plain u = Some (map2 (*) a b) \<and> inputs m' = inputs m"
  using assms unfolding mpc_laws_def by blast+

lemma mpc_laws_reveal:
  assumes "mpc_laws op plain inputs" "plain s = Some a"
  shows "\<exists>m'. op_reveal_i64 op s m = Ret (a, m')" "\<exists>m'. op_reveal_i64_to op s p m = Ret m'"
  using assms unfolding mpc_laws_def by blast+

section \<open>The order of shares\<close>

text \<open>
  A column is shared when an operator uses it: \<open>pend e\<close> is the column that \<open>e\<close> leaves unshared,
  \<open>shared e\<close> the columns shared while \<open>e\<close> is evaluated, in their order. It does not depend on who
  owns what.
\<close>

primrec pend :: "syn \<Rightarrow> string list" where
  "pend (Name s) = [s]"
| "pend (NegConst s) = [CHR ''-'' # s]"
| "pend (Par e) = pend e"
| "pend (Bin c l r) = []"

primrec shared :: "syn \<Rightarrow> string list" where
  "shared (Name s) = []"
| "shared (NegConst s) = []"
| "shared (Par e) = shared e"
| "shared (Bin c l r) = shared l @ shared r @ pend l @ pend r"

definition represents ::
  "('si \<Rightarrow> i64 list option) \<Rightarrow> (string \<Rightarrow> i64 list) \<Rightarrow> syn \<Rightarrow> ('d, 'si, 'sf) tokval \<Rightarrow> bool" where
  "represents plain env e v \<longleftrightarrow>
     (if pend e = [] then \<exists>s. v = ShI64 s \<and> plain s = Some (meaning env e)
      else v = I64Col (meaning env e) \<or> v = Remote)"

lemma represents_Par [simp]: "represents plain env (Par e) v = represents plain env e v"
  by (simp add: represents_def)

lemma pend_cases: "pend e = [] \<or> (\<exists>t. pend e = [t] \<and> meaning env e = env t)"
  by (induction e) auto

lemma i64_operand_represents:
  assumes "mpc_laws op plain inputs" "represents plain env e v"
    "inputs m = map env (pend e) @ rest" "length (meaning env e) = unat rows"
  shows "\<exists>s m'. i64_operand op rows v m = Ret (Share s, m') \<and> plain s = Some (meaning env e)
    \<and> inputs m' = rest"
proof (cases "pend e = []")
  case True
  with assms(2,3) show ?thesis by (auto simp: represents_def i64_operand_def)
next
  case False
  with pend_cases [of e env] assms(3) have "inputs m = meaning env e # rest" by auto
  note share = mpc_laws_share [OF assms(1) this assms(4)]
  from False assms(2) have "v = I64Col (meaning env e) \<or> v = Remote" by (simp add: represents_def)
  then show ?thesis
  proof
    assume "v = I64Col (meaning env e)"
    with share(1) show ?thesis
      by (auto simp: i64_operand_def createI64Shares_def constructI64Matrix_def)
  next
    assume "v = Remote"
    with share(2) show ?thesis by (auto simp: i64_operand_def createI64Shares_def)
  qed
qed

lemma runMPCOperator_represents:
  assumes "mpc_laws op plain inputs" "isOperatorChar c" "c \<noteq> CHR ''/''"
    "represents plain env l v" "represents plain env r w"
    "inputs m = map env (pend l @ pend r) @ rest"
    "length (meaning env l) = unat rows" "length (meaning env r) = unat rows"
  shows "\<exists>u m'. runMPCOperator ar op False party rows [c] v w m = Ret (u, m')
    \<and> represents plain env (Bin c l r) u \<and> inputs m' = rest"
proof -
  from i64_operand_represents [OF assms(1,4) _ assms(7), of m "map env (pend r) @ rest"] assms(6)
  obtain s m1 where 1: "i64_operand op rows v m = Ret (Share s, m1)" "plain s = Some (meaning env l)"
    "inputs m1 = map env (pend r) @ rest" by auto
  from i64_operand_represents [OF assms(1,5) 1(3) assms(8)] obtain t m2 where
    2: "i64_operand op rows w m1 = Ret (Share t, m2)" "plain t = Some (meaning env r)" "inputs m2 = rest"
    by auto
  have "length (meaning env l) = length (meaning env r)" by (simp add: assms(7,8))
  note ops = mpc_laws_op [OF assms(1) 1(2) 2(2) this, of m2]
  consider "c = CHR ''+''" | "c = CHR ''-''" | "c = CHR ''*''"
    using operator_cases [OF assms(2,3)] by blast
  then show ?thesis
  proof cases
    case 1
    with ops(1) \<open>i64_operand op rows v m = _\<close> 2(1) show ?thesis
      by (auto simp: runMPCOperator_def runMPCAddI64_def represents_def word_op_def [abs_def]
          \<open>plain s = _\<close> 2(2,3))
  next
    case 2
    with ops(2) \<open>i64_operand op rows v m = _\<close> \<open>i64_operand op rows w m1 = _\<close> show ?thesis
      by (auto simp: runMPCOperator_def runMPCSubI64_def represents_def word_op_def [abs_def]
          \<open>plain s = _\<close> \<open>plain t = _\<close> \<open>inputs m2 = _\<close>)
  next
    case 3
    with ops(3) \<open>i64_operand op rows v m = _\<close> \<open>i64_operand op rows w m1 = _\<close> show ?thesis
      by (auto simp: runMPCOperator_def runMPCMulI64_def represents_def word_op_def [abs_def]
          \<open>plain s = _\<close> \<open>plain t = _\<close> \<open>inputs m2 = _\<close>)
  qed
qed

lemma mpc_loop_syn:
  assumes "mpc_laws op plain inputs" "wf_syn e" "no_div e" "\<not> x_fp64_run x"
    "\<forall>t \<in> set (leaves e). length (env t) = unat rows \<and>
       (\<exists>v. x_createTokenValue ar x t = Ret (0, v) \<and> (v = I64Col (env t) \<or> v = Remote))"
    "inputs m = map env (shared e) @ rest"
  shows "\<exists>v tv' m'. (\<forall>toks. mpc_loop ar op x rows (postfix e @ toks) stk vs tv m
      = mpc_loop ar op x rows toks (tok_text e # stk) (v # vs) tv' m')
    \<and> represents plain env e v \<and> tv' (tok_text e) = Some v \<and> inputs m' = rest"
  using assms(2,3,5,6)
proof (induction e arbitrary: stk vs tv m rest)
  case (Name s)
  then obtain v where "x_createTokenValue ar x s = Ret (0, v)" "v = I64Col (env s) \<or> v = Remote"
    by auto
  with Name show ?case
    by (intro exI [of _ v] exI [of _ "tv(s \<mapsto> v)"] exI [of _ m])
       (auto simp: plain_not_operator represents_def fun_upd_def)
next
  case (NegConst s)
  let ?t = "CHR ''-'' # s"
  from NegConst obtain v where "x_createTokenValue ar x ?t = Ret (0, v)"
    "v = I64Col (env ?t) \<or> v = Remote" by auto
  with NegConst show ?case
    by (intro exI [of _ v] exI [of _ "tv(?t \<mapsto> v)"] exI [of _ m])
       (auto simp: plain_not_operator represents_def fun_upd_def)
next
  case (Par e)
  then show ?case by simp
next
  case (Bin c l r)
  from Bin.prems have op: "isOperatorChar c" "c \<noteq> CHR ''/''" by simp_all
  from Bin.IH(1) [of m "map env (shared r @ pend l @ pend r) @ rest" stk vs tv] Bin.prems
  obtain v tv1 m1 where 1: "\<forall>toks. mpc_loop ar op x rows (postfix l @ toks) stk vs tv m
      = mpc_loop ar op x rows toks (tok_text l # stk) (v # vs) tv1 m1"
    "represents plain env l v" "inputs m1 = map env (shared r @ pend l @ pend r) @ rest" by auto
  from Bin.IH(2) [of m1 "map env (pend l @ pend r) @ rest" "tok_text l # stk" "v # vs" tv1]
    Bin.prems 1(3)
  obtain w tv2 m2 where 2: "\<forall>toks. mpc_loop ar op x rows (postfix r @ toks)
        (tok_text l # stk) (v # vs) tv1 m1
      = mpc_loop ar op x rows toks (tok_text r # tok_text l # stk) (w # v # vs) tv2 m2"
    "represents plain env r w" "inputs m2 = map env (pend l @ pend r) @ rest" by auto
  have "length (meaning env l) = unat rows" "length (meaning env r) = unat rows"
    using Bin.prems(3) by (auto intro!: length_meaning)
  from runMPCOperator_represents [OF assms(1) op 1(2) 2(2,3) this, of ar "x_party x"]
  obtain u m3 where 3: "runMPCOperator ar op False (x_party x) rows [c] v w m2 = Ret (u, m3)"
    "represents plain env (Bin c l r) u" "inputs m3 = rest" by auto
  let ?tv = "tv2(joined (tok_text l) [c] (tok_text r) \<mapsto> u)"
  from 1(1) 2(1) 3 assms(4) op(1) show ?case
    by (intro exI [of _ u] exI [of _ ?tv] exI [of _ m3])
       (simp add: isOperator_single [symmetric] BeforeMPCRun_def AfterMPCRun_def fun_upd_def)
qed

lemma reveal_i64_loop_laws:
  assumes "mpc_laws op plain inputs" "plain s = Some a"
  shows "\<exists>m'. reveal_i64_loop op me s parties vec m
    = Ret (vec @ concat (map (\<lambda>_. a) (filter (\<lambda>p. p = me) parties)), m')"
proof (induction parties arbitrary: vec m)
  case (Cons p ps)
  obtain m1 where 1: "op_reveal_i64 op s m = Ret (a, m1)"
    using mpc_laws_reveal(1) [OF assms] by blast
  obtain m2 where 2: "op_reveal_i64_to op s p m = Ret m2"
    using mpc_laws_reveal(2) [OF assms] by blast
  from Cons [of "vec @ a" m1] Cons [of vec m2] 1 2 show ?case by auto
qed simp

section \<open>Evaluation computes the meaning\<close>

text \<open>
  An executor that is ready to evaluate: the expression is on its stack, its columns are known,
  and the party holds its own ones.
\<close>

definition mpc_ready ::
  "('d, 'si, 'sf) executor \<Rightarrow> syn \<Rightarrow> (string \<Rightarrow> i64 list) \<Rightarrow> bool" where
  "mpc_ready x e env \<longleftrightarrow> x_suffix x = postfix e \<and> \<not> x_fp64_run x \<and>
     (\<exists>c f. x_cfg x = Some c \<and> x_feed x = Some f \<and> (\<forall>t \<in> set (leaves e).
        x_toktype x t = Some COLUMN \<and> length (env t) = unat (getColumnValuesCount f) \<and>
        (map_of (local_col c) t = Some False \<or> fd_get_i64 c t f = Ret (0, env t))))"

lemma createTokenValue_ready:
  assumes "x_toktype x t = Some COLUMN" "\<not> x_fp64_run x" "x_cfg x = Some c" "x_feed x = Some f"
    "map_of (local_col c) t = Some False \<or> fd_get_i64 c t f = Ret (0, env t)"
  shows "\<exists>v. x_createTokenValue ar x t = Ret (0, v) \<and> (v = I64Col (env t) \<or> v = Remote)"
proof (cases "map_of (local_col c) t = Some False")
  case True
  then have "cfg_getColumnLocality t c = Ret (0, False)" by simp
  with assms(1,3) show ?thesis by (simp add: x_createTokenValue_def token_type_def del: cfg_getColumnLocality_Ret)
next
  case False
  with assms(5) have g: "fd_get_i64 c t f = Ret (0, env t)" by simp
  then have "cfg_getColumnLocality t c = Ret (0, True)" by (simp add: fd_get_i64_Ret)
  with g assms(1-4) show ?thesis by (simp add: x_createTokenValue_def token_type_def del: cfg_getColumnLocality_Ret)
qed

lemma mpc_run:
  assumes "mpc_laws op plain inputs" "wf_syn e" "no_div e" "mpc_ready x e env" "pend e = []"
    "inputs m = map env (shared e)"
  shows "\<exists>x' m' tv m''. runMPCEvaluate ar op x m = Ret (0, x', m') \<and>
    revealMPCResult_i64 op parties vec x' m' = Ret
      (vec @ concat (map (\<lambda>_. meaning env e) (filter (\<lambda>p. p = x_party x) parties)),
       x\<lparr>x_suffix := [], x_tokval := tv\<rparr>, m'')"
proof -
  from assms(4) obtain c f where cf: "x_suffix x = postfix e" "\<not> x_fp64_run x" "x_cfg x = Some c"
    "x_feed x = Some f" "\<forall>t \<in> set (leaves e).
        x_toktype x t = Some COLUMN \<and> length (env t) = unat (getColumnValuesCount f) \<and>
        (map_of (local_col c) t = Some False \<or> fd_get_i64 c t f = Ret (0, env t))"
    by (auto simp: mpc_ready_def)
  have leaves: "\<forall>t \<in> set (leaves e). length (env t) = unat (getColumnValuesCount f) \<and>
       (\<exists>v. x_createTokenValue ar x t = Ret (0, v) \<and> (v = I64Col (env t) \<or> v = Remote))"
    using cf(5) createTokenValue_ready [OF _ cf(2-4)] by blast
  from mpc_loop_syn [OF assms(1-3) cf(2) leaves, of m "[]" "[]" "[]" "x_tokval x"] assms(6)
  obtain v tv' m' where
    1: "\<forall>toks. mpc_loop ar op x (getColumnValuesCount f) (postfix e @ toks) [] [] (x_tokval x) m
      = mpc_loop ar op x (getColumnValuesCount f) toks [tok_text e] [v] tv' m'"
    "represents plain env e v" "tv' (tok_text e) = Some v" by auto
  from 1(2) assms(5) obtain s where s: "v = ShI64 s" "plain s = Some (meaning env e)"
    by (auto simp: represents_def)
  let ?x = "x\<lparr>x_suffix := [tok_text e], x_tokval := tv'\<rparr>"
  have run: "runMPCEvaluate ar op x m = Ret (0, ?x, m')"
    using 1(1) [rule_format, of "[]"] by (simp add: runMPCEvaluate_def cf(1,4))
  from reveal_i64_loop_laws [OF assms(1) s(2), of "x_party x" parties vec m'] obtain m'' where
    "reveal_i64_loop op (x_party x) s parties vec m'
      = Ret (vec @ concat (map (\<lambda>_. meaning env e) (filter (\<lambda>p. p = x_party x) parties)), m'')" by auto
  then have "revealMPCResult_i64 op parties vec ?x m' = Ret
      (vec @ concat (map (\<lambda>_. meaning env e) (filter (\<lambda>p. p = x_party x) parties)),
       x\<lparr>x_suffix := [], x_tokval := tv'\<rparr>, m'')"
    by (simp add: revealMPCResult_i64_def 1(3) s)
  with run show ?thesis by blast
qed

lemma local_run:
  assumes "wf_syn e" "no_div e" "fits env e" "x_expr x = syn_text e" "x_suffix x = []"
    "\<not> x_fp64_run x"
    "\<forall>t \<in> set (leaves e). x_toktype x t = Some COLUMN
       \<and> fd_get_i64 (l_cfg l) t (l_feed l) = Ret (0, env t)"
  shows "\<exists>tv. runLocalEvaluate ar x l = Ret (0, x\<lparr>x_suffix := []\<rparr>,
    l\<lparr>l_tokval := tv, l_int64 := l_int64 l @ meaning env e\<rparr>)"
proof -
  have "local_createTokenValue ar x l t = Ret (0, I64Col (env t))" if "t \<in> set (leaves e)" for t
    using assms(6,7) that by (simp add: local_createTokenValue_def token_type_def)
  from local_loop_syn [OF assms(1-3,6) this, of "[]" "[]" "l_tokval l"] obtain tv where
    "\<forall>toks. local_loop ar x l (postfix e @ toks) [] [] (l_tokval l)
       = local_loop ar x l toks [tok_text e] [I64Col (meaning env e)] tv"
    "tv (tok_text e) = Some (I64Col (meaning env e))" by auto
  from this(1) [rule_format, of "[]"] this(2) show ?thesis
    by (intro exI [of _ tv])
       (simp add: runLocalEvaluate_def assms(4,5) parseExpress_syn [OF assms(1)])
qed

section \<open>Resolving the run mode\<close>

lemma resolve_tokens_Ret:
  "\<forall>t \<in> set toks. isOperator t \<or> map_of (col_dtype c) t \<noteq> None \<Longrightarrow>
   resolve_tokens c toks tt d p =
     Ret (fold (\<lambda>t. map_insert t COLUMN) (filter (\<lambda>t. \<not> isOperator t) toks) tt,
          d \<or> ''/'' \<in> set toks, p)"
proof (induction toks arbitrary: tt d)
  case (Cons t toks)
  then show ?case
    by (cases "isOperator t")
       (auto simp: isOperator_def cfg_getColumnDtype_def simp del: cfg_getColumnDtype_Ret)
qed simp

lemma resolve_tokens_Throw:
  "t \<in> set toks \<Longrightarrow> \<not> isOperator t \<Longrightarrow> map_of (col_dtype c) t = None \<Longrightarrow>
   \<exists>msg. resolve_tokens c toks tt d p = Throw msg"
proof (induction toks arbitrary: tt d p)
  case (Cons s toks)
  then show ?case
    by (cases "isOperator s"; cases "map_of (col_dtype c) s")
       (auto simp: cfg_getColumnDtype_def simp del: cfg_getColumnDtype_Ret)
qed simp

lemma fold_map_insert:
  "fold (\<lambda>t. map_insert t v) ts tt t =
     (case tt t of Some w \<Rightarrow> Some w | None \<Rightarrow> if t \<in> set ts then Some v else None)"
  by (induction ts arbitrary: tt) (auto simp: map_insert_apply split: option.splits)

lemma leaves_postfix: "wf_syn e \<Longrightarrow> filter (\<lambda>t. \<not> isOperator t) (postfix e) = leaves e"
  by (induction e) (auto simp: plain_not_operator isOperator_single)

lemma div_in_postfix: "wf_syn e \<Longrightarrow> ''/'' \<in> set (postfix e) \<longleftrightarrow> \<not> no_div e"
proof (induction e)
  case (Name s)
  then show ?case using plain_not_operator(1) [of s] by (auto simp: isOperator_def)
qed (auto simp: isOperatorChar_def)

text \<open>
  C1: the MPC evaluation of an expression without division over integer columns gives its value:
  whoever owns the columns, the evaluation returns, and each party that the result is revealed to
  gets it row by row, modulo \<open>2 ^ 64\<close>, once for each time it is named.
\<close>

theorem mpc_computes_meaning:
  assumes "mpc_laws op plain inputs" "wf_syn e" "no_div e" "mpc_ready x e env" "pend e = []"
    "inputs m = map env (shared e)"
  shows "\<exists>x' m' x'' m''. runMPCEvaluate ar op x m = Ret (0, x', m') \<and>
    revealMPCResult_i64 op parties vec x' m' = Ret
      (vec @ concat (map (\<lambda>_. meaning env e) (filter (\<lambda>p. p = x_party x) parties)), x'', m'')"
  using mpc_run [OF assms, of ar parties vec] by blast

text \<open>
  C17: for an expression over columns of integers with at least one operator and no division, the local
  executor is a reference for the MPC one: run after it, on the same expression with all columns at hand, it
  gives the vector that the MPC run reveals, as long as no intermediate result overflows a signed 64-bit
  integer. (The protocol's division is approximate, so that no such statement holds with one.)
\<close>

theorem local_agrees_with_mpc:
  assumes "mpc_laws op plain inputs" "wf_syn e" "no_div e" "mpc_ready x e env" "pend e = []"
    "inputs m = map env (shared e)" "x_expr x = syn_text e" "fits env e"
    "\<forall>t \<in> set (leaves e). fd_get_i64 (l_cfg l) t (l_feed l) = Ret (0, env t)"
  shows "\<exists>x' m' r x'' m'' x3 l'. runMPCEvaluate ar op x m = Ret (0, x', m')
    \<and> revealMPCResult_i64 op [x_party x] [] x' m' = Ret (r, x'', m'')
    \<and> runLocalEvaluate ar x'' l = Ret (0, x3, l') \<and> l_int64 l' = l_int64 l @ r"
proof -
  from mpc_run [OF assms(1-6), of ar "[x_party x]" "[]"] obtain x' m' tv m'' where
    1: "runMPCEvaluate ar op x m = Ret (0, x', m')" "revealMPCResult_i64 op [x_party x] [] x' m'
      = Ret (meaning env e, x\<lparr>x_suffix := [], x_tokval := tv\<rparr>, m'')" by auto
  let ?x = "x\<lparr>x_suffix := [], x_tokval := tv\<rparr>"
  from assms(4,9) have "\<forall>t \<in> set (leaves e). x_toktype ?x t = Some COLUMN
       \<and> fd_get_i64 (l_cfg l) t (l_feed l) = Ret (0, env t)" "\<not> x_fp64_run ?x"
    by (auto simp: mpc_ready_def)
  from local_run [OF assms(2,3,8) _ _ this(2,1), of ar] assms(7) obtain tv' where
    "runLocalEvaluate ar ?x l = Ret (0, ?x\<lparr>x_suffix := []\<rparr>,
       l\<lparr>l_tokval := tv', l_int64 := l_int64 l @ meaning env e\<rparr>)" by auto
  with 1 show ?thesis by fastforce
qed

text \<open>
  The run mode is resolved exactly when every operand is a known column; then it is floating
  point when there is a division or a floating point column. An expression with a constant throws,
  although constants have a branch of their own.
\<close>

theorem resolve_needs_columns:
  assumes "wf_syn e" "x_suffix x = postfix e" "x_cfg x = Some c"
    "cfg_resolveLocalColumn c = Ret (0, c')"
  shows "((\<exists>t \<in> set (leaves e). map_of (col_dtype c) t = None)
        \<longrightarrow> (\<exists>msg. x_resolveRunMode x = Throw msg))
    \<and> ((\<forall>t \<in> set (leaves e). map_of (col_dtype c) t \<noteq> None)
        \<longrightarrow> (\<exists>x'. x_resolveRunMode x = Ret (0, x')
              \<and> (x_fp64_run x' \<longleftrightarrow> \<not> no_div e \<or> cfg_hasFP64Column c)
              \<and> (\<forall>t \<in> set (leaves e). x_toktype x t = None \<longrightarrow> x_toktype x' t = Some COLUMN)))"
proof -
  have c': "col_dtype c' = col_dtype c"
    using assms(4) by (auto simp: cfg_resolveLocalColumn_def split: if_splits)
  have fp: "cfg_hasFP64Column c' = cfg_hasFP64Column c" by (simp add: cfg_hasFP64Column_def c')
  note leaf = leaves_postfix [OF assms(1)]
  have run: "x_resolveRunMode x = cbind (resolve_tokens c' (postfix e) (x_toktype x) False False)
      (\<lambda>(tt, has_div_op, has_fp64_val). Ret (0, x\<lparr>x_cfg := Some c', x_toktype := tt,
         x_fp64_run := (has_div_op \<or> cfg_hasFP64Column c \<or> has_fp64_val)\<rparr>))"
    by (simp add: x_resolveRunMode_def assms(2-4) fp)
  show ?thesis
  proof (intro conjI impI)
    assume "\<exists>t \<in> set (leaves e). map_of (col_dtype c) t = None"
    then obtain t where t: "t \<in> set (filter (\<lambda>t. \<not> isOperator t) (postfix e))"
      "map_of (col_dtype c') t = None" by (auto simp: leaf c')
    from t(1) have "t \<in> set (postfix e)" "\<not> isOperator t" by simp_all
    from resolve_tokens_Throw [OF this t(2), of "x_toktype x" False False]
    show "\<exists>msg. x_resolveRunMode x = Throw msg" by (auto simp: run)
  next
    assume all: "\<forall>t \<in> set (leaves e). map_of (col_dtype c) t \<noteq> None"
    have "\<forall>t \<in> set (postfix e). isOperator t \<or> map_of (col_dtype c') t \<noteq> None"
      using all by (auto simp: leaf [symmetric] c')
    from resolve_tokens_Ret [OF this, of "x_toktype x" False False]
    show "\<exists>x'. x_resolveRunMode x = Ret (0, x')
              \<and> (x_fp64_run x' \<longleftrightarrow> \<not> no_div e \<or> cfg_hasFP64Column c)
              \<and> (\<forall>t \<in> set (leaves e). x_toktype x t = None \<longrightarrow> x_toktype x' t = Some COLUMN)"
      by (simp add: run leaf fold_map_insert div_in_postfix [OF assms(1)])
  qed
qed

section \<open>Instances\<close>

text \<open>
  A protocol without secrecy, whose shares are the columns, that takes the columns to share from a
  list; an executor of party 0, who owns \<open>a\<close> and \<open>b\<close>, for \<open>(a-c)*b\<close>; and the local executor.
\<close>

definition clear_mpc :: "(i64 list list, i64 list, unit, 'd, 'd) mpc_op" where
  "clear_mpc =
     \<lparr>op_share_i64 = (\<lambda>_ v m. Ret (v, tl m)), op_share_i64_remote = (\<lambda>_ m. Ret (hd m, tl m)),
      op_add_i64 = (\<lambda>ss m. Ret (map2 (+) (ss ! 0) (ss ! 1), m)), op_add_const_i64 = (\<lambda>_ _ _. Undef),
      op_sub_i64 = (\<lambda>s ss m. Ret (map2 (-) s (ss ! 0), m)), op_sub_const_i64 = (\<lambda>_ _ _ _. Undef),
      op_mul_i64 = (\<lambda>s t m. Ret (map2 (*) s t, m)), op_mul_const_i64 = (\<lambda>_ _ _. Undef),
      op_reveal_i64 = (\<lambda>s m. Ret (s, m)), op_reveal_i64_to = (\<lambda>_ _ m. Ret m),
      op_share_fp = (\<lambda>_ _ _. Undef), op_share_fp_remote = (\<lambda>_ _. Undef), op_add_fp = (\<lambda>_ _. Undef),
      op_add_const_fp = (\<lambda>_ _ _. Undef), op_sub_fp = (\<lambda>_ _ _. Undef),
      op_sub_const_fp = (\<lambda>_ _ _ _. Undef), op_mul_fp = (\<lambda>_ _ _. Undef),
      op_mul_const_fp = (\<lambda>_ _ _. Undef), op_div_fp = (\<lambda>_ _ _. Undef), op_reveal_fp = (\<lambda>_ _. Undef),
      op_reveal_fp_to = (\<lambda>_ _ _. Undef), op_fix = id, op_unfix = id\<rparr>"

definition clear_arith :: "unit fp_arith" where
  "clear_arith = \<lparr>f_add = (\<lambda>_ _. ()), f_sub = (\<lambda>_ _. ()), f_mul = (\<lambda>_ _. ()), f_div = (\<lambda>_ _. ()),
     f_one = (), f_of_i64 = (\<lambda>_. ()), f_stod = (\<lambda>_. Ret ())\<rparr>"

lemma clear_mpc_laws: "mpc_laws clear_mpc Some id"
  by (simp add: mpc_laws_def clear_mpc_def)

definition demo_syn :: syn where
  "demo_syn = Bin CHR ''*'' (Par (Bin CHR ''-'' (Name ''a'') (Name ''c''))) (Name ''b'')"

definition demo_env :: "string \<Rightarrow> i64 list" where
  "demo_env t = (if t = ''a'' then [10, 20] else if t = ''b'' then [2, 3] else [4, 21])"

definition demo_executor :: "(unit, i64 list, unit) executor" where
  "demo_executor =
     \<lparr>x_fp64_run = False, x_expr = ''(a-c)*b'', x_suffix = [''a'', ''c'', ''-'', ''b'', ''*''],
      x_cfg = Some \<lparr>cfg_party = 0, col_owner = [(''a'', 0), (''b'', 0), (''c'', 1)],
        col_dtype = [(''a'', INT64), (''b'', INT64), (''c'', INT64)],
        local_col = [(''a'', True), (''b'', True), (''c'', False)]\<rparr>,
      x_feed = Some \<lparr>float_run = False, val_count = 2, fp64_col = [],
        int64_col = [(''a'', [10, 20]), (''b'', [2, 3])]\<rparr>,
      x_tokval = Map.empty,
      x_toktype = [''a'' \<mapsto> COLUMN, ''b'' \<mapsto> COLUMN, ''c'' \<mapsto> COLUMN], x_party = 0\<rparr>"

definition demo_local :: "(unit, i64 list, unit) local_exec" where
  "demo_local =
     \<lparr>l_tokval = Map.empty,
      l_feed = \<lparr>float_run = False, val_count = 2, fp64_col = [],
        int64_col = [(''a'', [10, 20]), (''b'', [2, 3]), (''c'', [4, 21])]\<rparr>,
      l_cfg = \<lparr>cfg_party = 0, col_owner = [], col_dtype = [],
        local_col = [(''a'', True), (''b'', True), (''c'', True)]\<rparr>,
      l_double = [], l_int64 = []\<rparr>"

lemma demo_facts:
  "wf_syn demo_syn" "no_div demo_syn" "pend demo_syn = []" "fits demo_env demo_syn"
  "x_expr demo_executor = syn_text demo_syn" "x_party demo_executor = 0"
  "map demo_env (shared demo_syn) = [[10, 20], [4, 21], [2, 3]]"
  "meaning demo_env demo_syn = [12, -3]"
  by (simp_all add: demo_syn_def demo_env_def demo_executor_def plain_char_def isOperatorChar_def
      Priority_def signed_fits_def int_op_def word_op_def)

lemma demo_ready: "mpc_ready demo_executor demo_syn demo_env"
  by (simp add: mpc_ready_def demo_executor_def demo_syn_def demo_env_def fd_get_i64_Ret
      getColumnValuesCount_def)

theorem mpc_computes_meaning_witness:
  "\<exists>x' m' x'' m''. runMPCEvaluate clear_arith clear_mpc demo_executor [[10, 20], [4, 21], [2, 3]]
      = Ret (0, x', m') \<and> revealMPCResult_i64 clear_mpc [1, 0] [] x' m' = Ret ([12, -3], x'', m'')"
  using mpc_computes_meaning [OF clear_mpc_laws demo_facts(1,2) demo_ready demo_facts(3),
      of "[[10, 20], [4, 21], [2, 3]]" clear_arith "[1, 0]" "[]"]
  by (simp add: demo_facts)

theorem local_agrees_with_mpc_witness:
  "\<exists>x' m' r x'' m'' x3 l'. runMPCEvaluate clear_arith clear_mpc demo_executor
      [[10, 20], [4, 21], [2, 3]] = Ret (0, x', m')
    \<and> revealMPCResult_i64 clear_mpc [0] [] x' m' = Ret (r, x'', m'')
    \<and> runLocalEvaluate clear_arith x'' demo_local = Ret (0, x3, l') \<and> l_int64 l' = r"
proof -
  have "\<forall>t \<in> set (leaves demo_syn).
      fd_get_i64 (l_cfg demo_local) t (l_feed demo_local) = Ret (0, demo_env t)"
    by (simp add: demo_syn_def demo_local_def demo_env_def fd_get_i64_Ret)
  from local_agrees_with_mpc [OF clear_mpc_laws demo_facts(1,2) demo_ready demo_facts(3) _
      demo_facts(5,4) this, of "[[10, 20], [4, 21], [2, 3]]" clear_arith]
  show ?thesis by (simp add: demo_facts demo_local_def)
qed

theorem resolve_needs_columns_witness:
  "\<exists>msg. x_resolveRunMode \<lparr>x_fp64_run = False, x_expr = ''a+2'', x_suffix = [''a'', ''2'', ''+''],
     x_cfg = Some \<lparr>cfg_party = 0, col_owner = [(''a'', 0)], col_dtype = [(''a'', INT64)],
       local_col = []\<rparr>,
     x_feed = None, x_tokval = Map.empty, x_toktype = Map.empty, x_party = 0\<rparr> = Throw msg"
proof -
  let ?e = "Bin CHR ''+'' (Name ''a'') (Name ''2'')"
  let ?c = "\<lparr>cfg_party = 0, col_owner = [(''a'', 0)], col_dtype = [(''a'', INT64)], local_col = []\<rparr>"
  let ?x = "\<lparr>x_fp64_run = False, x_expr = ''a+2'', x_suffix = [''a'', ''2'', ''+''],
    x_cfg = Some ?c, x_feed = None, x_tokval = Map.empty, x_toktype = Map.empty, x_party = 0\<rparr>"
  have "wf_syn ?e" "x_suffix ?x = postfix ?e" "x_cfg ?x = Some ?c"
    "cfg_resolveLocalColumn ?c = Ret (0, ?c\<lparr>local_col := [(''a'', True)]\<rparr>)"
    by (simp_all add: plain_char_def isOperatorChar_def Priority_def cfg_resolveLocalColumn_def
        al_insert_def)
  from resolve_needs_columns [OF this] show ?thesis by simp
qed

end
