(* ===== verification/Number_Facts.thy ===== *)
theory Number_Facts
  imports Prelude
begin

text \<open>
  The number theory that the Paillier scheme rests on: primes, the little theorem of Fermat,
  powers modulo \<open>n\<close> and modulo \<open>n\<^sup>2\<close>, and the Chinese remainder of two coprime moduli.
\<close>

section \<open>Primes\<close>

definition prime_int :: "int \<Rightarrow> bool" where
  "prime_int p \<longleftrightarrow> 1 < p \<and> (\<forall>d \<in> {2..<p}. \<not> d dvd p)"

lemma prime_int_gt_1: "prime_int p \<Longrightarrow> 1 < p"
  by (simp add: prime_int_def)

lemma prime_int_coprime:
  assumes "prime_int p" "\<not> p dvd a"
  shows "coprime a p"
proof -
  let ?g = "gcd a p"
  have "0 < ?g" "?g dvd p" "?g \<noteq> p"
    using assms by (auto simp: prime_int_def) (metis gcd_dvd1)
  moreover have "?g \<le> p" using assms(1) \<open>?g dvd p\<close> by (simp add: prime_int_def zdvd_imp_le)
  ultimately have "?g = 1"
  proof -
    assume g: "0 < ?g" "?g dvd p" "?g \<noteq> p" "?g \<le> p"
    from g(1,3,4) have "?g \<in> {2..<p} \<or> ?g = 1" by (simp only: atLeastLessThan_iff) presburger
    with g(2) assms(1) show ?thesis unfolding prime_int_def by blast
  qed
  then show ?thesis by (simp add: coprime_iff_gcd_eq_1)
qed

lemma prime_int_dvd_mult: "prime_int p \<Longrightarrow> p dvd a * b \<Longrightarrow> p dvd a \<or> p dvd b"
  using prime_int_coprime [of p a] by (metis coprime_commute coprime_dvd_mult_right_iff)

lemma prime_above:
  assumes "0 \<le> x"
  shows "\<exists>p. prime_int p \<and> x < p \<and> p \<le> fact (nat x) + 1"
proof -
  let ?N = "fact (nat x) + 1 :: nat"
  define d where "d = (LEAST d. 1 < d \<and> d dvd ?N)"
  have "1 < ?N \<and> ?N dvd ?N" using fact_gt_zero [of "nat x", where 'a = nat] by simp
  then have d: "1 < d" "d dvd ?N" "d \<le> ?N"
    unfolding d_def by (metis (mono_tags, lifting) LeastI, metis (mono_tags, lifting) LeastI, metis (mono_tags, lifting) Least_le)
  have "\<not> e dvd int d" if e: "2 \<le> e" "e < int d" for e
  proof
    assume "e dvd int d"
    then have "nat e dvd d" using e by (metis int_dvd_int_iff int_nat_eq linear nat_0_le order_trans zero_le_numeral)
    with d(2) have "1 < nat e \<and> nat e dvd ?N" using e by (auto intro: dvd_trans)
    then have "d \<le> nat e" unfolding d_def by (rule Least_le)
    with e show False by linarith
  qed
  then have "prime_int (int d)" using d(1) by (simp add: prime_int_def)
  moreover have "x < int d"
  proof (rule ccontr)
    assume "\<not> x < int d"
    then have "d \<le> nat x" by linarith
    then have "d dvd fact (nat x)" using d(1) by (intro dvd_fact) auto
    with d(2) have "d dvd 1" by (metis dvd_add_right_iff)
    with d(1) show False by simp
  qed
  moreover have "int d \<le> fact (nat x) + 1" using d(3) by (metis of_nat_1 of_nat_add of_nat_fact of_nat_le_iff)
  ultimately show ?thesis by blast
qed

lemma prime_dvd_choose:
  assumes "prime_int (int p)" "0 < k" "k < p"
  shows "int p dvd int (p choose k)"
proof -
  have "k * (p choose k) = p * (p - 1 choose (k - 1))"
    using assms(2,3) by (intro times_binomial_minus1_eq) simp
  then have "int p dvd int k * int (p choose k)"
    by (metis dvd_triv_left of_nat_mult)
  moreover have "\<not> int p dvd int k"
    using assms(2,3) by (auto dest: zdvd_imp_le)
  ultimately show ?thesis using prime_int_dvd_mult [OF assms(1)] by blast
qed

lemma freshman:
  assumes "prime_int (int p)"
  shows "((a + 1) ^ p) mod int p = (a ^ p + 1) mod int p"
proof -
  have p: "0 < p" using prime_int_gt_1 [OF assms] by simp
  have "(a + 1) ^ p = (\<Sum>k\<le>p. of_nat (p choose k) * a ^ k * 1 ^ (p - k))"
    by (rule binomial_ring)
  also have "\<dots> = (\<Sum>k\<in>{0<..<p}. int (p choose k) * a ^ k) + (1 + a ^ p)"
  proof -
    have "{..p} = insert 0 (insert p {0<..<p})" using p by auto
    then show ?thesis using p by simp
  qed
  finally have e: "(a + 1) ^ p - (a ^ p + 1) = (\<Sum>k\<in>{0<..<p}. int (p choose k) * a ^ k)" by simp
  have "int p dvd (\<Sum>k\<in>{0<..<p}. int (p choose k) * a ^ k)"
    using prime_dvd_choose [OF assms] by (intro dvd_sum) auto
  then show ?thesis unfolding e [symmetric] by (simp add: mod_eq_dvd_iff)
qed

lemma fermat_nat: "prime_int (int p) \<Longrightarrow> (int a ^ p) mod int p = int a mod int p"
proof (induction a)
  case 0
  then show ?case using prime_int_gt_1 [of "int p"] by (cases p) auto
next
  case (Suc a)
  have "(int (Suc a)) ^ p mod int p = ((int a) ^ p + 1) mod int p"
    using freshman [OF Suc.prems, of "int a"] by (simp add: add.commute)
  also have "\<dots> = (int a + 1) mod int p"
    using Suc by (metis mod_add_left_eq)
  finally show ?case by (simp add: add.commute)
qed

lemma fermat:
  assumes "prime_int p" "\<not> p dvd a"
  shows "a ^ nat (p - 1) mod p = 1"
proof -
  have p: "1 < p" by (rule prime_int_gt_1 [OF assms(1)])
  define b where "b = nat (a mod p)"
  have b: "int b = a mod p" using p by (simp add: b_def)
  have "(a mod p) ^ nat p mod p = (a mod p) mod p"
    using fermat_nat [of "nat p" b] assms(1) p by (simp add: b)
  then have "a ^ nat p mod p = a mod p" by (simp add: power_mod)
  then have "p dvd a ^ nat p - a" by (simp add: mod_eq_dvd_iff)
  moreover have "a ^ nat p = a * a ^ nat (p - 1)"
    using p by (metis Suc_nat_eq_nat_zadd1 add.commute diff_add_cancel int_one_le_iff_zero_less
        less_le_not_le nat_diff_distrib' power_Suc zero_le_one zle_diff1_eq)
  ultimately have "p dvd a * (a ^ nat (p - 1) - 1)" by (simp add: right_diff_distrib)
  then have "p dvd a ^ nat (p - 1) - 1"
    using prime_int_dvd_mult [OF assms(1)] assms(2) by blast
  then have "a ^ nat (p - 1) mod p = 1 mod p" by (simp add: mod_eq_dvd_iff)
  with p show ?thesis by simp
qed

section \<open>Powers\<close>

lemma power_mod_1: "a mod m = 1 mod m \<Longrightarrow> a ^ k mod m = 1 mod (m :: int)"
  by (metis power_mod power_one)

lemma one_plus_power:
  fixes n m :: int
  shows "n\<^sup>2 dvd (1 + m * n) ^ k - (1 + int k * m * n)"
proof (induction k)
  case (Suc k)
  obtain c where c: "(1 + m * n) ^ k = 1 + int k * m * n + n\<^sup>2 * c"
    using Suc by (metis diff_add_cancel add.commute dvd_def)
  have "(1 + m * n) ^ Suc k - (1 + int (Suc k) * m * n)
      = n\<^sup>2 * (c + c * m * n + int k * m * m)"
    by (simp add: c power2_eq_square algebra_simps)
  then show ?case by simp
qed simp

text \<open>What is 1 modulo a divisor of the exponent is 1 modulo its square.\<close>

lemma power_lift:
  fixes a p n :: int
  assumes "a mod p = 1 mod p" "p dvd n" "0 < n"
  shows "a ^ nat n mod p\<^sup>2 = 1 mod p\<^sup>2"
proof -
  obtain c where c: "a = 1 + c * p" using assms(1)
    by (metis add.commute diff_add_cancel dvd_def mod_eq_dvd_iff mult.commute)
  obtain d where d: "n = p * d" using assms(2) by (auto simp: dvd_def)
  have "p\<^sup>2 dvd (1 + c * p) ^ nat n - (1 + int (nat n) * c * p)" by (rule one_plus_power)
  moreover have "int (nat n) * c * p = p\<^sup>2 * (d * c)"
    using assms(3) by (simp add: d power2_eq_square)
  ultimately have "p\<^sup>2 dvd (1 + c * p) ^ nat n - 1"
    by (metis diff_diff_eq dvd_add_right_iff dvd_triv_left add.commute diff_add_cancel)
  then show ?thesis by (simp add: c mod_eq_dvd_iff)
qed

lemma power_cong_sq:
  fixes a b p n :: int
  assumes "a mod p = b mod p" "p dvd n" "0 < n"
  shows "a ^ nat n mod p\<^sup>2 = b ^ nat n mod p\<^sup>2"
proof -
  obtain c where c: "a = b + c * p" using assms(1)
    by (metis add.commute diff_add_cancel dvd_def mod_eq_dvd_iff mult.commute)
  have step: "p\<^sup>2 dvd (b + c * p) ^ k - (b ^ k + int k * b ^ (k - 1) * c * p)" for k
  proof (induction k)
    case (Suc k)
    obtain x where x: "(b + c * p) ^ k = b ^ k + int k * b ^ (k - 1) * c * p + p\<^sup>2 * x"
      using Suc by (metis diff_add_cancel add.commute dvd_def)
    have "k = 0 \<or> b ^ (k - 1) * b = b ^ k" by (cases k) simp_all
    then have "int k * b ^ (k - 1) * b = int k * b ^ k" by auto
    then have "(b + c * p) ^ Suc k - (b ^ Suc k + int (Suc k) * b ^ (Suc k - 1) * c * p)
        = p\<^sup>2 * (x * b + x * c * p + int k * b ^ (k - 1) * c * c)"
      by (simp add: x power2_eq_square algebra_simps)
    then show ?case by simp
  qed simp
  obtain d where d: "n = p * d" using assms(2) by (auto simp: dvd_def)
  have "int (nat n) * b ^ (nat n - 1) * c * p = p\<^sup>2 * (d * b ^ (nat n - 1) * c)"
    using assms(3) by (simp add: d power2_eq_square)
  with step [of "nat n"] have "p\<^sup>2 dvd (b + c * p) ^ nat n - b ^ nat n"
    by (metis diff_diff_eq dvd_add_right_iff dvd_triv_left add.commute diff_add_cancel)
  then show ?thesis by (simp add: c mod_eq_dvd_iff)
qed

section \<open>Remainders\<close>

lemma mod_both_coprime:
  fixes a b m n :: int
  assumes "coprime m n" "a mod m = b mod m" "a mod n = b mod n"
  shows "a mod (m * n) = b mod (m * n)"
  using assms by (simp add: mod_eq_dvd_iff divides_mult)

text \<open>The combination \<open>x + (y - x) * (m * i)\<close>, where \<open>i\<close> inverts \<open>m\<close> modulo \<open>n\<close>.\<close>

lemma crt_combine:
  fixes x y m n i a :: int
  assumes "coprime m n" "m * i mod n = 1 mod n" "x mod m = a mod m" "y mod n = a mod n"
  shows "(x + (y - x) * (i * m)) mod (m * n) = a mod (m * n)"
proof (rule mod_both_coprime [OF assms(1)])
  have "m dvd (y - x) * (i * m)" by simp
  then show "(x + (y - x) * (i * m)) mod m = a mod m"
    using assms(3) by (metis add_cancel_left_right mod_add_right_eq mod_0_imp_dvd dvd_imp_mod_0
        add.right_neutral)
  have "(y - x) * (m * i) mod n = (y - x) mod n"
    using assms(2) by (metis mod_mult_right_eq mult.right_neutral)
  then have "(x + (y - x) * (i * m)) mod n = y mod n"
    by (metis mod_add_right_eq mult.commute add.commute diff_add_cancel)
  with assms(4) show "(x + (y - x) * (i * m)) mod n = a mod n" by simp
qed

end
