(* ===== verification/Paillier_Pow.thy ===== *)
theory Paillier_Pow
  imports Number_Facts
begin

text \<open>
  The helpers of the optimised Paillier scheme (algorithm/opt_paillier/src): random numbers and
  logarithms (utils.cc), powers of a fixed base by a table (powmod.cc), and the packing of several
  numbers into one by the Chinese remainder theorem (crt_datapack.cc). A GMP integer is an \<open>int\<close>
  with its arithmetic; modular powers and inverses, prime search and the conversion from and to
  text are GMP functions, parameters with their documented results as \<open>gmp_laws\<close>. Random bytes
  are arguments.
\<close>

section \<open>GMP\<close>

record gmp =
  mpz_powm :: "int \<Rightarrow> int \<Rightarrow> int \<Rightarrow> int"
  mpz_invert :: "int \<Rightarrow> int \<Rightarrow> int"
  mpz_nextprime :: "int \<Rightarrow> int"
  mpz_probab_prime :: "int \<Rightarrow> bool"
  mpz_set_str :: "string \<Rightarrow> int \<Rightarrow> int option"
  mpz_get_str :: "int \<Rightarrow> int \<Rightarrow> string"

definition gmp_laws :: "gmp \<Rightarrow> bool" where
  "gmp_laws g \<longleftrightarrow>
     (\<forall>b e m. 0 \<le> e \<and> 0 < m \<longrightarrow> mpz_powm g b e m = b ^ nat e mod m)
     \<and> (\<forall>a m. 1 < m \<and> coprime a m \<longrightarrow>
          0 \<le> mpz_invert g a m \<and> mpz_invert g a m < m \<and> a * mpz_invert g a m mod m = 1)
     \<and> (\<forall>x radix. 2 \<le> radix \<and> radix \<le> 36 \<longrightarrow>
          mpz_set_str g (mpz_get_str g radix x) radix = Some x)"

lemma gmp_powm: "gmp_laws g \<Longrightarrow> 0 \<le> e \<Longrightarrow> 0 < m \<Longrightarrow> mpz_powm g b e m = b ^ nat e mod m"
  by (simp add: gmp_laws_def)

lemma gmp_invert:
  assumes "gmp_laws g" "1 < m" "coprime a m"
  shows "a * mpz_invert g a m mod m = 1"
  using assms by (simp add: gmp_laws_def)

lemma gmp_str:
  "gmp_laws g \<Longrightarrow> 2 \<le> radix \<Longrightarrow> radix \<le> 36 \<Longrightarrow> mpz_set_str g (mpz_get_str g radix x) radix = Some x"
  by (simp add: gmp_laws_def)

text \<open>\<^verbatim>\<open>mpz_divexact\<close> is defined for a divisor only.\<close>

definition mpz_divexact :: "int \<Rightarrow> int \<Rightarrow> int cpp" where
  "mpz_divexact a b = (if b \<noteq> 0 \<and> b dvd a then Ret (a div b) else Undef)"

section \<open>Utilities\<close>

text \<open>The count of halvings until a positive number is gone, less one.\<close>

fun shift_count :: "nat \<Rightarrow> nat" where
  "shift_count b = (if b div 2 = 0 then 0 else Suc (shift_count (b div 2)))"

declare shift_count.simps [simp del]

(* src/src/fediux/algorithm/opt_paillier/src/utils.cc:29-36 ceil_log2 *)
definition ceil_log2 :: "nat \<Rightarrow> nat" where
  "ceil_log2 bits = (if bits = 1 then 1
     else shift_count bits + (if 2 ^ shift_count bits < bits then 1 else 0))"

(* src/src/fediux/algorithm/opt_paillier/src/utils.cc:38-45 ceil_log2_min1 *)
definition ceil_log2_min1 :: "nat \<Rightarrow> nat" where
  "ceil_log2_min1 bits = (if bits \<le> 1 then 1
     else shift_count bits + (if 2 ^ shift_count bits < bits then 1 else 0))"

(* src/src/fediux/algorithm/opt_paillier/src/utils.cc:47-54 ceil_log2_real *)
definition ceil_log2_real :: "nat \<Rightarrow> nat" where
  "ceil_log2_real bits = (if bits = 1 then 0
     else shift_count bits + (if 2 ^ shift_count bits < bits then 1 else 0))"

(* src/src/fediux/algorithm/opt_paillier/src/utils.cc:56-63 floor_log2 *)
definition floor_log2 :: "nat \<Rightarrow> nat" where
  "floor_log2 bits = (if bits = 1 then 1 else shift_count bits)"

text \<open>
  A random number of a bit length: the bytes are read most significant first, and the bits above
  the length are cleared one by one.
\<close>

definition import_bytes :: "u8 list \<Rightarrow> int" where
  "import_bytes bytes = fold (\<lambda>b acc. acc * 256 + uint b) bytes 0"

definition mpz_clrbit :: "int \<Rightarrow> nat \<Rightarrow> int" where
  "mpz_clrbit x i = x AND NOT (push_bit i 1)"

(* src/src/fediux/algorithm/opt_paillier/src/utils.cc:93-125 aby_prng *)
definition aby_prng :: "u8 list \<Rightarrow> nat \<Rightarrow> int" where
  "aby_prng bytes bitlen =
     (let byte_count = (bitlen + 8 - 1) div 8;
          rnd = import_bytes (take byte_count bytes)
      in if bitlen mod 8 \<noteq> 0
         then fold (\<lambda>i x. mpz_clrbit x (byte_count * 8 - i - 1)) [0..<8 - bitlen mod 8] rnd
         else rnd)"

section \<open>Powers of a fixed base\<close>

(* src/src/fediux/algorithm/opt_paillier/include/powmod.h:12-18 fb_instance *)
record fb_instance =
  m_mod :: int
  m_table_G :: "int list"
  m_h :: nat
  m_t :: nat
  m_w :: nat

(* src/src/fediux/algorithm/opt_paillier/src/powmod.cc:21-43 fbpowmod_init_extend *)
definition fbpowmod_init_extend :: "gmp \<Rightarrow> int \<Rightarrow> int \<Rightarrow> nat \<Rightarrow> nat \<Rightarrow> fb_instance cpp" where
  "fbpowmod_init_extend g base md maxbits winsize =
     (if winsize = 0 then Undef
      else let h = 2 ^ winsize; t = (maxbits - 1) div winsize + 1
      in Ret \<lparr>m_mod = md, m_table_G = map (\<lambda>i. mpz_powm g base (int (h ^ i)) md) [0..<t + 1],
              m_h = h, m_t = t, m_w = winsize\<rparr>)"

text \<open>
  The digits of the exponent, least significant first. A window of width 0 cannot be: the
  initialisation divides by the width.
\<close>

(* src/src/fediux/algorithm/opt_paillier/src/powmod.cc:52-59 fbpowmod_extend *)
function fb_digits :: "nat \<Rightarrow> nat \<Rightarrow> int \<Rightarrow> nat list" where
  "fb_digits h w e = (if e \<le> 0 \<or> w = 0 then []
     else nat (e mod int h) # fb_digits h w (e div 2 ^ w))"
  by pat_completeness auto
termination
proof (relation "measure (\<lambda>(h, w, e). nat e)")
  fix h w :: nat and e :: int
  assume "\<not> (e \<le> 0 \<or> w = 0)"
  moreover from this have "(1 :: int) < 2 ^ w" by (simp add: one_less_power)
  ultimately show "((h, w, e div 2 ^ w), h, w, e) \<in> measure (\<lambda>(h, w, e). nat e)"
    by (simp add: int_div_less_self)
qed simp

declare fb_digits.simps [simp del]

(* src/src/fediux/algorithm/opt_paillier/src/powmod.cc:63-68 fbpowmod_extend *)
definition fb_inner :: "int \<Rightarrow> (nat \<times> int) list \<Rightarrow> nat \<Rightarrow> int \<Rightarrow> int" where
  "fb_inner md eg j temp = fold (\<lambda>(e, x) acc. if e = j then acc * x mod md else acc) eg temp"

(* src/src/fediux/algorithm/opt_paillier/src/powmod.cc:62-71 fbpowmod_extend *)
primrec fb_outer :: "int \<Rightarrow> (nat \<times> int) list \<Rightarrow> nat \<Rightarrow> int \<Rightarrow> int \<Rightarrow> int" where
  "fb_outer md eg 0 temp result = result"
| "fb_outer md eg (Suc j) temp result =
     (let temp' = fb_inner md eg (Suc j) temp
      in fb_outer md eg j temp' (result * temp' mod md))"

text \<open>The array of digits has room for \<open>m_t + 1\<close>.\<close>

(* src/src/fediux/algorithm/opt_paillier/src/powmod.cc:45-75 fbpowmod_extend *)
definition fbpowmod_extend :: "fb_instance \<Rightarrow> int \<Rightarrow> int cpp" where
  "fbpowmod_extend fb ex =
     (let m_e = fb_digits (m_h fb) (m_w fb) ex
      in if length m_e > m_t fb + 1 then Undef
         else Ret (fb_outer (m_mod fb) (zip m_e (m_table_G fb)) (m_h fb - 1) 1 1))"

section \<open>Packing\<close>

(* src/src/fediux/algorithm/opt_paillier/include/crt_datapack.h:18-23 CrtMod *)
record crt_mods =
  crt_half_mod :: "int list"
  crt_mod :: "int list"
  crt_mod_size :: nat

(* src/src/fediux/algorithm/opt_paillier/src/crt_datapack.cc:24-31 init_crt *)
primrec crt_primes :: "gmp \<Rightarrow> nat \<Rightarrow> int \<Rightarrow> int list" where
  "crt_primes g 0 cur = []"
| "crt_primes g (Suc k) cur = (let p = mpz_nextprime g cur in p # crt_primes g k p)"

(* src/src/fediux/algorithm/opt_paillier/src/crt_datapack.cc:10-33 init_crt *)
definition init_crt :: "gmp \<Rightarrow> u8 list \<Rightarrow> nat \<Rightarrow> nat \<Rightarrow> crt_mods" where
  "init_crt g bytes crt_size mod_size =
     (let cur = aby_prng bytes mod_size OR push_bit mod_size 1; ps = crt_primes g crt_size cur
      in \<lparr>crt_half_mod = map (\<lambda>p. p div 2) ps, crt_mod = ps, crt_mod_size = mod_size\<rparr>)"

(* src/src/fediux/algorithm/opt_paillier/src/crt_datapack.cc:51-63 data_packing_crt *)
fun packing_loop :: "gmp \<Rightarrow> int \<Rightarrow> int \<Rightarrow> (string \<times> int) list \<Rightarrow> int \<Rightarrow> int cpp" where
  "packing_loop g radix muls [] res = Ret res"
| "packing_loop g radix muls ((s, md) # sms) res =
     (case mpz_set_str g s radix of None \<Rightarrow> Undef
      | Some v \<Rightarrow>
          let cur = (if v < 0 then (v + md) mod md else v)
          in cbind (mpz_divexact muls md) (\<lambda>coef.
               packing_loop g radix muls sms
                 ((res + cur * coef * mpz_invert g coef md) mod muls)))"

(* src/src/fediux/algorithm/opt_paillier/src/crt_datapack.cc:35-65 data_packing_crt *)
definition data_packing_crt :: "gmp \<Rightarrow> string list \<Rightarrow> crt_mods \<Rightarrow> int \<Rightarrow> int cpp" where
  "data_packing_crt g sq crtmod radix =
     (if length sq > length (crt_mod crtmod) then Throw ''size of packing is more than crt''
      else let mods = take (length sq) (crt_mod crtmod); muls = fold (\<lambda>m acc. acc * m) mods 1
           in packing_loop g radix muls (zip sq mods) 0)"

(* src/src/fediux/algorithm/opt_paillier/src/crt_datapack.cc:67-88 data_retrieve_crt *)
definition data_retrieve_crt :: "gmp \<Rightarrow> int \<Rightarrow> crt_mods \<Rightarrow> nat \<Rightarrow> int \<Rightarrow> string list cpp" where
  "data_retrieve_crt g pack crtmod data_size radix =
     (if data_size > length (crt_mod crtmod) then Throw ''size of packing is more than crt''
      else Ret (map (\<lambda>(md, half).
             let cur = pack mod md
             in mpz_get_str g radix (if half \<le> cur then cur - md else cur))
           (take data_size (zip (crt_mod crtmod) (crt_half_mod crtmod)))))"

section \<open>The fixed base gives the power\<close>

lemma import_bytes_snoc: "import_bytes (bs @ [b]) = import_bytes bs * 256 + uint b"
  by (simp add: import_bytes_def)

lemma import_bytes_bounds: "0 \<le> import_bytes bs \<and> import_bytes bs < 256 ^ length bs"
proof (induction bs rule: rev_induct)
  case (snoc b bs)
  have "uint b < 256" using uint_lt2p [of b] by simp
  with snoc show ?case by (auto simp: import_bytes_snoc algebra_simps)
qed (simp add: import_bytes_def)

lemma bit_fold_clrbit:
  "bit (fold (\<lambda>i x. mpz_clrbit x (f i)) is x) k \<longleftrightarrow> bit x k \<and> k \<notin> f ` set is"
  by (induction "is" arbitrary: x)
     (auto simp: mpz_clrbit_def bit_and_iff bit_not_iff bit_exp_iff)

lemma aby_prng_take_bit:
  "aby_prng bytes bitlen = take_bit bitlen (import_bytes (take ((bitlen + 7) div 8) bytes))"
proof -
  let ?n = "(bitlen + 7) div 8"
  let ?x = "import_bytes (take ?n bytes)"
  have n: "8 * ?n = bitlen + (if bitlen mod 8 = 0 then 0 else 8 - bitlen mod 8)"
  proof -
    define a q where aq: "a = bitlen div 8" "q = bitlen mod 8"
    then have b: "bitlen = q + 7 + 8 * a - 7" "q < 8" by simp_all
    have "(bitlen + 7) div 8 = (q + 7 + a * 8) div 8" using b by (simp add: mult.commute)
    also have "\<dots> = a + (q + 7) div 8" by (rule div_mult_self1) simp
    also have "(q + 7) div 8 = (if q = 0 then 0 else 1)"
      using b(2) by (auto intro: div_nat_eqI)
    finally show ?thesis using b unfolding aq(2) [symmetric] by simp
  qed
  have "256 ^ length (take ?n bytes) \<le> (256 :: int) ^ ?n" by (intro power_increasing) auto
  then have x: "0 \<le> ?x" "?x < 256 ^ ?n"
    using import_bytes_bounds [of "take ?n bytes"] by (blast intro: order_less_le_trans)+
  have "(256 :: int) ^ ?n = 2 ^ (8 * ?n)" by (simp add: power_mult)
  with x have tx: "take_bit (8 * ?n) ?x = ?x" by (simp add: take_bit_int_eq_self)
  show ?thesis
  proof (cases "bitlen mod 8 = 0")
    case True
    with n tx show ?thesis by (simp add: aby_prng_def add.commute)
  next
    case False
    define q where "q = bitlen mod 8"
    have q: "0 < q" "q < 8" "q \<le> bitlen" "?n * 8 = bitlen + 8 - q"
      using False n by (auto simp: q_def)
    have bits: "k \<notin> (\<lambda>i. ?n * 8 - i - 1) ` {0..<8 - bitlen mod 8} \<and> k < 8 * ?n \<longleftrightarrow> k < bitlen" for k
      unfolding q_def [symmetric] mult.commute [of 8 ?n] q(4)
    proof -
      have "k < bitlen + 8 - q \<Longrightarrow> bitlen \<le> k \<Longrightarrow> k \<in> (\<lambda>i. bitlen + 8 - q - i - 1) ` {0..<8 - q}"
        using q(1-3) by (intro image_eqI [of _ _ "bitlen + 8 - q - k - 1"]) auto
      moreover have "k < bitlen \<Longrightarrow> k \<notin> (\<lambda>i. bitlen + 8 - q - i - 1) ` {0..<8 - q}"
        using q(1-3) by auto
      moreover have "k < bitlen \<Longrightarrow> k < bitlen + 8 - q" using q(2) by simp
      ultimately show "k \<notin> (\<lambda>i. bitlen + 8 - q - i - 1) ` {0..<8 - q} \<and> k < bitlen + 8 - q \<longleftrightarrow> k < bitlen"
        by force
    qed
    have "bit ?x k \<longleftrightarrow> bit ?x k \<and> k < 8 * ?n" for k
      using tx by (metis bit_take_bit_iff)
    with bits show ?thesis
      using False by (intro bit_eqI) (auto simp: aby_prng_def Let_def bit_fold_clrbit bit_take_bit_iff add.commute)
  qed
qed

lemma aby_prng_bounds: "0 \<le> aby_prng bytes bitlen" "aby_prng bytes bitlen < 2 ^ bitlen"
  by (simp_all add: aby_prng_take_bit)

text \<open>
  The loops: after round \<open>j\<close> the accumulator is the product of the table entries whose digit is at
  least \<open>j\<close>, and the result has each entry to the power of how often it has been in that product.
\<close>

definition upto_prod :: "(nat \<times> int) list \<Rightarrow> nat \<Rightarrow> int" where
  "upto_prod eg j = prod_list (map (\<lambda>(e, x). if j \<le> e then x else 1) eg)"

definition pow_prod :: "(nat \<times> int) list \<Rightarrow> nat \<Rightarrow> int" where
  "pow_prod eg j = prod_list (map (\<lambda>(e, x). x ^ (e + 1 - j)) eg)"

lemma fb_inner_mod:
  "fb_inner md eg j t mod md
     = t * prod_list (map (\<lambda>(e, x). if e = j then x else 1) eg) mod md"
proof (induction eg arbitrary: t)
  case Nil
  then show ?case by (simp add: fb_inner_def)
next
  case (Cons ex eg)
  obtain e x where ex: "ex = (e, x)" by fastforce
  from Cons [of "if e = j then t * x mod md else t"] show ?case
    by (auto simp: fb_inner_def ex mod_mult_left_eq mult.assoc)
qed

lemma prod_list_map_mult:
  "prod_list (map f xs) * prod_list (map g xs) = prod_list (map (\<lambda>x. f x * g x :: int) xs)"
  by (induction xs) (simp_all add: algebra_simps)

lemma upto_prod_step:
  "upto_prod eg (Suc j) * prod_list (map (\<lambda>(e, x). if e = j then x else 1) eg) = upto_prod eg j"
  unfolding upto_prod_def prod_list_map_mult
  by (intro arg_cong [where f = prod_list] map_cong) auto

lemma pow_prod_step: "pow_prod eg (Suc j) * upto_prod eg j = pow_prod eg j"
  unfolding pow_prod_def upto_prod_def prod_list_map_mult
  by (intro arg_cong [where f = prod_list] map_cong) (auto simp: Suc_diff_le)

lemma fb_outer_mod:
  assumes "temp mod md = upto_prod eg (Suc j) mod md" "result mod md = pow_prod eg (Suc j) mod md"
  shows "fb_outer md eg j temp result mod md = pow_prod eg 1 mod md"
  using assms
proof (induction j arbitrary: temp result)
  case 0
  then show ?case by simp
next
  case (Suc j)
  let ?t = "fb_inner md eg (Suc j) temp"
  have t: "?t mod md = upto_prod eg (Suc j) mod md"
    using Suc.prems(1)
    by (metis fb_inner_mod mod_mult_left_eq upto_prod_step)
  have "result * ?t mod md = pow_prod eg (Suc j) mod md"
    using Suc.prems(2) t by (metis mod_mult_eq pow_prod_step)
  with Suc.IH [OF t] show ?case by (simp add: Let_def)
qed

lemma fb_outer_reduced:
  "0 < md \<Longrightarrow> 0 < j \<or> (0 \<le> result \<and> result < md) \<Longrightarrow>
   0 \<le> fb_outer md eg j temp result \<and> fb_outer md eg j temp result < md"
  by (induction j arbitrary: temp result) (auto simp: Let_def)

lemma upto_prod_high: "\<forall>(e, x) \<in> set eg. e < j \<Longrightarrow> upto_prod eg j = 1"
  by (induction eg) (auto simp: upto_prod_def)

lemma pow_prod_high: "\<forall>(e, x) \<in> set eg. e < j \<Longrightarrow> pow_prod eg j = 1"
  by (induction eg) (auto simp: pow_prod_def)

lemma fb_outer_power:
  assumes "\<forall>(e, x) \<in> set eg. e < h" "2 \<le> h" "1 < md"
  shows "fb_outer md eg (h - 1) 1 1 = prod_list (map (\<lambda>(e, x). x ^ e) eg) mod md"
proof -
  have h: "Suc (h - 1) = h" using assms(2) by simp
  have "fb_outer md eg (h - 1) 1 1 mod md = pow_prod eg 1 mod md"
    by (rule fb_outer_mod) (simp_all only: h upto_prod_high [OF assms(1)] pow_prod_high [OF assms(1)])
  moreover have "fb_outer md eg (h - 1) 1 1 mod md = fb_outer md eg (h - 1) 1 1"
    using fb_outer_reduced [of md "h - 1" 1 eg 1] assms(2,3) by simp
  moreover have "pow_prod eg 1 = prod_list (map (\<lambda>(e, x). x ^ e) eg)"
    by (simp add: pow_prod_def)
  ultimately show ?thesis by simp
qed

text \<open>The digits of the exponent.\<close>

lemma fb_digits_step:
  "0 < e \<Longrightarrow> 0 < w \<Longrightarrow> fb_digits h w e = nat (e mod int h) # fb_digits h w (e div 2 ^ w)"
  by (subst fb_digits.simps) simp

lemma fb_digits_less: "0 < h \<Longrightarrow> d \<in> set (fb_digits h w e) \<Longrightarrow> d < h"
proof (induction h w e rule: fb_digits.induct)
  case (1 h w e)
  from 1(3) show ?case
    by (subst (asm) fb_digits.simps) (use 1(1,2) in \<open>auto split: if_splits simp: nat_less_iff\<close>)
qed

lemma length_fb_digits: "0 < w \<Longrightarrow> e < 2 ^ (w * k) \<Longrightarrow> length (fb_digits h w e) \<le> k"
proof (induction k arbitrary: e)
  case 0
  then show ?case by (subst fb_digits.simps) simp
next
  case (Suc k)
  show ?case
  proof (cases "0 < e")
    case True
    have "e div 2 ^ w < 2 ^ (w * k)"
    proof (rule ccontr)
      assume "\<not> e div 2 ^ w < 2 ^ (w * k)"
      then have "2 ^ (w * k) * 2 ^ w \<le> e div 2 ^ w * 2 ^ w" by simp
      also have "\<dots> \<le> e"
      proof -
        have "0 \<le> e mod 2 ^ w" by simp
        with div_mult_mod_eq [of e "2 ^ w"] show ?thesis by linarith
      qed
      finally show False using Suc.prems by (simp add: power_add mult.commute)
    qed
    with Suc True show ?thesis by (simp add: fb_digits_step)
  qed (subst fb_digits.simps, simp)
qed

lemma fb_digits_power:
  "0 \<le> e \<Longrightarrow> 0 < w \<Longrightarrow> h = 2 ^ w \<Longrightarrow>
   prod_list (map (\<lambda>(d, i). base ^ (h ^ (i + k) * d)) (zip (fb_digits h w e) [0..<length (fb_digits h w e)]))
     = (base :: int) ^ (h ^ k * nat e)"
proof (induction h w e arbitrary: k rule: fb_digits.induct)
  case (1 h w e)
  show ?case
  proof (cases "0 < e")
    case True
    let ?ds = "fb_digits h w (e div 2 ^ w)"
    have z: "zip (nat (e mod int h) # ?ds) [0..<Suc (length ?ds)]
        = (nat (e mod int h), 0) # map (\<lambda>(d, i). (d, Suc i)) (zip ?ds [0..<length ?ds])"
      by (subst upt_conv_Cons) (simp_all add: map_Suc_upt [symmetric] zip_map2 del: upt_Suc)
    have ih: "prod_list (map (\<lambda>(d, i). base ^ (h ^ (i + Suc k) * d)) (zip ?ds [0..<length ?ds]))
        = base ^ (h ^ Suc k * nat (e div 2 ^ w))"
      using 1 True by (intro 1(1)) (auto simp: pos_imp_zdiv_nonneg_iff)
    have "nat (e mod int h) + h * nat (e div 2 ^ w) = nat e"
      using 1(2,4) by (simp add: nat_mod_distrib nat_div_distrib nat_power_eq)
    then have "h ^ k * nat (e mod int h) + h ^ Suc k * nat (e div 2 ^ w) = h ^ k * nat e"
      by (metis distrib_left mult.assoc mult.commute power_Suc)
    then have "base ^ (h ^ k * nat (e mod int h)) * base ^ (h ^ Suc k * nat (e div 2 ^ w))
        = base ^ (h ^ k * nat e)" by (metis power_add)
    with ih z True 1(3) show ?thesis
      by (simp add: fb_digits_step o_def case_prod_beta' del: upt_Suc power_Suc)
  next
    case False
    with 1(2) have "e = 0" by simp
    then show ?thesis by (subst fb_digits.simps, simp)+
  qed
qed

lemma fbpowmod_correct:
  assumes g: "gmp_laws g" and md: "1 < md" and w: "0 < winsize" and ex: "0 \<le> ex" "ex < 2 ^ maxbits"
    and fb: "fbpowmod_init_extend g base md maxbits winsize = Ret fb"
  shows "fbpowmod_extend fb ex = Ret (base ^ nat ex mod md)"
proof -
  let ?h = "2 ^ winsize :: nat" and ?t = "(maxbits - 1) div winsize + 1"
  let ?ds = "fb_digits ?h winsize ex"
  let ?G = "\<lambda>i. base ^ (?h ^ i) mod md"
  have fb': "fb = \<lparr>m_mod = md, m_table_G = map ?G [0..<?t + 1], m_h = ?h, m_t = ?t, m_w = winsize\<rparr>"
    using fb w g md by (simp add: fbpowmod_init_extend_def Let_def gmp_powm nat_power_eq del: upt_Suc)
  have "maxbits - 1 = winsize * ((maxbits - 1) div winsize) + (maxbits - 1) mod winsize" by simp
  also have "\<dots> < winsize * ((maxbits - 1) div winsize) + winsize"
    using w by (intro add_strict_left_mono mod_less_divisor)
  finally have "maxbits - 1 < winsize * ?t" by (simp only: distrib_left mult_1_right)
  then have "maxbits \<le> winsize * ?t" by linarith
  then have "(2 :: int) ^ maxbits \<le> 2 ^ (winsize * ?t)" by (intro power_increasing) auto
  from order_less_le_trans [OF ex(2) this] have "ex < 2 ^ (winsize * ?t)" .
  then have len: "length ?ds \<le> ?t" using w by (intro length_fb_digits)
  let ?eg = "zip ?ds (map ?G [0..<?t + 1])"
  have h: "2 \<le> ?h" using w power_increasing [of 1 winsize "2 :: nat"] by simp
  have "\<forall>(e, x) \<in> set ?eg. e < ?h"
    using fb_digits_less [of ?h _ winsize ex] by (auto dest: set_zip_leftD)
  from fb_outer_power [OF this h md]
  have run: "fbpowmod_extend fb ex = Ret (prod_list (map (\<lambda>(e, x). x ^ e) ?eg) mod md)"
    using len by (simp add: fbpowmod_extend_def fb' Let_def del: upt_Suc)
  have "?eg = map (\<lambda>(d, i). (d, ?G i)) (zip ?ds [0..<length ?ds])"
  proof (rule nth_equalityI)
    show "length ?eg = length (map (\<lambda>(d, i). (d, ?G i)) (zip ?ds [0..<length ?ds]))"
      using len by (simp del: upt_Suc)
    fix i
    assume "i < length ?eg"
    with len show "?eg ! i = map (\<lambda>(d, i). (d, ?G i)) (zip ?ds [0..<length ?ds]) ! i"
      by (simp del: upt_Suc)
  qed
  then have "prod_list (map (\<lambda>(e, x). x ^ e) ?eg)
      = prod_list (map (\<lambda>(d, i). ?G i ^ d) (zip ?ds [0..<length ?ds]))"
    by (simp add: o_def case_prod_beta')
  moreover have "prod_list (map (\<lambda>(d, i). ?G i ^ d) xs) mod md
      = prod_list (map (\<lambda>(d, i). base ^ (?h ^ i * d)) xs) mod md" for xs
  proof (induction xs)
    case (Cons x xs)
    obtain d i where "x = (d, i)" by fastforce
    with Cons show ?case
      by (simp add: power_mult) (metis (no_types, lifting) mod_mult_eq power_mod)
  qed simp
  ultimately show ?thesis
    using run fb_digits_power [of ex winsize ?h base 0] ex w by simp
qed

section \<open>Packing and retrieving\<close>

text \<open>Pairwise coprime moduli above 1.\<close>

definition mods_ok :: "int list \<Rightarrow> bool" where
  "mods_ok ms \<longleftrightarrow> (\<forall>m \<in> set ms. 1 < m) \<and> pairwise coprime (set ms) \<and> distinct ms"

lemma fold_times: "fold (\<lambda>m acc. acc * m) ms a = a * prod_list (ms :: int list)"
  by (induction ms arbitrary: a) (simp_all add: mult.assoc)

lemma dvd_prod_list: "m \<in> set ms \<Longrightarrow> m dvd prod_list (ms :: int list)"
  by (induction ms) auto

lemma coprime_prod_list:
  "(\<And>m. m \<in> set ms \<Longrightarrow> coprime (m :: int) a) \<Longrightarrow> coprime (prod_list ms) a"
  by (induction ms) auto

lemma prod_list_remove1: "m \<in> set ms \<Longrightarrow> prod_list ms = m * prod_list (remove1 m (ms :: int list))"
  by (induction ms) auto

lemma coef_coprime:
  assumes "mods_ok ms" "m \<in> set ms"
  shows "prod_list ms div m = prod_list (remove1 m ms)" "coprime (prod_list ms div m) m"
    "k \<in> set ms \<Longrightarrow> k \<noteq> m \<Longrightarrow> k dvd prod_list ms div m"
proof -
  have m: "m \<noteq> 0" using assms by (auto simp: mods_ok_def)
  show eq: "prod_list ms div m = prod_list (remove1 m ms)"
    using prod_list_remove1 [OF assms(2)] m by simp
  have "set (remove1 m ms) = set ms - {m}" using assms(1) by (simp add: mods_ok_def set_remove1_eq)
  then show "coprime (prod_list ms div m) m"
    unfolding eq using assms by (intro coprime_prod_list) (auto simp: mods_ok_def pairwise_def)
  show "k dvd prod_list ms div m" if "k \<in> set ms" "k \<noteq> m"
    unfolding eq using that \<open>set (remove1 m ms) = _\<close> by (intro dvd_prod_list) simp
qed

lemma packing_loop_correct:
  assumes "gmp_laws g" "mods_ok ms" "muls = prod_list ms"
    "set (map snd sms) \<subseteq> set ms" "distinct (map snd sms)"
    "\<And>s m. (s, m) \<in> set sms \<Longrightarrow> mpz_set_str g s radix = Some (val s)"
    "0 \<le> res" "res < muls"
  shows "\<exists>r. packing_loop g radix muls sms res = Ret r \<and> 0 \<le> r \<and> r < muls \<and>
    (\<forall>m \<in> set ms. r mod m = (res + (case map_of (map prod.swap sms) m of
        None \<Rightarrow> 0 | Some s \<Rightarrow> val s)) mod m)"
  using assms(4-)
proof (induction sms arbitrary: res)
  case Nil
  then show ?case by simp
next
  case (Cons sm sms)
  obtain s md where sm: "sm = (s, md)" by fastforce
  with Cons.prems have md: "md \<in> set ms" "1 < md" and val: "mpz_set_str g s radix = Some (val s)"
    using assms(2) by (auto simp: mods_ok_def)
  let ?cur = "if val s < 0 then (val s + md) mod md else val s"
  let ?coef = "muls div md"
  let ?x = "?cur * ?coef * mpz_invert g ?coef md"
  let ?res = "(res + ?x) mod muls"
  have pos: "0 < muls" using Cons.prems(4,5) by linarith
  have de: "mpz_divexact muls md = Ret ?coef"
    using md dvd_prod_list [OF md(1)] by (simp add: mpz_divexact_def assms(3))
  note coef = coef_coprime [OF assms(2) md(1), folded assms(3)]
  have "?coef * mpz_invert g ?coef md mod md = 1"
    by (rule gmp_invert [OF assms(1) md(2) coef(2)])
  then have "?cur * (?coef * mpz_invert g ?coef md) mod md = ?cur * 1 mod md"
    using md(2) by (metis mod_mult_right_eq mod_pos_pos_trivial zero_le_one)
  then have x_md: "?x mod md = val s mod md" by (simp add: mult.assoc)
  have x_other: "?x mod k = 0" if "k \<in> set ms" "k \<noteq> md" for k
    using coef(3) [OF that] by simp
  have red: "?res mod k = (res + ?x) mod k" if "k \<in> set ms" for k
    using dvd_prod_list [OF that] by (simp add: mod_mod_cancel assms(3))
  have "\<exists>r. packing_loop g radix muls sms ?res = Ret r \<and> 0 \<le> r \<and> r < muls \<and>
    (\<forall>m \<in> set ms. r mod m = (?res + (case map_of (map prod.swap sms) m of
        None \<Rightarrow> 0 | Some s \<Rightarrow> val s)) mod m)"
    using Cons.prems pos by (intro Cons.IH) auto
  then obtain r where r: "packing_loop g radix muls sms ?res = Ret r" "0 \<le> r" "r < muls"
    "\<And>m. m \<in> set ms \<Longrightarrow> r mod m = (?res + (case map_of (map prod.swap sms) m of
        None \<Rightarrow> 0 | Some s \<Rightarrow> val s)) mod m" by blast
  have new: "map_of (map prod.swap sms) md = None"
    using Cons.prems(2) sm by (force simp: map_of_eq_None_iff)
  have "r mod m = (res + (case map_of (map prod.swap (sm # sms)) m of
        None \<Rightarrow> 0 | Some s \<Rightarrow> val s)) mod m" if m: "m \<in> set ms" for m
  proof (cases "m = md")
    case True
    have "r mod md = ?res mod md" using r(4) [OF md(1)] new by simp
    also have "\<dots> = (res + ?x) mod md" by (rule red [OF md(1)])
    also have "\<dots> = (res + val s) mod md" using x_md by (rule mod_add_cong [OF refl])
    finally show ?thesis using True by (simp add: sm)
  next
    case False
    let ?v = "case map_of (map prod.swap sms) m of None \<Rightarrow> 0 | Some s \<Rightarrow> val s"
    have "(res + ?x) mod m = (res + 0) mod m"
      using x_other [OF m False] by (intro mod_add_cong [OF refl]) simp
    with red [OF m] have "?res mod m = res mod m" by simp
    then have "(?res + ?v) mod m = (res + ?v) mod m" by (rule mod_add_cong) simp
    with r(4) [OF m] False show ?thesis by (simp add: sm)
  qed
  with r(1-3) de val sm show ?case by (auto simp: Let_def)
qed

lemma mods_prod_pos: "mods_ok ms \<Longrightarrow> 0 < prod_list ms"
proof (induction ms)
  case (Cons m ms)
  then show ?case by (auto simp: mods_ok_def pairwise_def)
qed simp

lemma map_of_swap_zip:
  "length ss = length ms \<Longrightarrow> distinct ms \<Longrightarrow> i < length ms \<Longrightarrow>
   map_of (map prod.swap (zip ss ms)) (ms ! i) = Some (ss ! i)"
  by (simp add: zip_commute [of ss ms, symmetric] map_of_zip_nth o_def in_set_zip) blast

lemma packing_correct:
  assumes "gmp_laws g" "mods_ok (crt_mod c)" "length xs \<le> length (crt_mod c)" "2 \<le> radix" "radix \<le> 36"
  shows "\<exists>p. data_packing_crt g (map (mpz_get_str g radix) xs) c radix = Ret p
    \<and> 0 \<le> p \<and> p < prod_list (take (length xs) (crt_mod c))
    \<and> (\<forall>i < length xs. p mod (crt_mod c ! i) = xs ! i mod (crt_mod c ! i))"
proof -
  let ?ms = "take (length xs) (crt_mod c)"
  let ?ss = "map (mpz_get_str g radix) xs"
  have ok: "mods_ok ?ms"
    using assms(2) set_take_subset [of "length xs" "crt_mod c"]
    by (auto simp: mods_ok_def pairwise_def)
  have pos: "0 < prod_list ?ms" by (rule mods_prod_pos [OF ok])
  have snd: "map snd (zip ?ss ?ms) = ?ms" using assms(3) by simp
  have "\<exists>r. packing_loop g radix (prod_list ?ms) (zip ?ss ?ms) 0 = Ret r \<and> 0 \<le> r \<and> r < prod_list ?ms \<and>
    (\<forall>m \<in> set ?ms. r mod m = (0 + (case map_of (map prod.swap (zip ?ss ?ms)) m of
        None \<Rightarrow> 0 | Some s \<Rightarrow> the (mpz_set_str g s radix))) mod m)"
  proof (rule packing_loop_correct [OF assms(1) ok refl])
    fix s m
    assume "(s, m) \<in> set (zip ?ss ?ms)"
    then have "s \<in> set ?ss" by (rule set_zip_leftD)
    then obtain x where "s = mpz_get_str g radix x" by auto
    then show "mpz_set_str g s radix = Some (the (mpz_set_str g s radix))"
      using gmp_str [OF assms(1,4,5)] by simp
  qed (use snd ok pos in \<open>simp_all add: mods_ok_def\<close>)
  then obtain r where r: "packing_loop g radix (prod_list ?ms) (zip ?ss ?ms) 0 = Ret r"
    "0 \<le> r" "r < prod_list ?ms"
    "\<forall>m \<in> set ?ms. r mod m = (case map_of (map prod.swap (zip ?ss ?ms)) m of
        None \<Rightarrow> 0 | Some s \<Rightarrow> the (mpz_set_str g s radix)) mod m" by auto
  have "r mod (crt_mod c ! i) = xs ! i mod (crt_mod c ! i)" if i: "i < length xs" for i
  proof -
    have "?ms ! i \<in> set ?ms" using i assms(3) by (intro nth_mem) simp
    moreover have "map_of (map prod.swap (zip ?ss ?ms)) (?ms ! i) = Some (?ss ! i)"
      using i assms(3) ok by (intro map_of_swap_zip) (simp_all add: mods_ok_def)
    ultimately have "r mod (?ms ! i) = the (mpz_set_str g (?ss ! i) radix) mod (?ms ! i)"
      using r(4) by simp
    then show ?thesis using i gmp_str [OF assms(1,4,5)] by simp
  qed
  then show ?thesis
    using r assms(3) by (auto simp: data_packing_crt_def Let_def fold_times)
qed

text \<open>The number that a residue is read back as.\<close>

definition centred :: "int \<Rightarrow> int \<Rightarrow> int" where
  "centred md x = (let cur = x mod md in if md div 2 \<le> cur then cur - md else cur)"

lemma centred_id:
  assumes "0 < md" "- ((md + 1) div 2) \<le> x" "x < md div 2"
  shows "centred md x = x"
proof (cases "0 \<le> x")
  case True
  with assms have "x mod md = x" by (simp add: mod_pos_pos_trivial)
  with assms True show ?thesis by (simp add: centred_def)
next
  case False
  have "x mod md = (x + md) mod md" by simp
  also have "\<dots> = x + md" using assms False by (intro mod_pos_pos_trivial) linarith+
  finally show ?thesis using assms False by (simp add: centred_def Let_def)
qed

lemma retrieve_correct:
  assumes "crt_half_mod c = map (\<lambda>m. m div 2) (crt_mod c)" "k \<le> length (crt_mod c)"
    "\<forall>i < k. p mod (crt_mod c ! i) = xs ! i mod (crt_mod c ! i)" "length xs = k"
    "\<forall>i < k. centred (crt_mod c ! i) (xs ! i) = xs ! i"
  shows "data_retrieve_crt g p c k radix = Ret (map (mpz_get_str g radix) xs)"
proof -
  have "map (\<lambda>(md, half). let cur = p mod md
             in mpz_get_str g radix (if half \<le> cur then cur - md else cur))
           (take k (zip (crt_mod c) (crt_half_mod c))) = map (mpz_get_str g radix) xs"
  proof (rule nth_equalityI)
    fix i
    assume "i < length (map (\<lambda>(md, half). let cur = p mod md
             in mpz_get_str g radix (if half \<le> cur then cur - md else cur))
           (take k (zip (crt_mod c) (crt_half_mod c))))"
    then have i: "i < k" "i < length (crt_mod c)" by simp_all
    with assms(3,5) have "p mod (crt_mod c ! i) = xs ! i mod (crt_mod c ! i)"
      "centred (crt_mod c ! i) (xs ! i) = xs ! i" by blast+
    with i assms(1,4) show "map (\<lambda>(md, half). let cur = p mod md
             in mpz_get_str g radix (if half \<le> cur then cur - md else cur))
           (take k (zip (crt_mod c) (crt_half_mod c))) ! i = map (mpz_get_str g radix) xs ! i"
      by (simp add: Let_def centred_def split: if_splits)
  qed (use assms(1,2,4) in simp)
  then show ?thesis using assms(2) by (simp add: data_retrieve_crt_def)
qed

end
