(* ===== verification/Paillier.thy ===== *)
theory Paillier
  imports Paillier_Pow
begin

text \<open>
  The optimised Paillier scheme (algorithm/opt_paillier/src/paillier.cc): key generation from
  random bytes, the coding of signed plaintexts, three ways to encrypt, two to decrypt, and the
  operations on ciphertexts. The lemmas say that what is decrypted is what was encrypted.
\<close>

section \<open>Keys\<close>

(* src/src/fediux/algorithm/opt_paillier/include/paillier.h:43-55 opt_public_key_t *)
record pubkey =
  nbits :: nat
  lbits :: nat
  pk_n :: int
  half_n :: int
  n_squared :: int
  h_s :: int
  fb_mod_P_squared :: fb_instance
  fb_mod_Q_squared :: fb_instance

(* src/src/fediux/algorithm/opt_paillier/include/paillier.h:57-83 opt_secret_key_t *)
record seckey =
  sk_p :: int
  sk_q :: int
  sk_p' :: int
  sk_q' :: int
  sk_alpha :: int
  sk_beta :: int
  sk_P :: int
  sk_Q :: int
  P_squared :: int
  Q_squared :: int
  double_alpha :: int
  double_beta :: int
  double_alpha_inverse :: int
  P_squared_mul_P_squared_inverse :: int
  P_mul_P_inverse :: int
  double_p :: int
  double_q :: int
  Q_mul_double_p_inverse :: int
  P_mul_double_q_inverse :: int

(* src/src/fediux/algorithm/opt_paillier/src/paillier.cc:14-19 mapTo_nbits_lbits *)
definition mapTo_nbits_lbits :: "nat \<rightharpoonup> nat \<times> nat" where
  "mapTo_nbits_lbits = [112 \<mapsto> (2048, 448), 128 \<mapsto> (3072, 512), 192 \<mapsto> (7680, 768)]"

text \<open>The part of the key generation that follows from the primes and the random \<open>y\<close>.\<close>

(* src/src/fediux/algorithm/opt_paillier/src/paillier.cc:164-236 opt_paillier_keygen *)
definition derive_keys ::
  "gmp \<Rightarrow> nat \<Rightarrow> nat \<Rightarrow> int \<Rightarrow> int \<Rightarrow> int \<Rightarrow> int \<Rightarrow> int \<Rightarrow> (pubkey \<times> seckey) cpp" where
  "derive_keys g nb lb p q p' q' y =
     (let P = p * p' * 2 + 1; Q = q * q' * 2 + 1; n = P * Q; alpha = p * q; beta = p' * q';
          hs = mpz_powm g (- (mpz_powm g y (beta * 2) n)) n (n * n)
      in cbind (fbpowmod_init_extend g (hs mod (P * P)) (P * P) (lb + 1) 4) (\<lambda>fbP.
         cbind (fbpowmod_init_extend g (hs mod (Q * Q)) (Q * Q) (lb + 1) 4) (\<lambda>fbQ.
         Ret (\<lparr>nbits = nb, lbits = lb, pk_n = n, half_n = n div 2, n_squared = n * n, h_s = hs,
               fb_mod_P_squared = fbP, fb_mod_Q_squared = fbQ\<rparr>,
              \<lparr>sk_p = p, sk_q = q, sk_p' = p', sk_q' = q', sk_alpha = alpha, sk_beta = beta,
               sk_P = P, sk_Q = Q, P_squared = P * P, Q_squared = Q * Q,
               double_alpha = alpha * 2, double_beta = beta * 2,
               double_alpha_inverse = mpz_invert g (alpha * 2) n,
               P_squared_mul_P_squared_inverse = mpz_invert g (P * P) (Q * Q) * (P * P),
               P_mul_P_inverse = mpz_invert g P Q * P,
               double_p = p * 2, double_q = q * 2,
               Q_mul_double_p_inverse = mpz_invert g (Q * (p * 2)) P,
               P_mul_double_q_inverse = mpz_invert g (P * (q * 2)) Q\<rparr>))))"

text \<open>
  The random search. The random device is an endless tape of bytes, and the position moves on with
  each number drawn. The loops may not end, so they are partial.
\<close>

definition draw :: "(nat \<Rightarrow> u8) \<Rightarrow> nat \<Rightarrow> nat \<Rightarrow> int \<times> nat" where
  "draw tape k bitlen = (let m = (bitlen + 7) div 8
     in (aby_prng (map (\<lambda>i. tape (k + i)) [0..<m]) bitlen, k + m))"

definition mpz_setbit :: "int \<Rightarrow> nat \<Rightarrow> int" where
  "mpz_setbit x i = x OR push_bit i 1"

definition draw_prime :: "gmp \<Rightarrow> (nat \<Rightarrow> u8) \<Rightarrow> nat \<Rightarrow> nat \<Rightarrow> int \<times> nat" where
  "draw_prime g tape k bits = (let (x, k') = draw tape k bits
     in (mpz_nextprime g (mpz_setbit x bits), k'))"

(* src/src/fediux/algorithm/opt_paillier/src/paillier.cc:117-126 opt_paillier_keygen *)
partial_function (option) find_p'_q' ::
  "gmp \<Rightarrow> (nat \<Rightarrow> u8) \<Rightarrow> nat \<Rightarrow> nat \<Rightarrow> (int \<times> int \<times> nat) option" where
  "find_p'_q' g tape k bits =
     (let (p', k1) = draw_prime g tape k bits; (q', k2) = draw_prime g tape k1 bits
      in if p' = q' then find_p'_q' g tape k2 bits else Some (p', q', k2))"

(* src/src/fediux/algorithm/opt_paillier/src/paillier.cc:128-142 opt_paillier_keygen *)
partial_function (option) find_p ::
  "gmp \<Rightarrow> (nat \<Rightarrow> u8) \<Rightarrow> int \<Rightarrow> nat \<Rightarrow> nat \<Rightarrow> (int \<times> nat) option" where
  "find_p g tape p' k bits =
     (let (p, k1) = draw_prime g tape k bits
      in if \<not> mpz_probab_prime g (p * p' * 2 + 1) then find_p g tape p' k1 bits else Some (p, k1))"

(* src/src/fediux/algorithm/opt_paillier/src/paillier.cc:144-162 opt_paillier_keygen *)
partial_function (option) find_q ::
  "gmp \<Rightarrow> (nat \<Rightarrow> u8) \<Rightarrow> int \<Rightarrow> int \<Rightarrow> nat \<Rightarrow> nat \<Rightarrow> (int \<times> nat) option" where
  "find_q g tape p q' k bits =
     (let (q, k1) = draw_prime g tape k bits
      in if p = q then find_q g tape p q' k1 bits
         else if \<not> mpz_probab_prime g (q * q' * 2 + 1) then find_q g tape p q' k1 bits
         else Some (q, k1))"

(* src/src/fediux/algorithm/opt_paillier/src/paillier.cc:187-192 opt_paillier_keygen *)
partial_function (option) find_y :: "(nat \<Rightarrow> u8) \<Rightarrow> int \<Rightarrow> nat \<Rightarrow> int option" where
  "find_y tape n k =
     (let (y, k1) = draw tape k (shift_count (nat n) + 1 + 128); y = y mod n
      in if gcd y n \<noteq> 1 then find_y tape n k1 else Some y)"

text \<open>An unknown security parameter gives an empty entry, whose elements are read all the same.\<close>

(* src/src/fediux/algorithm/opt_paillier/src/paillier.cc:71-237 opt_paillier_keygen *)
definition opt_paillier_keygen :: "gmp \<Rightarrow> (nat \<Rightarrow> u8) \<Rightarrow> nat \<Rightarrow> (pubkey \<times> seckey) cpp option" where
  "opt_paillier_keygen g tape k_sec =
     (case mapTo_nbits_lbits k_sec of None \<Rightarrow> Some Undef
      | Some (nb, lb) \<Rightarrow>
          Option.bind (find_p'_q' g tape 0 (nb div 2 - lb div 2 - 1)) (\<lambda>(p', q', k1).
          Option.bind (find_p g tape p' k1 (lb div 2)) (\<lambda>(p, k2).
          Option.bind (find_q g tape p q' k2 (lb div 2)) (\<lambda>(q, k3).
          Option.bind (find_y tape ((p * p' * 2 + 1) * (q * q' * 2 + 1)) k3) (\<lambda>y.
            Some (derive_keys g nb lb p q p' q' y))))))"

section \<open>Plaintexts\<close>

(* src/src/fediux/algorithm/opt_paillier/src/paillier.cc:239-249 opt_paillier_set_plaintext *)
definition opt_paillier_set_plaintext :: "gmp \<Rightarrow> string \<Rightarrow> pubkey \<Rightarrow> int \<Rightarrow> int cpp" where
  "opt_paillier_set_plaintext g plaintext pub radix =
     (case mpz_set_str g plaintext radix of None \<Rightarrow> Undef
      | Some x \<Rightarrow> Ret (if x < 0 then (x + pk_n pub) mod pk_n pub else x))"

(* src/src/fediux/algorithm/opt_paillier/src/paillier.cc:251-266 opt_paillier_get_plaintext *)
definition opt_paillier_get_plaintext :: "gmp \<Rightarrow> int \<Rightarrow> pubkey \<Rightarrow> int \<Rightarrow> string" where
  "opt_paillier_get_plaintext g x pub radix =
     (if half_n pub \<le> x then mpz_get_str g radix (x - pk_n pub) else mpz_get_str g radix x)"

(* src/src/fediux/algorithm/opt_paillier/src/paillier.cc:268-278 validate_message *)
definition validate_message :: "int \<Rightarrow> pubkey \<Rightarrow> bool" where
  "validate_message msg pub = (if msg < 0 then False else if pk_n pub \<le> msg then False else True)"

section \<open>Powers modulo the square\<close>

(* src/src/fediux/algorithm/opt_paillier/src/paillier.cc:24-47 opt_paillier_mod_n_squared_crt *)
definition opt_paillier_mod_n_squared_crt ::
  "gmp \<Rightarrow> int \<Rightarrow> int \<Rightarrow> pubkey \<Rightarrow> seckey \<Rightarrow> int" where
  "opt_paillier_mod_n_squared_crt g base ex pub prv =
     (let cp = mpz_powm g (base mod P_squared prv) ex (P_squared prv);
          cq = mpz_powm g (base mod Q_squared prv) ex (Q_squared prv)
      in (cp + (cq - cp) * P_squared_mul_P_squared_inverse prv) mod n_squared pub)"

(* src/src/fediux/algorithm/opt_paillier/src/paillier.cc:49-69 opt_paillier_mod_n_squared_crt_fb *)
definition opt_paillier_mod_n_squared_crt_fb :: "int \<Rightarrow> pubkey \<Rightarrow> seckey \<Rightarrow> int cpp" where
  "opt_paillier_mod_n_squared_crt_fb ex pub prv =
     cbind (fbpowmod_extend (fb_mod_P_squared pub) ex) (\<lambda>cp.
     cbind (fbpowmod_extend (fb_mod_Q_squared pub) ex) (\<lambda>cq.
       Ret ((cp + (cq - cp) * P_squared_mul_P_squared_inverse prv) mod n_squared pub)))"

section \<open>Encryption and decryption\<close>

(* src/src/fediux/algorithm/opt_paillier/src/paillier.cc:280-298 opt_paillier_encrypt *)
definition opt_paillier_encrypt :: "gmp \<Rightarrow> u8 list \<Rightarrow> pubkey \<Rightarrow> int \<Rightarrow> int" where
  "opt_paillier_encrypt g bytes pub plaintext =
     (let r = aby_prng bytes (lbits pub);
          res = plaintext * pk_n pub + 1;
          r = mpz_powm g (h_s pub) r (n_squared pub)
      in (res * r) mod n_squared pub)"

(* src/src/fediux/algorithm/opt_paillier/src/paillier.cc:300-317 opt_paillier_encrypt_crt *)
definition opt_paillier_encrypt_crt ::
  "gmp \<Rightarrow> u8 list \<Rightarrow> pubkey \<Rightarrow> seckey \<Rightarrow> int \<Rightarrow> int" where
  "opt_paillier_encrypt_crt g bytes pub prv plaintext =
     (let r = aby_prng bytes (lbits pub);
          res = plaintext * pk_n pub + 1;
          r = opt_paillier_mod_n_squared_crt g (h_s pub) r pub prv
      in (res * r) mod n_squared pub)"

(* src/src/fediux/algorithm/opt_paillier/src/paillier.cc:319-338 opt_paillier_encrypt_crt_fb *)
definition opt_paillier_encrypt_crt_fb ::
  "u8 list \<Rightarrow> pubkey \<Rightarrow> seckey \<Rightarrow> int \<Rightarrow> int cpp" where
  "opt_paillier_encrypt_crt_fb bytes pub prv plaintext =
     (let r = aby_prng bytes (lbits pub); res = plaintext * pk_n pub + 1
      in cbind (opt_paillier_mod_n_squared_crt_fb r pub prv) (\<lambda>r.
           Ret ((res * r) mod n_squared pub)))"

(* src/src/fediux/algorithm/opt_paillier/src/paillier.cc:340-351 opt_paillier_decrypt *)
definition opt_paillier_decrypt :: "gmp \<Rightarrow> pubkey \<Rightarrow> seckey \<Rightarrow> int \<Rightarrow> int cpp" where
  "opt_paillier_decrypt g pub prv ciphertext =
     cbind (mpz_divexact (mpz_powm g ciphertext (double_alpha prv) (n_squared pub) - 1) (pk_n pub))
       (\<lambda>res. Ret ((res * double_alpha_inverse prv) mod pk_n pub))"

(* src/src/fediux/algorithm/opt_paillier/src/paillier.cc:353-391 opt_paillier_decrypt_crt *)
definition opt_paillier_decrypt_crt :: "gmp \<Rightarrow> pubkey \<Rightarrow> seckey \<Rightarrow> int \<Rightarrow> int cpp" where
  "opt_paillier_decrypt_crt g pub prv ciphertext =
     cbind (mpz_divexact
         (mpz_powm g (ciphertext mod P_squared prv) (double_p prv) (P_squared prv) - 1) (sk_P prv))
       (\<lambda>cp. let cp = (cp * Q_mul_double_p_inverse prv) mod sk_P prv in
     cbind (mpz_divexact
         (mpz_powm g (ciphertext mod Q_squared prv) (double_q prv) (Q_squared prv) - 1) (sk_Q prv))
       (\<lambda>cq. let cq = (cq * P_mul_double_q_inverse prv) mod sk_Q prv in
     Ret ((cp + (cq - cp) * P_mul_P_inverse prv) mod pk_n pub)))"

(* src/src/fediux/algorithm/opt_paillier/src/paillier.cc:393-400 opt_paillier_add *)
definition opt_paillier_add :: "int \<Rightarrow> int \<Rightarrow> pubkey \<Rightarrow> int" where
  "opt_paillier_add op1 op2 pub = (op1 * op2) mod n_squared pub"

(* src/src/fediux/algorithm/opt_paillier/src/paillier.cc:402-408 opt_paillier_constant_mul *)
definition opt_paillier_constant_mul :: "gmp \<Rightarrow> int \<Rightarrow> int \<Rightarrow> pubkey \<Rightarrow> int" where
  "opt_paillier_constant_mul g op1 op2 pub = mpz_powm g op1 op2 (n_squared pub)"

section \<open>Valid keys\<close>

definition good_primes :: "int \<Rightarrow> int \<Rightarrow> int \<Rightarrow> int \<Rightarrow> int \<Rightarrow> bool" where
  "good_primes p q p' q' y \<longleftrightarrow>
     (let P = p * p' * 2 + 1; Q = q * q' * 2 + 1
      in 0 < p \<and> 0 < q \<and> 0 < p' \<and> 0 < q' \<and> prime_int P \<and> prime_int Q \<and> P \<noteq> Q
         \<and> p < Q \<and> q < P \<and> coprime y (P * Q))"

lemma prime_coprime_small:
  assumes "prime_int P" "0 < a" "a < P"
  shows "coprime a P"
  using assms by (intro prime_int_coprime) (auto dest: zdvd_imp_le)

lemma primes_coprime:
  assumes "prime_int P" "prime_int Q" "P \<noteq> Q"
  shows "coprime P Q"
proof (intro prime_int_coprime [OF assms(2)] notI)
  assume d: "Q dvd P"
  have "Q \<le> P" using d prime_int_gt_1 [OF assms(1)] by (intro zdvd_imp_le) auto
  with assms(3) have "Q \<in> {2..<P}" using prime_int_gt_1 [OF assms(2)] by auto
  with assms(1) d show False by (simp add: prime_int_def)
qed

text \<open>The blinding factor is of the order that decryption removes.\<close>

lemma blinding_order:
  fixes p p' b n y z :: int
  assumes P: "prime_int P" "P = p * p' * 2 + 1" and pos: "0 < p" "0 < p'" "0 < b" "0 < n"
    and n: "P dvd n" and y: "\<not> P dvd y" and z: "z mod P = y ^ nat (p' * b * 2) mod P"
  shows "((- z) ^ nat n) ^ nat (p * 2) mod P\<^sup>2 = 1"
proof -
  have P1: "1 < P" by (rule prime_int_gt_1 [OF P(1)])
  have ev: "nat (p * 2) = 2 * nat p" using pos by simp
  have "nat (p' * b * 2) * nat (p * 2) = nat (P - 1) * nat (b * 2)"
    using pos by (simp add: P(2) nat_mult_distrib [symmetric] algebra_simps flip: nat_mult_distrib)
  moreover have "(- z) ^ nat (p * 2) = z ^ nat (p * 2)"
    by (simp add: ev power_mult)
  ultimately have "(- z) ^ nat (p * 2) mod P = (y ^ nat (P - 1)) ^ nat (b * 2) mod P"
    using z by (metis power_mod power_mult)
  also have "\<dots> = 1 mod P"
    by (rule power_mod_1) (use fermat [OF P(1) y] P1 in simp)
  finally have "((- z) ^ nat (p * 2)) ^ nat n mod P\<^sup>2 = 1 mod P\<^sup>2"
    by (rule power_lift [OF _ n pos(4)])
  moreover have "1 < P\<^sup>2" using P1 by (simp add: one_less_power)
  ultimately show ?thesis by (metis mod_pos_pos_trivial power_commutes power_mult mult.commute
      zero_le_one)
qed

text \<open>The function \<open>L\<close> of decryption on a ciphertext.\<close>

lemma paillier_L:
  fixes n c m h :: int
  assumes "1 < n" "c mod n\<^sup>2 = ((1 + m * n) * h) mod n\<^sup>2" "h ^ k mod n\<^sup>2 = 1"
  shows "c ^ k mod n\<^sup>2 = 1 + n * ((int k * m) mod n)"
proof -
  let ?s = "(int k * m) mod n"
  have "c ^ k mod n\<^sup>2 = ((1 + m * n) ^ k * h ^ k) mod n\<^sup>2"
    by (metis assms(2) power_mod power_mult_distrib)
  also have "\<dots> = (1 + m * n) ^ k mod n\<^sup>2"
    using assms(3) by (metis mod_mult_right_eq mult.right_neutral)
  also have "\<dots> = (1 + int k * m * n) mod n\<^sup>2"
    using one_plus_power [of n m k] by (simp add: mod_eq_dvd_iff)
  also have "1 + int k * m * n = 1 + n * ?s + n\<^sup>2 * ((int k * m) div n)"
  proof -
    have "n * (n * ((int k * m) div n) + ?s) = n * (int k * m)" by (simp only: mult_div_mod_eq)
    then have "n * (n * ((int k * m) div n)) + n * ?s = n * (int k * m)" by (simp only: distrib_left)
    then show ?thesis by (simp only: power2_eq_square mult.commute mult.left_commute)
  qed
  also have "(1 + n * ?s + n\<^sup>2 * ((int k * m) div n)) mod n\<^sup>2 = (1 + n * ?s) mod n\<^sup>2" by simp
  also have "\<dots> = 1 + n * ?s"
  proof (rule mod_pos_pos_trivial)
    have s: "0 \<le> ?s" "?s \<le> n - 1" using assms(1) by simp_all
    show "0 \<le> 1 + n * ?s" using s assms(1) by simp
    have "n * ?s \<le> n * (n - 1)" using s assms(1) by (intro mult_left_mono) auto
    with assms(1) show "1 + n * ?s < n\<^sup>2" by (simp add: power2_eq_square algebra_simps)
  qed
  finally show ?thesis .
qed

text \<open>A pair of keys that the key generation makes, and a ciphertext of a plaintext under it.\<close>

definition paillier_key :: "gmp \<Rightarrow> pubkey \<Rightarrow> seckey \<Rightarrow> bool" where
  "paillier_key g pub prv \<longleftrightarrow> gmp_laws g \<and>
     (\<exists>nb lb p q p' q' y. good_primes p q p' q' y
        \<and> derive_keys g nb lb p q p' q' y = Ret (pub, prv))"

definition enc_of :: "pubkey \<Rightarrow> int \<Rightarrow> int \<Rightarrow> bool" where
  "enc_of pub c m \<longleftrightarrow>
     (\<exists>r. c mod n_squared pub = ((1 + m * pk_n pub) * h_s pub ^ r) mod n_squared pub)"

lemma half_key_hs:
  fixes p p' q' y n P Q hs :: int
  assumes "prime_int P" "P = p * p' * 2 + 1" "n = P * Q" "0 < p" "0 < p'" "0 < q'" "0 < Q"
    "coprime y n" "hs = (- (y ^ nat (p' * q' * 2) mod n)) ^ nat n mod n\<^sup>2"
  shows "hs ^ nat (p * 2) mod P\<^sup>2 = 1"
proof -
  let ?z = "y ^ nat (p' * q' * 2) mod n"
  have P1: "1 < P" by (rule prime_int_gt_1 [OF assms(1)])
  then have n0: "0 < n" using assms(3,7) by simp
  have Pn: "P dvd n" by (simp add: assms(3))
  have "\<not> P dvd y"
  proof
    assume "P dvd y"
    then have "P dvd 1" using Pn assms(8) by (metis coprime_common_divisor)
    with P1 show False by simp
  qed
  moreover have "?z mod P = y ^ nat (p' * q' * 2) mod P" by (simp add: Pn mod_mod_cancel)
  ultimately have "((- ?z) ^ nat n) ^ nat (p * 2) mod P\<^sup>2 = 1"
    using blinding_order [OF assms(1,2) assms(4-6) n0 Pn] by blast
  moreover have "P\<^sup>2 dvd n\<^sup>2" using Pn by (rule dvd_power_same)
  then have "hs mod P\<^sup>2 = (- ?z) ^ nat n mod P\<^sup>2" by (simp add: assms(9) mod_mod_cancel)
  ultimately show ?thesis by (metis power_mod)
qed

lemma half_key_coprime:
  fixes p p' q P Q :: int
  assumes "prime_int P" "prime_int Q" "P \<noteq> Q" "P = p * p' * 2 + 1" "0 < p" "0 < p'" "0 < q" "q < P"
  shows "coprime (Q * (p * 2)) P" "coprime (p * q * 2) P"
proof -
  have "p * 1 \<le> p * p'" using assms(5,6) by (intro mult_left_mono) auto
  then have "p < P" using assms(4,5) by linarith
  have "0 < p * p'" using assms(5,6) by simp
  then have "2 < P" using assms(4) by linarith
  then have "coprime p P" "coprime q P" "coprime 2 P" "coprime Q P"
    using assms \<open>p < P\<close> prime_coprime_small [OF assms(1)] primes_coprime [OF assms(2,1)] by auto
  then show "coprime (Q * (p * 2)) P" "coprime (p * q * 2) P"
    by (simp_all only: coprime_mult_left_iff simp_thms)
qed

text \<open>What the key generation sets, and what follows for the keys.\<close>

lemma paillier_key_fields:
  assumes "derive_keys g nb lb p q p' q' y = Ret (pub, prv)"
  shows "lbits pub = lb" "sk_P prv = p * p' * 2 + 1" "sk_Q prv = q * q' * 2 + 1"
    "pk_n pub = sk_P prv * sk_Q prv" "half_n pub = pk_n pub div 2"
    "n_squared pub = (pk_n pub)\<^sup>2" "P_squared prv = (sk_P prv)\<^sup>2" "Q_squared prv = (sk_Q prv)\<^sup>2"
    "h_s pub = mpz_powm g (- (mpz_powm g y (p' * q' * 2) (pk_n pub))) (pk_n pub) (n_squared pub)"
    "double_alpha prv = p * q * 2" "double_p prv = p * 2" "double_q prv = q * 2"
    "double_alpha_inverse prv = mpz_invert g (p * q * 2) (pk_n pub)"
    "P_squared_mul_P_squared_inverse prv
       = mpz_invert g (P_squared prv) (Q_squared prv) * P_squared prv"
    "P_mul_P_inverse prv = mpz_invert g (sk_P prv) (sk_Q prv) * sk_P prv"
    "Q_mul_double_p_inverse prv = mpz_invert g (sk_Q prv * (p * 2)) (sk_P prv)"
    "P_mul_double_q_inverse prv = mpz_invert g (sk_P prv * (q * 2)) (sk_Q prv)"
    "fbpowmod_init_extend g (h_s pub mod P_squared prv) (P_squared prv) (lb + 1) 4
       = Ret (fb_mod_P_squared pub)"
    "fbpowmod_init_extend g (h_s pub mod Q_squared prv) (Q_squared prv) (lb + 1) 4
       = Ret (fb_mod_Q_squared pub)"
  using assms unfolding derive_keys_def Let_def
  by (auto simp: cbind_Ret_iff power2_eq_square)

lemma paillier_key_facts:
  assumes "paillier_key g pub prv"
  shows "gmp_laws g" "1 < sk_P prv" "1 < sk_Q prv" "1 < pk_n pub" "coprime (sk_P prv) (sk_Q prv)"
    "pk_n pub = sk_P prv * sk_Q prv"
    "0 < double_alpha prv" "0 < double_p prv" "0 < double_q prv"
    "h_s pub ^ nat (double_alpha prv) mod n_squared pub = 1"
    "h_s pub ^ nat (double_p prv) mod P_squared prv = 1"
    "h_s pub ^ nat (double_q prv) mod Q_squared prv = 1"
    "double_alpha prv * double_alpha_inverse prv mod pk_n pub = 1"
    "sk_Q prv * double_p prv * Q_mul_double_p_inverse prv mod sk_P prv = 1"
    "sk_P prv * double_q prv * P_mul_double_q_inverse prv mod sk_Q prv = 1"
    "sk_P prv * mpz_invert g (sk_P prv) (sk_Q prv) mod sk_Q prv = 1"
    "P_squared prv * mpz_invert g (P_squared prv) (Q_squared prv) mod Q_squared prv = 1"
    "n_squared pub = (pk_n pub)\<^sup>2" "P_squared prv = (sk_P prv)\<^sup>2" "Q_squared prv = (sk_Q prv)\<^sup>2"
proof -
  obtain nb lb p q p' q' y where gp: "good_primes p q p' q' y"
    and dk: "derive_keys g nb lb p q p' q' y = Ret (pub, prv)"
    using assms by (auto simp: paillier_key_def)
  show g: "gmp_laws g" using assms by (simp add: paillier_key_def)
  note f = paillier_key_fields [OF dk]
  have gp': "0 < p" "0 < q" "0 < p'" "0 < q'" "prime_int (sk_P prv)" "prime_int (sk_Q prv)"
    "sk_P prv \<noteq> sk_Q prv" "p < sk_Q prv" "q < sk_P prv" "coprime y (pk_n pub)"
    using gp by (simp_all add: good_primes_def Let_def f(2-4))
  show P1: "1 < sk_P prv" and Q1: "1 < sk_Q prv"
    using gp'(5,6) by (simp_all add: prime_int_gt_1)
  show nPQ: "pk_n pub = sk_P prv * sk_Q prv" by (rule f(4))
  show n1: "1 < pk_n pub" using P1 Q1 by (simp add: nPQ less_1_mult)
  show cop: "coprime (sk_P prv) (sk_Q prv)" by (rule primes_coprime [OF gp'(5-7)])
  show "0 < double_alpha prv" "0 < double_p prv" "0 < double_q prv"
    using gp'(1,2) by (simp_all add: f(10-12))
  show sq: "n_squared pub = (pk_n pub)\<^sup>2" "P_squared prv = (sk_P prv)\<^sup>2" "Q_squared prv = (sk_Q prv)\<^sup>2"
    by (rule f(6-8))+
  have hs: "h_s pub = (- (y ^ nat (p' * q' * 2) mod pk_n pub)) ^ nat (pk_n pub) mod (pk_n pub)\<^sup>2"
    using g n1 gp'(3,4) by (simp add: f(9) sq gmp_powm)
  have hs': "h_s pub = (- (y ^ nat (q' * p' * 2) mod pk_n pub)) ^ nat (pk_n pub) mod (pk_n pub)\<^sup>2"
    using hs by (simp only: mult.commute [of p'])
  show hP: "h_s pub ^ nat (double_p prv) mod P_squared prv = 1"
    unfolding f(12) f(11) sq(2) using gp' Q1
    by (intro half_key_hs [OF gp'(5) f(2) nPQ gp'(1,3,4) _ gp'(10) hs]) simp
  have nQP: "pk_n pub = sk_Q prv * sk_P prv" by (simp add: nPQ mult.commute)
  show hQ: "h_s pub ^ nat (double_q prv) mod Q_squared prv = 1"
    unfolding f(12) sq(3) using gp' P1
    by (intro half_key_hs [OF gp'(6) f(3) nQP gp'(2,4,3) _ gp'(10) hs']) simp
  note cP = half_key_coprime [OF gp'(5,6,7) f(2) gp'(1,3,2,9)]
  note cQ = half_key_coprime [OF gp'(6,5) gp'(7) [symmetric] f(3) gp'(2,4,1,8)]
  show "sk_Q prv * double_p prv * Q_mul_double_p_inverse prv mod sk_P prv = 1"
    unfolding f(11,16) by (rule gmp_invert [OF g P1 cP(1)])
  show "sk_P prv * double_q prv * P_mul_double_q_inverse prv mod sk_Q prv = 1"
    unfolding f(12,17) by (rule gmp_invert [OF g Q1 cQ(1)])
  have "coprime (p * q * 2) (pk_n pub)"
    using cP(2) cQ(2) by (simp add: nPQ mult.commute [of q p])
  then show "double_alpha prv * double_alpha_inverse prv mod pk_n pub = 1"
    unfolding f(10,13) by (rule gmp_invert [OF g n1])
  show "sk_P prv * mpz_invert g (sk_P prv) (sk_Q prv) mod sk_Q prv = 1"
    by (rule gmp_invert [OF g Q1 cop])
  have cop2: "coprime (P_squared prv) (Q_squared prv)" using cop by (simp add: sq)
  have Q2: "1 < Q_squared prv" using Q1 by (simp add: sq one_less_power)
  then show "P_squared prv * mpz_invert g (P_squared prv) (Q_squared prv) mod Q_squared prv = 1"
    by (rule gmp_invert [OF g _ cop2])
  have "1 < P_squared prv" using P1 by (simp add: sq one_less_power)
  with hP Q2 hQ
  have "(h_s pub ^ nat (double_p prv)) ^ nat q mod P_squared prv = 1 mod P_squared prv"
    "(h_s pub ^ nat (double_q prv)) ^ nat p mod Q_squared prv = 1 mod Q_squared prv"
    by (simp_all only: power_mod_1 mod_pos_pos_trivial zero_le_one)
  moreover have "nat (double_p prv) * nat q = nat (double_alpha prv)"
    "nat (double_q prv) * nat p = nat (double_alpha prv)"
    using gp'(1,2) by (simp_all add: f(10-12) mult_ac flip: nat_mult_distrib)
  ultimately have "h_s pub ^ nat (double_alpha prv) mod P_squared prv = 1 mod P_squared prv"
    "h_s pub ^ nat (double_alpha prv) mod Q_squared prv = 1 mod Q_squared prv"
    by (simp_all only: flip: power_mult)
  then have "h_s pub ^ nat (double_alpha prv) mod (P_squared prv * Q_squared prv)
      = 1 mod (P_squared prv * Q_squared prv)"
    by (rule mod_both_coprime [OF cop2])
  moreover have "P_squared prv * Q_squared prv = n_squared pub"
    by (simp add: sq nPQ power_mult_distrib)
  moreover have "1 < n_squared pub" using n1 by (simp add: sq one_less_power)
  ultimately show "h_s pub ^ nat (double_alpha prv) mod n_squared pub = 1" by simp
qed

section \<open>Decryption inverts encryption\<close>

lemma divexact_L: "n \<noteq> 0 \<Longrightarrow> mpz_divexact (1 + n * s - 1) n = Ret s"
  by (simp add: mpz_divexact_def)

lemma times_inverse: "a * i mod n = 1 \<Longrightarrow> 1 < n \<Longrightarrow> (a * m mod n) * i mod n = m mod (n :: int)"
  by (metis mod_mult_left_eq mult.assoc mult.commute mult.left_neutral mult.right_neutral
      mod_mult_right_eq)

lemma decrypt_enc_of:
  assumes "paillier_key g pub prv" "enc_of pub c m"
  shows "opt_paillier_decrypt g pub prv c = Ret (m mod pk_n pub)"
proof -
  note k = paillier_key_facts [OF assms(1)]
  let ?n = "pk_n pub" and ?a = "double_alpha prv"
  obtain r where r: "c mod ?n\<^sup>2 = ((1 + m * ?n) * h_s pub ^ r) mod ?n\<^sup>2"
    using assms(2) by (auto simp: enc_of_def k(18))
  have "(h_s pub ^ r) ^ nat ?a mod ?n\<^sup>2 = 1 mod ?n\<^sup>2"
    using power_mod_1 [of "h_s pub ^ nat ?a" "?n\<^sup>2" r] k(4,10)
    by (simp add: k(18) one_less_power mult.commute flip: power_mult)
  then have "c ^ nat ?a mod ?n\<^sup>2 = 1 + ?n * ((int (nat ?a) * m) mod ?n)"
    using k(4) paillier_L [OF k(4) r] by (simp add: one_less_power)
  moreover have "0 < n_squared pub" using k(4) by (simp add: k(18))
  ultimately have "mpz_powm g c ?a (n_squared pub) = 1 + ?n * ((?a * m) mod ?n)"
    using k(7) gmp_powm [OF k(1), of ?a "n_squared pub" c] by (simp add: k(18))
  then show ?thesis
    using k(4) divexact_L [of ?n] times_inverse [OF k(13,4)]
    by (simp add: opt_paillier_decrypt_def)
qed

text \<open>One half of the fast decryption.\<close>

lemma decrypt_half:
  assumes g: "gmp_laws g" and P: "1 < P" "n = P * Q" and e: "0 < e"
    and hs: "hs ^ nat e mod P\<^sup>2 = 1" and i: "Q * e * i mod P = 1"
    and c: "c mod n\<^sup>2 = ((1 + m * n) * hs ^ r) mod n\<^sup>2"
  shows "\<exists>s. mpz_divexact (mpz_powm g (c mod P\<^sup>2) e (P\<^sup>2) - 1) P = Ret s \<and> (s * i) mod P = m mod P"
proof -
  have "P\<^sup>2 dvd n\<^sup>2" by (simp add: P(2) power_mult_distrib)
  then have c': "c mod P\<^sup>2 = ((1 + (m * Q) * P) * hs ^ r) mod P\<^sup>2"
    using arg_cong [OF c, of "\<lambda>x. x mod P\<^sup>2"]
    by (simp add: mod_mod_cancel) (simp add: P(2) mult_ac)
  have "1 < P\<^sup>2" using P(1) by (simp add: one_less_power)
  with hs have "(hs ^ nat e) ^ r mod P\<^sup>2 = 1 mod P\<^sup>2"
    by (intro power_mod_1 [of "hs ^ nat e"]) simp
  then have "(hs ^ r) ^ nat e mod P\<^sup>2 = 1"
    using \<open>1 < P\<^sup>2\<close> by (simp add: mult.commute flip: power_mult)
  from paillier_L [OF P(1) c' this]
  have "c ^ nat e mod P\<^sup>2 = 1 + P * ((e * (m * Q)) mod P)" using e by simp
  then have "mpz_powm g (c mod P\<^sup>2) e (P\<^sup>2) = 1 + P * ((Q * e * m) mod P)"
    using e P(1) by (simp add: gmp_powm [OF g] power_mod mult_ac)
  then show ?thesis
    using P(1) divexact_L [of P] times_inverse [OF i P(1)] by auto
qed

lemma decrypt_crt_enc_of:
  assumes "paillier_key g pub prv" "enc_of pub c m"
  shows "opt_paillier_decrypt_crt g pub prv c = Ret (m mod pk_n pub)"
proof -
  note k = paillier_key_facts [OF assms(1)]
  obtain nb lb p q p' q' y where dk: "derive_keys g nb lb p q p' q' y = Ret (pub, prv)"
    using assms(1) by (auto simp: paillier_key_def)
  obtain r where r: "c mod (pk_n pub)\<^sup>2 = ((1 + m * pk_n pub) * h_s pub ^ r) mod (pk_n pub)\<^sup>2"
    using assms(2) by (auto simp: enc_of_def k(18))
  have n': "pk_n pub = sk_Q prv * sk_P prv" by (simp add: k(6) mult.commute)
  obtain s where s: "mpz_divexact (mpz_powm g (c mod P_squared prv) (double_p prv) (P_squared prv) - 1)
      (sk_P prv) = Ret s" "(s * Q_mul_double_p_inverse prv) mod sk_P prv = m mod sk_P prv"
    using decrypt_half [OF k(1,2,6,8) _ k(14) r] k(11) by (auto simp: k(19))
  obtain t where t: "mpz_divexact (mpz_powm g (c mod Q_squared prv) (double_q prv) (Q_squared prv) - 1)
      (sk_Q prv) = Ret t" "(t * P_mul_double_q_inverse prv) mod sk_Q prv = m mod sk_Q prv"
    using decrypt_half [OF k(1,3) n' k(9) _ k(15) r] k(12) by (auto simp: k(20))
  have "(m mod sk_P prv + (m mod sk_Q prv - m mod sk_P prv)
        * (mpz_invert g (sk_P prv) (sk_Q prv) * sk_P prv)) mod (sk_P prv * sk_Q prv)
      = m mod (sk_P prv * sk_Q prv)"
    using k(3,5,16) by (intro crt_combine) simp_all
  then show ?thesis
    using s t by (simp add: opt_paillier_decrypt_crt_def Let_def paillier_key_fields(15) [OF dk] k(6))
qed

section \<open>Encryption\<close>

lemma enc_of_encrypt:
  assumes "paillier_key g pub prv"
  shows "enc_of pub (opt_paillier_encrypt g bytes pub m) m"
proof -
  note k = paillier_key_facts [OF assms]
  have "0 < n_squared pub" using k(4) by (simp add: k(18))
  then show ?thesis
    unfolding enc_of_def opt_paillier_encrypt_def Let_def
    by (intro exI [of _ "nat (aby_prng bytes (lbits pub))"])
       (simp add: gmp_powm [OF k(1)] aby_prng_bounds(1) mod_mult_right_eq add.commute)
qed

text \<open>Both fast routes give the power modulo the square of \<open>n\<close>.\<close>

lemma squares_coprime:
  assumes "paillier_key g pub prv"
  shows "coprime (P_squared prv) (Q_squared prv)" "P_squared prv * Q_squared prv = n_squared pub"
    "1 < P_squared prv" "1 < Q_squared prv" "1 < n_squared pub"
proof -
  note k = paillier_key_facts [OF assms]
  show "coprime (P_squared prv) (Q_squared prv)" using k(5) by (simp add: k(19,20))
  show "P_squared prv * Q_squared prv = n_squared pub" by (simp add: k(6,18-20) power_mult_distrib)
  show "1 < P_squared prv" "1 < Q_squared prv" "1 < n_squared pub"
    using k(2-4) by (simp_all only: k(18-20) one_less_power zero_less_numeral)
qed

lemma combine_squares:
  assumes "paillier_key g pub prv"
    "cp = x mod P_squared prv" "cq = x mod Q_squared prv"
  shows "(cp + (cq - cp) * P_squared_mul_P_squared_inverse prv) mod n_squared pub
    = x mod n_squared pub"
proof -
  obtain nb lb p q p' q' y where dk: "derive_keys g nb lb p q p' q' y = Ret (pub, prv)"
    using assms(1) by (auto simp: paillier_key_def)
  note s = squares_coprime [OF assms(1)]
  show ?thesis
    unfolding paillier_key_fields(14) [OF dk] s(2) [symmetric]
    using assms(2,3) s(1,4) paillier_key_facts(17) [OF assms(1)] by (intro crt_combine) simp_all
qed

lemma mod_n_squared_crt:
  assumes "paillier_key g pub prv" "0 \<le> e"
  shows "opt_paillier_mod_n_squared_crt g base e pub prv = mpz_powm g base e (n_squared pub)"
  using assms squares_coprime [OF assms(1)] paillier_key_facts(1) [OF assms(1)]
    combine_squares [OF assms(1), of _ "base ^ nat e"]
  by (simp add: opt_paillier_mod_n_squared_crt_def Let_def gmp_powm power_mod)

lemma mod_n_squared_crt_fb:
  assumes "paillier_key g pub prv" "0 \<le> e" "e < 2 ^ (lbits pub + 1)"
  shows "opt_paillier_mod_n_squared_crt_fb e pub prv
    = Ret (mpz_powm g (h_s pub) e (n_squared pub))"
proof -
  obtain nb lb p q p' q' y where dk: "derive_keys g nb lb p q p' q' y = Ret (pub, prv)"
    using assms(1) by (auto simp: paillier_key_def)
  note g = paillier_key_facts(1) [OF assms(1)] and s = squares_coprime [OF assms(1)]
  note lb = assms(3) [unfolded paillier_key_fields(1) [OF dk]]
  show ?thesis
    using fbpowmod_correct [OF g s(3) _ assms(2) lb paillier_key_fields(18) [OF dk]]
      fbpowmod_correct [OF g s(4) _ assms(2) lb paillier_key_fields(19) [OF dk]]
      combine_squares [OF assms(1), of _ "h_s pub ^ nat e"] s(5) assms(2)
    by (simp add: opt_paillier_mod_n_squared_crt_fb_def gmp_powm [OF g] power_mod)
qed

end
