(* ===== verification/Paillier_Scheme.thy ===== *)
theory Paillier_Scheme
  imports Paillier
begin

text \<open>
  What the Paillier scheme promises: a ciphertext can be added to and multiplied, and decrypts to
  the result modulo \<open>n\<close>. The contract is a locale, of which the code is the interpretation; the
  properties of the scheme and of its packing rest on it. At the end there is a concrete GMP and a
  pair of small keys, on which the properties are applied.
\<close>

section \<open>The contract\<close>

locale additive_scheme =
  fixes key_ok :: "'k \<Rightarrow> bool" and modulus :: "'k \<Rightarrow> int" and holds :: "'k \<Rightarrow> 'c \<Rightarrow> int \<Rightarrow> bool"
    and dec :: "'k \<Rightarrow> 'c \<Rightarrow> int cpp" and add :: "'k \<Rightarrow> 'c \<Rightarrow> 'c \<Rightarrow> 'c" and cmul :: "'k \<Rightarrow> 'c \<Rightarrow> int \<Rightarrow> 'c"
  assumes dec_holds: "key_ok k \<Longrightarrow> holds k c m \<Longrightarrow> dec k c = Ret (m mod modulus k)"
    and add_holds: "key_ok k \<Longrightarrow> holds k c m \<Longrightarrow> holds k c' m' \<Longrightarrow> holds k (add k c c') (m + m')"
    and cmul_holds: "key_ok k \<Longrightarrow> holds k c m \<Longrightarrow> 0 \<le> x \<Longrightarrow> holds k (cmul k c x) (m * x)"
    and holds_mod: "key_ok k \<Longrightarrow> holds k c m \<Longrightarrow> m mod modulus k = m' mod modulus k \<Longrightarrow> holds k c m'"
begin

lemma fold_add:
  "key_ok k \<Longrightarrow> holds k c m \<Longrightarrow> list_all2 (holds k) cs ms \<Longrightarrow>
   holds k (fold (\<lambda>c s. add k s c) cs c) (m + sum_list ms)"
proof (induction cs arbitrary: ms c m)
  case (Cons c' cs)
  then obtain m' ms' where ms: "ms = m' # ms'" "holds k c' m'" "list_all2 (holds k) cs ms'"
    by (auto simp: list_all2_Cons1)
  with Cons.IH [OF Cons.prems(1) add_holds [OF Cons.prems(1,2) ms(2)] ms(3)]
  show ?case by (simp add: add.assoc)
qed simp

lemma dec_fold_add:
  assumes "key_ok k" "holds k c m" "list_all2 (holds k) cs ms"
  shows "dec k (fold (\<lambda>c s. add k s c) cs c) = Ret ((m + sum_list ms) mod modulus k)"
  by (rule dec_holds [OF assms(1) fold_add [OF assms]])

lemma dec_cmul:
  assumes "key_ok k" "holds k c m" "0 \<le> x"
  shows "dec k (cmul k c x) = Ret ((m * x) mod modulus k)"
  by (rule dec_holds [OF assms(1) cmul_holds [OF assms]])

lemma dec_add_exact:
  assumes "key_ok k" "holds k c m" "holds k c' m'" "0 \<le> m + m'" "m + m' < modulus k"
  shows "dec k (add k c c') = Ret (m + m')"
  using dec_holds [OF assms(1) add_holds [OF assms(1-3)]] assms(4,5) by (simp add: mod_pos_pos_trivial)

end

section \<open>The code meets the contract\<close>

lemma enc_of_add:
  assumes "enc_of pub c m" "enc_of pub c' m'" "n_squared pub = (pk_n pub)\<^sup>2"
  shows "enc_of pub (opt_paillier_add c c' pub) (m + m')"
proof -
  let ?n = "pk_n pub"
  obtain r r' where r: "c mod ?n\<^sup>2 = ((1 + m * ?n) * h_s pub ^ r) mod ?n\<^sup>2"
    "c' mod ?n\<^sup>2 = ((1 + m' * ?n) * h_s pub ^ r') mod ?n\<^sup>2"
    using assms by (auto simp: enc_of_def)
  have "(c * c') mod ?n\<^sup>2
      = ((1 + m * ?n) * h_s pub ^ r * ((1 + m' * ?n) * h_s pub ^ r')) mod ?n\<^sup>2"
    using r by (rule mod_mult_cong)
  also have "(1 + m * ?n) * h_s pub ^ r * ((1 + m' * ?n) * h_s pub ^ r')
      = (1 + (m + m') * ?n) * h_s pub ^ (r + r') + ?n\<^sup>2 * (m * m' * h_s pub ^ (r + r'))"
    by (simp add: power_add power2_eq_square algebra_simps)
  finally have "(c * c') mod ?n\<^sup>2 = ((1 + (m + m') * ?n) * h_s pub ^ (r + r')) mod ?n\<^sup>2" by simp
  then show ?thesis
    unfolding enc_of_def opt_paillier_add_def assms(3) by (intro exI [of _ "r + r'"]) simp
qed

lemma enc_of_constant_mul:
  assumes "gmp_laws g" "enc_of pub c m" "n_squared pub = (pk_n pub)\<^sup>2" "1 < pk_n pub" "0 \<le> x"
  shows "enc_of pub (opt_paillier_constant_mul g c x pub) (m * x)"
proof -
  let ?n = "pk_n pub" and ?k = "nat x"
  obtain r where r: "c mod ?n\<^sup>2 = ((1 + m * ?n) * h_s pub ^ r) mod ?n\<^sup>2"
    using assms by (auto simp: enc_of_def)
  have "c ^ ?k mod ?n\<^sup>2 = ((1 + m * ?n) ^ ?k * h_s pub ^ (r * ?k)) mod ?n\<^sup>2"
    by (metis r power_mod power_mult power_mult_distrib)
  also have "\<dots> = ((1 + int ?k * m * ?n) * h_s pub ^ (r * ?k)) mod ?n\<^sup>2"
    using one_plus_power [of ?n m ?k] by (intro mod_mult_cong) (simp_all add: mod_eq_dvd_iff)
  finally show ?thesis
    unfolding enc_of_def opt_paillier_constant_mul_def using assms(1,3-5)
    by (intro exI [of _ "r * ?k"]) (simp add: gmp_powm mult.commute [of m])
qed

lemma enc_of_mod:
  assumes "enc_of pub c m" "n_squared pub = (pk_n pub)\<^sup>2" "m mod pk_n pub = m' mod pk_n pub"
  shows "enc_of pub c m'"
proof -
  obtain d where d: "m = m' + d * pk_n pub"
    using assms(3) by (metis add.commute diff_add_cancel dvd_def mod_eq_dvd_iff mult.commute)
  have "(1 + m * pk_n pub) * x = (1 + m' * pk_n pub) * x + (pk_n pub)\<^sup>2 * (d * x)" for x
    by (simp add: d power2_eq_square algebra_simps)
  with assms(1) show ?thesis by (simp add: enc_of_def assms(2))
qed

definition scheme_ok :: "gmp \<times> pubkey \<times> seckey \<Rightarrow> bool" where
  "scheme_ok k = (case k of (g, pub, prv) \<Rightarrow> paillier_key g pub prv)"

interpretation paillier: additive_scheme scheme_ok "\<lambda>(g, pub, prv). pk_n pub"
    "\<lambda>(g, pub, prv). enc_of pub" "\<lambda>(g, pub, prv). opt_paillier_decrypt_crt g pub prv"
    "\<lambda>(g, pub, prv) c c'. opt_paillier_add c c' pub"
    "\<lambda>(g, pub, prv) c x. opt_paillier_constant_mul g c x pub"
  by unfold_locales
     (auto simp: scheme_ok_def decrypt_crt_enc_of
       intro: enc_of_mod enc_of_add enc_of_constant_mul paillier_key_facts(1,4,18))

section \<open>A concrete GMP\<close>

fun rdigit_char :: "int \<Rightarrow> char" where
  "rdigit_char d = (if d < 10 then char_of (nat (48 + d)) else char_of (nat (87 + d)))"

definition rchar_digit :: "char \<Rightarrow> int" where
  "rchar_digit c = (let k = int (of_char c) in if k < 58 then k - 48 else k - 87)"

lemma rchar_digit: "0 \<le> d \<Longrightarrow> d < 36 \<Longrightarrow> rchar_digit (rdigit_char d) = d"
  by (auto simp: rchar_digit_def Let_def nat_less_iff)

function digits :: "int \<Rightarrow> int \<Rightarrow> string" where
  "digits r x = (if x < r \<or> r < 2 then [rdigit_char x] else digits r (x div r) @ [rdigit_char (x mod r)])"
  by pat_completeness auto
termination by (relation "measure (\<lambda>(r, x). nat x)") (auto simp: int_div_less_self)

declare digits.simps [simp del] rdigit_char.simps [simp del]

definition undigits :: "int \<Rightarrow> string \<Rightarrow> int" where
  "undigits r = foldl (\<lambda>acc c. acc * r + rchar_digit c) 0"

lemma undigits_digits:
  "0 \<le> x \<Longrightarrow> 2 \<le> r \<Longrightarrow> r \<le> 36 \<Longrightarrow> undigits r (digits r x) = x"
proof (induction r x rule: digits.induct)
  case (1 r x)
  show ?case
  proof (cases "x < r")
    case True
    with 1 show ?thesis by (simp add: undigits_def rchar_digit digits.simps)
  next
    case False
    have "x mod r < r" "0 \<le> x mod r" using 1(3) by simp_all
    then have "x mod r < 36" using 1(4) by linarith
    with \<open>0 \<le> x mod r\<close> have "rchar_digit (rdigit_char (x mod r)) = x mod r" by (intro rchar_digit)
    with False 1 show ?thesis
      by (subst digits.simps) (simp add: undigits_def pos_imp_zdiv_nonneg_iff)
  qed
qed

definition demo_get_str :: "int \<Rightarrow> int \<Rightarrow> string" where
  "demo_get_str r x = (if x < 0 then CHR 0x2D # digits r (- x) else digits r x)"

definition demo_set_str :: "string \<Rightarrow> int \<Rightarrow> int option" where
  "demo_set_str s r = (case s of [] \<Rightarrow> None
     | c # cs \<Rightarrow> Some (if c = CHR 0x2D then - undigits r cs else undigits r s))"

lemma rdigit_char_not_minus: "0 \<le> d \<Longrightarrow> d < 36 \<Longrightarrow> rdigit_char d \<noteq> CHR 0x2D"
proof
  assume d: "0 \<le> d" "d < 36" "rdigit_char d = CHR 0x2D"
  then have "rchar_digit (CHR 0x2D) = d" using rchar_digit [of d] by simp
  moreover have "rchar_digit (CHR 0x2D) = - 3" by (simp add: rchar_digit_def)
  ultimately show False using d by simp
qed

lemma digits_head: "0 \<le> x \<Longrightarrow> 2 \<le> r \<Longrightarrow> r \<le> 36 \<Longrightarrow> \<exists>c cs. digits r x = c # cs \<and> c \<noteq> CHR 0x2D"
proof (induction r x rule: digits.induct)
  case (1 r x)
  show ?case
  proof (cases "x < r")
    case True
    with 1 rdigit_char_not_minus [of x] show ?thesis by (simp add: digits.simps)
  next
    case False
    with 1 have "\<exists>c cs. digits r (x div r) = c # cs \<and> c \<noteq> CHR 0x2D"
      by (simp add: pos_imp_zdiv_nonneg_iff)
    then show ?thesis using False 1(3) by (subst digits.simps) auto
  qed
qed

lemma demo_str:
  assumes "2 \<le> r" "r \<le> 36"
  shows "demo_set_str (demo_get_str r x) r = Some x"
proof (cases "x < 0")
  case True
  then show ?thesis
    using undigits_digits [of "- x" r] assms by (simp add: demo_set_str_def demo_get_str_def)
next
  case False
  then obtain c cs where "digits r x = c # cs" "c \<noteq> CHR 0x2D" using digits_head [of x r] assms by auto
  then show ?thesis
    using False undigits_digits [of x r] assms by (auto simp: demo_set_str_def demo_get_str_def)
qed

definition demo_invert :: "int \<Rightarrow> int \<Rightarrow> int" where
  "demo_invert a m = (case find (\<lambda>i. a * i mod m = 1) [0..m - 1] of Some i \<Rightarrow> i | None \<Rightarrow> 0)"

lemma find_SomeD: "find P xs = Some x \<Longrightarrow> x \<in> set xs \<and> P x"
  by (induction xs) (auto split: if_splits)

lemma demo_invert:
  assumes "1 < m" "coprime a m"
  shows "0 \<le> demo_invert a m" "demo_invert a m < m" "a * demo_invert a m mod m = 1"
proof -
  obtain u v where "u * a + v * m = 1"
    using bezout_int [of a m] assms(2) by auto
  then have "a * u mod m = 1 mod m" by (metis mod_mult_self2 mult.commute)
  then have "a * (u mod m) mod m = 1" "u mod m \<in> set [0..m - 1]"
    using assms(1) by (simp_all add: mod_mult_right_eq)
  then obtain i where "find (\<lambda>i. a * i mod m = 1) [0..m - 1] = Some i"
    by (cases "find (\<lambda>i. a * i mod m = 1) [0..m - 1]") (auto simp: find_None_iff)
  moreover from this have "i \<in> set [0..m - 1] \<and> a * i mod m = 1"
    by (rule find_SomeD)
  ultimately show "0 \<le> demo_invert a m" "demo_invert a m < m" "a * demo_invert a m mod m = 1"
    by (simp_all add: demo_invert_def)
qed

primrec prime_from :: "nat \<Rightarrow> int \<Rightarrow> int" where
  "prime_from 0 x = x"
| "prime_from (Suc k) x = (if prime_int x then x else prime_from k (x + 1))"

lemma prime_from:
  "prime_int p \<Longrightarrow> x \<le> p \<Longrightarrow> p \<le> x + int k \<Longrightarrow> prime_int (prime_from k x) \<and> x \<le> prime_from k x"
proof (induction k arbitrary: x)
  case (Suc k)
  show ?case
  proof (cases "prime_int x")
    case False
    with Suc.prems have "x + 1 \<le> p" by (metis add1_zle_eq order_le_less)
    with Suc.prems Suc.IH [of "x + 1"] False show ?thesis by auto
  qed simp
qed auto

definition demo_gmp :: gmp where
  "demo_gmp = \<lparr>mpz_powm = (\<lambda>b e m. b ^ nat e mod m), mpz_invert = demo_invert,
     mpz_nextprime = (\<lambda>x. prime_from (fact (nat x) + 1) (x + 1)), mpz_probab_prime = prime_int,
     mpz_set_str = demo_set_str, mpz_get_str = demo_get_str\<rparr>"

lemma demo_gmp_laws: "gmp_laws demo_gmp"
  by (simp add: gmp_laws_def demo_gmp_def demo_invert demo_str)

text \<open>The search for primes, as documented.\<close>

definition nextprime_law :: "gmp \<Rightarrow> bool" where
  "nextprime_law g \<longleftrightarrow> (\<forall>x. 0 \<le> x \<longrightarrow> x < mpz_nextprime g x \<and> prime_int (mpz_nextprime g x))"

lemma demo_nextprime: "nextprime_law demo_gmp"
proof (unfold nextprime_law_def, intro allI impI)
  fix x :: int
  assume "0 \<le> x"
  then obtain p where p: "prime_int p" "x < p" "p \<le> fact (nat x) + 1" using prime_above by blast
  have "int (fact (nat x) + 1) = fact (nat x) + 1" by (simp only: of_nat_add of_nat_fact of_nat_1)
  with p \<open>0 \<le> x\<close> have "p \<le> x + 1 + int (fact (nat x) + 1)" by linarith
  with p prime_from [of p "x + 1" "fact (nat x) + 1"]
  show "x < mpz_nextprime demo_gmp x \<and> prime_int (mpz_nextprime demo_gmp x)"
    by (simp add: demo_gmp_def)
qed

text \<open>Keys of two primes 31 and 71.\<close>

definition demo_keys :: "pubkey \<times> seckey" where
  "demo_keys = (case derive_keys demo_gmp 12 6 5 7 3 5 2 of Ret k \<Rightarrow> k)"

definition demo_pub :: pubkey where "demo_pub = fst demo_keys"
definition demo_prv :: seckey where "demo_prv = snd demo_keys"

lemma demo_primes: "good_primes 5 7 3 5 2"
proof -
  have "prime_int 31" "prime_int 71" by code_simp+
  then show ?thesis by (simp add: good_primes_def)
qed

lemma demo_derived: "derive_keys demo_gmp 12 6 5 7 3 5 2 = Ret (demo_pub, demo_prv)"
proof -
  have "\<exists>k. derive_keys demo_gmp 12 6 5 7 3 5 2 = Ret k"
    by (simp add: derive_keys_def Let_def fbpowmod_init_extend_def)
  then show ?thesis by (auto simp: demo_pub_def demo_prv_def demo_keys_def)
qed

lemma demo_key: "paillier_key demo_gmp demo_pub demo_prv"
  using demo_primes demo_gmp_laws demo_derived unfolding paillier_key_def by blast

lemma demo_n: "pk_n demo_pub = 2201"
  using paillier_key_fields(2-4) [OF demo_derived] by simp

lemma prime_from_step:
  "0 < k \<Longrightarrow> prime_from k x = (if prime_int x then x else prime_from (k - 1) (x + 1))"
  by (cases k) simp_all

lemma demo_primes_11_13:
  "crt_mod (init_crt demo_gmp [0] 2 3) = [11, 13]"
proof -
  have p: "prime_int 11" "prime_int 13" "\<not> prime_int 9" "\<not> prime_int 10" "\<not> prime_int 12"
    by code_simp+
  have "aby_prng [0] 3 OR push_bit 3 1 = 8" by code_simp
  moreover have "mpz_nextprime demo_gmp 8 = 11"
    by (simp add: demo_gmp_def prime_from_step p fact_numeral)
  moreover have "mpz_nextprime demo_gmp 11 = 13"
    by (simp add: demo_gmp_def prime_from_step p fact_numeral)
  ultimately show ?thesis by (simp add: init_crt_def Let_def numeral_2_eq_2)
qed

section \<open>Encryption and decryption\<close>

text \<open>
  C4: under a key of the key generation, decrypting what was encrypted gives the message, by the
  direct and by the fast decryption, for every message below \<open>n\<close> and whatever the random bytes.
\<close>

theorem paillier_decrypts:
  assumes "paillier_key g pub prv" "validate_message m pub"
  shows "opt_paillier_decrypt g pub prv (opt_paillier_encrypt g bytes pub m) = Ret m
    \<and> opt_paillier_decrypt_crt g pub prv (opt_paillier_encrypt g bytes pub m) = Ret m"
proof -
  have "m mod pk_n pub = m"
    using assms(2) by (simp add: validate_message_def mod_pos_pos_trivial split: if_splits)
  then show ?thesis
    using decrypt_enc_of [OF assms(1) enc_of_encrypt [OF assms(1)]]
      decrypt_crt_enc_of [OF assms(1) enc_of_encrypt [OF assms(1)]] by simp
qed

theorem paillier_decrypts_witness:
  "opt_paillier_decrypt demo_gmp demo_pub demo_prv
      (opt_paillier_encrypt demo_gmp [200] demo_pub 1234) = Ret 1234
   \<and> opt_paillier_decrypt_crt demo_gmp demo_pub demo_prv
      (opt_paillier_encrypt demo_gmp [200] demo_pub 1234) = Ret 1234"
  by (rule paillier_decrypts [OF demo_key]) (simp add: validate_message_def demo_n)

text \<open>
  C24: the three ways to encrypt give the same ciphertext from the same random bytes: the direct
  power, the power by the Chinese remainder theorem, and the one by the tables of the fixed base,
  whose exponent always fits the tables of the key.
\<close>

theorem encryptions_agree:
  assumes "paillier_key g pub prv"
  shows "opt_paillier_encrypt_crt g bytes pub prv m = opt_paillier_encrypt g bytes pub m
    \<and> opt_paillier_encrypt_crt_fb bytes pub prv m = Ret (opt_paillier_encrypt g bytes pub m)"
proof -
  have "aby_prng bytes (lbits pub) < 2 ^ (lbits pub + 1)"
    using aby_prng_bounds(2) [of bytes "lbits pub"] by (simp add: order_less_le_trans)
  then show ?thesis
    using mod_n_squared_crt [OF assms] mod_n_squared_crt_fb [OF assms] aby_prng_bounds(1)
    by (simp add: opt_paillier_encrypt_crt_def opt_paillier_encrypt_crt_fb_def
        opt_paillier_encrypt_def Let_def)
qed

theorem encryptions_agree_witness:
  "opt_paillier_encrypt_crt demo_gmp [77] demo_pub demo_prv 5 = opt_paillier_encrypt demo_gmp [77] demo_pub 5
   \<and> opt_paillier_encrypt_crt_fb [77] demo_pub demo_prv 5
      = Ret (opt_paillier_encrypt demo_gmp [77] demo_pub 5)"
  by (rule encryptions_agree [OF demo_key])

section \<open>Sums of signed numbers\<close>

text \<open>Plaintexts are coded modulo \<open>n\<close> and read back centred.\<close>

lemma set_plaintext_mod:
  assumes "gmp_laws g" "2 \<le> radix" "radix \<le> 36"
  shows "\<exists>m. opt_paillier_set_plaintext g (mpz_get_str g radix x) pub radix = Ret m
    \<and> m mod pk_n pub = x mod pk_n pub"
  using gmp_str [OF assms] by (simp add: opt_paillier_set_plaintext_def)

lemma get_plaintext_centred:
  assumes "paillier_key g pub prv"
  shows "opt_paillier_get_plaintext g (x mod pk_n pub) pub radix
    = mpz_get_str g radix (centred (pk_n pub) x)"
proof -
  obtain nb lb p q p' q' y where "derive_keys g nb lb p q p' q' y = Ret (pub, prv)"
    using assms by (auto simp: paillier_key_def)
  from paillier_key_fields(5) [OF this] show ?thesis
    by (simp add: opt_paillier_get_plaintext_def centred_def Let_def)
qed

definition encrypt_text :: "gmp \<Rightarrow> pubkey \<Rightarrow> int \<Rightarrow> u8 list \<times> int \<Rightarrow> int cpp" where
  "encrypt_text g pub radix bx = (case bx of (bytes, x) \<Rightarrow>
     cbind (opt_paillier_set_plaintext g (mpz_get_str g radix x) pub radix)
       (\<lambda>m. Ret (opt_paillier_encrypt g bytes pub m)))"

lemma encrypt_text_holds:
  assumes "paillier_key g pub prv" "2 \<le> radix" "radix \<le> 36"
  shows "\<exists>c. encrypt_text g pub radix (bytes, x) = Ret c \<and> enc_of pub c x"
proof -
  note k = paillier_key_facts [OF assms(1)]
  obtain m where m: "opt_paillier_set_plaintext g (mpz_get_str g radix x) pub radix = Ret m"
    "m mod pk_n pub = x mod pk_n pub"
    using set_plaintext_mod [OF k(1) assms(2,3)] by blast
  then show ?thesis
    using enc_of_mod [OF enc_of_encrypt [OF assms(1)] k(18) m(2)] by (simp add: encrypt_text_def)
qed

text \<open>
  C26: numbers given as text are coded, encrypted one by one, added up as ciphertexts, decrypted
  and read back as text: the result is the text of their sum, for any list of numbers, negative
  ones included, whose sum lies in the half-open range around zero.
\<close>

theorem signed_sum:
  assumes "paillier_key g pub prv" "2 \<le> radix" "radix \<le> 36"
    "encrypt_text g pub radix bx = Ret c" "map (encrypt_text g pub radix) bxs = map Ret cs"
    "- ((pk_n pub + 1) div 2) \<le> snd bx + sum_list (map snd bxs)"
    "snd bx + sum_list (map snd bxs) < pk_n pub div 2"
  shows "cbind (opt_paillier_decrypt_crt g pub prv (fold (\<lambda>c s. opt_paillier_add s c pub) cs c))
      (\<lambda>m. Ret (opt_paillier_get_plaintext g m pub radix))
    = Ret (mpz_get_str g radix (snd bx + sum_list (map snd bxs)))"
proof -
  have ok: "scheme_ok (g, pub, prv)" using assms(1) by (simp add: scheme_ok_def)
  have holds: "enc_of pub c (snd bx)" if "encrypt_text g pub radix bx = Ret c" for bx c
    using encrypt_text_holds [OF assms(1-3), of "fst bx" "snd bx"] that by auto
  have "list_all2 (enc_of pub) cs (map snd bxs)"
    using assms(5) by (induction bxs arbitrary: cs) (auto simp: map_eq_Cons_conv dest: holds)
  with paillier.dec_fold_add [OF ok, of c "snd bx" cs "map snd bxs"] holds [OF assms(4)]
  have "opt_paillier_decrypt_crt g pub prv (fold (\<lambda>c s. opt_paillier_add s c pub) cs c)
      = Ret ((snd bx + sum_list (map snd bxs)) mod pk_n pub)" by simp
  moreover have "centred (pk_n pub) (snd bx + sum_list (map snd bxs)) = snd bx + sum_list (map snd bxs)"
    using paillier_key_facts(4) [OF assms(1)] assms(6,7) by (intro centred_id) simp_all
  ultimately show ?thesis by (simp add: get_plaintext_centred [OF assms(1)])
qed

definition demo_cipher :: "u8 list \<times> int \<Rightarrow> int" where
  "demo_cipher bx = (case encrypt_text demo_gmp demo_pub 10 bx of Ret c \<Rightarrow> c)"

lemma demo_cipher: "encrypt_text demo_gmp demo_pub 10 bx = Ret (demo_cipher bx)"
  using encrypt_text_holds [OF demo_key, of 10 "fst bx" "snd bx"] by (auto simp: demo_cipher_def)

theorem signed_sum_witness:
  "cbind (opt_paillier_decrypt_crt demo_gmp demo_pub demo_prv
      (fold (\<lambda>c s. opt_paillier_add s c demo_pub) [demo_cipher ([5], 400), demo_cipher ([6], - 1000)]
        (demo_cipher ([4], 13))))
      (\<lambda>m. Ret (opt_paillier_get_plaintext demo_gmp m demo_pub 10))
    = Ret (mpz_get_str demo_gmp 10 (- 587))"
  using signed_sum [OF demo_key, of 10 "([4], 13)" _ "[([5], 400), ([6], - 1000)]"
      "[demo_cipher ([5], 400), demo_cipher ([6], - 1000)]"]
  by (simp add: demo_cipher demo_n)

text \<open>
  A ciphertext to the power of a constant decrypts to the product of message and constant
  modulo \<open>n\<close>.
\<close>

theorem constant_mul_scales:
  assumes "paillier_key g pub prv" "0 \<le> x"
  shows "opt_paillier_decrypt_crt g pub prv
      (opt_paillier_constant_mul g (opt_paillier_encrypt g bytes pub m) x pub)
    = Ret (m * x mod pk_n pub)"
proof -
  have "scheme_ok (g, pub, prv)" using assms(1) by (simp add: scheme_ok_def)
  from paillier.dec_cmul [OF this, of "opt_paillier_encrypt g bytes pub m" m x]
  show ?thesis using enc_of_encrypt [OF assms(1)] assms(2) by simp
qed

theorem constant_mul_scales_witness:
  "opt_paillier_decrypt_crt demo_gmp demo_pub demo_prv
      (opt_paillier_constant_mul demo_gmp (opt_paillier_encrypt demo_gmp [9] demo_pub 300) 25 demo_pub)
    = Ret 897"
  using constant_mul_scales [OF demo_key, of 25 "[9]" 300] by (simp add: demo_n)

section \<open>Powers of a fixed base\<close>

text \<open>
  Raising a fixed base to a power by its table is the modular power, for every exponent of the
  bit length and every window the table was made for; the digits fit the array that is allocated.
\<close>

theorem fixed_base_power:
  assumes "gmp_laws g" "1 < md" "0 < winsize" "0 \<le> ex" "ex < 2 ^ maxbits"
  shows "cbind (fbpowmod_init_extend g base md maxbits winsize) (\<lambda>fb. fbpowmod_extend fb ex)
    = Ret (mpz_powm g base ex md)"
proof -
  obtain fb where fb: "fbpowmod_init_extend g base md maxbits winsize = Ret fb"
    using assms(3) by (simp add: fbpowmod_init_extend_def Let_def)
  with fbpowmod_correct [OF assms fb] assms show ?thesis by (simp add: gmp_powm)
qed

theorem fixed_base_power_witness:
  "cbind (fbpowmod_init_extend demo_gmp 7 1000003 10 4) (\<lambda>fb. fbpowmod_extend fb 900)
    = Ret (mpz_powm demo_gmp 7 900 1000003)"
  by (rule fixed_base_power [OF demo_gmp_laws]) simp_all

section \<open>Packed numbers\<close>

lemma crt_primes_facts:
  assumes "nextprime_law g" "0 \<le> cur"
  shows "(\<forall>m \<in> set (crt_primes g k cur). prime_int m \<and> cur < m) \<and> distinct (crt_primes g k cur)"
  using assms(2)
proof (induction k arbitrary: cur)
  case (Suc k)
  have "cur < mpz_nextprime g cur" "prime_int (mpz_nextprime g cur)"
    using assms(1) Suc.prems by (simp_all add: nextprime_law_def)
  with Suc.IH [of "mpz_nextprime g cur"] Suc.prems show ?case by (fastforce simp: Let_def)
qed simp

lemma length_crt_primes: "length (crt_primes g k cur) = k"
  by (induction k arbitrary: cur) (simp_all add: Let_def)

lemma init_crt_mods:
  assumes "nextprime_law g"
  shows "mods_ok (crt_mod (init_crt g bytes k bits))" "length (crt_mod (init_crt g bytes k bits)) = k"
    "m \<in> set (crt_mod (init_crt g bytes k bits)) \<Longrightarrow> 2 ^ bits < m"
    "crt_half_mod (init_crt g bytes k bits)
      = map (\<lambda>m. m div 2) (crt_mod (init_crt g bytes k bits))"
proof -
  let ?cur = "aby_prng bytes bits OR push_bit bits 1"
  have ms: "crt_mod (init_crt g bytes k bits) = crt_primes g k ?cur"
    by (simp add: init_crt_def Let_def)
  have "push_bit bits (1 :: int) \<le> push_bit bits 1 OR aby_prng bytes bits"
    by (intro or_greater_eq aby_prng_bounds)
  then have cur: "2 ^ bits \<le> ?cur" by (simp add: or.commute push_bit_eq_mult)
  then have "0 \<le> ?cur" by (rule order_trans [rotated]) simp
  note f = crt_primes_facts [OF assms this, of k]
  then show "mods_ok (crt_mod (init_crt g bytes k bits))"
    unfolding ms mods_ok_def pairwise_def
    by (blast intro: prime_int_gt_1 primes_coprime)
  show "2 ^ bits < m" if "m \<in> set (crt_mod (init_crt g bytes k bits))"
    using f that cur unfolding ms by (blast intro: order_le_less_trans)
  show "length (crt_mod (init_crt g bytes k bits)) = k"
    unfolding ms by (rule length_crt_primes)
  show "crt_half_mod (init_crt g bytes k bits)
      = map (\<lambda>m. m div 2) (crt_mod (init_crt g bytes k bits))"
    by (simp add: init_crt_def Let_def)
qed

text \<open>The signed numbers of a bit length.\<close>

definition fits :: "nat \<Rightarrow> int \<Rightarrow> bool" where
  "fits bits x \<longleftrightarrow> - (2 ^ (bits - 1)) \<le> x \<and> x < 2 ^ (bits - 1)"

lemma fits_centred:
  assumes "0 < bits" "2 ^ bits < m" "fits bits x"
  shows "centred m x = x"
proof -
  have "(2 :: int) ^ bits = 2 * 2 ^ (bits - 1)" using assms(1) by (cases bits) simp_all
  with assms(2,3) show ?thesis
    by (intro centred_id) (auto simp: fits_def)
qed

lemma retrieve_init:
  assumes "nextprime_law g" "0 < bits" "length xs \<le> k" "list_all (fits bits) xs"
    "\<forall>i < length xs. p mod (crt_mod (init_crt g bytes k bits) ! i)
       = xs ! i mod (crt_mod (init_crt g bytes k bits) ! i)"
  shows "data_retrieve_crt g p (init_crt g bytes k bits) (length xs) radix
    = Ret (map (mpz_get_str g radix) xs)"
proof (rule retrieve_correct)
  note m = init_crt_mods [OF assms(1), where bytes = bytes and k = k and bits = bits]
  show "crt_half_mod (init_crt g bytes k bits)
      = map (\<lambda>m. m div 2) (crt_mod (init_crt g bytes k bits))" by (rule m(4))
  show "length xs \<le> length (crt_mod (init_crt g bytes k bits))" using m(2) assms(3) by simp
  show "\<forall>i < length xs. centred (crt_mod (init_crt g bytes k bits) ! i) (xs ! i) = xs ! i"
    using m(2) assms(2-4) by (auto simp: list_all_length intro!: fits_centred [of bits] m(3))
qed (use assms in simp_all)

text \<open>
  Numbers packed into one by the moduli of the packing's initialisation are retrieved, for any
  number of them up to the number of moduli, when each fits the bit length as a signed number.
\<close>

theorem packed_round_trip:
  assumes "gmp_laws g" "nextprime_law g" "2 \<le> radix" "radix \<le> 36" "0 < bits" "length xs \<le> k"
    "list_all (fits bits) xs"
  shows "cbind (data_packing_crt g (map (mpz_get_str g radix) xs) (init_crt g bytes k bits) radix)
      (\<lambda>p. data_retrieve_crt g p (init_crt g bytes k bits) (length xs) radix)
    = Ret (map (mpz_get_str g radix) xs)"
proof -
  note m = init_crt_mods [OF assms(2), where bytes = bytes and k = k and bits = bits]
  obtain p where "data_packing_crt g (map (mpz_get_str g radix) xs) (init_crt g bytes k bits) radix
      = Ret p" "\<forall>i < length xs. p mod (crt_mod (init_crt g bytes k bits) ! i)
       = xs ! i mod (crt_mod (init_crt g bytes k bits) ! i)"
    using packing_correct [OF assms(1) m(1) _ assms(3,4), of xs] m(2) assms(6) by auto
  with retrieve_init [OF assms(2,5-7)] show ?thesis by simp
qed

theorem packed_round_trip_witness:
  "cbind (data_packing_crt demo_gmp (map (mpz_get_str demo_gmp 10) [3, - 4]) (init_crt demo_gmp [0] 2 3) 10)
      (\<lambda>p. data_retrieve_crt demo_gmp p (init_crt demo_gmp [0] 2 3) 2 10)
    = Ret (map (mpz_get_str demo_gmp 10) [3, - 4])"
  using packed_round_trip [OF demo_gmp_laws demo_nextprime, of 10 3 "[3, - 4]" 2 "[0]"]
  by (simp add: fits_def numeral_2_eq_2)

text \<open>
  C25: one ciphertext carries a whole vector: two vectors are packed and encrypted, the ciphertexts
  are added, and what is decrypted and retrieved are the sums of the elements, when twice the
  product of the moduli is at most \<open>n\<close> and every sum fits the bit length.
\<close>

theorem packed_sum:
  assumes "paillier_key g pub prv" "nextprime_law g" "2 \<le> radix" "radix \<le> 36" "0 < bits"
    "length xs \<le> k" "length ys = length xs" "list_all (fits bits) (map2 (+) xs ys)"
    "2 * prod_list (take (length xs) (crt_mod (init_crt g bytes k bits))) \<le> pk_n pub"
  shows "cbind (data_packing_crt g (map (mpz_get_str g radix) xs) (init_crt g bytes k bits) radix) (\<lambda>p.
     cbind (data_packing_crt g (map (mpz_get_str g radix) ys) (init_crt g bytes k bits) radix) (\<lambda>q.
     cbind (opt_paillier_decrypt_crt g pub prv
         (opt_paillier_add (opt_paillier_encrypt g b1 pub p) (opt_paillier_encrypt g b2 pub q) pub))
       (\<lambda>s. data_retrieve_crt g s (init_crt g bytes k bits) (length xs) radix)))
    = Ret (map (mpz_get_str g radix) (map2 (+) xs ys))"
proof -
  note g = paillier_key_facts(1) [OF assms(1)]
  let ?c = "init_crt g bytes k bits"
  note m = init_crt_mods [OF assms(2), where bytes = bytes and k = k and bits = bits]
  obtain p where p: "data_packing_crt g (map (mpz_get_str g radix) xs) ?c radix = Ret p"
    "0 \<le> p" "p < prod_list (take (length xs) (crt_mod ?c))"
    "\<forall>i < length xs. p mod (crt_mod ?c ! i) = xs ! i mod (crt_mod ?c ! i)"
    using packing_correct [OF g m(1) _ assms(3,4), of xs] m(2) assms(6) by auto
  obtain q where q: "data_packing_crt g (map (mpz_get_str g radix) ys) ?c radix = Ret q"
    "0 \<le> q" "q < prod_list (take (length xs) (crt_mod ?c))"
    "\<forall>i < length xs. q mod (crt_mod ?c ! i) = ys ! i mod (crt_mod ?c ! i)"
    using packing_correct [OF g m(1) _ assms(3,4), of ys] m(2) assms(6,7) by auto
  have ok: "scheme_ok (g, pub, prv)" using assms(1) by (simp add: scheme_ok_def)
  have dec: "opt_paillier_decrypt_crt g pub prv
         (opt_paillier_add (opt_paillier_encrypt g b1 pub p) (opt_paillier_encrypt g b2 pub q) pub)
      = Ret (p + q)"
    using paillier.dec_add_exact [OF ok, of _ p _ q] enc_of_encrypt [OF assms(1)]
      p(2,3) q(2,3) assms(9) by simp
  have "\<forall>i < length (map2 (+) xs ys). (p + q) mod (crt_mod ?c ! i)
      = map2 (+) xs ys ! i mod (crt_mod ?c ! i)"
    using p(4) q(4) assms(7) by (auto intro: mod_add_cong)
  from retrieve_init [OF assms(2,5) _ assms(8) this] show ?thesis
    using p(1) q(1) dec assms(6,7) by simp
qed

theorem packed_sum_witness:
  "cbind (data_packing_crt demo_gmp (map (mpz_get_str demo_gmp 10) [2, - 1]) (init_crt demo_gmp [0] 2 3) 10) (\<lambda>p.
   cbind (data_packing_crt demo_gmp (map (mpz_get_str demo_gmp 10) [1, - 2]) (init_crt demo_gmp [0] 2 3) 10) (\<lambda>q.
   cbind (opt_paillier_decrypt_crt demo_gmp demo_pub demo_prv
         (opt_paillier_add (opt_paillier_encrypt demo_gmp [1] demo_pub p)
           (opt_paillier_encrypt demo_gmp [2] demo_pub q) demo_pub))
       (\<lambda>s. data_retrieve_crt demo_gmp s (init_crt demo_gmp [0] 2 3) (length [2 :: int, - 1]) 10)))
    = Ret (map (mpz_get_str demo_gmp 10) (map2 (+) [2, - 1] [1, - 2]))"
  by (rule packed_sum [OF demo_key demo_nextprime])
     (simp_all add: fits_def demo_primes_11_13 demo_n)

end
