(* ===== verification/Task_Worker.thy ===== *)
theory Task_Worker
  imports Grpc_Channel "HOL-Library.AList"
begin

text \<open>
  A worker (src/fediux/node/worker/worker.cc): on an executing node it creates the task of a request
  and runs it in a thread or a process; on the scheduling node it collects the status reports of
  the parties and decides when the task is over. The task itself is seen by the node as a link
  context and a stop flag (task/semantic/task.h).
\<close>

section \<open>Messages\<close>

(* src/src/fediux/protos/worker.proto:78-84 TaskStatus.StatusCode *)
datatype status_code = ST_RUNNING | ST_SUCCESS | ST_FAIL | ST_NONEXIST | ST_FINISHED

(* src/src/fediux/protos/worker.proto:77-89 TaskStatus *)
record task_status =
  ts_info :: task_ctx
  ts_party :: string
  ts_status :: status_code
  ts_message :: string

text \<open>A message that nothing was written to reads as the default of each field.\<close>

definition empty_task_status :: task_status where
  "empty_task_status =
     \<lparr>ts_info = empty_task_ctx, ts_party = [], ts_status = ST_RUNNING, ts_message = []\<rparr>"

(* src/src/fediux/protos/common.proto:83-101 ParamValue *)
datatype param_value = PvInt32 int | PvInt64 int | PvString string | PvInt32Array "int list"
  | PvStringArray "string list" | PvNotSet | PvOther

(* src/src/fediux/protos/common.proto:146-149 Dataset *)
record party_data =
  pd_data :: "(string \<times> string) list"
  pd_detail :: bool

(* src/src/fediux/protos/worker.proto:8-15 PushTaskRequest *)
record push_request =
  pr_info :: task_ctx
  pr_party_name :: string
  pr_party_datasets :: "(string \<times> party_data) list"
  pr_params :: "string \<rightharpoonup> param_value"
  pr_access_info :: "(string \<times> node) list"
  pr_aux :: "string \<rightharpoonup> node"
  pr_manual_launch :: bool

definition value_int32 :: "param_value \<Rightarrow> int" where
  "value_int32 v = (case v of PvInt32 i \<Rightarrow> i | _ \<Rightarrow> 0)"

section \<open>The task\<close>

(* src/src/fediux/task/semantic/task.h:99-111 TaskBase *)
record base_task =
  bt_stop :: bool
  bt_link :: link_ctx

definition new_base_task :: base_task where
  "new_base_task = \<lparr>bt_stop = False, bt_link = new_link_ctx\<rparr>"

(* src/src/fediux/task/semantic/task.h:29-33 TaskBase::kill_task *)
definition task_kill :: "base_task \<Rightarrow> base_task" where
  "task_kill t = t\<lparr>bt_stop := True, bt_link := link_clean (bt_link t)\<rparr>"

(* src/src/fediux/task/semantic/task.cc:54-62 TaskBase::recv *)
definition task_recv :: "string \<Rightarrow> base_task \<Rightarrow> (retcode \<times> string) option \<times> base_task" where
  "task_recv key t = (let (r, c) = pop_recv key (bt_link t)
     in (map_option (\<lambda>m. (SUCCESS, m)) (popped_string r), t\<lparr>bt_link := c\<rparr>))"

(* src/src/fediux/task/semantic/task.cc:64-77 TaskBase::recv *)
definition task_recv_sized ::
  "string \<Rightarrow> nat \<Rightarrow> base_task \<Rightarrow> (retcode \<times> string option) option \<times> base_task" where
  "task_recv_sized key len t = (let (r, t') = task_recv key t
     in (map_option (\<lambda>(ret, m). if length m \<noteq> len then (FAIL, None) else (SUCCESS, Some m)) r, t'))"

text \<open>Data for a peer that asks for it: it is put up, and the call waits until it was taken.\<close>

(* src/src/fediux/task/semantic/task.cc:99-107 TaskBase::pushDataToSendQueue *)
definition task_push_begin :: "string \<Rightarrow> string \<Rightarrow> base_task \<Rightarrow> retcode option \<times> base_task" where
  "task_push_begin key data t =
     (if data = [] then (Some FAIL, t) else (None, t\<lparr>bt_link := push_send key data (bt_link t)\<rparr>))"

(* src/src/fediux/task/semantic/task.cc:108-111 TaskBase::pushDataToSendQueue *)
definition task_push_end :: "string \<Rightarrow> base_task \<Rightarrow> retcode option \<times> base_task" where
  "task_push_end key t = (let (r, c) = pop_complete key (bt_link t)
     in (case r of Blocked \<Rightarrow> None | _ \<Rightarrow> Some SUCCESS, t\<lparr>bt_link := c\<rparr>))"

section \<open>State\<close>

text \<open>A promise is the value it was given, if it was. A second value makes it throw.\<close>

(* src/src/fediux/node/worker/worker.h:83-110 Worker *)
record worker =
  w_worker_id :: string
  w_task_info :: task_ctx
  task_ptr :: "base_task option"
  task_ready :: "bool option"
  task_statuses :: "task_status tsq"
  final_status :: "(string \<times> status_code) list"
  task_finish :: "retcode option"
  party_count :: nat
  scheduler_finished :: bool
  process_handler :: bool

(* src/src/fediux/node/worker/worker.h:52-58 Worker::Worker *)
definition new_worker :: "task_ctx \<Rightarrow> worker" where
  "new_worker info = \<lparr>w_worker_id = tc_request_id info, w_task_info = info, task_ptr = None,
     task_ready = None, task_statuses = new_tsq, final_status = [], task_finish = None,
     party_count = 0, scheduler_finished = False, process_handler = False\<rparr>"

section \<open>The scheduler's side\<close>

(* src/src/fediux/node/worker/worker.h:73-73 Worker::setPartyCount *)
definition setPartyCount :: "nat \<Rightarrow> worker \<Rightarrow> worker" where
  "setPartyCount n w = w\<lparr>party_count := n\<rparr>"

(* src/src/fediux/node/worker/worker.cc:233-243 Worker::updateTaskStatus *)
definition finish_task :: "retcode \<Rightarrow> worker \<Rightarrow> worker cpp" where
  "finish_task r w = (if scheduler_finished w then Ret w
     else case task_finish w of Some _ \<Rightarrow> Throw ''Promise already satisfied''
     | None \<Rightarrow> Ret (w\<lparr>task_finish := Some r, scheduler_finished := True\<rparr>))"

(* src/src/fediux/node/worker/worker.cc:221-253 Worker::updateTaskStatus *)
definition updateTaskStatus :: "task_status \<Rightarrow> worker \<Rightarrow> (retcode \<times> worker) cpp" where
  "updateTaskStatus st w =
     cbind
       (if ts_status st = ST_SUCCESS \<or> ts_status st = ST_FAIL then
          (let w1 = w\<lparr>final_status := AList.update (ts_party st) (ts_status st) (final_status w)\<rparr>
           in cbind (if ts_status st = ST_FAIL then finish_task FAIL w1 else Ret w1) (\<lambda>w2.
                if length (final_status w2) = party_count w2 then finish_task SUCCESS w2 else Ret w2))
        else Ret w)
       (\<lambda>w3. Ret (SUCCESS, w3\<lparr>task_statuses := tsq_push st (task_statuses w3)\<rparr>))"

(* src/src/fediux/node/worker/worker.cc:209-219 Worker::fetchTaskStatus *)
definition fetchTaskStatus :: "worker \<Rightarrow> (retcode \<times> task_status) \<times> worker" where
  "fetchTaskStatus w = (let (r, q) = tsq_try_pop (task_statuses w); w' = w\<lparr>task_statuses := q\<rparr>
     in case r of Some st \<Rightarrow> ((SUCCESS, st), w') | None \<Rightarrow> ((FAIL, empty_task_status), w'))"

text \<open>No result yet is \<open>None\<close>: the call waits.\<close>

(* src/src/fediux/node/worker/worker.cc:255-259 Worker::waitUntilTaskFinish *)
definition waitUntilTaskFinish :: "worker \<Rightarrow> retcode option" where
  "waitUntilTaskFinish w = task_finish w"

(* src/src/fediux/node/worker/worker.cc:19-32 Worker::waitForTaskReady *)
definition waitForTaskReady :: "worker \<Rightarrow> retcode option" where
  "waitForTaskReady w = map_option (\<lambda>ready. if \<not> ready then FAIL else SUCCESS) (task_ready w)"

section \<open>The executor's side\<close>

(* src/src/fediux/node/worker/worker.h:35-38 TaskRunMode *)
datatype run_mode = THREAD | PROCESS

(* src/src/fediux/protos/common.proto:48-52 PsiTag *)
definition PSI_TAG_TEE :: int where "PSI_TAG_TEE = 2"

(* src/src/fediux/node/worker/worker.cc:48-58 Worker::ExecuteMode *)
definition ExecuteMode :: "push_request \<Rightarrow> run_mode" where
  "ExecuteMode req = (case pr_params req ''psiTag'' of
     Some v \<Rightarrow> if value_int32 v = PSI_TAG_TEE then THREAD else PROCESS
   | None \<Rightarrow> PROCESS)"

text \<open>
  A request for another process carries access information in place of the identifiers of the
  party's own datasets; an identifier becomes a parameter under the name of the dataset. The
  dataset service gives a driver for an identifier or none, and a driver its access information
  or none.
\<close>

type_synonym drivers = "string \<Rightarrow> string option option"

(* src/src/fediux/node/worker/worker.cc:110-130 Worker::ExecuteTaskByProcess *)
definition expand_dataset ::
  "drivers \<Rightarrow> string \<times> string \<Rightarrow> (string \<rightharpoonup> param_value) \<Rightarrow> (string \<times> string) \<times> (string \<rightharpoonup> param_value)" where
  "expand_dataset getDriver nd params = (case nd of (dataset_name, dataset_id) \<Rightarrow>
     (case getDriver dataset_id of
        None \<Rightarrow> (nd, params)
      | Some None \<Rightarrow> (nd, params)
      | Some (Some access_info) \<Rightarrow>
          ((dataset_name, access_info), params(dataset_name \<mapsto> PvString dataset_id))))"

(* src/src/fediux/node/worker/worker.cc:110-130 Worker::ExecuteTaskByProcess *)
fun expand_datasets ::
  "drivers \<Rightarrow> (string \<times> string) list \<Rightarrow> (string \<rightharpoonup> param_value)
   \<Rightarrow> (string \<times> string) list \<times> (string \<rightharpoonup> param_value)" where
  "expand_datasets getDriver [] params = ([], params)"
| "expand_datasets getDriver (nd # nds) params =
     (let (nd', params1) = expand_dataset getDriver nd params;
          (nds', params2) = expand_datasets getDriver nds params1
      in (nd' # nds', params2))"

(* src/src/fediux/node/worker/worker.cc:105-132 Worker::ExecuteTaskByProcess *)
fun expand_parties ::
  "drivers \<Rightarrow> string \<Rightarrow> (string \<times> party_data) list \<Rightarrow> (string \<rightharpoonup> param_value)
   \<Rightarrow> (string \<times> party_data) list \<times> (string \<rightharpoonup> param_value)" where
  "expand_parties getDriver self [] params = ([], params)"
| "expand_parties getDriver self ((party_name, datasets) # ps) params =
     (if party_name \<noteq> self then
        (let (ps', params') = expand_parties getDriver self ps params
         in ((party_name, datasets) # ps', params'))
      else
        (let (nds, params1) = expand_datasets getDriver (pd_data datasets) params;
             (ps', params2) = expand_parties getDriver self ps params1
         in ((party_name, \<lparr>pd_data = nds, pd_detail = True\<rparr>) # ps', params2)))"

(* src/src/fediux/node/worker/worker.cc:95-132 Worker::ExecuteTaskByProcess *)
definition expand_request :: "drivers \<Rightarrow> push_request \<Rightarrow> push_request" where
  "expand_request getDriver req =
     (let (ps, params) = expand_parties getDriver (pr_party_name req) (pr_party_datasets req)
            (pr_params req)
      in req\<lparr>pr_party_datasets := ps, pr_params := params\<rparr>)"

text \<open>
  What a worker's run rests on: the factory of tasks, which may give none or throw, the
  serialization of a request, and the launch of a process, which may throw. A run is two
  definitions: up to the start of the task, and what its end gives.
\<close>

record exec_env =
  env_create :: "push_request \<Rightarrow> string + base_task option"
  env_drivers :: drivers
  env_serialize :: "push_request \<Rightarrow> string option"
  env_launch :: "string \<Rightarrow> string option"

datatype run_start = Started | Ended retcode | Raised string

(* src/src/fediux/node/worker/worker.cc:60-83 Worker::ExecuteTaskByThread *)
definition start_thread :: "exec_env \<Rightarrow> push_request \<Rightarrow> worker \<Rightarrow> run_start \<times> worker" where
  "start_thread env req w = (case env_create env req of
     Inl e \<Rightarrow> (Raised e, w)
   | Inr None \<Rightarrow> (Ended FAIL, w\<lparr>task_ptr := None, task_ready := Some False\<rparr>)
   | Inr (Some t) \<Rightarrow> (Started, w\<lparr>task_ptr := Some t, task_ready := Some True\<rparr>))"

(* src/src/fediux/node/worker/worker.cc:92-161 Worker::ExecuteTaskByProcess *)
definition start_process :: "exec_env \<Rightarrow> push_request \<Rightarrow> worker \<Rightarrow> run_start \<times> worker" where
  "start_process env req w =
     (let w1 = w\<lparr>task_ptr := Some new_base_task\<rparr>
      in case env_serialize env (expand_request (env_drivers env) req) of
        None \<Rightarrow> (Ended FAIL, w1)
      | Some s \<Rightarrow> (case env_launch env s of
          Some e \<Rightarrow> (Raised e, w1)
        | None \<Rightarrow> (Started, w1\<lparr>task_ready := Some True, process_handler := True\<rparr>)))"

(* src/src/fediux/node/worker/worker.cc:34-46 Worker::execute *)
definition worker_start :: "exec_env \<Rightarrow> push_request \<Rightarrow> worker \<Rightarrow> run_start \<times> worker" where
  "worker_start env req w = (case ExecuteMode req of
     THREAD \<Rightarrow> start_thread env req w | PROCESS \<Rightarrow> start_process env req w)"

text \<open>A task's end: the code it returns, or an exception of the wait for its process.\<close>

(* src/src/fediux/node/worker/worker.cc:84-90 Worker::ExecuteTaskByThread *)
definition end_thread :: "int \<Rightarrow> retcode" where
  "end_thread ret = (if ret \<noteq> 0 then FAIL else SUCCESS)"

(* src/src/fediux/node/worker/worker.cc:184-197 Worker::ExecuteTaskByProcess *)
definition end_process :: "string + int \<Rightarrow> worker \<Rightarrow> retcode \<times> worker" where
  "end_process ret w = (case ret of
     Inr r \<Rightarrow> if r \<noteq> 0 then (FAIL, w) else (SUCCESS, w\<lparr>process_handler := False\<rparr>)
   | Inl _ \<Rightarrow> (FAIL, w))"

text \<open>Killing: whether a process is sent the signal.\<close>

(* src/src/fediux/node/worker/worker.cc:200-207 Worker::kill_task *)
definition worker_kill :: "worker \<Rightarrow> bool \<times> worker" where
  "worker_kill w = (process_handler w, w\<lparr>task_ptr := map_option task_kill (task_ptr w)\<rparr>)"

section \<open>The verdict on a task\<close>

primrec update_all :: "task_status list \<Rightarrow> worker \<Rightarrow> worker cpp" where
  "update_all [] w = Ret w"
| "update_all (st # sts) w = cbind (updateTaskStatus st w) (\<lambda>(_, w'). update_all sts w')"

text \<open>
  What the scheduler should find: the parties that have succeeded before the first failure decide
  it when they are all, and else the failure does.
\<close>

definition succeeded :: "task_status list \<Rightarrow> string set" where
  "succeeded sts = set (map ts_party (filter (\<lambda>st. ts_status st = ST_SUCCESS) sts))"

definition before_fail :: "task_status list \<Rightarrow> task_status list" where
  "before_fail sts = takeWhile (\<lambda>st. ts_status st \<noteq> ST_FAIL) sts"

definition verdict :: "nat \<Rightarrow> task_status list \<Rightarrow> retcode option" where
  "verdict n sts = (if n \<le> card (succeeded (before_fail sts)) then Some SUCCESS
     else if \<exists>st \<in> set sts. ts_status st = ST_FAIL then Some FAIL else None)"

lemma update_all_append:
  "update_all (sts @ sts') w = cbind (update_all sts w) (update_all sts')"
  by (induction sts arbitrary: w) (simp_all add: cbind_assoc case_prod_beta')

lemma finite_succeeded [simp]: "finite (succeeded sts)"
  by (simp add: succeeded_def)

lemma succeeded_snoc: "succeeded (sts @ [st])
    = (if ts_status st = ST_SUCCESS then insert (ts_party st) (succeeded sts) else succeeded sts)"
  by (simp add: succeeded_def)

lemma before_fail_id: "\<forall>st \<in> set sts. ts_status st \<noteq> ST_FAIL \<Longrightarrow> before_fail sts = sts"
  by (simp add: before_fail_def takeWhile_eq_all_conv)

lemma before_fail_snoc:
  "before_fail (sts @ [st]) =
     (if (\<exists>x \<in> set sts. ts_status x = ST_FAIL) \<or> ts_status st = ST_FAIL then before_fail sts
      else sts @ [st])"
  by (auto simp: before_fail_def takeWhile_append takeWhile_eq_all_conv intro: sym)

lemma verdict_stays: "verdict n sts = Some r \<Longrightarrow> verdict n (sts @ [st]) = Some r"
proof -
  assume v: "verdict n sts = Some r"
  have "succeeded (before_fail sts) \<subseteq> succeeded (before_fail (sts @ [st]))"
    unfolding before_fail_snoc using before_fail_id [of sts] by (auto simp: succeeded_snoc)
  then have "card (succeeded (before_fail sts)) \<le> card (succeeded (before_fail (sts @ [st])))"
    by (intro card_mono) simp_all
  moreover have "\<exists>x \<in> set sts. ts_status x = ST_FAIL \<Longrightarrow> before_fail (sts @ [st]) = before_fail sts"
    by (simp add: before_fail_snoc)
  ultimately show ?thesis using v by (auto simp: verdict_def split: if_splits)
qed

text \<open>The state that goes with the reports received so far.\<close>

definition follows :: "nat \<Rightarrow> task_status list \<Rightarrow> worker \<Rightarrow> bool" where
  "follows n sts w \<longleftrightarrow> party_count w = n \<and> m_queue (task_statuses w) = sts
     \<and> task_finish w = verdict n sts \<and> scheduler_finished w = (verdict n sts \<noteq> None)
     \<and> (verdict n sts = None \<longrightarrow>
          distinct (map fst (final_status w)) \<and> set (map fst (final_status w)) = succeeded sts)"

lemma follows_update:
  assumes "follows n sts w"
  shows "\<exists>w'. updateTaskStatus st w = Ret (SUCCESS, w') \<and> follows n (sts @ [st]) w'"
proof (cases "verdict n sts")
  case (Some r)
  with assms verdict_stays [OF Some, of st] show ?thesis
    by (cases "ts_status st") (simp_all add: follows_def updateTaskStatus_def finish_task_def Let_def)
next
  case None
  then have no_fail: "\<forall>x \<in> set sts. ts_status x \<noteq> ST_FAIL" and few: "card (succeeded sts) < n"
    using before_fail_id [of sts] by (auto simp: verdict_def split: if_splits)
  let ?fs = "AList.update (ts_party st) (ts_status st) (final_status w)"
  have fs: "distinct (map fst ?fs)" "set (map fst ?fs) = insert (ts_party st) (succeeded sts)"
    using assms None by (simp_all add: follows_def distinct_update dom_update)
  then have len: "length ?fs = card (insert (ts_party st) (succeeded sts))"
    by (metis distinct_card length_map)
  have "card (insert (ts_party st) (succeeded sts)) \<le> Suc (card (succeeded sts))"
    by (simp add: card_insert_if)
  with few have "n \<le> card (insert (ts_party st) (succeeded sts))
      \<longleftrightarrow> card (insert (ts_party st) (succeeded sts)) = n" by linarith
  then show ?thesis
    using assms None no_fail few fs len
    by (cases "ts_status st")
       (auto simp: follows_def updateTaskStatus_def finish_task_def verdict_def before_fail_id
         before_fail_snoc succeeded_snoc Let_def)
qed

text \<open>
  C15: the status reports of the parties decide the task. When the number of parties is known from
  the start, every report is accepted (no promise is ever set twice) and kept for the client in
  order; the task succeeds exactly when every party has succeeded before the first failure, fails
  when a failure comes first, and stays open otherwise.
\<close>

theorem reports_decide_task:
  assumes "0 < n"
  shows "\<exists>w. update_all sts (setPartyCount n (new_worker info)) = Ret w
    \<and> m_queue (task_statuses w) = sts \<and> waitUntilTaskFinish w = verdict n sts"
proof -
  have "\<exists>w. update_all sts (setPartyCount n (new_worker info)) = Ret w \<and> follows n sts w"
  proof (induction sts rule: rev_induct)
    case Nil
    then show ?case
      using assms by (simp add: follows_def setPartyCount_def new_worker_def verdict_def
          before_fail_def succeeded_def)
  next
    case (snoc st sts)
    then obtain w where w: "update_all sts (setPartyCount n (new_worker info)) = Ret w"
      "follows n sts w" by blast
    from follows_update [OF w(2), of st] w(1) show ?case
      by (auto simp: update_all_append)
  qed
  then show ?thesis by (auto simp: follows_def waitUntilTaskFinish_def)
qed

definition demo_status :: "string \<Rightarrow> status_code \<Rightarrow> task_status" where
  "demo_status party code =
     \<lparr>ts_info = empty_task_ctx, ts_party = party, ts_status = code, ts_message = []\<rparr>"

theorem reports_decide_task_witness:
  "\<exists>w. update_all [demo_status ''a'' ST_RUNNING, demo_status ''a'' ST_SUCCESS,
        demo_status ''a'' ST_SUCCESS, demo_status ''b'' ST_SUCCESS, demo_status ''a'' ST_FAIL]
        (setPartyCount 2 (new_worker empty_task_ctx)) = Ret w
    \<and> m_queue (task_statuses w) = [demo_status ''a'' ST_RUNNING, demo_status ''a'' ST_SUCCESS,
        demo_status ''a'' ST_SUCCESS, demo_status ''b'' ST_SUCCESS, demo_status ''a'' ST_FAIL]
    \<and> waitUntilTaskFinish w = Some SUCCESS"
  using reports_decide_task [of 2 "[demo_status ''a'' ST_RUNNING, demo_status ''a'' ST_SUCCESS,
        demo_status ''a'' ST_SUCCESS, demo_status ''b'' ST_SUCCESS, demo_status ''a'' ST_FAIL]"
      empty_task_ctx]
  by (simp add: verdict_def before_fail_def succeeded_def demo_status_def)

text \<open>
  Reports that come before the count is set are counted against 0 parties, so the last of them
  does not end the task, and nothing does later.
\<close>

lemma finish_needs_count:
  assumes "\<forall>st \<in> set sts. ts_status st \<noteq> ST_FAIL" "party_count w = 0" "task_finish w = None"
    "\<not> scheduler_finished w"
  shows "\<exists>w'. update_all sts w = Ret w' \<and> task_finish w' = None \<and> \<not> scheduler_finished w'
    \<and> m_queue (task_statuses w') = m_queue (task_statuses w) @ sts \<and> party_count w' = 0"
  using assms
proof (induction sts arbitrary: w)
  case (Cons st sts)
  have "\<exists>w1. updateTaskStatus st w = Ret (SUCCESS, w1) \<and> party_count w1 = 0 \<and> task_finish w1 = None
      \<and> \<not> scheduler_finished w1 \<and> m_queue (task_statuses w1) = m_queue (task_statuses w) @ [st]"
    using Cons.prems by (cases "ts_status st") (simp_all add: updateTaskStatus_def Let_def)
  then obtain w1 where w1: "updateTaskStatus st w = Ret (SUCCESS, w1)" "party_count w1 = 0"
    "task_finish w1 = None" "\<not> scheduler_finished w1"
    "m_queue (task_statuses w1) = m_queue (task_statuses w) @ [st]" by blast
  with Cons.IH [OF _ w1(2-4)] Cons.prems(1) show ?case by auto
qed auto

lemma running_changes_nothing:
  assumes "\<forall>st \<in> set sts. ts_status st = ST_RUNNING"
  shows "\<exists>w'. update_all sts w = Ret w' \<and> task_finish w' = task_finish w"
  using assms
proof (induction sts arbitrary: w)
  case (Cons st sts)
  then show ?case by (fastforce simp: updateTaskStatus_def)
qed simp

text \<open>
  The count of parties is set after the task was dispatched. When all parties have reported
  their success before that, the task is never decided: the scheduler waits for ever, unless a party
  reports a final status once more.
\<close>

theorem late_count_never_finishes:
  assumes "\<forall>st \<in> set sts. ts_status st \<noteq> ST_FAIL" "\<forall>st \<in> set later. ts_status st = ST_RUNNING"
  shows "\<exists>w w'. update_all sts (new_worker info) = Ret w
    \<and> update_all later (setPartyCount n w) = Ret w' \<and> waitUntilTaskFinish w' = None"
proof -
  from finish_needs_count [OF assms(1), of "new_worker info"] obtain w where
    w: "update_all sts (new_worker info) = Ret w" "task_finish w = None"
    by (auto simp: new_worker_def)
  from running_changes_nothing [OF assms(2), of "setPartyCount n w"] w show ?thesis
    by (fastforce simp: waitUntilTaskFinish_def setPartyCount_def)
qed

theorem late_count_never_finishes_witness:
  "\<exists>w w'. update_all [demo_status ''a'' ST_SUCCESS, demo_status ''b'' ST_SUCCESS]
      (new_worker empty_task_ctx) = Ret w
    \<and> update_all [] (setPartyCount 2 w) = Ret w' \<and> waitUntilTaskFinish w' = None"
  by (rule late_count_never_finishes) (simp_all add: demo_status_def)

section \<open>Requests for a process\<close>

definition accessible :: "drivers \<Rightarrow> string \<Rightarrow> string option" where
  "accessible getDriver i = (case getDriver i of Some (Some a) \<Rightarrow> Some a | _ \<Rightarrow> None)"

definition with_access :: "drivers \<Rightarrow> string \<times> string \<Rightarrow> string \<times> string" where
  "with_access getDriver ni = (case accessible getDriver (snd ni) of Some a \<Rightarrow> (fst ni, a) | None \<Rightarrow> ni)"

definition known_ids :: "drivers \<Rightarrow> (string \<times> string) list \<Rightarrow> (string \<times> param_value) list" where
  "known_ids getDriver nds = map (\<lambda>(nm, i). (nm, PvString i))
     (filter (\<lambda>ni. accessible getDriver (snd ni) \<noteq> None) nds)"

lemma expand_dataset_access:
  "expand_dataset getDriver ni params =
     (with_access getDriver ni, params ++ map_of (rev (known_ids getDriver [ni])))"
  by (cases ni) (auto simp: expand_dataset_def with_access_def known_ids_def accessible_def
      split: option.splits)

lemma known_ids_append: "known_ids getDriver (xs @ ys) = known_ids getDriver xs @ known_ids getDriver ys"
  by (simp add: known_ids_def)

lemma expand_datasets_access:
  "expand_datasets getDriver nds params =
     (map (with_access getDriver) nds, params ++ map_of (rev (known_ids getDriver nds)))"
proof (induction nds arbitrary: params)
  case (Cons nd nds)
  then show ?case
    using known_ids_append [of getDriver "[nd]" nds]
    by (simp add: expand_dataset_access map_add_assoc)
qed (simp add: known_ids_def)

text \<open>
  In the request that a process is started with, the datasets of the other parties are as they
  were, and each of the party's own that the dataset service knows has its access information in
  place of its identifier, which is a parameter under its name; everything else stays.
\<close>

theorem own_datasets_expanded:
  "expand_request getDriver req = req\<lparr>
     pr_party_datasets := map (\<lambda>(p, d). if p = pr_party_name req
       then (p, \<lparr>pd_data = map (with_access getDriver) (pd_data d), pd_detail = True\<rparr>) else (p, d))
       (pr_party_datasets req),
     pr_params := pr_params req ++ map_of (rev (known_ids getDriver
       (concat (map (pd_data \<circ> snd) (filter (\<lambda>pd. fst pd = pr_party_name req)
         (pr_party_datasets req))))))\<rparr>"
proof -
  have "expand_parties getDriver self ps params =
      (map (\<lambda>(p, d). if p = self
         then (p, \<lparr>pd_data = map (with_access getDriver) (pd_data d), pd_detail = True\<rparr>) else (p, d)) ps,
       params ++ map_of (rev (known_ids getDriver
         (concat (map (pd_data \<circ> snd) (filter (\<lambda>pd. fst pd = self) ps))))))" for self ps params
  proof (induction ps arbitrary: params)
    case (Cons pd ps)
    then show ?case
      by (cases pd) (simp add: expand_datasets_access known_ids_append map_add_assoc)
  qed (simp add: known_ids_def)
  then show ?thesis by (simp add: expand_request_def)
qed

end
