(* ===== verification/Node_Impl.thy ===== *)
theory Node_Impl
  imports Task_Worker
begin

text \<open>
  The node (src/fediux/node/node_impl.cc): the tables of executing and scheduling workers, the
  filter of duplicate requests, the cache of finished tasks, the queues between its threads, and
  the operations of its interface. A \<^verbatim>\<open>shared_ptr<Worker>\<close> is a reference into a store of workers.
  Each operation that takes the lock of a table is one definition; the threads that call them are
  in the theory Node_Threads. The current time is an argument.
\<close>

section \<open>State\<close>

(* src/src/fediux/node/node_impl.h:23-29 OperateTaskType *)
datatype op_type = kUnknown | kAdd | kDel | kKill

(* src/src/fediux/node/node_impl.h:35-36 VMNodeImpl::task_manage_t *)
type_synonym task_manage_t = "string \<times> nat option \<times> op_type"

(* src/src/fediux/node/node_impl.h:131-172 VMNodeImpl *)
record vmnode =
  wheap :: "nat \<rightharpoonup> worker"
  next_ref :: nat
  duplicate_task_id_filter :: "string \<rightharpoonup> int"
  task_executor_map :: "string \<rightharpoonup> nat option list"
  finished_task_status :: "string \<rightharpoonup> status_code \<times> int"
  task_scheduler_map :: "string \<rightharpoonup> nat"
  task_manage_queue :: "task_manage_t tsq"
  finished_task_queue :: "nat option list tsq"
  kill_task_queue :: "nat option list tsq"
  finished_scheduler_workers :: "string tsq"
  finished_workers :: "string tsq"
  node_stop :: bool

(* src/src/fediux/node/node_impl.cc:40-57 VMNodeImpl::Init *)
definition new_vmnode :: vmnode where
  "new_vmnode = \<lparr>wheap = Map.empty, next_ref = 0, duplicate_task_id_filter = Map.empty,
     task_executor_map = Map.empty, finished_task_status = Map.empty,
     task_scheduler_map = Map.empty, task_manage_queue = new_tsq, finished_task_queue = new_tsq,
     kill_task_queue = new_tsq, finished_scheduler_workers = new_tsq, finished_workers = new_tsq,
     node_stop = False\<rparr>"

(* src/src/fediux/common/common.h:33-33 WAIT_TASK_WORKER_READY_TIMEOUT_MS *)
definition WAIT_TASK_WORKER_READY_TIMEOUT_MS :: int where "WAIT_TASK_WORKER_READY_TIMEOUT_MS = 5 * 1000"
(* src/src/fediux/common/common.h:34-34 CACHED_TASK_STATUS_TIMEOUT_S *)
definition CACHED_TASK_STATUS_TIMEOUT_S :: int where "CACHED_TASK_STATUS_TIMEOUT_S = 5"
(* src/src/fediux/common/common.h:35-35 SCHEDULE_WORKER_TIMEOUT_S *)
definition SCHEDULE_WORKER_TIMEOUT_S :: int where "SCHEDULE_WORKER_TIMEOUT_S = 20"
definition task_id_timeout_s :: int where "task_id_timeout_s = 30"

text \<open>Work on the worker, or its task, that a reference stands for.\<close>

definition on_worker :: "nat \<Rightarrow> (worker \<Rightarrow> worker) \<Rightarrow> vmnode \<Rightarrow> vmnode" where
  "on_worker r f n = n\<lparr>wheap := (wheap n)(r := map_option f (wheap n r))\<rparr>"

definition worker_task :: "nat \<Rightarrow> vmnode \<Rightarrow> base_task option" where
  "worker_task r n = Option.bind (wheap n r) task_ptr"

definition set_task :: "nat \<Rightarrow> base_task \<Rightarrow> vmnode \<Rightarrow> vmnode" where
  "set_task r t = on_worker r (\<lambda>w. w\<lparr>task_ptr := Some t\<rparr>)"

section \<open>Workers and filters\<close>

(* src/src/fediux/node/node_impl.h:68-70 VMNodeImpl::GetWorkerId *)
definition GetWorkerId :: "task_ctx \<Rightarrow> string" where
  "GetWorkerId info = tc_request_id info"

(* src/src/fediux/node/node_impl.cc:253-265 VMNodeImpl::CreateWorker *)
definition CreateWorker :: "task_ctx \<Rightarrow> vmnode \<Rightarrow> nat \<times> vmnode" where
  "CreateWorker info n = (next_ref n,
     n\<lparr>wheap := (wheap n)(next_ref n \<mapsto> new_worker info), next_ref := Suc (next_ref n)\<rparr>)"

(* src/src/fediux/node/node_impl.cc:1054-1075 VMNodeImpl::CleanDuplicateTaskIdFilter *)
definition CleanDuplicateTaskIdFilter :: "int \<Rightarrow> vmnode \<Rightarrow> vmnode" where
  "CleanDuplicateTaskIdFilter now n = n\<lparr>duplicate_task_id_filter :=
     (\<lambda>uid. case duplicate_task_id_filter n uid of None \<Rightarrow> None
        | Some c_time \<Rightarrow> if now - c_time > task_id_timeout_s then None else Some c_time)\<rparr>"

definition task_uid :: "task_ctx \<Rightarrow> string" where
  "task_uid info = tc_request_id info @ ''_'' @ sub_task_id info"

(* src/src/fediux/node/node_impl.cc:1077-1087 VMNodeImpl::IsDuplicateTask *)
definition IsDuplicateTask :: "task_ctx \<Rightarrow> int \<Rightarrow> vmnode \<Rightarrow> bool \<times> vmnode" where
  "IsDuplicateTask info now n =
     (case duplicate_task_id_filter n (task_uid info) of
        Some _ \<Rightarrow> (True, n)
      | None \<Rightarrow> (False, n\<lparr>duplicate_task_id_filter :=
            map_insert (task_uid info) now (duplicate_task_id_filter n)\<rparr>))"

text \<open>The worker at the front of a task's queue; the front of an empty queue is undefined.\<close>

(* src/src/fediux/node/node_impl.cc:663-676 VMNodeImpl::GetWorker *)
definition GetWorker :: "task_ctx \<Rightarrow> vmnode \<Rightarrow> nat option cpp" where
  "GetWorker info n = (case task_executor_map n (GetWorkerId info) of
     None \<Rightarrow> Ret None | Some [] \<Rightarrow> Undef | Some (x # _) \<Rightarrow> Ret x)"

(* src/src/fediux/node/node_impl.cc:678-690 VMNodeImpl::GetSchedulerWorker *)
definition GetSchedulerWorker :: "task_ctx \<Rightarrow> vmnode \<Rightarrow> nat option" where
  "GetSchedulerWorker info n = task_scheduler_map n (GetWorkerId info)"

text \<open>
  The first argument is the flag that the management thread sets while it waits for the lock of the
  table to write to it: the question is answered with no at once.
\<close>

(* src/src/fediux/node/node_impl.cc:692-705 VMNodeImpl::IsTaskWorkerReady *)
definition IsTaskWorkerReady :: "bool \<Rightarrow> string \<Rightarrow> vmnode \<Rightarrow> bool" where
  "IsTaskWorkerReady write_flag worker_id n =
     (if write_flag then False else task_executor_map n worker_id \<noteq> None)"

(* src/src/fediux/node/node_impl.cc:707-712 VMNodeImpl::CacheLastTaskStatus *)
definition CacheLastTaskStatus :: "string \<Rightarrow> status_code \<Rightarrow> int \<Rightarrow> vmnode \<Rightarrow> vmnode" where
  "CacheLastTaskStatus worker_id status now n =
     n\<lparr>finished_task_status := (finished_task_status n)(worker_id \<mapsto> (status, now))\<rparr>"

(* src/src/fediux/node/node_impl.cc:714-724 VMNodeImpl::IsFinishedTask *)
definition IsFinishedTask :: "string \<Rightarrow> vmnode \<Rightarrow> bool \<times> status_code" where
  "IsFinishedTask worker_id n = (case finished_task_status n worker_id of
     Some (st, _) \<Rightarrow> (True, st) | None \<Rightarrow> (False, ST_FINISHED))"

section \<open>The management queue\<close>

text \<open>
  Each operation is one step, as it runs under the lock of the table. The code adds to a queue that
  is there under the shared lock only, with which a reader of the queue's front may run; that race
  is not modelled.
\<close>

(* src/src/fediux/node/node_impl.cc:1109-1142 VMNodeImpl::ExecuteAddTaskOperation *)
definition ExecuteAddTaskOperation :: "string \<Rightarrow> nat option \<Rightarrow> vmnode \<Rightarrow> vmnode" where
  "ExecuteAddTaskOperation worker_id task n = (case task_executor_map n worker_id of
     Some q \<Rightarrow> n\<lparr>task_executor_map := (task_executor_map n)(worker_id \<mapsto> q @ [task])\<rparr>
   | None \<Rightarrow> n\<lparr>task_executor_map := (task_executor_map n)(worker_id \<mapsto> [task])\<rparr>)"

(* src/src/fediux/node/node_impl.cc:1144-1191 VMNodeImpl::ExecuteDelTaskOperation *)
definition ExecuteDelTaskOperation :: "string \<Rightarrow> vmnode \<Rightarrow> vmnode" where
  "ExecuteDelTaskOperation worker_id n = (case task_executor_map n worker_id of
     Some q \<Rightarrow> n\<lparr>task_executor_map := (task_executor_map n)(worker_id := None),
                 finished_task_queue := tsq_push q (finished_task_queue n)\<rparr>
   | None \<Rightarrow> n)"

(* src/src/fediux/node/node_impl.cc:1193-1238 VMNodeImpl::ExecuteKillTaskOperation *)
definition ExecuteKillTaskOperation :: "string \<Rightarrow> vmnode \<Rightarrow> vmnode" where
  "ExecuteKillTaskOperation worker_id n = (case task_executor_map n worker_id of
     Some q \<Rightarrow> n\<lparr>task_executor_map := (task_executor_map n)(worker_id := None),
                 kill_task_queue := tsq_push q (kill_task_queue n)\<rparr>
   | None \<Rightarrow> n)"

text \<open>One round of a thread's loop: \<open>None\<close> when it waits or has left its loop.\<close>

(* src/src/fediux/node/node_impl.cc:214-238 VMNodeImpl::ManageTaskOperatorThread *)
definition manage_round :: "vmnode \<Rightarrow> vmnode option" where
  "manage_round n = (case tsq_wait_and_pop (task_manage_queue n) of
     (Popped (worker_id, task, ty), q) \<Rightarrow>
       (let n1 = n\<lparr>task_manage_queue := q\<rparr>
        in if node_stop n1 then None
           else Some (case ty of
             kAdd \<Rightarrow> ExecuteAddTaskOperation worker_id task n1
           | kDel \<Rightarrow> ExecuteDelTaskOperation worker_id n1
           | kKill \<Rightarrow> ExecuteKillTaskOperation worker_id n1
           | kUnknown \<Rightarrow> n1))
   | _ \<Rightarrow> None)"

(* src/src/fediux/node/node_impl.cc:74-84 VMNodeImpl::ProcessKillTaskThread *)
primrec kill_all :: "nat option list \<Rightarrow> vmnode \<Rightarrow> vmnode" where
  "kill_all [] n = n"
| "kill_all (x # xs) n = kill_all xs
     (case x of None \<Rightarrow> n | Some r \<Rightarrow> on_worker r (\<lambda>w. snd (worker_kill w)) n)"

(* src/src/fediux/node/node_impl.cc:64-88 VMNodeImpl::ProcessKillTaskThread *)
definition kill_round :: "vmnode \<Rightarrow> vmnode option" where
  "kill_round n = (case tsq_wait_and_pop (kill_task_queue n) of
     (Popped xs, q) \<Rightarrow> if node_stop n then None else Some (kill_all xs (n\<lparr>kill_task_queue := q\<rparr>))
   | _ \<Rightarrow> None)"

(* src/src/fediux/node/node_impl.cc:732-744 VMNodeImpl::CleanFinishedTaskThread *)
definition clean_round :: "vmnode \<Rightarrow> vmnode option" where
  "clean_round n = (case tsq_wait_and_pop (finished_task_queue n) of
     (Popped xs, q) \<Rightarrow> if node_stop n then None else Some (n\<lparr>finished_task_queue := q\<rparr>)
   | _ \<Rightarrow> None)"

(* src/src/fediux/node/node_impl.cc:755-782 VMNodeImpl::CleanTimeoutCachedTaskStatusThread *)
definition clean_cache_round :: "int \<Rightarrow> vmnode \<Rightarrow> vmnode option" where
  "clean_cache_round now n = (if node_stop n then None
     else Some (n\<lparr>finished_task_status := (\<lambda>wid. case finished_task_status n wid of None \<Rightarrow> None
       | Some (st, timestamp) \<Rightarrow>
           if now - timestamp > CACHED_TASK_STATUS_TIMEOUT_S then None else Some (st, timestamp))\<rparr>))"

text \<open>
  The scheduling workers of tasks that have finished are collected with the time; one that is
  older than the timeout is due, and when more than 100 are due they are erased together. The
  collected ones are the thread's own state.
\<close>

(* src/src/fediux/node/node_impl.cc:796-818 VMNodeImpl::CleanFinishedSchedulerWorkerThread *)
definition collect_scheduler ::
  "string \<Rightarrow> int \<Rightarrow> (string \<times> int) list \<times> string list \<Rightarrow> (string \<times> int) list \<times> string list" where
  "collect_scheduler worker_id now ft = (case ft of (finished, due) \<Rightarrow>
     (let finished = AList.update worker_id now finished
      in (filter (\<lambda>(w, t). \<not> now - t > SCHEDULE_WORKER_TIMEOUT_S) finished,
          List.union due (map fst (filter (\<lambda>(w, t). now - t > SCHEDULE_WORKER_TIMEOUT_S) finished)))))"

(* src/src/fediux/node/node_impl.cc:820-838 VMNodeImpl::CleanFinishedSchedulerWorkerThread *)
definition erase_schedulers :: "string list \<Rightarrow> vmnode \<Rightarrow> vmnode" where
  "erase_schedulers due n = n\<lparr>task_scheduler_map :=
     (\<lambda>wid. if wid \<in> set due then None else task_scheduler_map n wid)\<rparr>"

(* src/src/fediux/node/node_impl.cc:786-842 VMNodeImpl::CleanFinishedSchedulerWorkerThread *)
definition clean_scheduler_round ::
  "int \<Rightarrow> (string \<times> int) list \<times> string list \<Rightarrow> vmnode
   \<Rightarrow> (((string \<times> int) list \<times> string list) \<times> vmnode) option" where
  "clean_scheduler_round now ft n = (case tsq_wait_and_pop (finished_scheduler_workers n) of
     (Popped wid, q) \<Rightarrow>
       if node_stop n then None
       else (let n1 = n\<lparr>finished_scheduler_workers := q\<rparr>; (finished, due) = collect_scheduler wid now ft
             in Some (if length due > 100 then ((finished, []), erase_schedulers due n1)
                      else ((finished, due), n1)))
   | _ \<Rightarrow> None)"

text \<open>The destructor stops two queues, and then waits for threads, the one above first.\<close>

(* src/src/fediux/node/node_impl.cc:29-33 VMNodeImpl::~VMNodeImpl *)
definition destroy_begin :: "vmnode \<Rightarrow> vmnode" where
  "destroy_begin n = n\<lparr>node_stop := True, finished_workers := tsq_shutdown (finished_workers n),
     finished_scheduler_workers := tsq_shutdown (finished_scheduler_workers n)\<rparr>"

section \<open>Stopping and killing\<close>

(* src/src/fediux/node/node_impl.cc:501-508 VMNodeImpl::StopTask *)
definition StopTask :: "task_ctx \<Rightarrow> vmnode \<Rightarrow> retcode \<times> vmnode" where
  "StopTask info n = (SUCCESS, n\<lparr>task_manage_queue :=
     tsq_push (GetWorkerId info, None, kDel) (task_manage_queue n)\<rparr>)"

(* src/src/fediux/protos/worker.proto:58-65 KillTaskRequest *)
datatype executor_type = CLIENT_EXEC | SCHEDULER_EXEC

text \<open>An update of a worker's status by reference.\<close>

definition update_worker :: "task_status \<Rightarrow> nat \<Rightarrow> vmnode \<Rightarrow> (retcode \<times> vmnode) cpp" where
  "update_worker st r n = (case wheap n r of None \<Rightarrow> Undef
     | Some w \<Rightarrow> cbind (updateTaskStatus st w) (\<lambda>(ret, w').
         Ret (ret, n\<lparr>wheap := (wheap n)(r \<mapsto> w')\<rparr>)))"

(* src/src/fediux/node/node_impl.cc:510-560 VMNodeImpl::KillTask *)
definition KillTask :: "task_ctx \<Rightarrow> executor_type \<Rightarrow> vmnode \<Rightarrow> (retcode \<times> vmnode) cpp" where
  "KillTask info executor n =
     (if fst (IsFinishedTask (GetWorkerId info) n) then Ret (SUCCESS, n)
      else case executor of
        CLIENT_EXEC \<Rightarrow> (case GetSchedulerWorker info n of
            None \<Rightarrow> Ret (SUCCESS, n)
          | Some r \<Rightarrow> cbind (update_worker \<lparr>ts_info = info, ts_party = ROLE_SCHEDULER,
                ts_status = ST_FAIL, ts_message = ''kill task by client actively''\<rparr> r n)
              (\<lambda>(_, n'). Ret (SUCCESS, n')))
      | SCHEDULER_EXEC \<Rightarrow> Ret (SUCCESS, n\<lparr>task_manage_queue :=
            tsq_push (GetWorkerId info, None, kKill) (task_manage_queue n)\<rparr>))"

section \<open>Status reports\<close>

(* src/src/fediux/node/node_impl.cc:562-578 VMNodeImpl::GetSchedulerNode *)
definition GetSchedulerNode :: "push_request \<Rightarrow> node option" where
  "GetSchedulerNode req = pr_aux req SCHEDULER_NODE"

text \<open>A report is a message to a node; no scheduling node, no report.\<close>

(* src/src/fediux/node/node_impl.cc:602-625 VMNodeImpl::NotifyTaskStatus *)
definition NotifyTaskStatus ::
  "push_request \<Rightarrow> status_code \<Rightarrow> string \<Rightarrow> (node \<times> task_status) list" where
  "NotifyTaskStatus req status message = (case GetSchedulerNode req of
     None \<Rightarrow> []
   | Some scheduler_node \<Rightarrow> [(scheduler_node, \<lparr>ts_info = pr_info req, ts_party = pr_party_name req,
       ts_status = status, ts_message = message\<rparr>)])"

(* src/src/fediux/node/node_impl.cc:591-598 VMNodeImpl::FetchTaskStatus *)
fun fetch_loop :: "nat \<Rightarrow> worker \<Rightarrow> task_status list \<times> worker" where
  "fetch_loop fuel w = (let ((ret, st), w') = fetchTaskStatus w
     in case ret of FAIL \<Rightarrow> ([st], w')
        | SUCCESS \<Rightarrow> (case fuel of 0 \<Rightarrow> ([st], w')
            | Suc k \<Rightarrow> (let (sts, w'') = fetch_loop k w' in (st # sts, w''))))"

declare fetch_loop.simps [simp del]

text \<open>The loop ends when the queue is empty; the length of the queue is fuel enough.\<close>

(* src/src/fediux/node/node_impl.cc:580-600 VMNodeImpl::FetchTaskStatus *)
definition FetchTaskStatus :: "task_ctx \<Rightarrow> vmnode \<Rightarrow> task_status list \<times> vmnode" where
  "FetchTaskStatus info n = (case GetSchedulerWorker info n of
     None \<Rightarrow> ([empty_task_status\<lparr>ts_status := ST_NONEXIST,
                 ts_message := ''No shecudler found for task''\<rparr>], n)
   | Some r \<Rightarrow> (case wheap n r of None \<Rightarrow> ([], n)
       | Some w \<Rightarrow> (let (sts, w') = fetch_loop (length (m_queue (task_statuses w))) w
           in (sts, n\<lparr>wheap := (wheap n)(r \<mapsto> w')\<rparr>))))"

(* src/src/fediux/node/node_impl.cc:643-661 VMNodeImpl::UpdateTaskStatus *)
definition UpdateTaskStatus :: "task_status \<Rightarrow> vmnode \<Rightarrow> (retcode \<times> vmnode) cpp" where
  "UpdateTaskStatus st n = (case GetSchedulerWorker (ts_info st) n of
     None \<Rightarrow> Ret (FAIL, n)
   | Some r \<Rightarrow> cbind (update_worker st r n) (\<lambda>(_, n'). Ret (SUCCESS, n')))"

section \<open>Dispatching\<close>

(* src/src/fediux/node/node_impl.cc:1089-1107 VMNodeImpl::GetAllParties *)
definition GetAllParties :: "push_request \<Rightarrow> node list" where
  "GetAllParties req = map snd (pr_access_info req) @
     (case pr_aux req AUX_COMPUTE_NODE of None \<Rightarrow> [] | Some node \<Rightarrow> [node])"

(* src/src/fediux/node/node_impl.cc:285-301 VMNodeImpl::DispatchTask *)
fun add_unseen :: "node list \<Rightarrow> string list \<times> node list \<Rightarrow> string list \<times> node list" where
  "add_unseen [] acc = acc"
| "add_unseen (party # ps) (filtr, recv) =
     (let node_info = node_to_string party
      in if node_info \<in> set filtr then add_unseen ps (filtr, recv)
         else add_unseen ps (node_info # filtr, recv @ [party]))"

(* src/src/fediux/node/node_impl.cc:282-301 VMNodeImpl::DispatchTask *)
definition recv_cmd_party :: "node list \<Rightarrow> push_request \<Rightarrow> node list" where
  "recv_cmd_party parties task_config =
     snd (add_unseen parties (add_unseen (GetAllParties task_config) ([], [])))"

(* src/src/fediux/protos/worker.proto:58-65 KillTaskRequest *)
record kill_request =
  kr_info :: task_ctx
  kr_executor :: executor_type

text \<open>
  The thread that waits for the verdict on a dispatched task: \<open>None\<close> while it waits, else the calls
  of \<^verbatim>\<open>killTask\<close> in their order, whose results it does not look at, and the task is put to the
  finished ones.
\<close>

(* src/src/fediux/node/node_impl.cc:269-313 VMNodeImpl::DispatchTask *)
definition scheduler_func ::
  "nat \<Rightarrow> node list \<Rightarrow> push_request \<Rightarrow> vmnode \<Rightarrow> ((node \<times> kill_request) list \<times> vmnode) option" where
  "scheduler_func r parties task_config n =
     Option.bind (Option.bind (wheap n r) waitUntilTaskFinish) (\<lambda>ret.
       (let task_info = pr_info task_config;
            calls = (if ret \<noteq> SUCCESS
              then (let kill_request = \<lparr>kr_info = task_info, kr_executor = SCHEDULER_EXEC\<rparr>
                    in map (\<lambda>party. (party, kill_request)) (recv_cmd_party parties task_config))
              else [])
        in Some (calls, n\<lparr>finished_scheduler_workers :=
             tsq_push (tc_request_id task_info) (finished_scheduler_workers n)\<rparr>)))"

(* src/src/fediux/protos/worker.proto:17-25 PushTaskReply *)
record push_reply =
  rp_ret_code :: int
  rp_msg_info :: string
  rp_party_count :: nat
  rp_task_server :: "node list"

definition empty_reply :: push_reply where
  "empty_reply = \<lparr>rp_ret_code = 0, rp_msg_info = [], rp_party_count = 0, rp_task_server = []\<rparr>"

text \<open>
  Parsing a request and sending it to the parties is a parameter: while it lasts the parties may
  already report, so it takes and gives the state of the node. It gives the nodes that execute the
  task with the request they were sent, or one of the three ways to fail.
\<close>

datatype dispatch_result = NoParser | DispatchFailed | Dispatched "node list" push_request
  | DispatchThrew string

(* src/src/fediux/node/node_impl.cc:321-327 VMNodeImpl::DispatchTask *)
definition dispatch_begin :: "push_request \<Rightarrow> vmnode \<Rightarrow> nat \<times> vmnode" where
  "dispatch_begin req n =
     (let worker_id = GetWorkerId (pr_info req);
          (r, n1) = CreateWorker (pr_info req) n
      in (r, n1\<lparr>task_scheduler_map := map_insert worker_id r (task_scheduler_map n1)\<rparr>))"

(* src/src/fediux/node/node_impl.cc:334-389 VMNodeImpl::DispatchTask *)
definition dispatch_end ::
  "node \<Rightarrow> nat \<Rightarrow> dispatch_result \<Rightarrow> vmnode
   \<Rightarrow> (retcode \<times> push_reply \<times> (nat \<times> node list \<times> push_request) option) \<times> vmnode" where
  "dispatch_end self r res n = (case res of
        NoParser \<Rightarrow> ((FAIL, empty_reply\<lparr>rp_ret_code := 1,
            rp_msg_info := ''create LanguageParser failed''\<rparr>, None), n)
      | DispatchFailed \<Rightarrow> ((FAIL, empty_reply\<lparr>rp_ret_code := 1,
            rp_msg_info := ''dispatch task to party failed''\<rparr>, None), n)
      | Dispatched task_server task_config \<Rightarrow>
          ((SUCCESS, empty_reply\<lparr>rp_party_count := length task_server, rp_task_server := [self]\<rparr>,
            Some (r, task_server, task_config)),
           on_worker r (setPartyCount (length task_server)) n)
      | DispatchThrew e \<Rightarrow> ((SUCCESS, empty_reply\<lparr>rp_ret_code := 2,
            rp_msg_info := ''dispatch task to party failed, detail: '' @ e\<rparr>, None), n))"

(* src/src/fediux/node/node_impl.cc:267-389 VMNodeImpl::DispatchTask *)
definition DispatchTask ::
  "(push_request \<Rightarrow> vmnode \<Rightarrow> dispatch_result \<times> vmnode) \<Rightarrow> node \<Rightarrow> push_request \<Rightarrow> vmnode
   \<Rightarrow> (retcode \<times> push_reply \<times> (nat \<times> node list \<times> push_request) option) \<times> vmnode" where
  "DispatchTask dispatch self req n =
     (let (r, n1) = dispatch_begin req n; (res, n2) = dispatch req n1
      in dispatch_end self r res n2)"

section \<open>Executing\<close>

text \<open>
  A request for execution is handled by two threads. The handler creates a worker and starts the
  executor, waits until the task is ready, and puts the worker up for the table.
\<close>

(* src/src/fediux/node/node_impl.cc:452-471 VMNodeImpl::ExecuteTask *)
definition execute_begin :: "int \<Rightarrow> push_request \<Rightarrow> vmnode \<Rightarrow> nat option \<times> vmnode" where
  "execute_begin now req n =
     (let n1 = CleanDuplicateTaskIdFilter now n; (dup, n2) = IsDuplicateTask (pr_info req) now n1
      in if dup then (None, n2)
         else (let (r, n3) = CreateWorker (pr_info req) n2 in (Some r, n3)))"

(* src/src/fediux/node/node_impl.cc:475-498 VMNodeImpl::ExecuteTask *)
definition execute_end ::
  "push_request \<Rightarrow> nat \<Rightarrow> vmnode \<Rightarrow> (retcode \<times> (node \<times> task_status) list \<times> vmnode) option" where
  "execute_end req r n = Option.bind (Option.bind (wheap n r) waitForTaskReady) (\<lambda>ret.
     Some (if ret = FAIL
       then (FAIL, NotifyTaskStatus req ST_FAIL ''Initialize task failed.'', n)
       else (SUCCESS, [], n\<lparr>task_manage_queue :=
           tsq_push (GetWorkerId (pr_info req), Some r, kAdd) (task_manage_queue n)\<rparr>)))"

text \<open>
  The executor adds the proxy to the request, reports that the task is running, and runs it; its
  end, by a result or an exception, gives the last status.
\<close>

(* src/src/fediux/node/node_impl.cc:400-408 VMNodeImpl::ExecuteTask *)
definition add_proxy :: "node \<Rightarrow> push_request \<Rightarrow> push_request" where
  "add_proxy proxy req = req\<lparr>pr_aux := (pr_aux req)(PROXY_NODE \<mapsto> proxy)\<rparr>"

(* src/src/fediux/node/node_impl.cc:416-428 VMNodeImpl::ExecuteTask *)
definition last_status :: "retcode + string \<Rightarrow> status_code \<times> string" where
  "last_status out = (case out of
     Inl SUCCESS \<Rightarrow> (ST_SUCCESS, ''task finished'')
   | Inl FAIL \<Rightarrow> (ST_FAIL, ''task execute encountes error'')
   | Inr what \<Rightarrow> (ST_FAIL, take 1024 what))"

(* src/src/fediux/node/node_impl.cc:412-428 VMNodeImpl::ExecuteTask *)
definition executor_start ::
  "exec_env \<Rightarrow> push_request \<Rightarrow> nat \<Rightarrow> vmnode
   \<Rightarrow> (run_start \<times> (node \<times> task_status) list \<times> vmnode) option" where
  "executor_start env req r n = (case wheap n r of None \<Rightarrow> None
     | Some w \<Rightarrow> (let (st, w') = worker_start env req w
         in Some (st, NotifyTaskStatus req ST_RUNNING ''task is running'',
              n\<lparr>wheap := (wheap n)(r \<mapsto> w')\<rparr>)))"

(* src/src/fediux/node/node_impl.cc:430-435 VMNodeImpl::ExecuteTask *)
definition executor_report ::
  "push_request \<Rightarrow> retcode + string \<Rightarrow> status_code \<times> (node \<times> task_status) list" where
  "executor_report req out = (let (status, status_info) = last_status out
     in (status, NotifyTaskStatus req status status_info))"

(* src/src/fediux/node/node_impl.cc:440-440 VMNodeImpl::ExecuteTask *)
definition executor_cache :: "nat \<Rightarrow> status_code \<Rightarrow> int \<Rightarrow> vmnode \<Rightarrow> vmnode" where
  "executor_cache r status now n = (case wheap n r of None \<Rightarrow> n
     | Some w \<Rightarrow> CacheLastTaskStatus (w_worker_id w) status now n)"

(* src/src/fediux/node/node_impl.cc:442-445 VMNodeImpl::ExecuteTask *)
definition executor_remove :: "nat \<Rightarrow> vmnode \<Rightarrow> vmnode" where
  "executor_remove r n = (case wheap n r of None \<Rightarrow> n
     | Some w \<Rightarrow> n\<lparr>task_manage_queue := tsq_push (w_worker_id w, None, kDel) (task_manage_queue n)\<rparr>)"

section \<open>Data\<close>

text \<open>
  The wait for a worker asks again and again; \<open>ready i\<close> is what the \<open>i\<close>-th question gives, and
  \<open>elapsed i\<close> the milliseconds since the start. A timeout of -1 waits for ever.
\<close>

(* src/src/fediux/node/node_impl.cc:1026-1052 VMNodeImpl::WaitUntilWorkerReady *)
partial_function (option) WaitUntilWorkerReady ::
  "(nat \<Rightarrow> bool) \<Rightarrow> (nat \<Rightarrow> int) \<Rightarrow> int \<Rightarrow> nat \<Rightarrow> retcode option" where
  "WaitUntilWorkerReady ready elapsed timeout_ms i =
     (if ready i then Some SUCCESS
      else if timeout_ms = -1 then WaitUntilWorkerReady ready elapsed timeout_ms (Suc i)
      else if elapsed i > timeout_ms then Some FAIL
      else WaitUntilWorkerReady ready elapsed timeout_ms (Suc i))"

text \<open>
  The handlers of data begin alike: a finished task is refused, then the wait, during which other
  threads run (\<open>wait\<close> gives its result and the state after it), then the task of the worker.
\<close>

(* src/src/fediux/node/node_impl.cc:848-879 VMNodeImpl::ProcessReceivedData *)
definition find_task ::
  "(string \<Rightarrow> vmnode \<Rightarrow> retcode \<times> vmnode) \<Rightarrow> task_ctx \<Rightarrow> vmnode
   \<Rightarrow> ((nat \<times> base_task) option \<times> vmnode) cpp" where
  "find_task wait info n =
     (let worker_id = GetWorkerId info
      in if fst (IsFinishedTask worker_id n) then Ret (None, n)
         else let (ret, n1) = wait worker_id n
         in if ret \<noteq> SUCCESS then Ret (None, n1)
            else cbind (GetWorker info n1) (\<lambda>x. case x of
                None \<Rightarrow> Ret (None, n1)
              | Some r \<Rightarrow> (case worker_task r n1 of None \<Rightarrow> Undef | Some t \<Rightarrow> Ret (Some (r, t), n1))))"

(* src/src/fediux/node/node_impl.cc:845-887 VMNodeImpl::ProcessReceivedData *)
definition ProcessReceivedData ::
  "(string \<Rightarrow> vmnode \<Rightarrow> retcode \<times> vmnode) \<Rightarrow> task_ctx \<Rightarrow> string \<Rightarrow> string \<Rightarrow> vmnode
   \<Rightarrow> (retcode \<times> vmnode) cpp" where
  "ProcessReceivedData wait info key data n = cbind (find_task wait info n) (\<lambda>(x, n1). case x of
      None \<Rightarrow> Ret (FAIL, n1)
    | Some (r, t) \<Rightarrow> Ret (SUCCESS, set_task r (t\<lparr>bt_link := push_recv key data (bt_link t)\<rparr>) n1))"

text \<open>The other handlers wait on a queue of the task: no result while they do.\<close>

(* src/src/fediux/node/node_impl.cc:889-930 VMNodeImpl::ProcessSendData *)
definition ProcessSendData ::
  "(string \<Rightarrow> vmnode \<Rightarrow> retcode \<times> vmnode) \<Rightarrow> task_ctx \<Rightarrow> string \<Rightarrow> vmnode
   \<Rightarrow> ((retcode \<times> string) option \<times> vmnode) cpp" where
  "ProcessSendData wait info key n = cbind (find_task wait info n) (\<lambda>(x, n1). case x of
      None \<Rightarrow> Ret (Some (FAIL, []), n1)
    | Some (r, t) \<Rightarrow> (let (res, c) = pop_send key (bt_link t)
        in case popped_string res of
             None \<Rightarrow> Ret (None, set_task r (t\<lparr>bt_link := c\<rparr>) n1)
           | Some m \<Rightarrow> Ret (Some (SUCCESS, m),
               set_task r (t\<lparr>bt_link := push_complete key SUCCESS c\<rparr>) n1)))"

(* src/src/fediux/node/node_impl.cc:932-972 VMNodeImpl::ProcessForwardData *)
definition ProcessForwardData ::
  "(string \<Rightarrow> vmnode \<Rightarrow> retcode \<times> vmnode) \<Rightarrow> task_ctx \<Rightarrow> string \<Rightarrow> vmnode
   \<Rightarrow> ((retcode \<times> string) option \<times> vmnode) cpp" where
  "ProcessForwardData wait info key n = cbind (find_task wait info n) (\<lambda>(x, n1). case x of
      None \<Rightarrow> Ret (Some (FAIL, []), n1)
    | Some (r, t) \<Rightarrow> (let (res, c) = pop_recv key (bt_link t)
        in case popped_string res of
             None \<Rightarrow> Ret (None, set_task r (t\<lparr>bt_link := c\<rparr>) n1)
           | Some m \<Rightarrow> Ret (Some (SUCCESS, m),
               set_task r (t\<lparr>bt_link := push_complete key SUCCESS c\<rparr>) n1)))"

(* src/src/fediux/node/node_impl.cc:1009-1022 VMNodeImpl::ProcessCompleteStatus *)
primrec complete_loop :: "nat \<Rightarrow> string \<Rightarrow> link_ctx \<Rightarrow> bool \<times> link_ctx" where
  "complete_loop 0 key c = (True, c)"
| "complete_loop (Suc k) key c = (case pop_complete key c of
     (Blocked, c') \<Rightarrow> (False, c') | (_, c') \<Rightarrow> complete_loop k key c')"

(* src/src/fediux/node/node_impl.cc:974-1024 VMNodeImpl::ProcessCompleteStatus *)
definition ProcessCompleteStatus ::
  "(string \<Rightarrow> vmnode \<Rightarrow> retcode \<times> vmnode) \<Rightarrow> task_ctx \<Rightarrow> string \<Rightarrow> nat \<Rightarrow> vmnode
   \<Rightarrow> (retcode option \<times> vmnode) cpp" where
  "ProcessCompleteStatus wait info key expected n = cbind (find_task wait info n) (\<lambda>(x, n1). case x of
      None \<Rightarrow> Ret (Some FAIL, n1)
    | Some (r, t) \<Rightarrow> (let (fin, c) = complete_loop expected key (bt_link t)
        in Ret (if fin then Some SUCCESS else None, set_task r (t\<lparr>bt_link := c\<rparr>) n1)))"

end
