(* ===== verification/Node_Threads.thy ===== *)
theory Node_Threads
  imports Node_Impl
begin

text \<open>
  The threads of a node, which may execute tasks and schedule others. Each task it executes has two
  of them, the handler of the request and the executor; each task it schedules has a handler that
  dispatches it and a thread that waits for its verdict; one thread works off the management queue,
  others kill and clean. Their interleaving is a step relation over the node's state, the positions
  of the tasks' threads, the reports and the calls to kill that were sent, and the scheduling
  workers that are collected for removal. A thread's step is one operation of Node_Impl under its
  lock.
\<close>

section \<open>Positions\<close>

datatype handler_pc = HWait | HDone retcode

datatype executor_pc = XStart | XRun | XEnded status_code | XCached | XDone

record job =
  j_req :: push_request
  j_ref :: nat
  j_handler :: handler_pc
  j_exec :: executor_pc

datatype sched_pc = SSend | SWait "node list" push_request | SDone

record sched =
  sd_req :: push_request
  sd_ref :: nat
  sd_pc :: sched_pc

record nstate =
  nd :: vmnode
  jobs :: "job list"
  outbox :: "(node \<times> task_status) list"
  scheds :: "sched list"
  kills :: "(node \<times> kill_request) list"
  collected :: "(string \<times> int) list \<times> string list"

definition set_job :: "nat \<Rightarrow> job \<Rightarrow> nstate \<Rightarrow> nstate" where
  "set_job i j s = s\<lparr>jobs := (jobs s)[i := j]\<rparr>"

definition send_out :: "(node \<times> task_status) list \<Rightarrow> nstate \<Rightarrow> nstate" where
  "send_out ms s = s\<lparr>outbox := outbox s @ ms\<rparr>"

text \<open>A node that has scheduled nothing.\<close>

abbreviation exec_state :: "vmnode \<Rightarrow> job list \<Rightarrow> (node \<times> task_status) list \<Rightarrow> nstate" where
  "exec_state n js ms \<equiv>
     \<lparr>nd = n, jobs = js, outbox = ms, scheds = [], kills = [], collected = ([], [])\<rparr>"

definition init_nstate :: nstate where
  "init_nstate = exec_state new_vmnode [] []"

text \<open>The position of the thread that schedules a task, after its dispatch.\<close>

definition after_dispatch :: "(nat \<times> node list \<times> push_request) option \<Rightarrow> sched_pc" where
  "after_dispatch x = (case x of None \<Rightarrow> SDone | Some (_, task_server, task_config) \<Rightarrow> SWait task_server task_config)"

text \<open>The executor's position and report after its run.\<close>

definition ended :: "push_request \<Rightarrow> retcode + string \<Rightarrow> executor_pc \<times> (node \<times> task_status) list" where
  "ended req out = (case executor_report req out of (st, ms) \<Rightarrow> (XEnded st, ms))"

definition after_start :: "push_request \<Rightarrow> run_start \<Rightarrow> executor_pc \<times> (node \<times> task_status) list" where
  "after_start req st = (case st of Started \<Rightarrow> (XRun, []) | Ended rc \<Rightarrow> ended req (Inl rc)
     | Raised e \<Rightarrow> ended req (Inr e))"

section \<open>Steps\<close>

inductive node_step :: "exec_env \<Rightarrow> node \<Rightarrow> nstate \<Rightarrow> nstate \<Rightarrow> bool" for env proxy where
  Request: "execute_begin now req (nd s) = (Some r, n) \<Longrightarrow>
    node_step env proxy s (s\<lparr>nd := n, jobs := jobs s @
      [\<lparr>j_req = req, j_ref = r, j_handler = HWait, j_exec = XStart\<rparr>]\<rparr>)"
| Duplicate: "execute_begin now req (nd s) = (None, n) \<Longrightarrow> node_step env proxy s (s\<lparr>nd := n\<rparr>)"
| Start: "i < length (jobs s) \<Longrightarrow> j = jobs s ! i \<Longrightarrow> j_exec j = XStart \<Longrightarrow>
    executor_start env (add_proxy proxy (j_req j)) (j_ref j) (nd s) = Some (st, ms, n) \<Longrightarrow>
    after_start (j_req j) st = (x, ms') \<Longrightarrow>
    node_step env proxy s (send_out (ms @ ms') (set_job i (j\<lparr>j_exec := x\<rparr>) (s\<lparr>nd := n\<rparr>)))"
| Receive: "i < length (jobs s) \<Longrightarrow> j_exec (jobs s ! i) = XRun \<Longrightarrow>
    worker_task (j_ref (jobs s ! i)) (nd s) = Some t \<Longrightarrow>
    node_step env proxy s (s\<lparr>nd := set_task (j_ref (jobs s ! i)) (snd (task_recv key t)) (nd s)\<rparr>)"
| Offer: "i < length (jobs s) \<Longrightarrow> j_exec (jobs s ! i) = XRun \<Longrightarrow>
    worker_task (j_ref (jobs s ! i)) (nd s) = Some t \<Longrightarrow>
    node_step env proxy s (s\<lparr>nd := set_task (j_ref (jobs s ! i)) (snd (task_push_begin key d t)) (nd s)\<rparr>)"
| Offered: "i < length (jobs s) \<Longrightarrow> j_exec (jobs s ! i) = XRun \<Longrightarrow>
    worker_task (j_ref (jobs s ! i)) (nd s) = Some t \<Longrightarrow>
    node_step env proxy s (s\<lparr>nd := set_task (j_ref (jobs s ! i)) (snd (task_push_end key t)) (nd s)\<rparr>)"
| Finish_thread: "i < length (jobs s) \<Longrightarrow> j = jobs s ! i \<Longrightarrow> j_exec j = XRun \<Longrightarrow>
    ExecuteMode (j_req j) = THREAD \<Longrightarrow> ended (j_req j) (map_sum end_thread id out) = (x, ms) \<Longrightarrow>
    node_step env proxy s (send_out ms (set_job i (j\<lparr>j_exec := x\<rparr>) s))"
| Finish_process: "i < length (jobs s) \<Longrightarrow> j = jobs s ! i \<Longrightarrow> j_exec j = XRun \<Longrightarrow>
    ExecuteMode (j_req j) = PROCESS \<Longrightarrow> wheap (nd s) (j_ref j) = Some w \<Longrightarrow>
    end_process out w = (rc, w') \<Longrightarrow> ended (j_req j) (Inl rc) = (x, ms) \<Longrightarrow>
    node_step env proxy s (send_out ms (set_job i (j\<lparr>j_exec := x\<rparr>)
      (s\<lparr>nd := on_worker (j_ref j) (\<lambda>_. w') (nd s)\<rparr>)))"
| Cache: "i < length (jobs s) \<Longrightarrow> j = jobs s ! i \<Longrightarrow> j_exec j = XEnded st \<Longrightarrow>
    \<not> pr_manual_launch (j_req j) \<Longrightarrow>
    node_step env proxy s (set_job i (j\<lparr>j_exec := XCached\<rparr>)
      (s\<lparr>nd := executor_cache (j_ref j) st now (nd s)\<rparr>))"
| Manual: "i < length (jobs s) \<Longrightarrow> j = jobs s ! i \<Longrightarrow> j_exec j = XEnded st \<Longrightarrow>
    pr_manual_launch (j_req j) \<Longrightarrow> node_step env proxy s (set_job i (j\<lparr>j_exec := XDone\<rparr>) s)"
| Remove: "i < length (jobs s) \<Longrightarrow> j = jobs s ! i \<Longrightarrow> j_exec j = XCached \<Longrightarrow>
    node_step env proxy s (set_job i (j\<lparr>j_exec := XDone\<rparr>)
      (s\<lparr>nd := executor_remove (j_ref j) (nd s)\<rparr>))"
| Ready: "i < length (jobs s) \<Longrightarrow> j = jobs s ! i \<Longrightarrow> j_handler j = HWait \<Longrightarrow>
    execute_end (j_req j) (j_ref j) (nd s) = Some (rc, ms, n) \<Longrightarrow>
    node_step env proxy s (send_out ms (set_job i (j\<lparr>j_handler := HDone rc\<rparr>) (s\<lparr>nd := n\<rparr>)))"
| Manage: "manage_round (nd s) = Some n \<Longrightarrow> node_step env proxy s (s\<lparr>nd := n\<rparr>)"
| Kill_thread: "kill_round (nd s) = Some n \<Longrightarrow> node_step env proxy s (s\<lparr>nd := n\<rparr>)"
| Clean_thread: "clean_round (nd s) = Some n \<Longrightarrow> node_step env proxy s (s\<lparr>nd := n\<rparr>)"
| Clean_cache: "clean_cache_round now (nd s) = Some n \<Longrightarrow> node_step env proxy s (s\<lparr>nd := n\<rparr>)"
| Stop: "node_step env proxy s (s\<lparr>nd := snd (StopTask info (nd s))\<rparr>)"
| Kill: "KillTask info ex (nd s) = Ret (rc, n) \<Longrightarrow> node_step env proxy s (s\<lparr>nd := n\<rparr>)"
| Received: "ProcessReceivedData (\<lambda>_ n. (rc, n)) info key d (nd s) = Ret (ret, n) \<Longrightarrow>
    node_step env proxy s (s\<lparr>nd := n\<rparr>)"
| Sent: "ProcessSendData (\<lambda>_ n. (rc, n)) info key (nd s) = Ret (res, n) \<Longrightarrow>
    node_step env proxy s (s\<lparr>nd := n\<rparr>)"
| Forwarded: "ProcessForwardData (\<lambda>_ n. (rc, n)) info key (nd s) = Ret (res, n) \<Longrightarrow>
    node_step env proxy s (s\<lparr>nd := n\<rparr>)"
| Completed: "ProcessCompleteStatus (\<lambda>_ n. (rc, n)) info key k (nd s) = Ret (res', n) \<Longrightarrow>
    node_step env proxy s (s\<lparr>nd := n\<rparr>)"
| Dispatch: "dispatch_begin req (nd s) = (r, n) \<Longrightarrow>
    node_step env proxy s (s\<lparr>nd := n, scheds := scheds s @ [\<lparr>sd_req = req, sd_ref = r, sd_pc = SSend\<rparr>]\<rparr>)"
| Dispatched: "i < length (scheds s) \<Longrightarrow> d = scheds s ! i \<Longrightarrow> sd_pc d = SSend \<Longrightarrow>
    dispatch_end self (sd_ref d) res'' (nd s) = ((rc, reply, x'), n) \<Longrightarrow>
    node_step env proxy s (s\<lparr>nd := n, scheds := (scheds s)[i := d\<lparr>sd_pc := after_dispatch x'\<rparr>]\<rparr>)"
| Verdict: "i < length (scheds s) \<Longrightarrow> d = scheds s ! i \<Longrightarrow> sd_pc d = SWait servers cfg \<Longrightarrow>
    scheduler_func (sd_ref d) servers cfg (nd s) = Some (calls, n) \<Longrightarrow>
    node_step env proxy s (s\<lparr>nd := n, scheds := (scheds s)[i := d\<lparr>sd_pc := SDone\<rparr>],
      kills := kills s @ calls\<rparr>)"
| Report: "UpdateTaskStatus report (nd s) = Ret (rc, n) \<Longrightarrow> node_step env proxy s (s\<lparr>nd := n\<rparr>)"
| Fetch: "FetchTaskStatus info (nd s) = (reports, n) \<Longrightarrow> node_step env proxy s (s\<lparr>nd := n\<rparr>)"
| Clean_scheduler: "clean_scheduler_round now (collected s) (nd s) = Some (ft, n) \<Longrightarrow>
    node_step env proxy s (s\<lparr>nd := n, collected := ft\<rparr>)"

inductive reachable :: "exec_env \<Rightarrow> node \<Rightarrow> nstate \<Rightarrow> bool" for env proxy where
  init: "reachable env proxy init_nstate"
| step: "reachable env proxy s \<Longrightarrow> node_step env proxy s s' \<Longrightarrow> reachable env proxy s'"

section \<open>The invariant\<close>

text \<open>A reference to a worker whose task is ready, and has its task.\<close>

definition ok_ref :: "vmnode \<Rightarrow> nat option \<Rightarrow> bool" where
  "ok_ref n x \<longleftrightarrow> (\<exists>r w. x = Some r \<and> wheap n r = Some w \<and> task_ready w = Some True \<and> task_ptr w \<noteq> None)"

definition tables_ok :: "vmnode \<Rightarrow> bool" where
  "tables_ok n \<longleftrightarrow>
     (\<forall>wid q. task_executor_map n wid = Some q \<longrightarrow> q \<noteq> [] \<and> (\<forall>x \<in> set q. ok_ref n x))
     \<and> (\<forall>wid x. (wid, x, kAdd) \<in> set (m_queue (task_manage_queue n)) \<longrightarrow> ok_ref n x)"

definition heap_ok :: "vmnode \<Rightarrow> bool" where
  "heap_ok n \<longleftrightarrow> (\<forall>r w. wheap n r = Some w \<longrightarrow>
     r < next_ref n \<and> (task_ready w = Some True \<longrightarrow> task_ptr w \<noteq> None))"

definition jobs_ok :: "vmnode \<Rightarrow> job list \<Rightarrow> bool" where
  "jobs_ok n js \<longleftrightarrow> distinct (map j_ref js) \<and> (\<forall>j \<in> set js. \<exists>w. wheap n (j_ref j) = Some w
     \<and> w_worker_id w = GetWorkerId (pr_info (j_req j)) \<and> (j_exec j = XStart \<longrightarrow> task_ready w = None))"

definition node_inv :: "nstate \<Rightarrow> bool" where
  "node_inv s \<longleftrightarrow> tables_ok (nd s) \<and> heap_ok (nd s) \<and> jobs_ok (nd s) (jobs s)"

text \<open>Most steps change workers in ways that the invariant does not see.\<close>

definition same_worker :: "worker \<Rightarrow> worker \<Rightarrow> bool" where
  "same_worker w w' \<longleftrightarrow> w_worker_id w' = w_worker_id w \<and> task_ready w' = task_ready w
     \<and> (task_ptr w' = None \<longleftrightarrow> task_ptr w = None)"

definition same_heap :: "vmnode \<Rightarrow> vmnode \<Rightarrow> bool" where
  "same_heap n n' \<longleftrightarrow> next_ref n' = next_ref n \<and> (\<forall>r. rel_option same_worker (wheap n r) (wheap n' r))"

lemma same_worker_refl [simp]: "same_worker w w"
  by (simp add: same_worker_def)

lemma same_heap_refl [simp]: "same_heap n n"
  by (simp add: same_heap_def option.rel_refl)

lemma same_heap_fields:
  "wheap n' = wheap n \<Longrightarrow> next_ref n' = next_ref n \<Longrightarrow> same_heap n n'"
  by (simp add: same_heap_def option.rel_refl)

lemma same_heap_trans: "same_heap n n' \<Longrightarrow> same_heap n' n'' \<Longrightarrow> same_heap n n''"
proof -
  have "transp same_worker" by (auto simp: transp_def same_worker_def)
  then have "transp (rel_option same_worker)" by (rule option.rel_transp)
  then show "same_heap n n' \<Longrightarrow> same_heap n' n'' \<Longrightarrow> same_heap n n''"
    by (auto simp: same_heap_def dest: transpD)
qed

lemma same_heap_on_worker:
  "(\<And>w. wheap n r = Some w \<Longrightarrow> same_worker w (f w)) \<Longrightarrow> same_heap n (on_worker r f n)"
  by (auto simp: same_heap_def on_worker_def option.rel_refl option.rel_map intro: option.rel_refl_strong)

lemma same_heap_set_task: "worker_task r n = Some t \<Longrightarrow> same_heap n (set_task r t' n)"
  unfolding set_task_def
  by (rule same_heap_on_worker) (auto simp: worker_task_def same_worker_def)

text \<open>A step that keeps the heap, adds nothing to the table and puts no worker up for it.\<close>

definition keeps :: "vmnode \<Rightarrow> vmnode \<Rightarrow> bool" where
  "keeps n n' \<longleftrightarrow> same_heap n n'
     \<and> (\<forall>wid q. task_executor_map n' wid = Some q \<longrightarrow> task_executor_map n wid = Some q)
     \<and> (\<forall>wid x. (wid, x, kAdd) \<in> set (m_queue (task_manage_queue n'))
          \<longrightarrow> (wid, x, kAdd) \<in> set (m_queue (task_manage_queue n)))"

lemma keeps_fields:
  "same_heap n n' \<Longrightarrow> task_executor_map n' = task_executor_map n \<Longrightarrow>
   task_manage_queue n' = task_manage_queue n \<Longrightarrow> keeps n n'"
  by (simp add: keeps_def)

lemma keeps_trans: "keeps n n' \<Longrightarrow> keeps n' n'' \<Longrightarrow> keeps n n''"
  unfolding keeps_def using same_heap_trans by blast

lemma ok_ref_same:
  assumes "same_heap n n'" "ok_ref n x"
  shows "ok_ref n' x"
proof -
  obtain r w where r: "x = Some r" "wheap n r = Some w" "task_ready w = Some True" "task_ptr w \<noteq> None"
    using assms(2) by (auto simp: ok_ref_def)
  have "rel_option same_worker (Some w) (wheap n' r)" using assms(1) r(2) by (metis same_heap_def)
  then show ?thesis using r by (auto simp: ok_ref_def same_worker_def option_rel_Some1)
qed

lemma heap_ok_same:
  assumes "same_heap n n'" "heap_ok n"
  shows "heap_ok n'"
  unfolding heap_ok_def
proof (intro allI impI)
  fix r w'
  assume "wheap n' r = Some w'"
  then have "rel_option same_worker (wheap n r) (Some w')" using assms(1) by (metis same_heap_def)
  then obtain w where "wheap n r = Some w" "same_worker w w'" by (auto simp: option_rel_Some2)
  with assms show "r < next_ref n' \<and> (task_ready w' = Some True \<longrightarrow> task_ptr w' \<noteq> None)"
    by (auto simp: heap_ok_def same_worker_def same_heap_def)
qed

lemma jobs_ok_same:
  assumes "same_heap n n'" "jobs_ok n js"
  shows "jobs_ok n' js"
proof -
  have "\<exists>w'. wheap n' r = Some w' \<and> task_ready w' = task_ready w \<and> w_worker_id w' = w_worker_id w"
    if "wheap n r = Some w" for r w
  proof -
    have "rel_option same_worker (Some w) (wheap n' r)" using assms(1) that by (metis same_heap_def)
    then show ?thesis by (auto simp: same_worker_def option_rel_Some1)
  qed
  with assms(2) show ?thesis unfolding jobs_ok_def by metis
qed

lemma tables_ok_keeps:
  assumes "keeps n n'" "tables_ok n"
  shows "tables_ok n'"
proof -
  have same: "\<And>x. ok_ref n x \<Longrightarrow> ok_ref n' x" using assms(1) ok_ref_same by (auto simp: keeps_def)
  with assms show ?thesis unfolding keeps_def tables_ok_def by (intro conjI allI impI ballI) blast+
qed

lemma inv_keeps:
  assumes "keeps (nd s) n" "node_inv s"
  shows "node_inv (s\<lparr>nd := n\<rparr>)"
  using assms tables_ok_keeps [OF assms(1)] heap_ok_same jobs_ok_same
  by (auto simp: node_inv_def keeps_def)

text \<open>A step of a job that has left its start keeps the invariant.\<close>

lemma jobs_ok_set_job:
  assumes "jobs_ok n js" "i < length js" "j_ref j = j_ref (js ! i)" "j_exec j \<noteq> XStart \<or> j_exec j = j_exec (js ! i)"
    "j_req j = j_req (js ! i)"
  shows "jobs_ok n (js[i := j])"
proof -
  have "map j_ref (js[i := j]) = map j_ref js"
    using assms(2,3) by (metis list_update_id map_update)
  moreover have "\<exists>w. wheap n (j_ref k) = Some w \<and> w_worker_id w = GetWorkerId (pr_info (j_req k))
      \<and> (j_exec k = XStart \<longrightarrow> task_ready w = None)"
    if "k \<in> set (js[i := j])" for k
  proof -
    have "js ! i \<in> set js" using assms(2) by simp
    moreover have "k = j \<or> k \<in> set js" using that set_update_subset_insert [of js i j] by blast
    ultimately show ?thesis using assms(1,3,4,5) unfolding jobs_ok_def by metis
  qed
  ultimately show ?thesis using assms(1) unfolding jobs_ok_def by metis
qed

lemma inv_set_job:
  assumes "node_inv s" "i < length (jobs s)" "j_ref j = j_ref (jobs s ! i)"
    "j_exec j \<noteq> XStart \<or> j_exec j = j_exec (jobs s ! i)" "j_req j = j_req (jobs s ! i)"
  shows "node_inv (set_job i j s)"
  using assms jobs_ok_set_job [OF _ assms(2-5)] by (simp add: node_inv_def set_job_def)

lemma inv_send_out [simp]: "node_inv (send_out ms s) = node_inv s"
  by (simp add: node_inv_def send_out_def)

subsection \<open>Operations that keep it\<close>

lemma keeps_set_task: "worker_task r n = Some t \<Longrightarrow> keeps n (set_task r t' n)"
  by (intro keeps_fields same_heap_set_task) (simp_all add: set_task_def on_worker_def)

lemma keeps_on_worker:
  "(\<And>w. wheap n r = Some w \<Longrightarrow> same_worker w (f w)) \<Longrightarrow> keeps n (on_worker r f n)"
  by (intro keeps_fields same_heap_on_worker) (simp_all add: on_worker_def)

lemma keeps_refl_fields:
  "wheap n' = wheap n \<Longrightarrow> next_ref n' = next_ref n \<Longrightarrow> task_executor_map n' = task_executor_map n \<Longrightarrow>
   (\<And>wid x. (wid, x, kAdd) \<in> set (m_queue (task_manage_queue n')) \<Longrightarrow>
      (wid, x, kAdd) \<in> set (m_queue (task_manage_queue n))) \<Longrightarrow> keeps n n'"
  by (simp add: keeps_def same_heap_fields)

lemma keeps_refl [simp]: "keeps n n"
  by (simp add: keeps_refl_fields)

lemma keeps_kill_all: "keeps n (kill_all xs n)"
proof (induction xs arbitrary: n)
  case Nil
  then show ?case by (simp add: keeps_refl_fields)
next
  case (Cons x xs)
  have "keeps n (case x of None \<Rightarrow> n | Some r \<Rightarrow> on_worker r (\<lambda>w. snd (worker_kill w)) n)"
    by (cases x) (auto intro!: keeps_refl_fields keeps_on_worker simp: worker_kill_def same_worker_def)
  with Cons.IH keeps_trans show ?case unfolding kill_all.simps by blast
qed

lemma wait_and_pop_set:
  "tsq_wait_and_pop q = (Popped x, q') \<Longrightarrow> m_queue q = x # m_queue q'"
  by (auto simp: tsq_wait_and_pop_def tsq_empty_def split: if_splits)

lemma keeps_rounds:
  "kill_round n = Some n' \<Longrightarrow> keeps n n'" "clean_round n = Some n' \<Longrightarrow> keeps n n'"
  "clean_cache_round now n = Some n' \<Longrightarrow> keeps n n'" "keeps n (snd (StopTask info n))"
proof -
  show "keeps n n'" if round: "kill_round n = Some n'"
  proof -
    obtain res q where p: "tsq_wait_and_pop (kill_task_queue n) = (res, q)" by fastforce
    then obtain xs where "n' = kill_all xs (n\<lparr>kill_task_queue := q\<rparr>)"
      using round by (cases res) (auto simp: kill_round_def split: if_splits)
    moreover have "keeps n (n\<lparr>kill_task_queue := q\<rparr>)" by (intro keeps_refl_fields) simp_all
    ultimately show ?thesis using keeps_kill_all keeps_trans by blast
  qed
qed (auto simp: clean_round_def clean_cache_round_def StopTask_def intro!: keeps_refl_fields
      split: prod.splits pop_result.splits if_splits)

lemma updateTaskStatus_same: "updateTaskStatus st w = Ret (rc, w') \<Longrightarrow> same_worker w w'"
  by (auto simp: updateTaskStatus_def finish_task_def same_worker_def cbind_Ret_iff Let_def
      split: if_splits option.splits)

lemma keeps_update_worker: "update_worker st r n = Ret (rc, n') \<Longrightarrow> keeps n n'"
proof -
  assume "update_worker st r n = Ret (rc, n')"
  then obtain w w' where w: "wheap n r = Some w" "updateTaskStatus st w = Ret (rc, w')"
    "n' = on_worker r (\<lambda>_. w') n"
    by (auto simp: update_worker_def on_worker_def cbind_Ret_iff split: option.splits)
  then show ?thesis using updateTaskStatus_same [OF w(2)] by (auto intro: keeps_on_worker)
qed

lemma keeps_KillTask: "KillTask info ex n = Ret (rc, n') \<Longrightarrow> keeps n n'"
  by (auto simp: KillTask_def cbind_Ret_iff dest: keeps_update_worker intro: keeps_refl_fields
      split: if_splits executor_type.splits option.splits)

lemma find_task_cases:
  assumes "cbind (find_task (\<lambda>_ n. (rc, n)) info n) f = Ret y"
  obtains "f (None, n) = Ret y" | r t where "worker_task r n = Some t" "f (Some (r, t), n) = Ret y"
  using assms by (auto simp: find_task_def Let_def cbind_Ret_iff split: if_splits option.splits)

lemma keeps_data:
  "ProcessReceivedData (\<lambda>_ n. (rc, n)) info key d n = Ret (ret, n') \<Longrightarrow> keeps n n'"
  "ProcessSendData (\<lambda>_ n. (rc, n)) info key n = Ret (res, n') \<Longrightarrow> keeps n n'"
  "ProcessForwardData (\<lambda>_ n. (rc, n)) info key n = Ret (res, n') \<Longrightarrow> keeps n n'"
  "ProcessCompleteStatus (\<lambda>_ n. (rc, n)) info key k n = Ret (res', n') \<Longrightarrow> keeps n n'"
  by (auto simp: ProcessReceivedData_def ProcessSendData_def ProcessForwardData_def
      ProcessCompleteStatus_def Let_def elim!: find_task_cases intro: keeps_set_task
      split: option.splits prod.splits)

lemma keeps_executor: "keeps n (executor_cache r st now n)" "keeps n (executor_remove r n)"
  by (auto simp: executor_cache_def executor_remove_def CacheLastTaskStatus_def
      intro!: keeps_refl_fields split: option.splits)

lemma keeps_end_process:
  "wheap n r = Some w \<Longrightarrow> end_process out w = (rc, w') \<Longrightarrow> keeps n (on_worker r (\<lambda>_. w') n)"
  by (auto simp: end_process_def same_worker_def intro!: keeps_on_worker split: sum.splits if_splits)

lemma keeps_UpdateTaskStatus: "UpdateTaskStatus st n = Ret (rc, n') \<Longrightarrow> keeps n n'"
  by (auto simp: UpdateTaskStatus_def cbind_Ret_iff dest: keeps_update_worker split: option.splits)

lemma fetch_loop_same: "fetch_loop k w = (sts, w') \<Longrightarrow> same_worker w w'"
proof (induction k arbitrary: w sts)
  case 0
  then show ?case by (subst (asm) fetch_loop.simps)
    (auto simp: fetchTaskStatus_def same_worker_def Let_def split: prod.splits option.splits)
next
  case (Suc k)
  obtain ret st w1 where w1: "fetchTaskStatus w = ((ret, st), w1)" by (metis surj_pair)
  then have same: "same_worker w w1"
    by (auto simp: fetchTaskStatus_def same_worker_def Let_def split: prod.splits option.splits)
  show ?case
  proof (cases ret)
    case SUCCESS
    obtain sts1 w2 where w2: "fetch_loop k w1 = (sts1, w2)" by fastforce
    have "fetch_loop (Suc k) w = (st # sts1, w2)"
      by (subst fetch_loop.simps) (simp add: w1 w2 SUCCESS)
    then have "w' = w2" using Suc.prems by simp
    with same w2 Suc.IH [of w1 sts1] show ?thesis by (simp add: same_worker_def)
  next
    case FAIL
    with Suc.prems w1 same show ?thesis by (subst (asm) fetch_loop.simps) simp
  qed
qed

lemma keeps_FetchTaskStatus: "FetchTaskStatus info n = (sts, n') \<Longrightarrow> keeps n n'"
proof -
  assume a: "FetchTaskStatus info n = (sts, n')"
  show ?thesis
  proof (cases "\<exists>r w. GetSchedulerWorker info n = Some r \<and> wheap n r = Some w")
    case True
    then obtain r w sts1 w' where w: "GetSchedulerWorker info n = Some r" "wheap n r = Some w"
      "fetch_loop (length (m_queue (task_statuses w))) w = (sts1, w')" by fastforce
    then have "n' = on_worker r (\<lambda>_. w') n" using a by (simp add: FetchTaskStatus_def on_worker_def)
    with w fetch_loop_same show ?thesis by (auto intro: keeps_on_worker)
  qed (use a in \<open>auto simp: FetchTaskStatus_def split: option.splits\<close>)
qed

lemma keeps_schedule:
  "scheduler_func r servers cfg n = Some (calls, n') \<Longrightarrow> keeps n n'"
  "dispatch_end self r res n = (out, n') \<Longrightarrow> keeps n n'"
  "clean_scheduler_round now ft n = Some (ft', n') \<Longrightarrow> keeps n n'"
proof -
  show "keeps n n'" if "scheduler_func r servers cfg n = Some (calls, n')"
    using that by (auto simp: scheduler_func_def bind_eq_Some_conv Let_def intro: keeps_refl_fields)
  show "keeps n n'" if "dispatch_end self r res n = (out, n')"
    using that by (auto simp: dispatch_end_def setPartyCount_def same_worker_def intro: keeps_on_worker
        split: dispatch_result.splits)
  show "keeps n n'" if "clean_scheduler_round now ft n = Some (ft', n')"
    using that by (auto simp: clean_scheduler_round_def erase_schedulers_def Let_def
        intro!: keeps_refl_fields split: prod.splits pop_result.splits if_splits)
qed

subsection \<open>Operations that extend it\<close>

lemma inv_manage:
  assumes "manage_round (nd s) = Some n" "node_inv s"
  shows "node_inv (s\<lparr>nd := n\<rparr>)"
proof -
  obtain res q where p: "tsq_wait_and_pop (task_manage_queue (nd s)) = (res, q)" by fastforce
  with assms(1) obtain wid x ty where res: "res = Popped (wid, x, ty)"
    by (cases res) (auto simp: manage_round_def)
  let ?n = "(nd s)\<lparr>task_manage_queue := q\<rparr>"
  have q: "m_queue (task_manage_queue (nd s)) = (wid, x, ty) # m_queue q"
    using p res by (auto dest: wait_and_pop_set)
  then have "keeps (nd s) ?n" by (intro keeps_refl_fields) auto
  then have inv: "node_inv (s\<lparr>nd := ?n\<rparr>)" by (rule inv_keeps [OF _ assms(2)])
  have n: "n = (case ty of kAdd \<Rightarrow> ExecuteAddTaskOperation wid x ?n | kDel \<Rightarrow> ExecuteDelTaskOperation wid ?n
      | kKill \<Rightarrow> ExecuteKillTaskOperation wid ?n | kUnknown \<Rightarrow> ?n)"
    using assms(1) p res by (auto simp: manage_round_def Let_def split: if_splits)
  show ?thesis
  proof (cases "ty = kAdd")
    case False
    have "keeps ?n n"
      using n False by (cases ty) (auto simp: ExecuteDelTaskOperation_def ExecuteKillTaskOperation_def
          keeps_def same_heap_fields split: option.splits if_splits)
    from inv_keeps [OF _ inv, of n] this show ?thesis by simp
  next
    case True
    have "ok_ref (nd s) x" using q True assms(2) by (auto simp: node_inv_def tables_ok_def)
    then have "ok_ref ?n x" by (simp add: ok_ref_def)
    moreover have h: "wheap n = wheap ?n" "next_ref n = next_ref ?n" "task_manage_queue n = q"
      using n True by (simp_all add: ExecuteAddTaskOperation_def split: option.splits)
    moreover have ok: "ok_ref n y = ok_ref ?n y" for y using h by (simp add: ok_ref_def)
    moreover have "task_executor_map n =
        (task_executor_map ?n)(wid \<mapsto> (case task_executor_map ?n wid of None \<Rightarrow> [] | Some xs \<Rightarrow> xs) @ [x])"
      using n True by (simp add: ExecuteAddTaskOperation_def split: option.splits)
    ultimately have "tables_ok n"
      using inv by (auto simp: node_inv_def tables_ok_def split: option.splits if_splits)
    moreover have "heap_ok n" "jobs_ok n (jobs s)"
      using inv h by (simp_all add: node_inv_def heap_ok_def jobs_ok_def)
    ultimately show ?thesis by (simp add: node_inv_def)
  qed
qed

lemma inv_duplicate:
  assumes "execute_begin now req (nd s) = (None, n)" "node_inv s"
  shows "node_inv (s\<lparr>nd := n\<rparr>)"
  using assms by (intro inv_keeps)
    (auto simp: execute_begin_def IsDuplicateTask_def CleanDuplicateTaskIdFilter_def CreateWorker_def
      Let_def intro!: keeps_refl_fields split: option.splits if_splits prod.splits)

lemma inv_request:
  assumes "execute_begin now req (nd s) = (Some r, n)" "node_inv s"
  shows "node_inv (s\<lparr>nd := n, jobs := jobs s @
      [\<lparr>j_req = req, j_ref = r, j_handler = HWait, j_exec = XStart\<rparr>]\<rparr>)"
proof -
  have n: "r = next_ref (nd s)" "wheap n = (wheap (nd s))(r \<mapsto> new_worker (pr_info req))"
    "next_ref n = Suc r" "task_executor_map n = task_executor_map (nd s)"
    "task_manage_queue n = task_manage_queue (nd s)"
    using assms(1) by (auto simp: execute_begin_def IsDuplicateTask_def CleanDuplicateTaskIdFilter_def
        CreateWorker_def Let_def split: option.splits if_splits prod.splits)
  have fresh: "wheap (nd s) r = None"
    using assms(2) n(1) by (cases "wheap (nd s) r") (auto simp: node_inv_def heap_ok_def)
  then have ok: "ok_ref (nd s) x \<Longrightarrow> ok_ref n x" for x
    by (auto simp: ok_ref_def n(2))
  then have "tables_ok n"
    using assms(2) by (auto simp: node_inv_def tables_ok_def n(4,5))
  moreover have "heap_ok n"
    using assms(2) n by (auto simp: node_inv_def heap_ok_def new_worker_def less_Suc_eq split: if_splits)
  moreover have "r \<notin> j_ref ` set (jobs s)"
    using assms(2) fresh by (auto simp: node_inv_def jobs_ok_def)
  then have "jobs_ok n (jobs s @ [\<lparr>j_req = req, j_ref = r, j_handler = HWait, j_exec = XStart\<rparr>])"
    using assms(2) n(2) by (auto simp: node_inv_def jobs_ok_def new_worker_def GetWorkerId_def)
  ultimately show ?thesis by (simp add: node_inv_def)
qed

lemma inv_scheds [simp]: "node_inv (scheds_update f s) = node_inv s" "node_inv (kills_update g s) = node_inv s"
  "node_inv (collected_update h s) = node_inv s"
  by (simp_all add: node_inv_def)

text \<open>A scheduling worker is new, too, and no job's.\<close>

lemma new_ref_fields:
  "dispatch_begin req n = (r, n') \<Longrightarrow> r = next_ref n \<and> wheap n' = (wheap n)(r \<mapsto> new_worker (pr_info req))
     \<and> next_ref n' = Suc r \<and> task_executor_map n' = task_executor_map n
     \<and> task_manage_queue n' = task_manage_queue n"
  by (auto simp: dispatch_begin_def CreateWorker_def Let_def)

lemma inv_dispatch:
  assumes "dispatch_begin req (nd s) = (r, n)" "node_inv s"
  shows "node_inv (s\<lparr>nd := n\<rparr>)"
proof -
  note n = new_ref_fields [OF assms(1)]
  have fresh: "wheap (nd s) r = None"
    using assms(2) n by (cases "wheap (nd s) r") (auto simp: node_inv_def heap_ok_def)
  then have ok: "ok_ref (nd s) x \<Longrightarrow> ok_ref n x" for x
    using n by (auto simp: ok_ref_def)
  then have "tables_ok n"
    using assms(2) n by (auto simp: node_inv_def tables_ok_def)
  moreover have "heap_ok n"
    using assms(2) n by (auto simp: node_inv_def heap_ok_def new_worker_def less_Suc_eq split: if_splits)
  moreover have "jobs_ok n (jobs s)"
    using assms(2) n fresh by (auto simp: node_inv_def jobs_ok_def)
  ultimately show ?thesis by (simp add: node_inv_def)
qed

text \<open>The start of a task writes to the worker that no table knows.\<close>

lemma worker_start_ready:
  "worker_start env req w = (st, w') \<Longrightarrow> task_ready w = None \<Longrightarrow>
   (task_ready w' = Some True \<longrightarrow> task_ptr w' \<noteq> None) \<and> w_worker_id w' = w_worker_id w"
  by (auto simp: worker_start_def start_thread_def start_process_def Let_def
      split: run_mode.splits sum.splits option.splits)

lemma inv_start:
  assumes "i < length (jobs s)" "j = jobs s ! i" "j_exec j = XStart"
    "executor_start env req (j_ref j) (nd s) = Some (st, ms, n)" "x \<noteq> XStart" "node_inv s"
  shows "node_inv (set_job i (j\<lparr>j_exec := x\<rparr>) (s\<lparr>nd := n\<rparr>))"
proof -
  let ?r = "j_ref j"
  obtain w w' where w: "wheap (nd s) ?r = Some w" "worker_start env req w = (st, w')"
    "n = (nd s)\<lparr>wheap := (wheap (nd s))(?r \<mapsto> w')\<rparr>"
    using assms(4) by (auto simp: executor_start_def split: option.splits prod.splits)
  have j: "j \<in> set (jobs s)" using assms(1,2) by simp
  with assms(3,6) w(1) have none: "task_ready w = None"
    by (auto simp: node_inv_def jobs_ok_def)
  then have ok: "ok_ref (nd s) y \<Longrightarrow> ok_ref n y" for y
    using w(1,3) by (auto simp: ok_ref_def)
  then have "tables_ok n" using assms(6) w(3) by (auto simp: node_inv_def tables_ok_def)
  moreover have "heap_ok n"
    using assms(6) w worker_start_ready [OF w(2) none] by (auto simp: node_inv_def heap_ok_def)
  moreover have "jobs_ok n ((jobs s)[i := j\<lparr>j_exec := x\<rparr>])"
  proof -
    have dist: "distinct (map j_ref (jobs s))" using assms(6) by (simp add: node_inv_def jobs_ok_def)
    obtain w1 where w1: "wheap (nd s) ?r = Some w1" "w_worker_id w1 = GetWorkerId (pr_info (j_req j))"
      using assms(6) j by (auto simp: node_inv_def jobs_ok_def)
    then have id: "w_worker_id w' = GetWorkerId (pr_info (j_req j))"
      using w(1) worker_start_ready [OF w(2) none] by simp
    have "map j_ref ((jobs s)[i := j\<lparr>j_exec := x\<rparr>]) = map j_ref (jobs s)"
      using assms(1,2) by (simp add: map_update list_update_same_conv)
    moreover have "\<exists>w. wheap n (j_ref k) = Some w \<and> w_worker_id w = GetWorkerId (pr_info (j_req k))
        \<and> (j_exec k = XStart \<longrightarrow> task_ready w = None)"
      if k: "k \<in> set ((jobs s)[i := j\<lparr>j_exec := x\<rparr>])" for k
    proof -
      obtain m where m: "m < length (jobs s)" "k = (jobs s)[i := j\<lparr>j_exec := x\<rparr>] ! m"
        using k by (auto simp: in_set_conv_nth)
      show ?thesis
      proof (cases "m = i")
        case True
        with m assms(5) w(3) id show ?thesis by simp
      next
        case False
        then have k': "k = jobs s ! m" using m by simp
        with dist False m(1) assms(1,2) have "j_ref k \<noteq> ?r" by (auto simp: distinct_conv_nth)
        moreover have "k \<in> set (jobs s)" using k' m(1) by simp
        ultimately show ?thesis using assms(6) w(3) by (auto simp: node_inv_def jobs_ok_def)
      qed
    qed
    ultimately show ?thesis using dist unfolding jobs_ok_def by metis
  qed
  ultimately show ?thesis by (simp add: node_inv_def set_job_def)
qed

lemma inv_ready:
  assumes "i < length (jobs s)" "j = jobs s ! i"
    "execute_end (j_req j) (j_ref j) (nd s) = Some (rc, ms, n)" "node_inv s"
  shows "node_inv (set_job i (j\<lparr>j_handler := HDone rc\<rparr>) (s\<lparr>nd := n\<rparr>))"
proof -
  obtain w b where w: "wheap (nd s) (j_ref j) = Some w" "task_ready w = Some b"
    using assms(3) by (auto simp: execute_end_def waitForTaskReady_def bind_eq_Some_conv)
  have h: "wheap n = wheap (nd s)" "next_ref n = next_ref (nd s)"
      "task_executor_map n = task_executor_map (nd s)"
    using assms(3) by (auto simp: execute_end_def bind_eq_Some_conv split: if_splits)
  have ok: "ok_ref n x = ok_ref (nd s) x" for x using h by (simp add: ok_ref_def)
  have "task_manage_queue n = task_manage_queue (nd s) \<or>
      b \<and> task_manage_queue n = tsq_push (GetWorkerId (pr_info (j_req j)), Some (j_ref j), kAdd)
        (task_manage_queue (nd s))"
    using assms(3) w by (auto simp: execute_end_def waitForTaskReady_def split: if_splits)
  moreover have "b \<Longrightarrow> ok_ref (nd s) (Some (j_ref j))"
    using w assms(4) by (auto simp: ok_ref_def node_inv_def heap_ok_def)
  ultimately have "tables_ok n"
    using assms(4) ok h(3) by (auto simp: node_inv_def tables_ok_def)
  moreover have "heap_ok n" "jobs_ok n (jobs s)"
    using assms(4) h by (simp_all add: node_inv_def heap_ok_def jobs_ok_def)
  ultimately have "node_inv (s\<lparr>nd := n\<rparr>)" by (simp add: node_inv_def)
  then show ?thesis using assms(1,2) by (intro inv_set_job) simp_all
qed

lemma inv_init: "node_inv init_nstate"
  by (simp add: node_inv_def init_nstate_def new_vmnode_def tables_ok_def heap_ok_def jobs_ok_def)

lemma after_start_not_XStart: "after_start req st = (x, ms) \<Longrightarrow> x \<noteq> XStart"
  "ended req out = (x, ms) \<Longrightarrow> x \<noteq> XStart"
  by (auto simp: after_start_def ended_def split: run_start.splits prod.splits)

lemma inv_keeps_job:
  assumes "keeps (nd s) n" "node_inv s" "i < length (jobs s)" "x \<noteq> XStart"
  shows "node_inv (set_job i ((jobs s ! i)\<lparr>j_exec := x\<rparr>) (s\<lparr>nd := n\<rparr>))"
  using assms(3,4) by (intro inv_set_job inv_keeps [OF assms(1,2)]) simp_all

lemma inv_step: "node_step env proxy s s' \<Longrightarrow> node_inv s \<Longrightarrow> node_inv s'"
proof (induction rule: node_step.induct)
  case (Start i s j st ms n x ms')
  then show ?case using inv_start after_start_not_XStart(1) by (metis inv_send_out)
next
  case (Finish_thread i s j out x ms)
  then show ?case
    using inv_keeps_job [of s "nd s" i x] after_start_not_XStart(2) [of "j_req j"] by simp
next
  case (Finish_process i s j w out rc w' x ms)
  then show ?case
    using inv_keeps_job [OF keeps_end_process] after_start_not_XStart(2) [of "j_req j"] by simp
next
  case (Manual i s j st)
  then show ?case using inv_keeps_job [of s "nd s" i XDone] by simp
next
  case (Ready i s j rc ms n)
  then show ?case using inv_ready by simp
next
  case (Dispatch req s r n)
  then have "node_inv (s\<lparr>nd := n\<rparr>)" by (rule inv_dispatch)
  then show ?case by (simp add: node_inv_def)
next
  case (Dispatched i s d self res'' rc reply x' n)
  then have "node_inv (s\<lparr>nd := n\<rparr>)" using inv_keeps keeps_schedule(2) by blast
  then show ?case by (simp add: node_inv_def)
next
  case (Verdict i s d servers cfg calls n)
  then have "node_inv (s\<lparr>nd := n\<rparr>)" using inv_keeps keeps_schedule(1) by blast
  then show ?case by (simp add: node_inv_def)
next
  case (Clean_scheduler now s ft n)
  then have "node_inv (s\<lparr>nd := n\<rparr>)" using inv_keeps keeps_schedule(3) by blast
  then show ?case by (simp add: node_inv_def)
qed (auto intro: keeps_UpdateTaskStatus keeps_FetchTaskStatus inv_request inv_duplicate inv_keeps inv_manage inv_keeps_job keeps_set_task keeps_rounds
    keeps_KillTask keeps_data keeps_executor)

lemma reachable_inv: "reachable env proxy s \<Longrightarrow> node_inv s"
  by (induction rule: reachable.induct) (auto intro: inv_init inv_step)

end
