(* ===== verification/Node_Correct.thy ===== *)
theory Node_Correct
  imports Node_Threads
begin

text \<open>
  What the node promises to its callers: its handlers never reach undefined behaviour, data sent to
  a running task arrives in the task's queue, duplicates are refused for a while, a failed task is
  killed everywhere; and where its threads and tables go wrong.
\<close>

section \<open>A run of one task\<close>

text \<open>An environment in which the process of a task starts, and a request for it.\<close>

definition demo_env :: exec_env where
  "demo_env = \<lparr>env_create = (\<lambda>_. Inr None), env_drivers = (\<lambda>_. None),
     env_serialize = (\<lambda>_. Some ''request''), env_launch = (\<lambda>_. None)\<rparr>"

definition demo_req :: push_request where
  "demo_req = \<lparr>pr_info = empty_task_ctx\<lparr>tc_request_id := ''r1''\<rparr>, pr_party_name = ''A'',
     pr_party_datasets = [], pr_params = Map.empty, pr_access_info = [], pr_aux = Map.empty,
     pr_manual_launch = False\<rparr>"

text \<open>The worker of a task whose process has been started.\<close>

definition running_worker :: "task_ctx \<Rightarrow> worker" where
  "running_worker info = (new_worker info)\<lparr>task_ptr := Some new_base_task, task_ready := Some True,
     process_handler := True\<rparr>"

definition starts :: "exec_env \<Rightarrow> node \<Rightarrow> push_request \<Rightarrow> bool" where
  "starts env proxy req \<longleftrightarrow> ExecuteMode req = PROCESS \<and>
     (\<exists>x. env_serialize env (expand_request (env_drivers env) (add_proxy proxy req)) = Some x
        \<and> env_launch env x = None)"

lemma ExecuteMode_add_proxy [simp]: "ExecuteMode (add_proxy proxy req) = ExecuteMode req"
  by (simp add: ExecuteMode_def add_proxy_def)

lemma worker_start_process:
  "starts env proxy req \<Longrightarrow>
   worker_start env (add_proxy proxy req) (new_worker info) = (Started, running_worker info)"
  by (auto simp: starts_def worker_start_def start_process_def running_worker_def Let_def)

text \<open>The node after the request, and after the start of the task.\<close>

definition node1 :: "int \<Rightarrow> push_request \<Rightarrow> vmnode" where
  "node1 now req = new_vmnode\<lparr>duplicate_task_id_filter := [task_uid (pr_info req) \<mapsto> now],
     wheap := [0 \<mapsto> new_worker (pr_info req)], next_ref := 1\<rparr>"

definition node2 :: "int \<Rightarrow> push_request \<Rightarrow> vmnode" where
  "node2 now req = (node1 now req)\<lparr>wheap := [0 \<mapsto> running_worker (pr_info req)]\<rparr>"

abbreviation job_at :: "push_request \<Rightarrow> handler_pc \<Rightarrow> executor_pc \<Rightarrow> job" where
  "job_at req h x \<equiv> \<lparr>j_req = req, j_ref = 0, j_handler = h, j_exec = x\<rparr>"

lemma reach_requested:
  "reachable env proxy (exec_state (node1 now req) [job_at req HWait XStart] [])"
proof -
  have "execute_begin now req new_vmnode = (Some 0, node1 now req)"
    by (simp add: execute_begin_def CleanDuplicateTaskIdFilter_def IsDuplicateTask_def CreateWorker_def
        new_vmnode_def map_insert_def node1_def)
  then have "node_step env proxy init_nstate
      (init_nstate\<lparr>nd := node1 now req, jobs := jobs init_nstate @ [job_at req HWait XStart]\<rparr>)"
    by (intro node_step.Request [where now = now]) (simp add: init_nstate_def)
  then show ?thesis
    using reachable.step [OF reachable.init] by (simp add: init_nstate_def)
qed

lemma reach_started:
  assumes "starts env proxy req"
  shows "\<exists>ms. reachable env proxy (exec_state (node2 now req) [job_at req HWait XRun] ms)"
proof -
  note r1 = reach_requested [of env proxy now req]
  have "executor_start env (add_proxy proxy req) 0 (node1 now req)
      = Some (Started, NotifyTaskStatus (add_proxy proxy req) ST_RUNNING ''task is running'', node2 now req)"
    using worker_start_process [OF assms, of "pr_info req"]
    by (simp add: executor_start_def node1_def node2_def)
  then have "node_step env proxy (exec_state (node1 now req) [job_at req HWait XStart] [])
      (send_out (NotifyTaskStatus (add_proxy proxy req) ST_RUNNING
        ''task is running'' @ []) (set_job 0 ((job_at req HWait XStart)\<lparr>j_exec := XRun\<rparr>)
        ((exec_state (node1 now req) [job_at req HWait XStart] [])\<lparr>nd := node2 now req\<rparr>)))"
    by (intro node_step.Start [where st = Started]) (simp_all add: after_start_def)
  from reachable.step [OF r1 this] show ?thesis
    by (auto simp: send_out_def set_job_def)
qed

section \<open>The data handlers\<close>

text \<open>
  C3: whatever the threads of the node do, the table of executing workers has no empty queue and no
  worker without a task, so that no handler of data ever reads the front of an empty queue or
  follows a null pointer to a task.
\<close>

theorem handlers_never_undefined:
  assumes "reachable env proxy s"
  shows "ProcessReceivedData (\<lambda>_ n. (rc, n)) info key data (nd s) \<noteq> Undef
    \<and> ProcessSendData (\<lambda>_ n. (rc, n)) info key (nd s) \<noteq> Undef
    \<and> ProcessForwardData (\<lambda>_ n. (rc, n)) info key (nd s) \<noteq> Undef
    \<and> ProcessCompleteStatus (\<lambda>_ n. (rc, n)) info key k (nd s) \<noteq> Undef"
proof -
  have "tables_ok (nd s)" using reachable_inv [OF assms] by (simp add: node_inv_def)
  then have "q \<noteq> [] \<and> ok_ref (nd s) (hd q)" if "task_executor_map (nd s) (GetWorkerId info) = Some q" for q
    using that unfolding tables_ok_def by (metis hd_in_set)
  then have "\<exists>x. find_task (\<lambda>_ n. (rc, n)) info (nd s) = Ret (x, nd s)"
    by (fastforce simp: find_task_def Let_def GetWorker_def ok_ref_def worker_task_def
        split: option.splits list.splits)
  then obtain x where "find_task (\<lambda>_ n. (rc, n)) info (nd s) = Ret (x, nd s)" by blast
  then show ?thesis
    by (auto simp: ProcessReceivedData_def ProcessSendData_def ProcessForwardData_def
        ProcessCompleteStatus_def Let_def split: option.splits prod.splits)
qed

lemma demo_starts: "starts demo_env proxy demo_req"
  by (simp add: starts_def ExecuteMode_def demo_env_def demo_req_def)

theorem handlers_never_undefined_witness:
  "\<exists>s :: nstate. jobs s = [job_at demo_req HWait XRun]
    \<and> ProcessReceivedData (\<lambda>_ n. (SUCCESS, n)) (pr_info demo_req) ''k'' ''d'' (nd s) \<noteq> Undef"
proof -
  obtain ms where "reachable demo_env empty_node
      (exec_state (node2 0 demo_req) [job_at demo_req HWait XRun] ms)" (is "reachable _ _ ?s")
    using reach_started [OF demo_starts] by blast
  from handlers_never_undefined [OF this]
  have "jobs ?s = [job_at demo_req HWait XRun]
    \<and> ProcessReceivedData (\<lambda>_ n. (SUCCESS, n)) (pr_info demo_req) ''k'' ''d'' (nd ?s) \<noteq> Undef"
    by simp
  then show ?thesis by blast
qed

text \<open>The node behind the interface, when nothing else happens while it waits.\<close>

definition wait_now :: "string \<Rightarrow> vmnode \<Rightarrow> retcode \<times> vmnode" where
  "wait_now worker_id n = (if IsTaskWorkerReady False worker_id n then SUCCESS else FAIL, n)"

definition node_receive :: "task_ctx \<Rightarrow> string \<Rightarrow> string \<Rightarrow> vmnode \<Rightarrow> retcode \<times> vmnode" where
  "node_receive info key data n = (case ProcessReceivedData wait_now info key data n of
     Ret x \<Rightarrow> x | _ \<Rightarrow> (FAIL, n))"

text \<open>
  C14: data that a peer sends to a running task, in however many packages, is at the end of the
  queue of its key in the task, and nothing else of the task changes its queues; but when the task
  has finished or is not known, nothing is stored and the peer is told success all the same.
\<close>

theorem sent_data_reaches_task:
  "(finished_task_status n (GetWorkerId info) = None \<longrightarrow>
    task_executor_map n (GetWorkerId info) = Some (Some r # q) \<longrightarrow> worker_task r n = Some t \<longrightarrow>
    (\<exists>n' t'. iface_Send node_receive (buildTaskRequest (Some info) key data) n = (SUCCESS, n')
       \<and> worker_task r n' = Some t'
       \<and> (\<forall>k. recv_items (bt_link t') k
             = (if k = key then recv_items (bt_link t) key @ [data] else recv_items (bt_link t) k))))
   \<and> (finished_task_status n (GetWorkerId info) \<noteq> None \<or> task_executor_map n (GetWorkerId info) = None \<longrightarrow>
      iface_Send node_receive (buildTaskRequest (Some info) key data) n = (SUCCESS, n))"
proof (intro conjI impI)
  assume a: "finished_task_status n (GetWorkerId info) = None"
    "task_executor_map n (GetWorkerId info) = Some (Some r # q)" "worker_task r n = Some t"
  then have "node_receive info key data n
      = (SUCCESS, set_task r (t\<lparr>bt_link := push_recv key data (bt_link t)\<rparr>) n)"
    by (simp add: node_receive_def ProcessReceivedData_def find_task_def IsFinishedTask_def
        wait_now_def IsTaskWorkerReady_def GetWorker_def)
  moreover have "worker_task r (set_task r t' n) = Some t'" for t'
    using a(3) by (auto simp: worker_task_def set_task_def on_worker_def bind_eq_Some_conv)
  ultimately show "\<exists>n' t'. iface_Send node_receive (buildTaskRequest (Some info) key data) n = (SUCCESS, n')
       \<and> worker_task r n' = Some t'
       \<and> (\<forall>k. recv_items (bt_link t') k
             = (if k = key then recv_items (bt_link t) key @ [data] else recv_items (bt_link t) k))"
    by (simp add: iface_Send_def BuildTaskInfo_def recv_items_push)
next
  assume "finished_task_status n (GetWorkerId info) \<noteq> None \<or> task_executor_map n (GetWorkerId info) = None"
  then have "node_receive info key data n = (FAIL, n)"
    by (cases "finished_task_status n (GetWorkerId info)")
       (auto simp: node_receive_def ProcessReceivedData_def find_task_def IsFinishedTask_def
        wait_now_def IsTaskWorkerReady_def Let_def)
  then show "iface_Send node_receive (buildTaskRequest (Some info) key data) n = (SUCCESS, n)"
    by (simp add: iface_Send_def BuildTaskInfo_def)
qed

theorem sent_data_reaches_task_witness:
  "\<exists>n' t'. iface_Send node_receive (buildTaskRequest (Some (pr_info demo_req)) ''k'' ''abc'')
       ((node2 0 demo_req)\<lparr>task_executor_map := [''r1'' \<mapsto> [Some 0]]\<rparr>) = (SUCCESS, n')
     \<and> worker_task 0 n' = Some t' \<and> recv_items (bt_link t') ''k'' = [''abc'']"
  using sent_data_reaches_task [of "(node2 0 demo_req)\<lparr>task_executor_map := [''r1'' \<mapsto> [Some 0]]\<rparr>"
      "pr_info demo_req" 0 "[]" new_base_task "''k''" "''abc''"]
  by (auto simp: node2_def node1_def new_vmnode_def GetWorkerId_def demo_req_def worker_task_def
      running_worker_def new_base_task_def recv_items_def new_link_ctx_def)

section \<open>Where the threads go wrong\<close>

lemma reach_step:
  "reachable env proxy s \<Longrightarrow> node_step env proxy s s' \<Longrightarrow> s' = t \<Longrightarrow> reachable env proxy t"
  using reachable.step by blast

text \<open>The rest of the run in which the executor is faster than the handler of the request.\<close>

lemma reach_removed_first:
  assumes "starts env proxy req" "\<not> pr_manual_launch req"
  shows "\<exists>ms n. reachable env proxy (exec_state n [job_at req (HDone SUCCESS) XDone] ms)
    \<and> m_queue (task_manage_queue n) = [(GetWorkerId (pr_info req), None, kDel),
          (GetWorkerId (pr_info req), Some 0, kAdd)]
    \<and> task_executor_map n = Map.empty \<and> \<not> stop_flag (task_manage_queue n) \<and> \<not> node_stop n"
proof -
  let ?info = "pr_info req"
  let ?w = "(running_worker ?info)\<lparr>process_handler := False\<rparr>"
  let ?n3 = "(node2 0 req)\<lparr>wheap := [0 \<mapsto> ?w]\<rparr>"
  let ?n4 = "CacheLastTaskStatus (GetWorkerId ?info) ST_SUCCESS 0 ?n3"
  let ?n5 = "?n4\<lparr>task_manage_queue := tsq_push (GetWorkerId ?info, None, kDel) new_tsq\<rparr>"
  let ?n6 = "?n5\<lparr>task_manage_queue := tsq_push (GetWorkerId ?info, Some 0, kAdd)
        (task_manage_queue ?n5)\<rparr>"
  have wid: "w_worker_id ?w = GetWorkerId ?info"
    by (simp add: running_worker_def new_worker_def GetWorkerId_def)
  obtain m2 where r2: "reachable env proxy (exec_state (node2 0 req) [job_at req HWait XRun] (m2))"
    using reach_started [OF assms(1)] by blast
  obtain m where m: "ended req (Inl SUCCESS) = (XEnded ST_SUCCESS, m)"
    by (simp add: ended_def executor_report_def last_status_def)
  have r3: "reachable env proxy (exec_state ?n3 [job_at req HWait (XEnded ST_SUCCESS)] (m2 @ m))"
    by (rule reach_step [OF r2], rule node_step.Finish_process
        [where i = 0 and j = "job_at req HWait XRun" and out = "Inr 0" and w' = ?w])
       (use assms(1) m in \<open>auto simp: starts_def node2_def end_process_def send_out_def set_job_def
          on_worker_def\<close>)
  have r4: "reachable env proxy (exec_state ?n4 [job_at req HWait XCached] (m2 @ m))"
    by (rule reach_step [OF r3], rule node_step.Cache
        [where i = 0 and j = "job_at req HWait (XEnded ST_SUCCESS)" and now = 0])
       (use assms(2) wid in \<open>auto simp: set_job_def executor_cache_def\<close>)
  have r5: "reachable env proxy (exec_state ?n5 [job_at req HWait XDone] (m2 @ m))"
    by (rule reach_step [OF r4], rule node_step.Remove [where i = 0 and j = "job_at req HWait XCached"])
       (use wid in \<open>auto simp: set_job_def executor_remove_def CacheLastTaskStatus_def node2_def
          node1_def new_vmnode_def\<close>)
  have "reachable env proxy (exec_state ?n6 [job_at req (HDone SUCCESS) XDone] (m2 @ m))"
    by (rule reach_step [OF r5], rule node_step.Ready [where i = 0 and j = "job_at req HWait XDone"])
       (auto simp: set_job_def send_out_def execute_end_def waitForTaskReady_def CacheLastTaskStatus_def
          running_worker_def)
  then show ?thesis
    by (intro exI [of _ "m2 @ m"] exI [of _ ?n6])
       (simp add: CacheLastTaskStatus_def node2_def node1_def new_vmnode_def)
qed

text \<open>
  A step of the node that nobody outside has a hand in for one identifier: not a request to execute
  a task of it, nor a call to stop it, nor the scheduler's call to kill it.
\<close>

definition asked_from_outside :: "string \<Rightarrow> nstate \<Rightarrow> nstate \<Rightarrow> bool" where
  "asked_from_outside wid s s' \<longleftrightarrow>
     (\<exists>info. GetWorkerId info = wid \<and> s' = s\<lparr>nd := snd (StopTask info (nd s))\<rparr>)
     \<or> (\<exists>info rc n. GetWorkerId info = wid \<and> KillTask info SCHEDULER_EXEC (nd s) = Ret (rc, n) \<and> s' = s\<lparr>nd := n\<rparr>)
     \<or> (\<exists>now req r n. GetWorkerId (pr_info req) = wid \<and> execute_begin now req (nd s) = (Some r, n)
          \<and> s' = s\<lparr>nd := n, jobs := jobs s @ [\<lparr>j_req = req, j_ref = r, j_handler = HWait, j_exec = XStart\<rparr>]\<rparr>)"

definition own_step :: "exec_env \<Rightarrow> node \<Rightarrow> string \<Rightarrow> nstate \<Rightarrow> nstate \<Rightarrow> bool" where
  "own_step env proxy wid s s' \<longleftrightarrow> node_step env proxy s s' \<and> \<not> asked_from_outside wid s s'"

text \<open>
  A worker is left over when it is in the table, its removal is not asked for, and the threads of
  all tasks of its identifier have ended.
\<close>

definition no_removal :: "string \<Rightarrow> vmnode \<Rightarrow> bool" where
  "no_removal wid n \<longleftrightarrow>
     (\<forall>x ty. (wid, x, ty) \<in> set (m_queue (task_manage_queue n)) \<longrightarrow> ty = kAdd \<or> ty = kUnknown)"

definition left_over :: "string \<Rightarrow> nstate \<Rightarrow> bool" where
  "left_over wid s \<longleftrightarrow> IsTaskWorkerReady False wid (nd s) \<and> no_removal wid (nd s)
     \<and> (\<forall>j \<in> set (jobs s). GetWorkerId (pr_info (j_req j)) = wid \<longrightarrow> j_exec j = XDone)"

definition same_tables :: "vmnode \<Rightarrow> vmnode \<Rightarrow> bool" where
  "same_tables n n' \<longleftrightarrow>
     task_executor_map n' = task_executor_map n \<and> task_manage_queue n' = task_manage_queue n"

lemma left_over_same:
  "same_tables (nd s) n \<Longrightarrow> left_over wid s \<Longrightarrow> left_over wid (s\<lparr>nd := n\<rparr>)"
  by (simp add: left_over_def same_tables_def IsTaskWorkerReady_def no_removal_def)

lemma left_over_set_job:
  assumes "left_over wid s" "i < length (jobs s)" "j_req j = j_req (jobs s ! i)"
    "j_exec (jobs s ! i) = XDone \<longrightarrow> j_exec j = XDone"
  shows "left_over wid (set_job i j s)"
proof -
  have "jobs s ! i \<in> set (jobs s)" using assms(2) by simp
  moreover have "k = j \<or> k \<in> set (jobs s)" if "k \<in> set ((jobs s)[i := j])" for k
    using that set_update_subset_insert [of "jobs s" i j] by blast
  ultimately show ?thesis using assms unfolding left_over_def set_job_def
    by (metis select_convs(1) select_convs(2) surjective update_convs(2))
qed

lemma left_over_send_out [simp]: "left_over wid (send_out ms s) = left_over wid s"
  by (simp add: left_over_def send_out_def)
lemma same_tables_trans: "same_tables n n' \<Longrightarrow> same_tables n' n'' \<Longrightarrow> same_tables n n''"
  by (simp add: same_tables_def)

lemma same_tables_refl [simp]: "same_tables n n"
  by (simp add: same_tables_def)

lemma same_tables_on_worker [simp]:
  "same_tables n (on_worker r f n)" "same_tables n (set_task r t n)"
  by (simp_all add: same_tables_def on_worker_def set_task_def)

lemma same_tables_kill_all: "same_tables n (kill_all xs n)"
proof (induction xs arbitrary: n)
  case (Cons x xs)
  have "same_tables n (case x of None \<Rightarrow> n | Some r \<Rightarrow> on_worker r (\<lambda>w. snd (worker_kill w)) n)"
    by (simp split: option.splits)
  with Cons.IH same_tables_trans show ?case unfolding kill_all.simps by blast
qed (simp add: same_tables_def)

lemma same_tables_rounds:
  "kill_round n = Some n' \<Longrightarrow> same_tables n n'" "clean_round n = Some n' \<Longrightarrow> same_tables n n'"
  "clean_cache_round now n = Some n' \<Longrightarrow> same_tables n n'"
  "clean_scheduler_round now ft n = Some (ft', n') \<Longrightarrow> same_tables n n'"
proof -
  show "same_tables n n'" if round: "kill_round n = Some n'"
  proof -
    obtain res q where p: "tsq_wait_and_pop (kill_task_queue n) = (res, q)" by fastforce
    then obtain xs where "n' = kill_all xs (n\<lparr>kill_task_queue := q\<rparr>)"
      using round by (cases res) (auto simp: kill_round_def split: if_splits)
    moreover have "same_tables n (n\<lparr>kill_task_queue := q\<rparr>)" by (simp add: same_tables_def)
    ultimately show ?thesis using same_tables_kill_all same_tables_trans by blast
  qed
qed (auto simp: clean_round_def clean_cache_round_def clean_scheduler_round_def erase_schedulers_def
      Let_def same_tables_def split: prod.splits pop_result.splits if_splits)

lemma same_tables_update: "update_worker st r n = Ret (rc, n') \<Longrightarrow> same_tables n n'"
  by (auto simp: update_worker_def cbind_Ret_iff same_tables_def split: option.splits)

lemma same_tables_reports:
  "UpdateTaskStatus st n = Ret (rc, n') \<Longrightarrow> same_tables n n'"
  "FetchTaskStatus info n = (sts, n') \<Longrightarrow> same_tables n n'"
  "KillTask info CLIENT_EXEC n = Ret (rc, n') \<Longrightarrow> same_tables n n'"
  by (auto simp: UpdateTaskStatus_def FetchTaskStatus_def KillTask_def cbind_Ret_iff
      dest: same_tables_update split: option.splits prod.splits if_splits) (simp_all add: same_tables_def)

lemma same_tables_schedule:
  "scheduler_func r servers cfg n = Some (calls, n') \<Longrightarrow> same_tables n n'"
  "dispatch_end self r res n = (out, n') \<Longrightarrow> same_tables n n'"
  "dispatch_begin req n = (r, n') \<Longrightarrow> same_tables n n'"
  "execute_begin now req n = (r', n') \<Longrightarrow> same_tables n n'"
proof -
  show "same_tables n n'" if "dispatch_end self r res n = (out, n')"
    using that by (auto simp: dispatch_end_def split: dispatch_result.splits)
qed (auto simp: scheduler_func_def bind_eq_Some_conv Let_def dispatch_begin_def CreateWorker_def
      execute_begin_def IsDuplicateTask_def CleanDuplicateTaskIdFilter_def same_tables_def
      split: option.splits if_splits prod.splits)

lemma same_tables_data:
  "ProcessReceivedData (\<lambda>_ n. (rc, n)) info key d n = Ret (ret, n') \<Longrightarrow> same_tables n n'"
  "ProcessSendData (\<lambda>_ n. (rc, n)) info key n = Ret (res, n') \<Longrightarrow> same_tables n n'"
  "ProcessForwardData (\<lambda>_ n. (rc, n)) info key n = Ret (res, n') \<Longrightarrow> same_tables n n'"
  "ProcessCompleteStatus (\<lambda>_ n. (rc, n)) info key k n = Ret (res', n') \<Longrightarrow> same_tables n n'"
  by (auto simp: ProcessReceivedData_def ProcessSendData_def ProcessForwardData_def
      ProcessCompleteStatus_def Let_def elim!: find_task_cases split: option.splits prod.splits)

lemma same_tables_executor:
  "executor_start env req r n = Some (st, ms, n') \<Longrightarrow> same_tables n n'"
  "same_tables n (executor_cache r st' now n)"
  by (auto simp: executor_start_def executor_cache_def CacheLastTaskStatus_def same_tables_def
      split: option.splits prod.splits)

lemma left_over_manage:
  assumes "manage_round (nd s) = Some n" "left_over wid s"
  shows "left_over wid (s\<lparr>nd := n\<rparr>)"
proof -
  obtain res q where p: "tsq_wait_and_pop (task_manage_queue (nd s)) = (res, q)" by fastforce
  with assms(1) obtain wid' x ty where res: "res = Popped (wid', x, ty)"
    by (cases res) (auto simp: manage_round_def)
  let ?n = "(nd s)\<lparr>task_manage_queue := q\<rparr>"
  have q: "m_queue (task_manage_queue (nd s)) = (wid', x, ty) # m_queue q"
    using p res by (auto dest: wait_and_pop_set)
  with assms(2) have "no_removal wid ?n" "wid' = wid \<longrightarrow> ty = kAdd \<or> ty = kUnknown"
    by (auto simp: left_over_def no_removal_def)
  moreover have "n = (case ty of kAdd \<Rightarrow> ExecuteAddTaskOperation wid' x ?n | kDel \<Rightarrow> ExecuteDelTaskOperation wid' ?n
      | kKill \<Rightarrow> ExecuteKillTaskOperation wid' ?n | kUnknown \<Rightarrow> ?n)"
    using assms(1) p res by (auto simp: manage_round_def Let_def split: if_splits)
  ultimately show ?thesis using assms(2)
    by (cases ty) (auto simp: left_over_def no_removal_def IsTaskWorkerReady_def ExecuteAddTaskOperation_def
        ExecuteDelTaskOperation_def ExecuteKillTaskOperation_def split: option.splits)
qed

lemma no_removal_push:
  "wid' = wid \<longrightarrow> ty = kAdd \<Longrightarrow> no_removal wid n \<Longrightarrow>
   no_removal wid (n\<lparr>task_manage_queue := tsq_push (wid', x, ty) (task_manage_queue n)\<rparr>)"
  by (auto simp: no_removal_def tsq_push_def tsq_emplace_def)

lemma left_over_push:
  "wid' = wid \<longrightarrow> ty = kAdd \<Longrightarrow> left_over wid s \<Longrightarrow>
   left_over wid (s\<lparr>nd := (nd s)\<lparr>task_manage_queue := tsq_push (wid', x, ty) (task_manage_queue (nd s))\<rparr>\<rparr>)"
  by (auto simp: left_over_def IsTaskWorkerReady_def intro: no_removal_push)

lemma left_over_step: "node_step env proxy s s' \<Longrightarrow> \<not> asked_from_outside wid s s' \<Longrightarrow> node_inv s \<Longrightarrow>
   left_over wid s \<Longrightarrow> left_over wid s'"
proof (induction rule: node_step.induct)
  case (Request now req s r n)
  then have "GetWorkerId (pr_info req) \<noteq> wid" unfolding asked_from_outside_def by blast
  with left_over_same [OF same_tables_schedule(4) [OF Request.hyps] Request.prems(3)] show ?case
    by (auto simp: left_over_def)
next
  case (Start i s j st ms n x ms')
  then have "left_over wid (s\<lparr>nd := n\<rparr>)" using left_over_same same_tables_executor(1) by blast
  with Start.hyps show ?case by (auto intro!: left_over_set_job)
next
  case (Finish_thread i s j out x ms)
  then show ?case by (auto intro!: left_over_set_job)
next
  case (Finish_process i s j w out rc w' x ms)
  have "left_over wid (s\<lparr>nd := on_worker (j_ref j) (\<lambda>_. w') (nd s)\<rparr>)"
    by (rule left_over_same [OF _ Finish_process.prems(3)]) simp
  with Finish_process.hyps show ?case by (auto intro!: left_over_set_job)
next
  case (Cache i s j st now)
  have "left_over wid (s\<lparr>nd := executor_cache (j_ref j) st now (nd s)\<rparr>)"
    by (rule left_over_same [OF same_tables_executor(2) Cache.prems(3)])
  with Cache.hyps show ?case by (auto intro!: left_over_set_job)
next
  case (Manual i s j st)
  then show ?case by (auto intro!: left_over_set_job)
next
  case (Remove i s j)
  have j: "j \<in> set (jobs s)" using Remove.hyps by simp
  then obtain w where w: "wheap (nd s) (j_ref j) = Some w" "w_worker_id w = GetWorkerId (pr_info (j_req j))"
    using Remove.prems(2) by (auto simp: node_inv_def jobs_ok_def)
  have "w_worker_id w \<noteq> wid" using Remove.prems(3) Remove.hyps(3) j w(2) by (auto simp: left_over_def)
  then have "left_over wid (s\<lparr>nd := executor_remove (j_ref j) (nd s)\<rparr>)"
    using Remove.prems(3) by (auto simp: executor_remove_def w(1) intro: left_over_push)
  with Remove.hyps show ?case by (auto intro!: left_over_set_job)
next
  case (Ready i s j rc ms n)
  then have "left_over wid (s\<lparr>nd := n\<rparr>)"
    by (auto simp: execute_end_def bind_eq_Some_conv intro: left_over_push split: if_splits)
  with Ready.hyps show ?case by (auto intro!: left_over_set_job)
next
  case (Stop s info)
  then have "GetWorkerId info \<noteq> wid" unfolding asked_from_outside_def by blast
  with Stop.prems(3) show ?case by (auto simp: StopTask_def intro: left_over_push)
next
  case (Kill info ex s rc n)
  show ?case
  proof (cases ex)
    case CLIENT_EXEC
    with Kill.hyps Kill.prems(3) show ?thesis using left_over_same same_tables_reports(3) by blast
  next
    case SCHEDULER_EXEC
    with Kill have "GetWorkerId info \<noteq> wid" unfolding asked_from_outside_def by blast
    with SCHEDULER_EXEC Kill.hyps Kill.prems(3) show ?thesis
      by (auto simp: KillTask_def intro: left_over_push split: if_splits)
  qed
next
  case (Dispatch req s r n)
  from left_over_same [OF same_tables_schedule(3) [OF Dispatch.hyps] Dispatch.prems(3)] show ?case
    by (simp add: left_over_def)
next
  case (Dispatched i s d self res'' rc reply x' n)
  from left_over_same [OF same_tables_schedule(2) [OF Dispatched.hyps(4)] Dispatched.prems(3)] show ?case
    by (simp add: left_over_def)
next
  case (Verdict i s d servers cfg calls n)
  from left_over_same [OF same_tables_schedule(1) [OF Verdict.hyps(4)] Verdict.prems(3)] show ?case
    by (simp add: left_over_def)
next
  case (Clean_scheduler now s ft n)
  from left_over_same [OF same_tables_rounds(4) [OF Clean_scheduler.hyps] Clean_scheduler.prems(3)] show ?case
    by (simp add: left_over_def)
qed (auto intro: left_over_same left_over_manage same_tables_schedule same_tables_rounds same_tables_reports
    same_tables_data)

lemma left_over_own_steps:
  assumes "(own_step env proxy wid)\<^sup>*\<^sup>* s s'" "node_inv s" "left_over wid s"
  shows "left_over wid s'"
proof -
  from assms have "left_over wid s' \<and> node_inv s'"
    by (induction rule: rtranclp_induct) (auto simp: own_step_def intro: left_over_step inv_step)
  then show ?thesis ..
qed

text \<open>
  C29: an executor that ends before its request's handler has put the worker up asks for the removal
  first. The worker then enters the table after its removal: both threads of the task have ended and
  the management queue is empty, but the worker is in the table, and it is there in every state that
  follows, whatever the node's threads and other tasks do, for as long as nobody outside asks for
  the identifier to be stopped or killed or has another task of it executed.
\<close>

theorem late_add_leaks_worker:
  assumes "starts env proxy req" "\<not> pr_manual_launch req"
  shows "\<exists>s. reachable env proxy s \<and> jobs s = [job_at req (HDone SUCCESS) XDone]
    \<and> m_queue (task_manage_queue (nd s)) = []
    \<and> (\<forall>s'. (own_step env proxy (GetWorkerId (pr_info req)))\<^sup>*\<^sup>* s s'
          \<longrightarrow> IsTaskWorkerReady False (GetWorkerId (pr_info req)) (nd s'))"
proof -
  let ?wid = "GetWorkerId (pr_info req)"
  obtain ms n where r: "reachable env proxy (exec_state n [job_at req (HDone SUCCESS) XDone] ms)"
    (is "reachable _ _ ?s") and n: "m_queue (task_manage_queue n) = [(?wid, None, kDel), (?wid, Some 0, kAdd)]"
    "task_executor_map n = Map.empty" "\<not> stop_flag (task_manage_queue n)" "\<not> node_stop n"
    using reach_removed_first [OF assms] by blast
  let ?q1 = "(task_manage_queue n)\<lparr>m_queue := [(?wid, Some 0, kAdd)]\<rparr>"
  let ?n1 = "n\<lparr>task_manage_queue := ?q1\<rparr>"
  have "manage_round n = Some ?n1"
    using n by (simp add: manage_round_def tsq_wait_and_pop_def tsq_empty_def ExecuteDelTaskOperation_def)
  then have r1: "reachable env proxy (?s\<lparr>nd := ?n1\<rparr>)"
    by (intro reachable.step [OF r] node_step.Manage) simp
  let ?n2 = "?n1\<lparr>task_manage_queue := ?q1\<lparr>m_queue := []\<rparr>, task_executor_map := [?wid \<mapsto> [Some 0]]\<rparr>"
  have "manage_round ?n1 = Some ?n2"
    using n by (simp add: manage_round_def tsq_wait_and_pop_def tsq_empty_def ExecuteAddTaskOperation_def)
  then have r2: "reachable env proxy (?s\<lparr>nd := ?n2\<rparr>)"
    using reachable.step [OF r1 node_step.Manage [of _ ?n2]] by simp
  have "left_over ?wid (?s\<lparr>nd := ?n2\<rparr>)"
    by (simp add: left_over_def IsTaskWorkerReady_def no_removal_def)
  then have "left_over ?wid s'" if "(own_step env proxy ?wid)\<^sup>*\<^sup>* (?s\<lparr>nd := ?n2\<rparr>) s'" for s'
    by (rule left_over_own_steps [OF that reachable_inv [OF r2]])
  with r2 show ?thesis by (intro exI [of _ "?s\<lparr>nd := ?n2\<rparr>"]) (simp add: left_over_def)
qed

theorem late_add_leaks_worker_witness:
  "\<exists>s. reachable demo_env empty_node s \<and> jobs s = [job_at demo_req (HDone SUCCESS) XDone]
    \<and> m_queue (task_manage_queue (nd s)) = [] \<and> IsTaskWorkerReady False ''r1'' (nd s)"
  using late_add_leaks_worker [OF demo_starts, of empty_node]
  by (auto simp: demo_req_def GetWorkerId_def)

text \<open>A job whose start has failed without a word to the handler.\<close>

definition stuck :: "nat \<Rightarrow> nstate \<Rightarrow> bool" where
  "stuck i s \<longleftrightarrow> i < length (jobs s) \<and> j_handler (jobs s ! i) = HWait \<and> j_exec (jobs s ! i) \<noteq> XStart
     \<and> (\<exists>w. wheap (nd s) (j_ref (jobs s ! i)) = Some w \<and> task_ready w = None)"

lemma stuck_same:
  assumes "same_heap (nd s) (nd s')" "stuck i s" "i < length (jobs s')" "j_handler (jobs s' ! i) = HWait"
    "j_exec (jobs s' ! i) \<noteq> XStart" "j_ref (jobs s' ! i) = j_ref (jobs s ! i)"
  shows "stuck i s'"
proof -
  obtain w where w: "wheap (nd s) (j_ref (jobs s ! i)) = Some w" "task_ready w = None"
    using assms(2) by (auto simp: stuck_def)
  have "rel_option same_worker (Some w) (wheap (nd s') (j_ref (jobs s ! i)))"
    using assms(1) w(1) by (metis same_heap_def)
  with assms w show ?thesis by (auto simp: stuck_def same_worker_def option_rel_Some1)
qed

lemma stuck_keeps: "keeps (nd s) n \<Longrightarrow> stuck i s \<Longrightarrow> stuck i (s\<lparr>nd := n\<rparr>)"
  by (rule stuck_same [of s]) (auto simp: keeps_def stuck_def)

lemma stuck_set_job:
  assumes "stuck i s" "j_ref j = j_ref (jobs s ! k)" "j_handler j = j_handler (jobs s ! k)" "j_exec j \<noteq> XStart"
  shows "stuck i (set_job k j s)"
  using assms by (cases "k = i") (auto simp: stuck_def set_job_def)

lemma stuck_send_out [simp]: "stuck i (send_out ms s) = stuck i s"
  by (simp add: stuck_def send_out_def)

lemma manage_same_heap: "manage_round n = Some n' \<Longrightarrow> same_heap n n'"
  by (auto simp: manage_round_def ExecuteAddTaskOperation_def ExecuteDelTaskOperation_def
      ExecuteKillTaskOperation_def Let_def intro!: same_heap_fields
      split: prod.splits pop_result.splits if_splits op_type.splits option.splits)

lemma stuck_step: "node_step env proxy s s' \<Longrightarrow> node_inv s \<Longrightarrow> stuck i s \<Longrightarrow> stuck i s'"
proof (induction rule: node_step.induct)
  case (Request now req s r n)
  then have "r = next_ref (nd s)" "wheap n = (wheap (nd s))(r \<mapsto> new_worker (pr_info req))"
    by (auto simp: execute_begin_def IsDuplicateTask_def CleanDuplicateTaskIdFilter_def
        CreateWorker_def Let_def split: option.splits if_splits prod.splits)
  moreover from this Request.prems have "j_ref (jobs s ! i) \<noteq> r"
    by (fastforce simp: node_inv_def heap_ok_def stuck_def)
  ultimately show ?case using Request.prems(2) by (auto simp: stuck_def nth_append)
next
  case (Duplicate now req s n)
  then have "keeps (nd s) n"
    by (auto simp: execute_begin_def IsDuplicateTask_def CleanDuplicateTaskIdFilter_def CreateWorker_def
        Let_def intro!: keeps_refl_fields split: option.splits if_splits prod.splits)
  with Duplicate.prems stuck_keeps show ?case by blast
next
  case (Start k s j st ms n x ms')
  obtain w' where n: "n = (nd s)\<lparr>wheap := (wheap (nd s))(j_ref j \<mapsto> w')\<rparr>"
    using Start.hyps by (auto simp: executor_start_def split: option.splits prod.splits)
  have "k \<noteq> i" using Start by (auto simp: stuck_def)
  then have "j_ref j \<noteq> j_ref (jobs s ! i)"
    using Start by (auto simp: node_inv_def jobs_ok_def stuck_def distinct_conv_nth)
  with \<open>k \<noteq> i\<close> Start.prems(2) n show ?case by (simp add: stuck_def set_job_def send_out_def)
next
  case (Finish_thread k s j out x ms)
  then show ?case using stuck_set_job [of i s _ k] after_start_not_XStart(2) [of "j_req j"] by simp
next
  case (Finish_process k s j w out rc w' x ms)
  have "stuck i (s\<lparr>nd := on_worker (j_ref j) (\<lambda>_. w') (nd s)\<rparr>)"
    using Finish_process by (intro stuck_keeps keeps_end_process)
  with Finish_process.hyps show ?case
    using after_start_not_XStart(2) [of "j_req j"] by (auto intro!: stuck_set_job)
next
  case (Ready k s j rc ms n)
  have "k \<noteq> i"
  proof
    assume "k = i"
    with Ready show False by (auto simp: stuck_def execute_end_def waitForTaskReady_def)
  qed
  moreover have "wheap n = wheap (nd s)"
    using Ready.hyps by (auto simp: execute_end_def bind_eq_Some_conv split: if_splits)
  ultimately show ?case using Ready.prems(2) by (simp add: stuck_def set_job_def send_out_def)
next
  case (Manage s n)
  then show ?case using stuck_same [of s "s\<lparr>nd := n\<rparr>" i] manage_same_heap by (simp add: stuck_def)
next
  case (Cache k s j st now)
  have "stuck i (s\<lparr>nd := executor_cache (j_ref j) st now (nd s)\<rparr>)"
    by (rule stuck_keeps [OF keeps_executor(1) Cache.prems(2)])
  with Cache.hyps show ?case by (auto intro!: stuck_set_job)
next
  case (Manual k s j st)
  then show ?case using stuck_set_job [of i s _ k] by simp
next
  case (Remove k s j)
  have "stuck i (s\<lparr>nd := executor_remove (j_ref j) (nd s)\<rparr>)"
    by (rule stuck_keeps [OF keeps_executor(2) Remove.prems(2)])
  with Remove.hyps show ?case by (auto intro!: stuck_set_job)
next
  case (Dispatch req s r n)
  note n = new_ref_fields [OF Dispatch.hyps]
  with Dispatch.prems have "j_ref (jobs s ! i) \<noteq> r"
    by (fastforce simp: node_inv_def heap_ok_def stuck_def)
  then show ?case using Dispatch.prems(2) n by (auto simp: stuck_def)
next
  case (Dispatched k s d self res'' rc reply x' n)
  have "stuck i (s\<lparr>nd := n\<rparr>)" by (rule stuck_keeps [OF keeps_schedule(2) [OF Dispatched.hyps(4)] Dispatched.prems(2)])
  then show ?case by (simp add: stuck_def)
next
  case (Verdict k s d servers cfg calls n)
  have "stuck i (s\<lparr>nd := n\<rparr>)" by (rule stuck_keeps [OF keeps_schedule(1) [OF Verdict.hyps(4)] Verdict.prems(2)])
  then show ?case by (simp add: stuck_def)
next
  case (Clean_scheduler now s ft n)
  have "stuck i (s\<lparr>nd := n\<rparr>)" by (rule stuck_keeps [OF keeps_schedule(3) [OF Clean_scheduler.hyps] Clean_scheduler.prems(2)])
  then show ?case by (simp add: stuck_def)
qed (auto intro: stuck_keeps keeps_set_task keeps_rounds keeps_KillTask keeps_data keeps_UpdateTaskStatus
    keeps_FetchTaskStatus)

text \<open>
  C30: when the process of a task cannot be started, because its request is not serialized or the
  launch throws, the executor reports the failure and ends, but nobody tells the handler: it waits
  for the task to be ready in every state that can follow.
\<close>

theorem failed_start_blocks_handler:
  assumes "reachable env proxy s" "i < length (jobs s)" "j_handler (jobs s ! i) = HWait"
    "j_exec (jobs s ! i) = XStart" "ExecuteMode (j_req (jobs s ! i)) = PROCESS"
    "executor_start env (add_proxy proxy (j_req (jobs s ! i))) (j_ref (jobs s ! i)) (nd s)
       = Some (st, ms, n)" "st \<noteq> Started"
    "after_start (j_req (jobs s ! i)) st = (x, ms')"
    "(node_step env proxy)\<^sup>*\<^sup>* (send_out (ms @ ms')
       (set_job i ((jobs s ! i)\<lparr>j_exec := x\<rparr>) (s\<lparr>nd := n\<rparr>))) s'"
  shows "j_handler (jobs s' ! i) = HWait"
proof -
  let ?s1 = "send_out (ms @ ms') (set_job i ((jobs s ! i)\<lparr>j_exec := x\<rparr>) (s\<lparr>nd := n\<rparr>))"
  have step: "node_step env proxy s ?s1"
    by (rule node_step.Start [OF assms(2) refl assms(4,6,8)])
  then have inv1: "node_inv ?s1" by (rule inv_step [OF _ reachable_inv [OF assms(1)]])
  obtain w where w: "wheap (nd s) (j_ref (jobs s ! i)) = Some w" "task_ready w = None"
    using reachable_inv [OF assms(1)] assms(2,4) by (auto simp: node_inv_def jobs_ok_def)
  have "\<exists>w'. wheap n (j_ref (jobs s ! i)) = Some w' \<and> task_ready w' = None"
    using assms(5-7) w by (auto simp: executor_start_def worker_start_def start_process_def Let_def
        split: option.splits prod.splits)
  then have "stuck i ?s1"
    using assms(2,3) after_start_not_XStart(1) [OF assms(8)]
    by (simp add: stuck_def set_job_def send_out_def)
  with assms(9) inv1 have "stuck i s' \<and> node_inv s'"
    by (induction rule: rtranclp_induct) (auto intro: stuck_step inv_step)
  then show ?thesis by (simp add: stuck_def)
qed

definition broken_env :: exec_env where
  "broken_env = demo_env\<lparr>env_launch := (\<lambda>_. Some ''cannot fork'')\<rparr>"

theorem failed_start_blocks_handler_witness:
  "\<exists>s :: nstate. reachable broken_env empty_node s \<and> j_exec (jobs s ! 0) = XEnded ST_FAIL
    \<and> j_handler (jobs s ! 0) = HWait"
proof -
  let ?s = "(exec_state (node1 0 demo_req) [job_at demo_req HWait XStart] []) :: nstate"
  let ?w = "(new_worker (pr_info demo_req))\<lparr>task_ptr := Some new_base_task\<rparr>"
  let ?n = "(node1 0 demo_req)\<lparr>wheap := [0 \<mapsto> ?w]\<rparr>"
  have mode: "ExecuteMode demo_req = PROCESS" by (simp add: ExecuteMode_def demo_req_def)
  have start: "executor_start broken_env (add_proxy empty_node demo_req) 0 (node1 0 demo_req)
      = Some (Raised ''cannot fork'', [], ?n)"
  proof -
    have "worker_start broken_env (add_proxy empty_node demo_req) (new_worker (pr_info demo_req))
        = (Raised ''cannot fork'', ?w)"
      using mode by (simp add: worker_start_def start_process_def broken_env_def demo_env_def)
    moreover have "NotifyTaskStatus (add_proxy empty_node demo_req) st m = []" for st m
      by (simp add: NotifyTaskStatus_def GetSchedulerNode_def add_proxy_def demo_req_def
          SCHEDULER_NODE_def PROXY_NODE_def)
    ultimately show ?thesis by (simp add: executor_start_def node1_def)
  qed
  have after: "after_start demo_req (Raised ''cannot fork'') = (XEnded ST_FAIL, [])"
    by (simp add: after_start_def ended_def executor_report_def last_status_def NotifyTaskStatus_def
        GetSchedulerNode_def demo_req_def)
  let ?s1 = "send_out ([] @ []) (set_job 0 ((jobs ?s ! 0)\<lparr>j_exec := XEnded ST_FAIL\<rparr>) (?s\<lparr>nd := ?n\<rparr>))"
  have "reachable broken_env empty_node ?s1"
    by (rule reachable.step [OF reach_requested], rule node_step.Start) (use start after in simp_all)
  moreover have "j_handler (jobs ?s1 ! 0) = HWait"
    by (rule failed_start_blocks_handler [OF reach_requested _ _ _ _ _ _ _ rtranclp.rtrancl_refl])
       (use mode start after in \<open>simp_all\<close>)
  moreover have "j_exec (jobs ?s1 ! 0) = XEnded ST_FAIL" by (simp add: send_out_def set_job_def)
  ultimately show ?thesis by blast
qed

section \<open>Scheduling\<close>

lemma fetch_loop_all:
  "length (m_queue (task_statuses w)) \<le> k \<Longrightarrow> fetch_loop k w
    = (m_queue (task_statuses w) @ [empty_task_status],
       w\<lparr>task_statuses := (task_statuses w)\<lparr>m_queue := []\<rparr>\<rparr>)"
proof (induction k arbitrary: w)
  case 0
  then have "tsq_try_pop (task_statuses w) = (None, task_statuses w)"
    "task_statuses w = (task_statuses w)\<lparr>m_queue := []\<rparr>" by (simp_all add: tsq_try_pop_def)
  with 0 show ?case by (subst fetch_loop.simps) (simp add: fetchTaskStatus_def)
next
  case (Suc k)
  show ?case
  proof (cases "m_queue (task_statuses w)")
    case Nil
    then have "tsq_try_pop (task_statuses w) = (None, task_statuses w)"
      "task_statuses w = (task_statuses w)\<lparr>m_queue := []\<rparr>" by (simp_all add: tsq_try_pop_def)
    with Nil show ?thesis by (subst fetch_loop.simps) (simp add: fetchTaskStatus_def)
  next
    case (Cons st sts)
    then have "tsq_try_pop (task_statuses w) = (Some st, (task_statuses w)\<lparr>m_queue := sts\<rparr>)"
      by (simp add: tsq_try_pop_def)
    with Cons Suc.prems Suc.IH [of "w\<lparr>task_statuses := (task_statuses w)\<lparr>m_queue := sts\<rparr>\<rparr>"]
    show ?thesis by (subst fetch_loop.simps) (simp add: fetchTaskStatus_def)
  qed
qed

text \<open>
  C32: a client that asks for the status of a scheduled task is given the reports that have come
  since it last asked, in their order, and they are not given again; but each answer ends with an
  empty report, which reads as a party without a name that is running.
\<close>

theorem fetch_gives_reports:
  assumes "GetSchedulerWorker info n = Some r" "wheap n r = Some w"
  shows "FetchTaskStatus info n = (m_queue (task_statuses w) @ [empty_task_status],
      n\<lparr>wheap := (wheap n)(r \<mapsto> w\<lparr>task_statuses := (task_statuses w)\<lparr>m_queue := []\<rparr>\<rparr>)\<rparr>)
    \<and> ts_status empty_task_status = ST_RUNNING \<and> ts_party empty_task_status = []"
  using assms by (simp add: FetchTaskStatus_def fetch_loop_all empty_task_status_def)

theorem fetch_gives_reports_witness:
  "fst (FetchTaskStatus empty_task_ctx (new_vmnode\<lparr>task_scheduler_map := [[] \<mapsto> 0],
     wheap := [0 \<mapsto> (new_worker empty_task_ctx)\<lparr>task_statuses :=
        tsq_push (demo_status ''a'' ST_SUCCESS) new_tsq\<rparr>]\<rparr>))
   = [demo_status ''a'' ST_SUCCESS, empty_task_status]"
  using fetch_gives_reports [of empty_task_ctx "new_vmnode\<lparr>task_scheduler_map := [[] \<mapsto> 0],
     wheap := [0 \<mapsto> (new_worker empty_task_ctx)\<lparr>task_statuses :=
        tsq_push (demo_status ''a'' ST_SUCCESS) new_tsq\<rparr>]\<rparr>" 0]
  by (simp add: GetSchedulerWorker_def GetWorkerId_def empty_task_ctx_def)












text \<open>
  C34: of the requests to execute a task, one that comes within 30 seconds of an accepted one with
  the same identifiers is refused without a worker, and one that comes later is accepted. The key
  joins the identifiers with an underscore.
\<close>

theorem duplicates_refused_for_a_while:
  assumes "execute_begin now req n = (Some r, n1)" "task_uid (pr_info req') = task_uid (pr_info req)"
  shows "fst (execute_begin now' req' n1) = (if now' - now > 30 then Some (next_ref n1) else None)"
proof -
  have "duplicate_task_id_filter n1 (task_uid (pr_info req)) = Some now"
    using assms(1) by (auto simp: execute_begin_def IsDuplicateTask_def CreateWorker_def Let_def
        split: option.splits if_splits)
  then show ?thesis
    using assms(2) by (simp add: execute_begin_def CleanDuplicateTaskIdFilter_def IsDuplicateTask_def
        CreateWorker_def task_id_timeout_s_def Let_def)
qed

theorem duplicates_refused_for_a_while_witness:
  "fst (execute_begin 30 demo_req (node1 0 demo_req)) = None
   \<and> fst (execute_begin 31 demo_req (node1 0 demo_req)) = Some 1"
proof -
  have "execute_begin 0 demo_req new_vmnode = (Some 0, node1 0 demo_req)"
    by (simp add: execute_begin_def CleanDuplicateTaskIdFilter_def IsDuplicateTask_def CreateWorker_def
        new_vmnode_def map_insert_def node1_def)
  note d = duplicates_refused_for_a_while [OF this refl]
  from d [of 30] d [of 31] show ?thesis by (simp add: node1_def)
qed

section \<open>The wait for a worker\<close>

text \<open>The question that ends the wait.\<close>
definition wait_over :: "(nat \<Rightarrow> bool) \<Rightarrow> (nat \<Rightarrow> int) \<Rightarrow> int \<Rightarrow> nat \<Rightarrow> bool" where
  "wait_over ready elapsed t i \<longleftrightarrow> ready i \<or> (t \<noteq> -1 \<and> elapsed i > t)"

lemma wait_skips:
  assumes "\<forall>k. i \<le> k \<and> k < i + d \<longrightarrow> \<not> wait_over ready elapsed t k"
  shows "WaitUntilWorkerReady ready elapsed t i = WaitUntilWorkerReady ready elapsed t (i + d)"
  using assms
proof (induction d arbitrary: i)
  case (Suc d)
  have "\<not> wait_over ready elapsed t i" using Suc.prems by simp
  then have "WaitUntilWorkerReady ready elapsed t i = WaitUntilWorkerReady ready elapsed t (Suc i)"
    by (subst WaitUntilWorkerReady.simps) (auto simp: wait_over_def)
  also have "\<dots> = WaitUntilWorkerReady ready elapsed t (Suc i + d)"
    by (rule Suc.IH) (use Suc.prems in auto)
  finally show ?case by simp
qed simp

lemma wait_returns_over:
  assumes "WaitUntilWorkerReady ready elapsed t i = Some r"
  shows "\<exists>k. wait_over ready elapsed t k"
proof (rule WaitUntilWorkerReady.raw_induct [where P = "\<lambda>ready elapsed t i r. \<exists>k. wait_over ready elapsed t k", OF _ assms])
  fix f :: "(nat \<Rightarrow> bool) \<Rightarrow> (nat \<Rightarrow> int) \<Rightarrow> int \<Rightarrow> nat \<Rightarrow> retcode option" and ready elapsed t i r
  assume IH: "\<And>ready elapsed t i r. f ready elapsed t i = Some r \<Longrightarrow> \<exists>k. wait_over ready elapsed t k"
    and s: "(if ready i then Some SUCCESS else if t = - 1 then f ready elapsed t (Suc i)
      else if t < elapsed i then Some FAIL else f ready elapsed t (Suc i)) = Some r"
  show "\<exists>k. wait_over ready elapsed t k"
  proof (cases "wait_over ready elapsed t i")
    case False
    then have "f ready elapsed t (Suc i) = Some r" using s by (auto simp: wait_over_def split: if_splits)
    then show ?thesis by (rule IH)
  qed blast
qed

lemma wait_over_returns:
  "wait_over ready elapsed t i \<Longrightarrow> WaitUntilWorkerReady ready elapsed t i = Some (if ready i then SUCCESS else FAIL)"
  by (subst WaitUntilWorkerReady.simps) (auto simp: wait_over_def)

text \<open>
  C35: the wait for a worker returns exactly when the worker becomes ready at some question or the
  clock passes the timeout at one, with the answer of the first such question; with the timeout -1
  it returns only when the worker becomes ready.
\<close>

theorem wait_ends:
  "WaitUntilWorkerReady ready elapsed t 0 =
    (if \<exists>i. wait_over ready elapsed t i
     then Some (if ready (LEAST i. wait_over ready elapsed t i) then SUCCESS else FAIL) else None)"
proof (cases "\<exists>i. wait_over ready elapsed t i")
  case True
  let ?i = "LEAST i. wait_over ready elapsed t i"
  have i: "wait_over ready elapsed t ?i" using True by (rule LeastI_ex)
  have "WaitUntilWorkerReady ready elapsed t 0 = WaitUntilWorkerReady ready elapsed t (0 + ?i)"
    by (rule wait_skips) (auto dest: not_less_Least)
  also have "\<dots> = Some (if ready ?i then SUCCESS else FAIL)"
    by (simp add: wait_over_returns [OF i])
  finally show ?thesis using True by simp
next
  case False
  then show ?thesis using wait_returns_over [of ready elapsed t 0] by (cases "WaitUntilWorkerReady ready elapsed t 0") auto
qed

end
