(* ===== verification/Aby3_Operator.thy ===== *)
theory Aby3_Operator
  imports Express_Correct Complex_Main
begin

text \<open>
  The operators of the three-party protocol (src/fediux/operator/aby3_operator.{h,cc}). Each of the
  three parties holds two of the three summands of a secret. What a party computes on its own part
  is a function of its index and that part; a call in which the parties exchange messages is given
  for the three together. The aby3 library and the arithmetic of its matrices are parameters.
\<close>

section \<open>Matrices and shares\<close>

text \<open>
  A matrix is its shape and its entries row by row. Party \<open>p\<close> holds the summands \<open>p\<close> and \<open>p - 1\<close>
  of a shared matrix. Entries are added with wrap-around.
\<close>

record matrix =
  m_rows :: nat
  m_cols :: nat
  m_at :: "i64 list"

record smatrix =
  sm_rows :: nat
  sm_cols :: nat
  sm_0 :: "i64 list"
  sm_1 :: "i64 list"

type_synonym si64 = "i64 \<times> i64"

text \<open>A sharing: the parts of the parties 0, 1 and 2.\<close>

type_synonym sharing = "nat \<Rightarrow> smatrix"

definition sm_shape :: "smatrix \<Rightarrow> nat \<times> nat" where
  "sm_shape s = (sm_rows s, sm_cols s)"

definition sm_wf :: "smatrix \<Rightarrow> bool" where
  "sm_wf s \<longleftrightarrow> length (sm_0 s) = sm_rows s * sm_cols s \<and> length (sm_1 s) = sm_rows s * sm_cols s"

text \<open>The parts fit together when the common summands are equal, and then hide their sum.\<close>

definition consistent :: "sharing \<Rightarrow> bool" where
  "consistent J \<longleftrightarrow> sm_wf (J 0) \<and> sm_wf (J 1) \<and> sm_wf (J 2)
     \<and> sm_shape (J 1) = sm_shape (J 0) \<and> sm_shape (J 2) = sm_shape (J 0)
     \<and> sm_1 (J 0) = sm_0 (J 2) \<and> sm_1 (J 1) = sm_0 (J 0) \<and> sm_1 (J 2) = sm_0 (J 1)"

definition add3 :: "i64 list \<Rightarrow> i64 list \<Rightarrow> i64 list \<Rightarrow> i64 list" where
  "add3 xs ys zs = map2 (+) (map2 (+) xs ys) zs"

definition secret :: "sharing \<Rightarrow> i64 list" where
  "secret J = add3 (sm_0 (J 0)) (sm_0 (J 1)) (sm_0 (J 2))"

text \<open>
  The library: the sum and difference of two parts, the negation of a matrix of integers, the
  product of a part with a constant, which are local; and, for the parties together, sharing, as
  its owner and as another party, the entry-wise and the matrix product, revealing to a party, and
  the piecewise polynomials. \<open>lb_fx\<close> is the fixed-point representation of a number, \<open>lb_unfx\<close> its
  converse, and products of fixed-point matrices are truncated.
\<close>

record 'm aby3_lib =
  lb_plus :: "smatrix \<Rightarrow> smatrix \<Rightarrow> smatrix"
  lb_minus :: "smatrix \<Rightarrow> smatrix \<Rightarrow> smatrix"
  lb_neg :: "i64 list \<Rightarrow> i64 list"
  lb_const_mul :: "i64 \<Rightarrow> smatrix \<Rightarrow> smatrix"
  lb_const_fx_mul :: "i64 \<Rightarrow> sharing \<Rightarrow> 'm \<Rightarrow> sharing \<times> 'm"
  lb_share :: "nat \<Rightarrow> nat \<Rightarrow> i64 list \<Rightarrow> 'm \<Rightarrow> sharing \<times> 'm"
  lb_remote :: "nat \<Rightarrow> nat \<Rightarrow> 'm \<Rightarrow> sharing \<times> 'm"
  lb_mul :: "sharing \<Rightarrow> sharing \<Rightarrow> 'm \<Rightarrow> sharing \<times> 'm"
  lb_dot_mul :: "sharing \<Rightarrow> sharing \<Rightarrow> 'm \<Rightarrow> sharing \<times> 'm"
  lb_dot_mul_fx :: "sharing \<Rightarrow> sharing \<Rightarrow> 'm \<Rightarrow> sharing \<times> 'm"
  lb_reveal :: "nat \<Rightarrow> sharing \<Rightarrow> 'm \<Rightarrow> i64 list \<times> 'm"
  lb_reveal_all :: "sharing \<Rightarrow> 'm \<Rightarrow> i64 list \<times> 'm"
  lb_piecewise :: "rat list \<Rightarrow> rat list list \<Rightarrow> sharing \<Rightarrow> 'm \<Rightarrow> sharing \<times> 'm"
  lb_fx :: "rat \<Rightarrow> i64"
  lb_unfx :: "i64 \<Rightarrow> rat"

text \<open>The three parties' results of local code, which may throw.\<close>

definition jointly :: "(nat \<Rightarrow> 'a cpp) \<Rightarrow> (nat \<Rightarrow> 'a) cpp" where
  "jointly f = cbind (f 0) (\<lambda>a. cbind (f 1) (\<lambda>b. cbind (f 2) (\<lambda>c.
     Ret (\<lambda>p. if p = 0 then a else if p = 1 then b else c))))"

lemma jointly_results:
  assumes "\<forall>p < 3. f p = Ret (g p)"
  shows "jointly f = Ret (\<lambda>p. if p = 0 then g 0 else if p = 1 then g 1 else g 2)"
  using assms by (simp add: jointly_def flip: One_nat_def)

lemma jointly_Ret_all:
  assumes "\<forall>p < 3. f p = Ret (g p)"
  shows "\<exists>h. jointly f = Ret h \<and> (\<forall>p < 3. h p = g p)"
proof -
  have "\<forall>p < 3. (\<lambda>p. if p = 0 then g 0 else if p = 1 then g 1 else g 2) p = g p"
  proof (intro allI impI)
    fix p :: nat
    assume "p < 3"
    then have "p = 0 \<or> p = 1 \<or> p = 2" by auto
    then show "(if p = 0 then g 0 else if p = 1 then g 1 else g 2) = g p" by auto
  qed
  then show ?thesis using jointly_results [OF assms] by blast
qed

section \<open>Local operators\<close>

(* src/src/fediux/operator/aby3_operator.cc:146-153 MPCOperator::MPC_Add *)
definition MPC_Add :: "'m aby3_lib \<Rightarrow> smatrix list \<Rightarrow> smatrix cpp" where
  "MPC_Add lib ss = (case ss of [] \<Rightarrow> Undef | s # ts \<Rightarrow> Ret (foldl (lb_plus lib) s ts))"

(* src/src/fediux/operator/aby3_operator.cc:155-162 MPCOperator::MPC_Add_Const *)
definition MPC_Add_Const_si64 :: "nat \<Rightarrow> i64 \<Rightarrow> si64 \<Rightarrow> si64" where
  "MPC_Add_Const_si64 partyIdx constInt temp =
     (if partyIdx = 0 then (fst temp + constInt, snd temp)
      else if partyIdx = 1 then (fst temp, snd temp + constInt)
      else temp)"

(* src/src/fediux/operator/aby3_operator.cc:164-181 MPCOperator::MPC_Add_Const *)
definition MPC_Add_Const :: "nat \<Rightarrow> i64 \<Rightarrow> smatrix \<Rightarrow> smatrix" where
  "MPC_Add_Const partyIdx constInt s =
     (if partyIdx = 0 then s\<lparr>sm_0 := map (\<lambda>x. x + constInt) (sm_0 s)\<rparr>
      else if partyIdx = 1 then s\<lparr>sm_1 := map (\<lambda>x. x + constInt) (sm_1 s)\<rparr>
      else s)"

(* src/src/fediux/operator/aby3_operator.cc:183-191 MPCOperator::MPC_Sub *)
definition MPC_Sub :: "'m aby3_lib \<Rightarrow> smatrix \<Rightarrow> smatrix list \<Rightarrow> smatrix" where
  "MPC_Sub lib minuend subtrahends = foldl (lb_minus lib) minuend subtrahends"

(* src/src/fediux/operator/aby3_operator.cc:193-204 MPCOperator::MPC_Sub_Const *)
definition MPC_Sub_Const_si64 :: "nat \<Rightarrow> i64 \<Rightarrow> si64 \<Rightarrow> bool \<Rightarrow> si64" where
  "MPC_Sub_Const_si64 partyIdx constInt sharedInt mode =
     (let temp = (if partyIdx = 0 then (fst sharedInt - constInt, snd sharedInt)
                  else if partyIdx = 1 then (fst sharedInt, snd sharedInt - constInt)
                  else sharedInt)
      in if mode \<noteq> True then (- fst temp, - snd temp) else temp)"

(* src/src/fediux/operator/aby3_operator.cc:206-228 MPCOperator::MPC_Sub_Const *)
definition MPC_Sub_Const :: "'m aby3_lib \<Rightarrow> nat \<Rightarrow> i64 \<Rightarrow> smatrix \<Rightarrow> bool \<Rightarrow> smatrix" where
  "MPC_Sub_Const lib partyIdx constInt s mode =
     (let temp = (if partyIdx = 0 then s\<lparr>sm_0 := map (\<lambda>x. x - constInt) (sm_0 s)\<rparr>
                  else if partyIdx = 1 then s\<lparr>sm_1 := map (\<lambda>x. x - constInt) (sm_1 s)\<rparr>
                  else s)
      in if mode \<noteq> True then temp\<lparr>sm_0 := lb_neg lib (sm_0 temp), sm_1 := lb_neg lib (sm_1 temp)\<rparr>
         else temp)"

(* src/src/fediux/operator/aby3_operator.cc:258-263 MPCOperator::MPC_Mul_Const *)
definition MPC_Mul_Const :: "'m aby3_lib \<Rightarrow> i64 \<Rightarrow> smatrix \<Rightarrow> smatrix" where
  "MPC_Mul_Const lib constInt s = lb_const_mul lib constInt s"

text \<open>
  A fixed-point matrix is shared as the matrix of its representations; the templates over
  \<^verbatim>\<open>sf64Matrix\<close> are the operators above, and one with a matrix of constants.
\<close>

(* src/src/fediux/operator/aby3_operator.h:280-295 MPCOperator::MPC_Add_Const *)
definition MPC_Add_Const_fx_matrix :: "nat \<Rightarrow> matrix \<Rightarrow> smatrix \<Rightarrow> smatrix cpp" where
  "MPC_Add_Const_fx_matrix partyIdx c s =
     (if sm_cols s \<noteq> m_cols c \<or> sm_rows s \<noteq> m_rows c then Throw ''LOCATION''
      else Ret (if partyIdx = 0 then s\<lparr>sm_0 := map2 (+) (sm_0 s) (m_at c)\<rparr>
                else if partyIdx = 1 then s\<lparr>sm_1 := map2 (+) (sm_1 s) (m_at c)\<rparr>
                else s))"

section \<open>Operators of the three parties\<close>

(* src/src/fediux/operator/aby3_operator.cc:230-236 MPCOperator::MPC_Mul *)
definition MPC_Mul :: "'m aby3_lib \<Rightarrow> sharing list \<Rightarrow> 'm \<Rightarrow> (sharing \<times> 'm) cpp" where
  "MPC_Mul lib ss m = (case ss of [] \<Rightarrow> Undef
     | s # ts \<Rightarrow> Ret (foldl (\<lambda>(prod, m) t. lb_mul lib prod t m) (s, m) ts))"

(* src/src/fediux/operator/aby3_operator.cc:239-245 MPCOperator::MPC_Dot_Mul *)
definition dot_mul_check :: "string \<Rightarrow> smatrix \<Rightarrow> smatrix \<Rightarrow> unit cpp" where
  "dot_mul_check ty A B =
     (if sm_cols A \<noteq> sm_cols B \<or> sm_rows A \<noteq> sm_rows B then
        Throw (ty @ '', Shape does not match, A(row, col): ('' @ dec_string (sm_rows A)
          @ '': '' @ dec_string (sm_cols A) @ '') B(row, col): ('' @ dec_string (sm_rows B)
          @ '': '' @ dec_string (sm_cols B) @ '') '')
      else Ret ())"

(* src/src/fediux/operator/aby3_operator.cc:238-250 MPCOperator::MPC_Dot_Mul *)
definition MPC_Dot_Mul :: "'m aby3_lib \<Rightarrow> sharing \<Rightarrow> sharing \<Rightarrow> 'm \<Rightarrow> (sharing \<times> 'm) cpp" where
  "MPC_Dot_Mul lib A B m =
     cbind (jointly (\<lambda>p. dot_mul_check ''type: si64Matrix'' (A p) (B p))) (\<lambda>_. Ret (lb_dot_mul lib A B m))"

text \<open>A matrix whose shape the others do not know: which neighbour a party hears it from.\<close>

datatype neighbour = Next | Prev

(* src/src/fediux/operator/aby3_operator.cc:68-75 MPCOperator::createSharesByShape *)
definition shape_from :: "nat \<Rightarrow> nat \<Rightarrow> neighbour cpp" where
  "shape_from partyIdx pIdx =
     (if pIdx = (partyIdx + 1) mod 3 then Ret Next
      else if pIdx = (partyIdx + 2) mod 3 then Ret Prev
      else Throw ''RTE_LOC'')"

(* src/src/fediux/operator/aby3_operator.cc:55-80 MPCOperator::createSharesByShape *)
definition createSharesByShape :: "'m aby3_lib \<Rightarrow> nat \<Rightarrow> matrix \<Rightarrow> 'm \<Rightarrow> (sharing \<times> 'm) cpp" where
  "createSharesByShape lib owner val m =
     cbind (jointly (\<lambda>p. if p = owner then Ret None else cbind (shape_from p owner) (\<lambda>n. Ret (Some n))))
       (\<lambda>_. Ret (lb_share lib (m_rows val) (m_cols val) (m_at val) m))"

text \<open>
  The operator as the expression executor uses it, at party \<open>me\<close>: a share is one column.
\<close>

(* src/src/fediux/operator/aby3_operator.cc:39-42 MPCOperator::createShares *)
definition createShares :: "'m aby3_lib \<Rightarrow> u32 \<Rightarrow> i64 list \<Rightarrow> 'm \<Rightarrow> sharing \<times> 'm" where
  "createShares lib rows vals m = lb_share lib (unat rows) 1 vals m"

(* src/src/fediux/operator/aby3_operator.cc:52-54 MPCOperator::createShares *)
definition createShares_remote :: "'m aby3_lib \<Rightarrow> u32 \<Rightarrow> 'm \<Rightarrow> sharing \<times> 'm" where
  "createShares_remote lib rows m = lb_remote lib (unat rows) 1 m"

(* src/src/fediux/operator/aby3_operator.cc:126-134 MPCOperator::reveal *)
definition MPC_reveal :: "'m aby3_lib \<Rightarrow> nat \<Rightarrow> sharing \<Rightarrow> 'm \<Rightarrow> i64 list \<times> 'm" where
  "MPC_reveal lib party vals m = lb_reveal lib party vals m"

(* src/src/fediux/operator/aby3_operator.h:391-404 MPCOperator::MPC_Dot_Mul *)
definition MPC_Dot_Mul_fx :: "'m aby3_lib \<Rightarrow> sharing \<Rightarrow> sharing \<Rightarrow> 'm \<Rightarrow> (sharing \<times> 'm) cpp" where
  "MPC_Dot_Mul_fx lib A B m =
     cbind (jointly (\<lambda>p. dot_mul_check ''sf64Matrix'' (A p) (B p))) (\<lambda>_. Ret (lb_dot_mul_fx lib A B m))"

(* src/src/fediux/operator/aby3_operator.h:415-421 MPCOperator::MPC_Mul_Const *)
definition MPC_Mul_Const_fx :: "'m aby3_lib \<Rightarrow> i64 \<Rightarrow> sharing \<Rightarrow> 'm \<Rightarrow> sharing \<times> 'm" where
  "MPC_Mul_Const_fx lib constFixed s m = lb_const_fx_mul lib constFixed s m"

end
