(* ===== verification/Aby3_Division.thy ===== *)
theory Aby3_Division
  imports Aby3_Operator
begin

text \<open>
  Fixed-point division (src/fediux/operator/aby3_operator.h): the magnitude of the denominator is
  found by a binary search over comparisons whose results are revealed, the denominator is scaled
  with it, and its reciprocal approximated by Newton's iteration. All calls are given for the three
  parties together.
\<close>

section \<open>Piecewise polynomials\<close>

(* src/src/fediux/operator/aby3_operator.h:428-445 MPCOperator::MPC_Abs *)
definition MPC_Abs :: "'m aby3_lib \<Rightarrow> sharing \<Rightarrow> 'm \<Rightarrow> sharing \<times> 'm" where
  "MPC_Abs lib Y m = lb_piecewise lib [0] [[0, -1], [0, 1]] Y m"

(* src/src/fediux/operator/aby3_operator.h:447-462 MPCOperator::MPC_QuoDertermine *)
definition MPC_QuoDertermine :: "'m aby3_lib \<Rightarrow> sharing \<Rightarrow> 'm \<Rightarrow> sharing \<times> 'm" where
  "MPC_QuoDertermine lib Y m = lb_piecewise lib [0] [[-1], [1]] Y m"

(* src/src/fediux/operator/aby3_operator.h:464-481 MPCOperator::MPC_DReLu *)
definition MPC_DReLu :: "'m aby3_lib \<Rightarrow> sharing \<Rightarrow> 'm \<Rightarrow> sharing \<times> 'm" where
  "MPC_DReLu lib Y m = lb_piecewise lib [0] [[0, 0], [1, 0]] Y m"

section \<open>The magnitude\<close>

text \<open>The representation of the powers of two; a shift by the width or more is undefined.\<close>

(* src/src/fediux/operator/aby3_operator.h:509-514 MPCOperator::MPC_Pow *)
definition power_up :: "'m aby3_lib \<Rightarrow> u64 \<Rightarrow> i64 cpp" where
  "power_up lib r = (if unat r < 64 then Ret (lb_fx lib (of_nat (unat (push_bit (unat r) (1 :: u64)))))
     else Undef)"

(* src/src/fediux/operator/aby3_operator.h:583-588 MPCOperator::MPC_Pow2 *)
definition power_down :: "'m aby3_lib \<Rightarrow> u64 \<Rightarrow> i64 cpp" where
  "power_down lib r = Ret (lb_fx lib (2 powi (sint r * -1)))"

primrec cmap :: "('a \<Rightarrow> 'b cpp) \<Rightarrow> 'a list \<Rightarrow> 'b list cpp" where
  "cmap f [] = Ret []"
| "cmap f (x # xs) = cbind (f x) (\<lambda>y. cbind (cmap f xs) (\<lambda>ys. Ret (y # ys)))"

text \<open>
  A round of the search: the powers of the candidate ranks are shared by party 0, the comparison
  with them is revealed, and the bit is kept where it holds. \<open>diff\<close> is the difference whose sign
  decides.
\<close>

(* src/src/fediux/operator/aby3_operator.h:500-543 MPCOperator::MPC_Pow *)
definition pow_round ::
  "'m aby3_lib \<Rightarrow> (u64 \<Rightarrow> i64 cpp) \<Rightarrow> (smatrix \<Rightarrow> smatrix \<Rightarrow> smatrix) \<Rightarrow> sharing \<Rightarrow> nat
   \<Rightarrow> u64 list \<Rightarrow> 'm \<Rightarrow> (u64 list \<times> 'm) cpp" where
  "pow_round lib pow diff Y i alpha m =
     (let round_bound = push_bit i 1; rank = map (\<lambda>a. a + round_bound) alpha
      in cbind (cmap pow rank) (\<lambda>rank_temp.
          (let (sfrank, m1) = lb_share lib (sm_rows (Y 0)) (sm_cols (Y 0)) rank_temp m;
               (drelu, m2) = MPC_DReLu lib (\<lambda>p. diff (Y p) (sfrank p)) m1;
               (res, m3) = lb_reveal_all lib drelu m2
           in Ret (map2 (\<lambda>a d. a + round_bound * of_int \<lfloor>lb_unfx lib d\<rfloor>) alpha res, m3))))"

primrec pow_rounds ::
  "'m aby3_lib \<Rightarrow> (u64 \<Rightarrow> i64 cpp) \<Rightarrow> (smatrix \<Rightarrow> smatrix \<Rightarrow> smatrix) \<Rightarrow> sharing \<Rightarrow> nat list
   \<Rightarrow> u64 list \<Rightarrow> 'm \<Rightarrow> (u64 list \<times> 'm) cpp" where
  "pow_rounds lib pow diff Y [] alpha m = Ret (alpha, m)"
| "pow_rounds lib pow diff Y (i # is) alpha m = cbind (pow_round lib pow diff Y i alpha m)
     (\<lambda>(alpha', m'). pow_rounds lib pow diff Y is alpha' m')"

(* src/src/fediux/operator/aby3_operator.h:483-556 MPCOperator::MPC_Pow *)
definition MPC_Pow :: "'m aby3_lib \<Rightarrow> sharing \<Rightarrow> 'm \<Rightarrow> (i64 list \<times> 'm) cpp" where
  "MPC_Pow lib Y m =
     cbind (pow_rounds lib (power_up lib) (\<lambda>y r. lb_minus lib y r) Y [5, 4, 3, 2, 1, 0]
         (replicate (sm_rows (Y 0) * sm_cols (Y 0)) 0) m)
       (\<lambda>(alpha, m'). Ret (map (\<lambda>a. a + 1) alpha, m'))"

(* src/src/fediux/operator/aby3_operator.h:559-626 MPCOperator::MPC_Pow2 *)
definition MPC_Pow2 :: "'m aby3_lib \<Rightarrow> sharing \<Rightarrow> 'm \<Rightarrow> (i64 list \<times> 'm) cpp" where
  "MPC_Pow2 lib Y m =
     cbind (pow_rounds lib (power_down lib) (\<lambda>y r. lb_minus lib r y) Y [5, 4, 3, 2, 1, 0]
         (replicate (sm_rows (Y 0) * sm_cols (Y 0)) 0) m)
       (\<lambda>(alpha, m'). Ret (map (\<lambda>a. a * -1) alpha, m'))"

section \<open>Division\<close>

(* src/src/fediux/operator/aby3_operator.h:659-666 MPCOperator::MPC_Dotproduct *)
definition MPC_Dotproduct :: "'m aby3_lib \<Rightarrow> sharing \<Rightarrow> sharing \<Rightarrow> 'm \<Rightarrow> sharing \<times> 'm" where
  "MPC_Dotproduct lib A B m = lb_dot_mul_fx lib A B m"

text \<open>The rows with the given indices, of a matrix with one column.\<close>

(* src/src/fediux/operator/aby3_operator.h:731-741 MPCOperator::MPC_Div *)
definition rows_at :: "nat list \<Rightarrow> smatrix \<Rightarrow> smatrix" where
  "rows_at idx s = \<lparr>sm_rows = length idx, sm_cols = sm_cols s,
     sm_0 = map (\<lambda>i. sm_0 s ! i) idx, sm_1 = map (\<lambda>i. sm_1 s ! i) idx\<rparr>"

(* src/src/fediux/operator/aby3_operator.h:720-730 MPCOperator::MPC_Div *)
definition less_idx :: "'m aby3_lib \<Rightarrow> i64 list \<Rightarrow> nat list" where
  "less_idx lib res = filter (\<lambda>i. lb_unfx lib (res ! i) = 0) [0..<length res]"

(* src/src/fediux/operator/aby3_operator.h:720-730 MPCOperator::MPC_Div *)
definition more_idx :: "'m aby3_lib \<Rightarrow> i64 list \<Rightarrow> nat list" where
  "more_idx lib res = filter (\<lambda>i. lb_unfx lib (res ! i) \<noteq> 0) [0..<length res]"

text \<open>
  The ranks of the rows, by the search for denominators below one half or the one for the others;
  a denominator with more than one column is not handled.
\<close>

(* src/src/fediux/operator/aby3_operator.h:701-762 MPCOperator::MPC_Div *)
definition denominator_rank :: "'m aby3_lib \<Rightarrow> sharing \<Rightarrow> 'm \<Rightarrow> (i64 list \<times> 'm) cpp" where
  "denominator_rank lib denominator m =
     (if sm_cols (denominator 0) \<noteq> 1 then Undef else
      let n = sm_rows (denominator 0);
          (sfhalf, m) = lb_share lib n 1 (replicate n (lb_fx lib (1 / 2))) m;
          (drelu, m) = MPC_DReLu lib (\<lambda>p. lb_minus lib (denominator p) (sfhalf p)) m;
          (res, m) = lb_reveal_all lib drelu m;
          lessIdx = less_idx lib res; moreIdx = more_idx lib res
      in cbind (if lessIdx \<noteq> [] then MPC_Pow2 lib (\<lambda>p. rows_at lessIdx (denominator p)) m
                else Ret ([], m)) (\<lambda>(rankLess, m).
         cbind (if moreIdx \<noteq> [] then MPC_Pow lib (\<lambda>p. rows_at moreIdx (denominator p)) m
                else Ret ([], m)) (\<lambda>(rankMore, m).
           Ret (fold (\<lambda>(i, r) rank. rank[i := r]) (zip moreIdx rankMore)
                 (fold (\<lambda>(i, r) rank. rank[i := r]) (zip lessIdx rankLess) (replicate n 0)), m))))"

(* src/src/fediux/operator/aby3_operator.h:677-881 MPCOperator::MPC_Div *)
definition MPC_Div :: "'m aby3_lib \<Rightarrow> sharing \<Rightarrow> sharing \<Rightarrow> 'm \<Rightarrow> (sharing \<times> 'm) cpp" where
  "MPC_Div lib A B m =
     cbind (jointly (\<lambda>p. dot_mul_check ''sf64Matrix'' (A p) (B p))) (\<lambda>_.
        let (denominator_sign, m) = MPC_QuoDertermine lib B m;
            (denominator, m) = MPC_Abs lib B m;
            (numerator_sign, m) = MPC_QuoDertermine lib A m;
            (numerator, m) = MPC_Abs lib A m;
            (quotient_sign, m) = MPC_Dotproduct lib denominator_sign numerator_sign m
        in cbind (denominator_rank lib denominator m) (\<lambda>(rank, m).
        let n = sm_rows (B 0); k = sm_cols (B 0);
            (sftwopotnine, m) = lb_share lib n k (replicate (n * k) (lb_fx lib (29142 / 10000))) m;
            (sfconstant_one, m) = lb_share lib n k (replicate (n * k) (lb_fx lib 1)) m;
            (sfnormalization, m) =
              lb_share lib n k (map (\<lambda>r. lb_fx lib (2 powi (sint r * -1))) rank) m;
            (c, m) = MPC_Dotproduct lib denominator sfnormalization m;
            w0 = (\<lambda>p. lb_minus lib (sftwopotnine p) (lb_const_mul lib 2 (c p)));
            (w0, m) = MPC_Dotproduct lib w0 sfnormalization m;
            (bw0, m) = MPC_Dotproduct lib denominator w0 m;
            (aw0, m) = MPC_Dotproduct lib numerator w0 m;
            epsilon0 = (\<lambda>p. lb_minus lib (sfconstant_one p) (bw0 p));
            epsilon0_one = (\<lambda>p. lb_plus lib (sfconstant_one p) (epsilon0 p));
            (epsilon_prod, m) = MPC_Dotproduct lib epsilon0_one aw0 m;
            (epsilon_i, m) = MPC_Dotproduct lib epsilon0 epsilon0 m;
            epsilon_i_one = (\<lambda>p. lb_plus lib (sfconstant_one p) (epsilon_i p));
            (epsilon_prod, m) = MPC_Dotproduct lib epsilon_prod epsilon_i_one m
        in Ret (MPC_Dotproduct lib epsilon_prod quotient_sign m)))"

section \<open>The operator of the expression executor\<close>

text \<open>
  What the executor calls, at party \<open>me\<close>. The three parties make the calls together.
\<close>

definition aby3_op :: "'m aby3_lib \<Rightarrow> nat \<Rightarrow> ('m, sharing, sharing, rat, i64) mpc_op" where
  "aby3_op lib me =
     \<lparr>op_share_i64 = (\<lambda>rows v m. Ret (createShares lib rows v m)),
      op_share_i64_remote = (\<lambda>rows m. Ret (createShares_remote lib rows m)),
      op_add_i64 = (\<lambda>ss m. cbind (jointly (\<lambda>p. MPC_Add lib (map (\<lambda>J. J p) ss))) (\<lambda>J. Ret (J, m))),
      op_add_const_i64 = (\<lambda>k s m. Ret (\<lambda>p. MPC_Add_Const p k (s p), m)),
      op_sub_i64 = (\<lambda>s ts m. Ret (\<lambda>p. MPC_Sub lib (s p) (map (\<lambda>J. J p) ts), m)),
      op_sub_const_i64 = (\<lambda>k s mode m. Ret (\<lambda>p. MPC_Sub_Const lib p k (s p) mode, m)),
      op_mul_i64 = MPC_Dot_Mul lib,
      op_mul_const_i64 = (\<lambda>k s m. Ret (\<lambda>p. MPC_Mul_Const lib k (s p), m)),
      op_reveal_i64 = (\<lambda>s m. Ret (MPC_reveal lib me s m)),
      op_reveal_i64_to = (\<lambda>s q m. Ret (snd (MPC_reveal lib (unat q) s m))),
      op_share_fp = (\<lambda>rows v m. Ret (createShares lib rows (map (lb_fx lib) v) m)),
      op_share_fp_remote = (\<lambda>rows m. Ret (createShares_remote lib rows m)),
      op_add_fp = (\<lambda>ss m. cbind (jointly (\<lambda>p. MPC_Add lib (map (\<lambda>J. J p) ss))) (\<lambda>J. Ret (J, m))),
      op_add_const_fp = (\<lambda>k s m. Ret (\<lambda>p. MPC_Add_Const p k (s p), m)),
      op_sub_fp = (\<lambda>s ts m. Ret (\<lambda>p. MPC_Sub lib (s p) (map (\<lambda>J. J p) ts), m)),
      op_sub_const_fp = (\<lambda>k s mode m. Ret (\<lambda>p. MPC_Sub_Const lib p k (s p) mode, m)),
      op_mul_fp = MPC_Dot_Mul_fx lib,
      op_mul_const_fp = (\<lambda>k s m. Ret (MPC_Mul_Const_fx lib k s m)),
      op_div_fp = MPC_Div lib,
      op_reveal_fp = (\<lambda>s m. case MPC_reveal lib me s m of (v, m') \<Rightarrow> Ret (map (lb_unfx lib) v, m')),
      op_reveal_fp_to = (\<lambda>s q m. Ret (snd (MPC_reveal lib (unat q) s m))),
      op_fix = lb_fx lib, op_unfix = lb_unfx lib\<rparr>"

end
