(* ===== verification/Aby3_Correct.thy ===== *)
theory Aby3_Correct
  imports Aby3_Division
begin

text \<open>
  The operators of the three-party protocol over a library that does what aby3 documents: they keep
  a sharing together, and implement the protocol that the expression executor relies on.
\<close>

section \<open>What the library promises\<close>

text \<open>
  \<open>inputs m\<close> are the columns that the parties will contribute, as for the executor; sharing a
  column takes the next one, and the owner's and the others' calls are the same step.
\<close>

definition aby3_local :: "'m aby3_lib \<Rightarrow> bool" where
  "aby3_local lib \<longleftrightarrow>
     (\<forall>s t. sm_wf s \<and> sm_wf t \<and> sm_shape s = sm_shape t \<longrightarrow>
        lb_plus lib s t = s\<lparr>sm_0 := map2 (+) (sm_0 s) (sm_0 t), sm_1 := map2 (+) (sm_1 s) (sm_1 t)\<rparr>
        \<and> lb_minus lib s t = s\<lparr>sm_0 := map2 (-) (sm_0 s) (sm_0 t), sm_1 := map2 (-) (sm_1 s) (sm_1 t)\<rparr>)
     \<and> (\<forall>xs. lb_neg lib xs = map uminus xs)"

definition hides :: "nat \<Rightarrow> nat \<Rightarrow> i64 list \<Rightarrow> sharing \<Rightarrow> bool" where
  "hides r c v J \<longleftrightarrow> consistent J \<and> sm_shape (J 0) = (r, c) \<and> secret J = v"

definition aby3_laws :: "'m aby3_lib \<Rightarrow> ('m \<Rightarrow> i64 list list) \<Rightarrow> bool" where
  "aby3_laws lib inputs \<longleftrightarrow> aby3_local lib
     \<and> (\<forall>r c v vs m. inputs m = v # vs \<and> length v = r * c \<longrightarrow>
          hides r c v (fst (lb_share lib r c v m)) \<and> inputs (snd (lb_share lib r c v m)) = vs
          \<and> hides r c v (fst (lb_remote lib r c m)) \<and> inputs (snd (lb_remote lib r c m)) = vs)
     \<and> (\<forall>r c v w A B m. hides r c v A \<and> hides r c w B \<longrightarrow>
          hides r c (map2 (*) v w) (fst (lb_dot_mul lib A B m))
          \<and> inputs (snd (lb_dot_mul lib A B m)) = inputs m)
     \<and> (\<forall>r c v A p m. hides r c v A \<longrightarrow> fst (lb_reveal lib p A m) = v)"

lemma aby3_laws_share:
  assumes "aby3_laws lib inputs" "inputs m = v # vs" "length v = r * c"
  shows "hides r c v (fst (lb_share lib r c v m))" "inputs (snd (lb_share lib r c v m)) = vs"
    "hides r c v (fst (lb_remote lib r c m))" "inputs (snd (lb_remote lib r c m)) = vs"
  using assms unfolding aby3_laws_def by blast+

lemma aby3_laws_calls:
  assumes "aby3_laws lib inputs" "hides r c v A"
  shows "hides r c w B \<Longrightarrow> hides r c (map2 (*) v w) (fst (lb_dot_mul lib A B m))"
    "hides r c w B \<Longrightarrow> inputs (snd (lb_dot_mul lib A B m)) = inputs m"
    "fst (lb_reveal lib p A m) = v"
  using assms unfolding aby3_laws_def by blast+

section \<open>Sharings\<close>

lemma length_add3 [simp]: "length (add3 xs ys zs) = min (min (length xs) (length ys)) (length zs)"
  by (simp add: add3_def)

lemma nth_add3 [simp]:
  "i < length xs \<Longrightarrow> i < length ys \<Longrightarrow> i < length zs \<Longrightarrow> add3 xs ys zs ! i = xs ! i + ys ! i + zs ! i"
  by (simp add: add3_def)

lemma consistentD:
  assumes "consistent J"
  shows "sm_shape (J 1) = sm_shape (J 0)" "sm_shape (J 2) = sm_shape (J 0)"
    "sm_wf (J 0)" "sm_wf (J 1)" "sm_wf (J 2)"
    "sm_1 (J 0) = sm_0 (J 2)" "sm_1 (J 1) = sm_0 (J 0)" "sm_1 (J 2) = sm_0 (J 1)"
  using assms by (simp_all only: consistent_def)

lemma consistent_lengths:
  assumes "consistent J" "sm_shape (J 0) = (r, c)"
  shows "length (sm_0 (J 0)) = r * c" "length (sm_0 (J 1)) = r * c" "length (sm_0 (J 2)) = r * c"
  using consistentD [OF assms(1)] assms(2) by (simp_all add: sm_wf_def sm_shape_def)

lemma hides_length: "hides r c v J \<Longrightarrow> length v = r * c"
  using consistent_lengths [of J r c] by (auto simp: hides_def secret_def)

text \<open>
  A local operation that treats both summands of the parts entry by entry keeps the parts together;
  it acts on the secret when it distributes over the sum.
\<close>

lemma sharing_of_two:
  assumes "hides r c v A" "hides r c w B"
    "\<And>p. p < 3 \<Longrightarrow> C p = (A p)\<lparr>sm_0 := map2 f (sm_0 (A p)) (sm_0 (B p)),
       sm_1 := map2 f (sm_1 (A p)) (sm_1 (B p))\<rparr>"
    "\<And>a b c d e g. f a b + f c d + f e g = f (a + c + e) (b + d + g)"
  shows "hides r c (map2 f v w) C"
proof -
  have A: "consistent A" "sm_shape (A 0) = (r, c)" "secret A = v"
    and B: "consistent B" "sm_shape (B 0) = (r, c)" "secret B = w"
    using assms(1,2) by (simp_all add: hides_def)
  note C = assms(3) [of 0, simplified] assms(3) [of 1, simplified] assms(3) [of 2, simplified]
  note AL = consistent_lengths [OF A(1,2)] and BL = consistent_lengths [OF B(1,2)]
  have "consistent C"
    using A(1,2) B(1,2) by (simp add: consistent_def C sm_shape_def sm_wf_def)
  moreover have "secret C = map2 f v w"
    unfolding A(3) [symmetric] B(3) [symmetric]
    by (rule nth_equalityI) (use AL BL in \<open>simp_all add: secret_def C assms(4)\<close>)
  ultimately show ?thesis using A(2) by (simp add: hides_def C sm_shape_def)
qed

lemma local_plus:
  assumes "aby3_local lib" "hides r c v A" "hides r c w B"
  shows "hides r c (map2 (+) v w) (\<lambda>p. lb_plus lib (A p) (B p))"
    "hides r c (map2 (-) v w) (\<lambda>p. lb_minus lib (A p) (B p))"
proof -
  have eq: "lb_plus lib (A p) (B p) = (A p)\<lparr>sm_0 := map2 (+) (sm_0 (A p)) (sm_0 (B p)),
        sm_1 := map2 (+) (sm_1 (A p)) (sm_1 (B p))\<rparr>"
      "lb_minus lib (A p) (B p) = (A p)\<lparr>sm_0 := map2 (-) (sm_0 (A p)) (sm_0 (B p)),
        sm_1 := map2 (-) (sm_1 (A p)) (sm_1 (B p))\<rparr>" if "p < 3" for p
  proof -
    have "p = 0 \<or> p = 1 \<or> p = 2" using that by auto
    then have "sm_wf (A p)" "sm_wf (B p)" "sm_shape (A p) = sm_shape (B p)"
      using assms(2,3) by (auto simp: hides_def consistent_def)
    then show "lb_plus lib (A p) (B p) = (A p)\<lparr>sm_0 := map2 (+) (sm_0 (A p)) (sm_0 (B p)),
        sm_1 := map2 (+) (sm_1 (A p)) (sm_1 (B p))\<rparr>"
      "lb_minus lib (A p) (B p) = (A p)\<lparr>sm_0 := map2 (-) (sm_0 (A p)) (sm_0 (B p)),
        sm_1 := map2 (-) (sm_1 (A p)) (sm_1 (B p))\<rparr>"
      using assms(1) by (simp_all add: aby3_local_def)
  qed
  show "hides r c (map2 (+) v w) (\<lambda>p. lb_plus lib (A p) (B p))"
    by (rule sharing_of_two [OF assms(2,3)]) (simp_all add: eq)
  show "hides r c (map2 (-) v w) (\<lambda>p. lb_minus lib (A p) (B p))"
    by (rule sharing_of_two [OF assms(2,3)]) (simp_all add: eq)
qed

section \<open>The executor's protocol\<close>

lemma call_result: "(\<exists>s m. x = (s, m) \<and> P s m) \<longleftrightarrow> P (fst x) (snd x)"
  by (cases x) simp

text \<open>The column that a sharing hides.\<close>

definition plain_column :: "sharing \<Rightarrow> i64 list option" where
  "plain_column J = (if consistent J \<and> sm_cols (J 0) = 1 then Some (secret J) else None)"

lemma plain_column_iff:
  "plain_column J = Some v \<longleftrightarrow> (\<exists>r. hides r 1 v J)"
  by (auto simp: plain_column_def hides_def sm_shape_def)

lemma same_rows: "hides r 1 v A \<Longrightarrow> hides r' 1 w B \<Longrightarrow> length v = length w \<Longrightarrow> r' = r"
  by (auto dest!: hides_length)

lemma hides_cong: "(\<And>p. p < 3 \<Longrightarrow> A p = B p) \<Longrightarrow> hides r c v A = hides r c v B"
  by (simp add: hides_def consistent_def secret_def)

lemma jointly_Ret [simp]: "jointly (\<lambda>p. Ret (f p)) = Ret (\<lambda>p. if p = 0 then f 0 else if p = 1 then f 1 else f 2)"
  unfolding jointly_def by (simp add: fun_eq_iff)

lemma three_cases: "p < 3 \<Longrightarrow> p = 0 \<or> p = 1 \<or> p = (2 :: nat)"
  by auto

lemma hides_joint:
  "hides r c v (\<lambda>p. if p = 0 then f 0 else if p = 1 then f 1 else f 2) = hides r c v f"
  by (rule hides_cong) (use three_cases in auto)

lemma dot_mul_check_ok:
  assumes "hides r c v A" "hides r c w B" "p < 3"
  shows "dot_mul_check ty (A p) (B p) = Ret ()"
proof -
  have "sm_shape (A p) = sm_shape (B p)"
    using assms three_cases [OF assms(3)] by (auto simp: hides_def consistent_def)
  then show ?thesis by (simp add: dot_mul_check_def sm_shape_def)
qed

text \<open>
  C2: over a library that keeps its promises, the operators of the three parties implement the
  protocol of the expression executor: sharing, sums, differences, products and revealing act on
  the hidden columns as they should, and every operator leaves the parts of the parties together.
\<close>

theorem operator_implements_protocol:
  assumes "aby3_laws lib inputs"
  shows "mpc_laws (aby3_op lib me) plain_column inputs"
proof -
  have lib: "aby3_local lib" using assms by (simp add: aby3_laws_def)
  have share: "\<exists>s m'. op_share_i64 (aby3_op lib me) rows v m = Ret (s, m')
        \<and> plain_column s = Some v \<and> inputs m' = vs"
      "\<exists>s m'. op_share_i64_remote (aby3_op lib me) rows m = Ret (s, m')
        \<and> plain_column s = Some v \<and> inputs m' = vs"
    if "inputs m = v # vs" "length v = unat rows" for rows v vs m
    using aby3_laws_share [OF assms that(1), of "unat rows" 1] that(2)
    by (auto simp: aby3_op_def createShares_def createShares_remote_def plain_column_iff call_result)
  have ops: "(\<exists>u m'. op_add_i64 (aby3_op lib me) [s, t] m = Ret (u, m')
           \<and> plain_column u = Some (map2 (+) a b) \<and> inputs m' = inputs m)
        \<and> (\<exists>u m'. op_sub_i64 (aby3_op lib me) s [t] m = Ret (u, m')
           \<and> plain_column u = Some (map2 (-) a b) \<and> inputs m' = inputs m)
        \<and> (\<exists>u m'. op_mul_i64 (aby3_op lib me) s t m = Ret (u, m')
           \<and> plain_column u = Some (map2 (*) a b) \<and> inputs m' = inputs m)"
    if st: "plain_column s = Some a" "plain_column t = Some b" "length a = length b" for s t a b m
  proof (intro conjI)
    obtain r where r: "hides r 1 a s" "hides r 1 b t"
      using st same_rows by (metis plain_column_iff)
    show "\<exists>u m'. op_add_i64 (aby3_op lib me) [s, t] m = Ret (u, m')
        \<and> plain_column u = Some (map2 (+) a b) \<and> inputs m' = inputs m"
      using local_plus(1) [OF lib r] hides_joint [of r 1 _ "\<lambda>p. lb_plus lib (s p) (t p)"]
      by (auto simp: aby3_op_def MPC_Add_def plain_column_iff)
    show "\<exists>u m'. op_sub_i64 (aby3_op lib me) s [t] m = Ret (u, m')
        \<and> plain_column u = Some (map2 (-) a b) \<and> inputs m' = inputs m"
      using local_plus(2) [OF lib r] by (auto simp: aby3_op_def MPC_Sub_def plain_column_iff)
    show "\<exists>u m'. op_mul_i64 (aby3_op lib me) s t m = Ret (u, m')
        \<and> plain_column u = Some (map2 (*) a b) \<and> inputs m' = inputs m"
      using aby3_laws_calls(1,2) [OF assms r]
      by (auto simp: aby3_op_def MPC_Dot_Mul_def plain_column_iff jointly_def dot_mul_check_ok [OF r]
          call_result)
  qed
  have reveal: "\<exists>m'. op_reveal_i64 (aby3_op lib me) s m = Ret (a, m')"
    "\<exists>m'. op_reveal_i64_to (aby3_op lib me) s p m = Ret m'"
    if "plain_column s = Some a" for s a p m
    using aby3_laws_calls(3) [OF assms] that
    by (auto simp: aby3_op_def MPC_reveal_def plain_column_iff prod_eq_iff)
  show ?thesis
    unfolding mpc_laws_def
    by (intro conjI allI impI; (elim conjE)?)
      (rule share ops [THEN conjunct1] ops [THEN conjunct2, THEN conjunct1]
        ops [THEN conjunct2, THEN conjunct2] reveal; assumption)+
qed

section \<open>A library\<close>

text \<open>
  A library that keeps the promises: a value is shared with two masks that depend on it, a product is
  computed by each party from its own summands with masks that add up to zero, and a piecewise
  polynomial is evaluated on the secret, over numbers with 16 fractional bits.
\<close>

definition sharing_of :: "nat \<Rightarrow> nat \<Rightarrow> i64 list \<Rightarrow> i64 list \<Rightarrow> i64 list \<Rightarrow> sharing" where
  "sharing_of r c xs ys zs p = \<lparr>sm_rows = r, sm_cols = c,
     sm_0 = (if p = 0 then xs else if p = 1 then ys else zs),
     sm_1 = (if p = 0 then zs else if p = 1 then xs else ys)\<rparr>"

definition demo_share :: "nat \<Rightarrow> nat \<Rightarrow> i64 list \<Rightarrow> sharing" where
  "demo_share r c v = sharing_of r c (map (\<lambda>x. 3 * x + 7) v) (map (\<lambda>x. 5 - x) v)
     (map (\<lambda>x. - 12 - x) v)"

definition demo_product :: "i64 \<Rightarrow> smatrix \<Rightarrow> smatrix \<Rightarrow> i64 list" where
  "demo_product z A B = map2 (+)
     (map2 (+) (map2 (*) (sm_0 A) (sm_0 B)) (map2 (*) (sm_0 A) (sm_1 B)))
     (map (\<lambda>x. x + z) (map2 (*) (sm_1 A) (sm_0 B)))"

definition demo_dot_mul :: "sharing \<Rightarrow> sharing \<Rightarrow> sharing" where
  "demo_dot_mul A B = sharing_of (sm_rows (A 0)) (sm_cols (A 0)) (demo_product 11 (A 0) (B 0))
     (demo_product 13 (A 1) (B 1)) (demo_product (- 24) (A 2) (B 2))"

definition demo_piece :: "rat list list \<Rightarrow> i64 \<Rightarrow> i64" where
  "demo_piece coeffs y = (let cs = coeffs ! (if sint y < 0 then 0 else 1)
     in of_int \<lfloor>cs ! 0 * 2 ^ 16\<rfloor> + (if length cs > 1 then of_int \<lfloor>cs ! 1\<rfloor> * y else 0))"

definition demo_aby3 :: "i64 list list aby3_lib" where
  "demo_aby3 =
     \<lparr>lb_plus = (\<lambda>s t. s\<lparr>sm_0 := map2 (+) (sm_0 s) (sm_0 t), sm_1 := map2 (+) (sm_1 s) (sm_1 t)\<rparr>),
      lb_minus = (\<lambda>s t. s\<lparr>sm_0 := map2 (-) (sm_0 s) (sm_0 t), sm_1 := map2 (-) (sm_1 s) (sm_1 t)\<rparr>),
      lb_neg = map uminus,
      lb_const_mul = (\<lambda>k s. s\<lparr>sm_0 := map ((*) k) (sm_0 s), sm_1 := map ((*) k) (sm_1 s)\<rparr>),
      lb_const_fx_mul = (\<lambda>k s m. (demo_share (sm_rows (s 0)) (sm_cols (s 0))
        (map (\<lambda>x. of_int (sint k * sint x div 2 ^ 16)) (secret s)), m)),
      lb_share = (\<lambda>r c v m. (demo_share r c v, tl m)),
      lb_remote = (\<lambda>r c m. (demo_share r c (hd m), tl m)),
      lb_mul = (\<lambda>A B m. (demo_dot_mul A B, m)),
      lb_dot_mul = (\<lambda>A B m. (demo_dot_mul A B, m)),
      lb_dot_mul_fx = (\<lambda>A B m. (demo_share (sm_rows (A 0)) (sm_cols (A 0))
        (map2 (\<lambda>x y. of_int (sint x * sint y div 2 ^ 16)) (secret A) (secret B)), m)),
      lb_reveal = (\<lambda>p A m. (secret A, m)),
      lb_reveal_all = (\<lambda>A m. (secret A, m)),
      lb_piecewise = (\<lambda>thresholds coeffs Y m.
        (demo_share (sm_rows (Y 0)) (sm_cols (Y 0)) (map (demo_piece coeffs) (secret Y)), m)),
      lb_fx = (\<lambda>q. of_int \<lfloor>q * 2 ^ 16\<rfloor>), lb_unfx = (\<lambda>x. of_int (sint x) / 2 ^ 16)\<rparr>"

lemma hides_sharing_of:
  "length xs = r * c \<Longrightarrow> length ys = r * c \<Longrightarrow> length zs = r * c \<Longrightarrow>
   hides r c (add3 xs ys zs) (sharing_of r c xs ys zs)"
  by (simp add: hides_def consistent_def sharing_of_def sm_wf_def sm_shape_def secret_def)

lemma hides_demo_share: "length v = r * c \<Longrightarrow> hides r c v (demo_share r c v)"
proof -
  assume l: "length v = r * c"
  have "add3 (map (\<lambda>x. 3 * x + 7) v) (map (\<lambda>x. 5 - x) v) (map (\<lambda>x. - 12 - x) v) = v"
    by (rule nth_equalityI) simp_all
  then show ?thesis using hides_sharing_of [of "map (\<lambda>x. 3 * x + 7) v" r c "map (\<lambda>x. 5 - x) v"
      "map (\<lambda>x. - 12 - x) v"] l by (simp add: demo_share_def)
qed

lemma hides_demo_dot_mul:
  assumes "hides r c v A" "hides r c w B"
  shows "hides r c (map2 (*) v w) (demo_dot_mul A B)"
proof -
  have A: "consistent A" "sm_shape (A 0) = (r, c)" "secret A = v"
    and B: "consistent B" "sm_shape (B 0) = (r, c)" "secret B = w"
    using assms by (simp_all add: hides_def)
  note facts = consistent_lengths [OF A(1,2)] consistent_lengths [OF B(1,2)]
    consistentD(6-8) [OF A(1)] consistentD(6-8) [OF B(1)]
  have "add3 (demo_product 11 (A 0) (B 0)) (demo_product 13 (A 1) (B 1)) (demo_product (- 24) (A 2) (B 2))
      = map2 (*) v w"
    unfolding A(3) [symmetric] B(3) [symmetric]
    by (rule nth_equalityI)
      (use facts in \<open>simp_all add: demo_product_def secret_def algebra_simps\<close>)
  moreover have "length (demo_product k (A p) (B p)) = r * c" if "p < 3" for k p
    using facts three_cases [OF that] by (auto simp: demo_product_def)
  ultimately show ?thesis
    using hides_sharing_of [of "demo_product 11 (A 0) (B 0)" r c "demo_product 13 (A 1) (B 1)"
        "demo_product (- 24) (A 2) (B 2)"] A(2)
    by (simp add: demo_dot_mul_def sm_shape_def)
qed

lemma demo_local: "aby3_local demo_aby3"
  by (simp add: aby3_local_def demo_aby3_def)

lemma demo_laws: "aby3_laws demo_aby3 id"
  unfolding aby3_laws_def
  by (intro conjI allI impI demo_local)
    (auto simp: demo_aby3_def hides_demo_share hides_demo_dot_mul, auto simp: hides_def)

theorem operator_implements_protocol_witness:
  "mpc_laws (aby3_op demo_aby3 1) plain_column id"
  by (rule operator_implements_protocol [OF demo_laws])

section \<open>Constants\<close>

text \<open>
  A change of the first summand alone, at the two parties that hold it, changes the secret.
\<close>

lemma change_first:
  assumes "hides r c v J"
    "K 0 = (J 0)\<lparr>sm_0 := map f (sm_0 (J 0))\<rparr>" "K 1 = (J 1)\<lparr>sm_1 := map f (sm_1 (J 1))\<rparr>" "K 2 = J 2"
    "\<And>x y. f x + y = f (x + y)"
  shows "hides r c (map f v) K"
proof -
  have J: "consistent J" "sm_shape (J 0) = (r, c)" "secret J = v"
    using assms(1) by (simp_all add: hides_def)
  note L = consistent_lengths [OF J(1,2)]
  have "consistent K"
    using J(1) by (simp add: consistent_def assms(2) assms(3) [simplified] assms(4) sm_shape_def sm_wf_def)
  moreover have "secret K = map f v"
    unfolding J(3) [symmetric]
    by (rule nth_equalityI)
      (use L in \<open>simp_all add: secret_def assms(2) assms(3) [simplified] assms(4,5) add.assoc\<close>)
  ultimately show ?thesis using J(2) by (simp add: hides_def assms(2) sm_shape_def)
qed

text \<open>A change of all summands by an additive function.\<close>

lemma change_all:
  assumes "hides r c v J" "\<And>p. p < 3 \<Longrightarrow> K p = (J p)\<lparr>sm_0 := map f (sm_0 (J p)), sm_1 := map f (sm_1 (J p))\<rparr>"
    "\<And>x y. f x + f y = f (x + y)"
  shows "hides r c (map f v) K"
proof -
  have J: "consistent J" "sm_shape (J 0) = (r, c)" "secret J = v"
    using assms(1) by (simp_all add: hides_def)
  note K = assms(2) [of 0, simplified] assms(2) [of 1, simplified] assms(2) [of 2, simplified]
  note L = consistent_lengths [OF J(1,2)]
  have "consistent K" using J(1) by (simp add: consistent_def K sm_shape_def sm_wf_def)
  moreover have "secret K = map f v"
    unfolding J(3) [symmetric] by (rule nth_equalityI) (use L in \<open>simp_all add: secret_def K assms(3)\<close>)
  ultimately show ?thesis using J(2) by (simp add: hides_def K sm_shape_def)
qed

text \<open>
  C36: a constant is added to, or subtracted from, one summand only, at the two parties that hold it;
  the parts still fit together and hide the sum or difference, or the difference the other way
  round, modulo \<open>2 ^ 64\<close>.
\<close>

theorem constants_change_one_summand:
  assumes "aby3_local lib" "hides r c v J"
  shows "hides r c (map (\<lambda>x. x + k) v) (\<lambda>p. MPC_Add_Const p k (J p))
    \<and> hides r c (map (\<lambda>x. x - k) v) (\<lambda>p. MPC_Sub_Const lib p k (J p) True)
    \<and> hides r c (map (\<lambda>x. k - x) v) (\<lambda>p. MPC_Sub_Const lib p k (J p) False)"
proof (intro conjI)
  show "hides r c (map (\<lambda>x. x + k) v) (\<lambda>p. MPC_Add_Const p k (J p))"
    by (rule change_first [OF assms(2)]) (simp_all add: MPC_Add_Const_def)
  show sub: "hides r c (map (\<lambda>x. x - k) v) (\<lambda>p. MPC_Sub_Const lib p k (J p) True)"
    by (rule change_first [OF assms(2)]) (simp_all add: MPC_Sub_Const_def)
  have "hides r c (map uminus (map (\<lambda>x. x - k) v)) (\<lambda>p. MPC_Sub_Const lib p k (J p) False)"
    by (rule change_all [OF sub]) (use assms(1) in \<open>simp_all add: MPC_Sub_Const_def aby3_local_def Let_def\<close>)
  then show "hides r c (map (\<lambda>x. k - x) v) (\<lambda>p. MPC_Sub_Const lib p k (J p) False)"
    by (simp add: o_def)
qed

theorem constants_change_one_summand_witness:
  "hides 1 2 [15, 5] (\<lambda>p. MPC_Sub_Const demo_aby3 p 20 (demo_share 1 2 [5, 15] p) False)"
  using constants_change_one_summand [OF demo_local hides_demo_share, of "[5, 15]" 1 2 20] by simp

end
