(* ===== verification/Aby3_Magnitude.thy ===== *)
theory Aby3_Magnitude
  imports Aby3_Correct
begin

text \<open>
  The binary searches of the division find the magnitude of a fixed-point number.
\<close>

section \<open>What the library promises\<close>

text \<open>
  Besides the local operations, with \<open>D\<close> fractional bits: a matrix of constants is shared, the
  derivative of the rectifier is one exactly for the values that are not negative, and a number
  whose representation fits is rounded down to it.
\<close>

definition magnitude_laws :: "nat \<Rightarrow> 'm aby3_lib \<Rightarrow> bool" where
  "magnitude_laws D lib \<longleftrightarrow> aby3_local lib
     \<and> (\<forall>r c v m. length v = r * c \<longrightarrow> hides r c v (fst (lb_share lib r c v m)))
     \<and> (\<forall>r c v Y m. hides r c v Y \<longrightarrow>
          hides r c (map (\<lambda>x. if sint x < 0 then 0 else 2 ^ D) v)
            (fst (lb_piecewise lib [0] [[0, 0], [1, 0]] Y m)))
     \<and> (\<forall>r c v A m. hides r c v A \<longrightarrow> fst (lb_reveal_all lib A m) = v)
     \<and> (\<forall>q. 0 \<le> q \<and> q * 2 ^ D < 2 ^ 63 \<longrightarrow> lb_fx lib q = of_int \<lfloor>q * 2 ^ D\<rfloor>)
     \<and> lb_unfx lib 0 = 0 \<and> lb_unfx lib (2 ^ D) = 1"

lemma magnitude_lawsD:
  assumes "magnitude_laws D lib"
  shows "aby3_local lib"
    "length v = r * c \<Longrightarrow> hides r c v (fst (lb_share lib r c v m))"
    "hides r c v Y \<Longrightarrow> hides r c (map (\<lambda>x. if sint x < 0 then 0 else 2 ^ D) v)
       (fst (lb_piecewise lib [0] [[0, 0], [1, 0]] Y m))"
    "hides r c v A \<Longrightarrow> fst (lb_reveal_all lib A m) = v"
    "0 \<le> q \<Longrightarrow> q * 2 ^ D < 2 ^ 63 \<Longrightarrow> lb_fx lib q = of_int \<lfloor>q * 2 ^ D\<rfloor>"
    "lb_unfx lib 0 = 0" "lb_unfx lib (2 ^ D) = 1"
  using assms unfolding magnitude_laws_def by blast+

section \<open>A round\<close>

lemma cmap_Ret: "(\<And>x. x \<in> set xs \<Longrightarrow> f (h x) = Ret (g x)) \<Longrightarrow> cmap f (map h xs) = Ret (map g xs)"
  by (induction xs) simp_all

text \<open>What a round does to the candidate of one entry, in natural numbers.\<close>

definition keep_bit :: "(nat \<Rightarrow> bool) \<Rightarrow> nat \<Rightarrow> nat \<Rightarrow> nat" where
  "keep_bit ok i a = (if ok (a + 2 ^ i) then a + 2 ^ i else a)"

lemma pow_round_spec:
  assumes "magnitude_laws D lib" "hides r c y Y" "length as = length y"
    "\<And>a. a \<in> set as \<Longrightarrow> pow (of_nat (a + 2 ^ i)) = Ret (f (a + 2 ^ i))"
    "\<And>S w. hides r c w S \<Longrightarrow> hides r c (map2 g y w) (\<lambda>p. diff (Y p) (S p))"
  shows "\<exists>m'. pow_round lib pow diff Y i (map of_nat as) m
    = Ret (map of_nat (map2 (\<lambda>x a. keep_bit (\<lambda>k. 0 \<le> sint (g x (f k))) i a) y as), m')"
proof -
  let ?w = "map (\<lambda>a. f (a + 2 ^ i)) as"
  obtain S m1 where S: "lb_share lib (sm_rows (Y 0)) (sm_cols (Y 0)) ?w m = (S, m1)" by fastforce
  have rc: "sm_rows (Y 0) = r" "sm_cols (Y 0) = c" using assms(2) by (simp_all add: hides_def sm_shape_def)
  have hS: "hides r c ?w S"
    using magnitude_lawsD(2) [OF assms(1), of ?w r c m] S rc hides_length [OF assms(2)] assms(3) by simp
  obtain Z m2 where Z: "lb_piecewise lib [0] [[0, 0], [1, 0]] (\<lambda>p. diff (Y p) (S p)) m1 = (Z, m2)"
    by fastforce
  let ?z = "map (\<lambda>x. if sint x < 0 then 0 else 2 ^ D) (map2 g y ?w)"
  have hZ: "hides r c ?z Z"
    using magnitude_lawsD(3) [OF assms(1) assms(5) [OF hS], of m1] Z by simp
  obtain m3 where R: "lb_reveal_all lib Z m2 = (?z, m3)"
    using magnitude_lawsD(4) [OF assms(1) hZ, of m2] by (metis prod.collapse)
  have h: "map (\<lambda>a. a + push_bit i 1) (map of_nat as) = map (\<lambda>a. of_nat (a + 2 ^ i) :: u64) as"
    by (simp add: push_bit_eq_mult)
  have c: "cmap pow (map (\<lambda>a. of_nat (a + 2 ^ i)) as) = Ret ?w"
    using assms(4) by (rule cmap_Ret)
  have "map2 (\<lambda>a d. a + push_bit i 1 * of_int \<lfloor>lb_unfx lib d\<rfloor>) (map of_nat as) ?z
      = map of_nat (map2 (\<lambda>x a. keep_bit (\<lambda>k. 0 \<le> sint (g x (f k))) i a) y as)"
    by (rule nth_equalityI)
      (use assms(3) magnitude_lawsD(6,7) [OF assms(1)] in
        \<open>auto simp: keep_bit_def push_bit_eq_mult\<close>)
  then show ?thesis
    using S Z R c unfolding pow_round_def Let_def h by (simp add: MPC_DReLu_def)
qed

lemma pow_rounds_spec:
  assumes "magnitude_laws D lib" "hides r c y Y" "length as = length y"
    "\<And>n. n < 64 \<Longrightarrow> pow (of_nat n) = Ret (f n)"
    "\<And>S w. hides r c w S \<Longrightarrow> hides r c (map2 g y w) (\<lambda>p. diff (Y p) (S p))"
    "\<And>x a i. P x (Suc i) a \<Longrightarrow> P x i (keep_bit (\<lambda>k. 0 \<le> sint (g x (f k))) i a) \<and> a + 2 ^ i < 64"
    "\<And>j. j < length y \<Longrightarrow> P (y ! j) i (as ! j)"
  shows "\<exists>bs m'. pow_rounds lib pow diff Y (rev [0..<i]) (map of_nat as) m = Ret (map of_nat bs, m')
    \<and> length bs = length y \<and> (\<forall>j < length y. P (y ! j) 0 (bs ! j))"
  using assms(3,7)
proof (induction i arbitrary: as m)
  case 0
  then show ?case by auto
next
  case (Suc i)
  let ?as = "map2 (\<lambda>x a. keep_bit (\<lambda>k. 0 \<le> sint (g x (f k))) i a) y as"
  have "pow (of_nat (a + 2 ^ i)) = Ret (f (a + 2 ^ i))" if "a \<in> set as" for a
    using that Suc.prems assms(6) by (intro assms(4)) (metis in_set_conv_nth)
  from pow_round_spec [where pow = pow and f = f and g = g and diff = diff and i = i,
      OF assms(1,2) Suc.prems(1) this assms(5)] obtain m1 where
    1: "pow_round lib pow diff Y i (map of_nat as) m = Ret (map of_nat ?as, m1)" by blast
  have "length ?as = length y" using Suc.prems(1) by simp
  moreover have "P (y ! j) i (?as ! j)" if "j < length y" for j
    using that Suc.prems assms(6) by simp
  ultimately show ?case using Suc.IH [of ?as m1] 1 by simp
qed

section \<open>The magnitudes\<close>

lemma sint_difference:
  fixes x :: i64
  assumes "0 \<le> sint x" "0 \<le> k" "k < 2 ^ 63"
  shows "sint (x - of_int k) = sint x - k" "sint (of_int k - x) = k - sint x"
proof -
  have x: "x = of_int (sint x)" by simp
  have "sint x < 2 ^ 63" using sint_lt [of x] by simp
  with assms show "sint (x - of_int k) = sint x - k" "sint (of_int k - x) = k - sint x"
    by (subst x, simp only: of_int_diff [symmetric], subst signed_of_int, subst signed_take_bit_int_eq_self, simp_all)+
qed

lemma fx_power:
  assumes "magnitude_laws D lib" "k + D < 63"
  shows "lb_fx lib (2 ^ k) = of_int (2 ^ (k + D))"
proof -
  have "(2 :: rat) ^ k * 2 ^ D = 2 ^ (k + D)" by (simp add: power_add)
  moreover have "(2 :: rat) ^ (k + D) < 2 ^ 63" using assms(2) by (intro power_strict_increasing) simp_all
  moreover have "\<lfloor>(2 :: rat) ^ (k + D)\<rfloor> = 2 ^ (k + D)"
    by (metis floor_of_int of_int_numeral of_int_power)
  ultimately show ?thesis using magnitude_lawsD(5) [OF assms(1), of "2 ^ k"] by simp
qed

text \<open>The candidate of the search for large numbers before the round of bit \<open>i - 1\<close>.\<close>

definition up_inv :: "nat \<Rightarrow> i64 \<Rightarrow> nat \<Rightarrow> nat \<Rightarrow> bool" where
  "up_inv D x i a \<longleftrightarrow> i \<le> 6 \<and> 0 \<le> sint x \<and> sint x < 2 ^ (32 + D)
     \<and> (if i = 6 then a = 0
        else sint x < 2 ^ (a + 2 ^ i + D) \<and> (a = 0 \<or> 2 ^ (a + D) \<le> sint x) \<and> a + 2 ^ i \<le> 32)"

lemma up_inv_step:
  assumes "magnitude_laws D lib" "D \<le> 30" "up_inv D x (Suc i) a"
  shows "up_inv D x i (keep_bit (\<lambda>k. 0 \<le> sint (x - lb_fx lib (2 ^ k))) i a) \<and> a + 2 ^ i < 64"
proof -
  have i: "i = 5 \<and> a = 0 \<or> i < 5 \<and> a + 2 ^ Suc i \<le> 32"
    using assms(3) by (auto simp: up_inv_def split: if_splits)
  then have le: "a + 2 ^ i \<le> 32" by auto
  have x: "0 \<le> sint x" using assms(3) by (simp add: up_inv_def)
  have "sint (x - lb_fx lib (2 ^ (a + 2 ^ i))) = sint x - 2 ^ (a + 2 ^ i + D)"
    using fx_power [OF assms(1), of "a + 2 ^ i"] le assms(2)
      sint_difference(1) [OF x, of "2 ^ (a + 2 ^ i + D)"]
      power_strict_increasing [of "a + 2 ^ i + D" 63 "2 :: int"]
    by simp
  then show ?thesis
    using assms(3) i le by (auto simp: up_inv_def keep_bit_def ac_simps mult_2 split: if_splits)
qed

lemma power_up_Ret: "n < 64 \<Longrightarrow> power_up lib (of_nat n) = Ret (lb_fx lib (2 ^ n))"
proof -
  assume "n < 64"
  then have "unat (of_nat n :: u64) = n" by (simp add: unat_of_nat)
  moreover have "unat (push_bit n (1 :: u64)) = 2 ^ n"
    using \<open>n < 64\<close> by (subst unsigned_push_bit_eq) (simp add: push_bit_eq_mult take_bit_nat_eq_self_iff)
  ultimately show ?thesis using \<open>n < 64\<close> by (simp add: power_up_def)
qed

text \<open>The same for the search for small numbers.\<close>

definition down_inv :: "nat \<Rightarrow> i64 \<Rightarrow> nat \<Rightarrow> nat \<Rightarrow> bool" where
  "down_inv D x i a \<longleftrightarrow> i \<le> 6 \<and> 0 < sint x \<and> a \<le> D \<and> sint x \<le> 2 ^ (D - a) \<and> a + 2 ^ i \<le> 64
     \<and> (a + 2 ^ i \<le> D \<longrightarrow> 2 ^ (D - (a + 2 ^ i)) < sint x)"

lemma fx_fraction:
  assumes "magnitude_laws D lib" "D < 63"
  shows "lb_fx lib (2 powi (- int k)) = of_int (if k \<le> D then 2 ^ (D - k) else 0)"
proof -
  have q: "(2 :: rat) powi (- int k) * 2 ^ D = (if k \<le> D then 2 ^ (D - k) else 1 / 2 ^ (k - D))"
    by (auto simp: power_int_minus power_diff field_simps)
  have "(2 :: rat) powi (- int k) * 2 ^ D \<le> 2 ^ D"
    by (simp add: power_int_minus inverse_le_1_iff)
  also have "\<dots> < 2 ^ 63" using assms(2) by (intro power_strict_increasing) simp_all
  finally have "lb_fx lib (2 powi (- int k)) = of_int \<lfloor>(2 :: rat) powi (- int k) * 2 ^ D\<rfloor>"
    by (intro magnitude_lawsD(5) [OF assms(1)]) simp_all
  moreover have "\<lfloor>(2 :: rat) ^ (D - k)\<rfloor> = 2 ^ (D - k)"
    by (metis floor_of_int of_int_numeral of_int_power)
  moreover have "\<lfloor>1 / (2 :: rat) ^ (k - D)\<rfloor> = 0" if "\<not> k \<le> D"
    using that by (simp add: floor_eq_iff)
  ultimately show ?thesis unfolding q by auto
qed

lemma down_inv_step:
  assumes "magnitude_laws D lib" "D < 63" "down_inv D x (Suc i) a"
  shows "down_inv D x i (keep_bit (\<lambda>k. 0 \<le> sint (lb_fx lib (2 powi (- int k)) - x)) i a)
    \<and> a + 2 ^ i < 64"
proof -
  let ?f = "if a + 2 ^ i \<le> D then 2 ^ (D - (a + 2 ^ i)) else 0 :: int"
  have "(2 :: int) ^ (D - (a + 2 ^ i)) < 2 ^ 63" using assms(2) by (intro power_strict_increasing) simp_all
  then have "sint (lb_fx lib (2 powi (- int (a + 2 ^ i))) - x) = ?f - sint x"
    using sint_difference(2) [of x ?f] assms(3) fx_fraction [OF assms(1,2), of "a + 2 ^ i"]
    by (simp add: down_inv_def)
  moreover have "a + 2 ^ i < 64"
  proof -
    have "0 < (2 :: nat) ^ i" "a + 2 * 2 ^ i \<le> 64" using assms(3) by (simp_all add: down_inv_def)
    then show ?thesis by linarith
  qed
  ultimately show ?thesis
    using assms(3) by (auto simp: down_inv_def keep_bit_def ac_simps mult_2)
qed

lemma power_down_Ret: "n < 64 \<Longrightarrow> power_down lib (of_nat n) = Ret (lb_fx lib (2 powi (- int n)))"
  by (simp add: power_down_def signed_of_nat signed_take_bit_int_eq_self)

lemma rounds_list: "rev [0..<6] = [5, 4, 3, 2, 1, 0 :: nat]"
  by (simp add: upt_conv_Cons)

text \<open>
  C37: with at most 30 fractional bits, the search for large numbers finds for every number below
  \<open>2 ^ 32\<close> that is not negative the least exponent, but at least 1, whose power of two is above it.
\<close>

theorem pow_finds_magnitude:
  assumes "magnitude_laws D lib" "D \<le> 30" "hides r c y Y"
    "\<forall>x \<in> set y. 0 \<le> sint x \<and> sint x < 2 ^ (32 + D)"
  shows "\<exists>ks m'. MPC_Pow lib Y m = Ret (map of_nat ks, m')
    \<and> list_all2 (\<lambda>x k. 1 \<le> k \<and> k \<le> 32 \<and> sint x < 2 ^ (k + D)
        \<and> (k = 1 \<or> 2 ^ (k - 1 + D) \<le> sint x)) y ks"
proof -
  have rc: "sm_rows (Y 0) * sm_cols (Y 0) = length y"
    using assms(3) hides_length [OF assms(3)] by (simp add: hides_def sm_shape_def)
  have "\<exists>as m'. pow_rounds lib (power_up lib) (\<lambda>y r. lb_minus lib y r) Y (rev [0..<6])
      (map of_nat (replicate (length y) 0)) m = Ret (map of_nat as, m')
    \<and> length as = length y \<and> (\<forall>j < length y. up_inv D (y ! j) 0 (as ! j))"
    by (rule pow_rounds_spec [where f = "\<lambda>n. lb_fx lib (2 ^ n)" and g = "(-)", OF assms(1,3)])
      (use assms(4) up_inv_step [OF assms(1,2)] local_plus(2) [OF magnitude_lawsD(1) [OF assms(1)] assms(3)]
        in \<open>simp_all add: power_up_Ret up_inv_def\<close>)
  then obtain as m' where as: "pow_rounds lib (power_up lib) (\<lambda>y r. lb_minus lib y r) Y [5, 4, 3, 2, 1, 0]
      (replicate (length y) 0) m = Ret (map of_nat as, m')"
    "length as = length y" "\<forall>j < length y. up_inv D (y ! j) 0 (as ! j)"
    unfolding rounds_list by auto
  have "MPC_Pow lib Y m = Ret (map of_nat (map Suc as), m')"
    unfolding MPC_Pow_def rc as(1) by (simp add: add.commute)
  moreover have "list_all2 (\<lambda>x k. 1 \<le> k \<and> k \<le> 32 \<and> sint x < 2 ^ (k + D)
        \<and> (k = 1 \<or> 2 ^ (k - 1 + D) \<le> sint x)) y (map Suc as)"
    using as(2,3) by (auto simp: list_all2_conv_all_nth up_inv_def)
  ultimately show ?thesis by blast
qed

text \<open>
  The search for small numbers finds for every positive number up to 1 the largest power of two
  with a negative exponent that is not below it, and gives the exponent.
\<close>

theorem pow2_finds_magnitude:
  assumes "magnitude_laws D lib" "D < 63" "hides r c y Y" "\<forall>x \<in> set y. 0 < sint x \<and> sint x \<le> 2 ^ D"
  shows "\<exists>ks m'. MPC_Pow2 lib Y m = Ret (map (\<lambda>k. - of_nat k) ks, m')
    \<and> list_all2 (\<lambda>x k. k \<le> D \<and> sint x \<le> 2 ^ (D - k) \<and> (k < D \<longrightarrow> 2 ^ (D - (k + 1)) < sint x)) y ks"
proof -
  have rc: "sm_rows (Y 0) * sm_cols (Y 0) = length y"
    using assms(3) hides_length [OF assms(3)] by (simp add: hides_def sm_shape_def)
  have sub: "hides r c (map2 (\<lambda>x w. w - x) y w) (\<lambda>p. lb_minus lib (S p) (Y p))" if "hides r c w S" for S w
    using local_plus(2) [OF magnitude_lawsD(1) [OF assms(1)] that assms(3)]
    by (subst zip_commute) (simp add: case_prod_beta' o_def)
  have "\<exists>as m'. pow_rounds lib (power_down lib) (\<lambda>y r. lb_minus lib r y) Y (rev [0..<6])
      (map of_nat (replicate (length y) 0)) m = Ret (map of_nat as, m')
    \<and> length as = length y \<and> (\<forall>j < length y. down_inv D (y ! j) 0 (as ! j))"
    by (rule pow_rounds_spec [where f = "\<lambda>n. lb_fx lib (2 powi (- int n))" and g = "\<lambda>x w. w - x",
          OF assms(1,3)])
      (use assms(2,4) down_inv_step [OF assms(1,2)] sub in \<open>simp_all add: power_down_Ret down_inv_def\<close>)
  then obtain as m' where as: "pow_rounds lib (power_down lib) (\<lambda>y r. lb_minus lib r y) Y [5, 4, 3, 2, 1, 0]
      (replicate (length y) 0) m = Ret (map of_nat as, m')"
    "length as = length y" "\<forall>j < length y. down_inv D (y ! j) 0 (as ! j)"
    unfolding rounds_list by auto
  have "MPC_Pow2 lib Y m = Ret (map (\<lambda>k. - of_nat k) as, m')"
    unfolding MPC_Pow2_def rc as(1) by simp
  moreover have "list_all2 (\<lambda>x k. k \<le> D \<and> sint x \<le> 2 ^ (D - k)
        \<and> (k < D \<longrightarrow> 2 ^ (D - (k + 1)) < sint x)) y as"
    using as(2,3) by (auto simp: list_all2_conv_all_nth down_inv_def)
  ultimately show ?thesis by blast
qed

section \<open>Instances\<close>

lemma demo_magnitude: "magnitude_laws 16 demo_aby3"
  unfolding magnitude_laws_def
proof (intro conjI allI impI demo_local)
  fix r c m and v :: "i64 list" assume "length v = r * c"
  then show "hides r c v (fst (lb_share demo_aby3 r c v m))" by (simp add: demo_aby3_def hides_demo_share)
next
  fix r c v Y m assume Y: "hides r c v Y"
  then have "sm_rows (Y 0) = r" "sm_cols (Y 0) = c" "secret Y = v" by (simp_all add: hides_def sm_shape_def)
  moreover have "demo_piece [[0, 0], [1, 0]] = (\<lambda>x. if sint x < 0 then 0 else 2 ^ 16)"
    by (simp add: fun_eq_iff demo_piece_def)
  ultimately show "hides r c (map (\<lambda>x. if sint x < 0 then 0 else 2 ^ 16) v)
      (fst (lb_piecewise demo_aby3 [0] [[0, 0], [1, 0]] Y m))"
    using hides_demo_share [of "map (\<lambda>x. if sint x < 0 then 0 else 2 ^ 16) v" r c] hides_length [OF Y]
    by (simp add: demo_aby3_def)
qed (simp_all add: demo_aby3_def hides_def)

text \<open>The numbers 5 and 1/2, and then 1 and 3/8, with 16 fractional bits.\<close>

theorem pow_finds_magnitude_witness:
  "\<exists>ks m'. MPC_Pow demo_aby3 (demo_share 2 1 [327680, 32768]) [] = Ret (map of_nat ks, m')
    \<and> list_all2 (\<lambda>x k. 1 \<le> k \<and> k \<le> 32 \<and> sint x < 2 ^ (k + 16)
        \<and> (k = 1 \<or> 2 ^ (k - 1 + 16) \<le> sint x)) [327680, 32768 :: i64] ks"
  by (rule pow_finds_magnitude [OF demo_magnitude _ hides_demo_share]) simp_all

theorem pow2_finds_magnitude_witness:
  "\<exists>ks m'. MPC_Pow2 demo_aby3 (demo_share 2 1 [65536, 24576]) [] = Ret (map (\<lambda>k. - of_nat k) ks, m')
    \<and> list_all2 (\<lambda>x k. k \<le> 16 \<and> sint x \<le> 2 ^ (16 - k)
        \<and> (k < 16 \<longrightarrow> 2 ^ (16 - (k + 1)) < sint x)) [65536, 24576 :: i64] ks"
  by (rule pow2_finds_magnitude [OF demo_magnitude _ hides_demo_share]) simp_all

end
