(* ===== verification/Aby3_Compare.thy ===== *)
theory Aby3_Compare
  imports Aby3_Correct
begin

text \<open>
  The comparison of two parties' matrices (src/fediux/operator/aby3_operator.cc): the parties find
  out who brings no matrix, one provider negates its values, and the highest bit of the sum is
  computed on binary shares. Binary shares and their circuit are parameters.
\<close>

section \<open>Who provides\<close>

text \<open>The shapes of the parties' matrices, in their order; a party without one sends zeros.\<close>

(* src/src/fediux/operator/aby3_operator.cc:297-308 MPCOperator::MPC_Compare *)
fun find_skip :: "nat \<Rightarrow> (nat \<times> nat) list \<Rightarrow> nat option \<Rightarrow> nat option cpp" where
  "find_skip i [] skip = Ret skip"
| "find_skip i (shape # shapes) skip =
     (if fst shape = 0 \<and> snd shape = 0 then
        (if skip \<noteq> None then
           Throw (''There are two party that don't provide any value at last, but ''
             @ ''compare operator require value from two party.'')
         else find_skip (Suc i) shapes (Some i))
      else find_skip (Suc i) shapes skip)"

(* src/src/fediux/operator/aby3_operator.cc:314-328 MPCOperator::MPC_Compare *)
definition same_shape :: "nat \<Rightarrow> (nat \<times> nat) list \<Rightarrow> (nat \<times> nat) cpp" where
  "same_shape skip_index shapes =
     (let s = (if skip_index = 0 then shapes[0 := shapes ! 1, 1 := shapes ! 2]
               else if skip_index \<noteq> 2 then shapes[1 := shapes ! 2]
               else shapes)
      in if fst (s ! 0) \<noteq> fst (s ! 1) \<or> snd (s ! 0) \<noteq> snd (s ! 1)
         then Throw ''Shape of matrix in two party must be the same.''
         else Ret (s ! 0))"

(* src/src/fediux/operator/aby3_operator.cc:297-328 MPCOperator::MPC_Compare *)
definition find_providers :: "(nat \<times> nat) list \<Rightarrow> (nat \<times> nat \<times> nat) cpp" where
  "find_providers shapes = cbind (find_skip 0 shapes None) (\<lambda>skip. case skip of
      None \<Rightarrow> Throw ''This operator is binary, can only handle value from two party.''
    | Some skip_index \<Rightarrow> cbind (same_shape skip_index shapes) (\<lambda>shape. Ret (skip_index, shape)))"

text \<open>Which party negates, and the matrix after it.\<close>

(* src/src/fediux/operator/aby3_operator.cc:332-338 MPCOperator::MPC_Compare *)
definition negates :: "nat \<Rightarrow> nat \<Rightarrow> bool" where
  "negates partyIdx skip_index =
     (if skip_index = 0 \<or> skip_index = 1 then partyIdx = 2 else partyIdx = 1)"

(* src/src/fediux/operator/aby3_operator.cc:332-338 MPCOperator::MPC_Compare *)
definition negate_for :: "nat \<Rightarrow> nat \<Rightarrow> matrix \<Rightarrow> matrix" where
  "negate_for partyIdx skip_index m =
     (if negates partyIdx skip_index then m\<lparr>m_at := map (\<lambda>x. x * -1) (m_at m)\<rparr> else m)"

text \<open>
  Resizing keeps the entries when their number stays; otherwise the new ones are whatever the
  memory holds, \<open>fresh\<close>.
\<close>

definition resize :: "(nat \<Rightarrow> i64 list) \<Rightarrow> nat \<Rightarrow> matrix \<Rightarrow> matrix" where
  "resize fresh n m = \<lparr>m_rows = n, m_cols = 1,
     m_at = (if m_rows m * m_cols m = n then m_at m else fresh n)\<rparr>"

text \<open>
  A provider's part before the shares are made: the party without values, the number of entries,
  and its matrix.
\<close>

(* src/src/fediux/operator/aby3_operator.cc:265-345 MPCOperator::MPC_Compare *)
definition compare_prepare ::
  "(nat \<Rightarrow> i64 list) \<Rightarrow> nat \<Rightarrow> (nat \<times> nat) list \<Rightarrow> matrix \<Rightarrow> (nat \<times> nat \<times> matrix) cpp" where
  "compare_prepare fresh partyIdx shapes m =
     cbind (find_providers shapes) (\<lambda>(skip_index, r, c).
       let num_elem = r * c
       in Ret (skip_index, num_elem, resize fresh num_elem (negate_for partyIdx skip_index m)))"

(* src/src/fediux/operator/aby3_operator.cc:381-388 MPCOperator::MPC_Compare *)
definition compare_recover :: "nat \<Rightarrow> nat \<Rightarrow> matrix \<Rightarrow> matrix" where
  "compare_recover partyIdx skip_index m = negate_for partyIdx skip_index m"

text \<open>The call without a matrix, of the party that has none, counts in 32 bits.\<close>

(* src/src/fediux/operator/aby3_operator.cc:393-443 MPCOperator::MPC_Compare *)
definition compare_watch :: "nat \<Rightarrow> (nat \<times> nat) list \<Rightarrow> u32 cpp" where
  "compare_watch partyIdx shapes =
     (let s = (if partyIdx = 0 then shapes[0 := shapes ! 1, 1 := shapes ! 2]
               else if partyIdx = 1 then shapes[1 := shapes ! 2]
               else shapes)
      in if fst (s ! 0) \<noteq> fst (s ! 1) \<or> snd (s ! 0) \<noteq> snd (s ! 1)
         then Throw ''Shape of matrix in two party must be the same.''
         else Ret (of_nat (fst (s ! 0)) * of_nat (snd (s ! 0))))"

section \<open>The comparison\<close>

text \<open>
  Binary shares: sharing a column of values, and the circuit for the highest bit of a sum. What the
  three parties do together.
\<close>

record ('m, 'b) aby3_bin =
  bin_share :: "i64 list \<Rightarrow> 'm \<Rightarrow> 'b \<times> 'm"
  bin_add_msb :: "'b \<Rightarrow> 'b \<Rightarrow> 'm \<Rightarrow> 'b \<times> 'm"
  bin_reveal :: "'b \<Rightarrow> 'm \<Rightarrow> bool list \<times> 'm"

definition shape_of :: "matrix option \<Rightarrow> nat \<times> nat" where
  "shape_of m = (case m of None \<Rightarrow> (0, 0) | Some m \<Rightarrow> (m_rows m, m_cols m))"

text \<open>
  The three parties, of which one calls without a matrix. When they do not agree on who provides
  and how many, messages are not received; that is not told from undefined behaviour.
\<close>

(* src/src/fediux/operator/aby3_operator.cc:341-391 MPCOperator::MPC_Compare *)
definition MPC_Compare ::
  "('m, 'b) aby3_bin \<Rightarrow> (nat \<Rightarrow> i64 list) \<Rightarrow> (nat \<Rightarrow> matrix option) \<Rightarrow> 'm
   \<Rightarrow> ('b \<times> (nat \<Rightarrow> matrix option) \<times> 'm) cpp" where
  "MPC_Compare bin fresh ms m =
     (let shapes = map (\<lambda>p. shape_of (ms p)) [0, 1, 2]
      in cbind (jointly (\<lambda>p. case ms p of
           Some mat \<Rightarrow> cbind (compare_prepare fresh p shapes mat) (\<lambda>(k, n, mat').
             Ret (k, n, Some mat'))
         | None \<Rightarrow> cbind (compare_watch p shapes) (\<lambda>n. Ret (p, unat n, None)))) (\<lambda>views.
         let k = fst (views 0); n = fst (snd (views 0));
             providers = filter (\<lambda>i. i \<noteq> k) [0, 1, 2]
         in if (\<forall>p \<in> set [1, 2]. fst (views p) = k \<and> fst (snd (views p)) = n)
              \<and> (\<forall>i \<in> set providers. snd (snd (views i)) \<noteq> None) then
              (let column = (\<lambda>i. m_at (the (snd (snd (views i)))));
                   (x, m) = bin_share bin (column (providers ! 0)) m;
                   (y, m) = bin_share bin (column (providers ! 1)) m;
                   (res, m) = bin_add_msb bin x y m
               in Ret (res, (\<lambda>p. map_option (compare_recover p k) (snd (snd (views p)))), m))
            else Undef))"

section \<open>What the comparison gives\<close>

definition msb_laws :: "('m, 'b) aby3_bin \<Rightarrow> bool" where
  "msb_laws bin \<longleftrightarrow> (\<forall>xs ys m1 m2 m3 m4. length xs = length ys \<longrightarrow>
     fst (bin_reveal bin (fst (bin_add_msb bin (fst (bin_share bin xs m1)) (fst (bin_share bin ys m2)) m3)) m4)
       = map2 (\<lambda>x y. sint (x + y) < 0) xs ys)"

definition provider_1 :: "nat \<Rightarrow> nat" where "provider_1 k = (if k = 0 then 1 else 0)"
definition provider_2 :: "nat \<Rightarrow> nat" where "provider_2 k = (if k = 2 then 1 else 2)"

text \<open>The highest bit of a difference of 64-bit numbers is their order, unless it overflows.\<close>

definition difference_fits :: "i64 \<Rightarrow> i64 \<Rightarrow> bool" where
  "difference_fits x y \<longleftrightarrow> - (2 ^ 63) \<le> sint x - sint y \<and> sint x - sint y < 2 ^ 63"

lemma wrapped_sign:
  assumes "- (2 ^ 64) \<le> (d :: int)" "d < 2 ^ 64"
  shows "(d + 2 ^ 63) mod 2 ^ 64 - 2 ^ 63 < 0 \<longleftrightarrow> (d < 0) = (- (2 ^ 63) \<le> d \<and> d < 2 ^ 63)"
proof -
  consider "d < - (2 ^ 63)" | "2 ^ 63 \<le> d" | "- (2 ^ 63) \<le> d" "d < 2 ^ 63" by linarith
  then show ?thesis
  proof cases
    case 1
    then have "(d + 2 ^ 63 + 2 ^ 64) mod 2 ^ 64 = d + 2 ^ 63 + 2 ^ 64"
      using assms by (intro mod_pos_pos_trivial) simp_all
    then have "(d + 2 ^ 63) mod 2 ^ 64 = d + 2 ^ 63 + 2 ^ 64" by (simp only: mod_add_self2)
    with 1 assms show ?thesis by simp
  next
    case 2
    then have "(d + 2 ^ 63 - 2 ^ 64) mod 2 ^ 64 = d + 2 ^ 63 - 2 ^ 64"
      using assms by (intro mod_pos_pos_trivial) simp_all
    then have "(d + 2 ^ 63) mod 2 ^ 64 = d + 2 ^ 63 - 2 ^ 64" by (simp only: minus_mod_self2)
    with 2 assms show ?thesis by simp
  qed simp
qed

lemma sign_of_difference: "sint (x - y :: i64) < 0 \<longleftrightarrow> (sint x < sint y) = difference_fits x y"
proof -
  have b: "- (2 ^ 63) \<le> sint x" "sint x < 2 ^ 63" "- (2 ^ 63) \<le> sint y" "sint y < 2 ^ 63"
    using sint_ge [of x] sint_lt [of x] sint_ge [of y] sint_lt [of y] by simp_all
  have "sint (x - y) = (sint x - sint y + 2 ^ 63) mod 2 ^ 64 - 2 ^ 63"
    using int_word_sint [of "sint x - sint y", where 'a = 64] by simp
  with wrapped_sign [of "sint x - sint y"] b show ?thesis by (simp add: difference_fits_def)
qed

lemma negate_twice: "negate_for p k (resize f (m_rows m * m_cols m) (negate_for p k m))
    = \<lparr>m_rows = m_rows m * m_cols m, m_cols = 1, m_at = m_at m\<rparr>"
  by (simp add: negate_for_def resize_def o_def)

lemma providers_agree:
  assumes "k < 3" "ms k = None" "ms (provider_1 k) = Some a" "ms (provider_2 k) = Some b"
    "m_rows b = m_rows a" "m_cols b = m_cols a" "m_rows a \<noteq> 0 \<or> m_cols a \<noteq> 0"
  shows "find_providers (map (\<lambda>p. shape_of (ms p)) [0, 1, 2]) = Ret (k, m_rows a, m_cols a)"
    "compare_watch k (map (\<lambda>p. shape_of (ms p)) [0, 1, 2]) = Ret (of_nat (m_rows a) * of_nat (m_cols a))"
proof -
  from assms(1) consider "k = 0" | "k = 1" | "k = 2" by linarith
  then have "find_providers (map (\<lambda>p. shape_of (ms p)) [0, 1, 2]) = Ret (k, m_rows a, m_cols a)
    \<and> compare_watch k (map (\<lambda>p. shape_of (ms p)) [0, 1, 2]) = Ret (of_nat (m_rows a) * of_nat (m_cols a))"
  proof cases
    case 1
    then have "map (\<lambda>p. shape_of (ms p)) [0, 1, 2] = [(0, 0), (m_rows a, m_cols a), (m_rows a, m_cols a)]"
      using assms(2-6) by (simp add: shape_of_def provider_1_def provider_2_def)
    then show ?thesis
      using assms(7) 1 by (simp add: find_providers_def same_shape_def compare_watch_def)
  next
    case 2
    then have "map (\<lambda>p. shape_of (ms p)) [0, 1, 2] = [(m_rows a, m_cols a), (0, 0), (m_rows a, m_cols a)]"
      using assms(2-6) by (simp add: shape_of_def provider_1_def provider_2_def)
    then show ?thesis
      using assms(7) 2 by (simp add: find_providers_def same_shape_def compare_watch_def)
  next
    case 3
    then have "map (\<lambda>p. shape_of (ms p)) [0, 1, 2] = [(m_rows a, m_cols a), (m_rows a, m_cols a), (0, 0)]"
      using assms(2-6) by (simp add: shape_of_def provider_1_def provider_2_def)
    then show ?thesis
      using assms(7) 3 by (simp add: find_providers_def same_shape_def compare_watch_def)
  qed
  then show "find_providers (map (\<lambda>p. shape_of (ms p)) [0, 1, 2]) = Ret (k, m_rows a, m_cols a)"
    "compare_watch k (map (\<lambda>p. shape_of (ms p)) [0, 1, 2]) = Ret (of_nat (m_rows a) * of_nat (m_cols a))"
    by blast+
qed

text \<open>The bits are the same in every state in which they are revealed.\<close>

lemma compare_run:
  assumes "msb_laws bin" "k < 3" "ms k = None" "ms (provider_1 k) = Some a" "ms (provider_2 k) = Some b"
    "m_rows b = m_rows a" "m_cols b = m_cols a" "m_rows a \<noteq> 0 \<or> m_cols a \<noteq> 0"
    "length (m_at a) = m_rows a * m_cols a" "length (m_at b) = m_rows a * m_cols a"
    "m_rows a * m_cols a < 2 ^ 32"
  shows "\<exists>res ms' m'. MPC_Compare bin fresh ms m = Ret (res, ms', m')
    \<and> (\<forall>m4. fst (bin_reveal bin res m4) = map2 (\<lambda>x y. (sint x < sint y) = difference_fits x y) (m_at a) (m_at b))
    \<and> ms' (provider_1 k) = Some \<lparr>m_rows = m_rows a * m_cols a, m_cols = 1, m_at = m_at a\<rparr>
    \<and> ms' (provider_2 k) = Some \<lparr>m_rows = m_rows a * m_cols a, m_cols = 1, m_at = m_at b\<rparr> \<and> ms' k = None"
proof -
  let ?shapes = "map (\<lambda>p. shape_of (ms p)) [0, 1, 2]"
  let ?n = "m_rows a * m_cols a"
  let ?A = "resize fresh ?n (negate_for (provider_1 k) k a)"
  let ?B = "resize fresh ?n (negate_for (provider_2 k) k b)"
  note agree = providers_agree [OF assms(2-8)]
  have n: "unat (of_nat (m_rows a) * of_nat (m_cols a) :: u32) = ?n"
    using assms(11) by (simp flip: of_nat_mult add: unat_of_nat)
  have k: "k = 0 \<or> k = 1 \<or> k = 2" using assms(2) by auto
  obtain x m1 where x: "bin_share bin (m_at ?A) m = (x, m1)" by fastforce
  obtain y m2 where y: "bin_share bin (m_at ?B) m1 = (y, m2)" by fastforce
  obtain res m3 where res: "bin_add_msb bin x y m2 = (res, m3)" by fastforce
  let ?ms = "\<lambda>p. map_option (compare_recover p k)
    (if p = provider_1 k then Some ?A else if p = k \<or> (k = 2 \<and> 2 < p) then None else Some ?B)"
  have "MPC_Compare bin fresh ms m = Ret (res, ?ms, m3)"
    using k agree n x y res assms(3-5)
    by (elim disjE) (simp_all add: MPC_Compare_def compare_prepare_def jointly_def Let_def
        provider_1_def provider_2_def fun_eq_iff)
  moreover have "fst (bin_reveal bin res m4) = map2 (\<lambda>x y. sint (x + y) < 0) (m_at ?A) (m_at ?B)" for m4
  proof -
    have "length (m_at ?A) = length (m_at ?B)"
      using assms(6,7,9,10) by (simp add: resize_def negate_for_def)
    with assms(1) x y res show ?thesis unfolding msb_laws_def by (metis fst_conv)
  qed
  moreover have "map2 (\<lambda>x y. sint (x + y) < 0) (m_at ?A) (m_at ?B)
      = map2 (\<lambda>x y. (sint x < sint y) = difference_fits x y) (m_at a) (m_at b)"
  proof -
    have "m_at ?A = m_at a" "m_at ?B = map uminus (m_at b)"
      using assms(6,7) k
      by (auto simp: resize_def negate_for_def negates_def provider_1_def provider_2_def)
    then show ?thesis
      using assms(9,10) sign_of_difference by (auto intro!: nth_equalityI)
  qed
  moreover have "provider_1 k \<noteq> k" "provider_2 k \<noteq> k" "provider_2 k \<noteq> provider_1 k" "\<not> 2 < provider_2 k"
    by (auto simp: provider_1_def provider_2_def)
  ultimately show ?thesis
    using negate_twice [of "provider_1 k" k fresh a] negate_twice [of "provider_2 k" k fresh b] assms(6,7)
    by (auto simp: compare_recover_def provider_1_def)
qed

text \<open>
  C19: when one party calls without a matrix and the two others bring matrices of one shape, with fewer
  than \<open>2 ^ 32\<close> entries, all three agree, and the bits that the comparison gives say where the first
  provider's value is below the second's, exactly where their difference does not overflow 64 bits,
  and the opposite where it does. The providers keep their values, but in one column.
\<close>

theorem compare_orders:
  assumes "msb_laws bin" "k < 3" "ms k = None" "ms (provider_1 k) = Some a" "ms (provider_2 k) = Some b"
    "m_rows b = m_rows a" "m_cols b = m_cols a" "m_rows a \<noteq> 0 \<or> m_cols a \<noteq> 0"
    "length (m_at a) = m_rows a * m_cols a" "length (m_at b) = m_rows a * m_cols a"
    "m_rows a * m_cols a < 2 ^ 32"
  shows "\<exists>res ms' m'. MPC_Compare bin fresh ms m = Ret (res, ms', m')
    \<and> fst (bin_reveal bin res m') = map2 (\<lambda>x y. (sint x < sint y) = difference_fits x y) (m_at a) (m_at b)
    \<and> ms' (provider_1 k) = Some \<lparr>m_rows = m_rows a * m_cols a, m_cols = 1, m_at = m_at a\<rparr>
    \<and> ms' (provider_2 k) = Some \<lparr>m_rows = m_rows a * m_cols a, m_cols = 1, m_at = m_at b\<rparr>"
  using compare_run [OF assms] by blast

text \<open>A circuit in the clear.\<close>

definition demo_bin :: "('m, i64 list) aby3_bin" where
  "demo_bin = \<lparr>bin_share = (\<lambda>v m. (v, m)), bin_add_msb = (\<lambda>x y m. (map2 (+) x y, m)),
     bin_reveal = (\<lambda>b m. (map (\<lambda>x. sint x < 0) b, m))\<rparr>"

lemma demo_msb: "msb_laws demo_bin"
  by (auto simp: msb_laws_def demo_bin_def intro!: nth_equalityI)

theorem compare_orders_witness:
  "\<exists>res ms' m'. MPC_Compare demo_bin (\<lambda>n. replicate n 0)
      (\<lambda>p. if p = 1 then None else if p = 0 then Some \<lparr>m_rows = 1, m_cols = 3, m_at = [4, - 2, - (2 ^ 63)]\<rparr>
         else Some \<lparr>m_rows = 1, m_cols = 3, m_at = [7, - 5, 1]\<rparr>) () = Ret (res, ms', m')
    \<and> fst (bin_reveal demo_bin res m') = [True, False, False]"
proof -
  let ?ms = "\<lambda>p :: nat. if p = 1 then None else if p = 0 then Some \<lparr>m_rows = 1, m_cols = 3, m_at = [4, - 2, - (2 ^ 63)]\<rparr>
         else Some \<lparr>m_rows = 1, m_cols = 3, m_at = [7, - 5, 1]\<rparr>"
  have "sint (- 2 :: i64) = - 2" "sint (- 5 :: i64) = - 5" "sint (- (2 ^ 63) :: i64) = - (2 ^ 63)" by simp_all
  with compare_orders [OF demo_msb, of 1 ?ms "\<lparr>m_rows = 1, m_cols = 3, m_at = [4, - 2, - (2 ^ 63)]\<rparr>"
      "\<lparr>m_rows = 1, m_cols = 3, m_at = [7, - 5, 1]\<rparr>" "\<lambda>n. replicate n 0" "()"]
  show ?thesis by (auto simp: provider_1_def provider_2_def difference_fits_def)
qed

end
