(* ===== verification/Psi_Operator.thy ===== *)
theory Psi_Operator
  imports Task_Worker
begin

text \<open>
  Private set intersection (src/fediux/kernel/psi/operator/): the base operator with the broadcast of
  the result, the ECDH operator as client and as server, and the local parts of the KKRT operator.
  The protocol libraries and protobuf's serialization are parameters.
\<close>

section \<open>Programs of a party\<close>

text \<open>
  A party's program posts messages to nodes under a key, which may fail, and awaits messages under a
  key. The calls are those of the link context, whose queues deliver the messages of a key in order.
\<close>

datatype 'a proc =
    Finish 'a
  | Post node string string "retcode \<Rightarrow> 'a proc"
  | Await string "retcode \<times> string \<Rightarrow> 'a proc"
  | Crash

primrec pbind :: "'a proc \<Rightarrow> ('a \<Rightarrow> 'b proc) \<Rightarrow> 'b proc" where
  "pbind (Finish a) f = f a"
| "pbind (Post n key msg k) f = Post n key msg (\<lambda>r. pbind (k r) f)"
| "pbind (Await key k) f = Await key (\<lambda>r. pbind (k r) f)"
| "pbind Crash f = Crash"

text \<open>What undefined code does to a program.\<close>

definition with_cpp :: "'a cpp \<Rightarrow> ('a \<Rightarrow> 'b proc) \<Rightarrow> 'b proc" where
  "with_cpp x f = (case x of Ret a \<Rightarrow> f a | _ \<Rightarrow> Crash)"

lemma with_cpp_Ret [simp]: "with_cpp (Ret a) f = f a"
  by (simp add: with_cpp_def)

type_synonym psi_proc = "(retcode \<times> string list) proc"

section \<open>Framing\<close>

text \<open>A length is written as the eight bytes of a 64-bit word, the highest first.\<close>

(* src/src/fediux/util/endian_util.h:6-9 htonll *)
definition htonll_bytes :: "u64 \<Rightarrow> string" where
  "htonll_bytes w = map (\<lambda>i. char_of (uint (drop_bit (8 * (7 - i)) w AND 255))) [0..<8]"

(* src/src/fediux/util/endian_util.h:6-9 ntohll *)
definition ntohll_bytes :: "string \<Rightarrow> u64" where
  "ntohll_bytes s = foldl (\<lambda>w c. push_bit 8 w OR of_char c) 0 s"

text \<open>A read behind the end of the received bytes is undefined.\<close>

definition read_bytes :: "string \<Rightarrow> nat \<Rightarrow> nat \<Rightarrow> string cpp" where
  "read_bytes s offset len = (if offset + len \<le> length s then Ret (take len (drop offset s)) else Undef)"

definition read_len :: "string \<Rightarrow> nat \<Rightarrow> nat cpp" where
  "read_len s offset = cbind (read_bytes s offset 8) (\<lambda>b. Ret (unat (ntohll_bytes b)))"

(* src/src/fediux/kernel/psi/operator/base_psi.cc:55-61 BasePsiOperator::BroadcastResult *)
fun frame_items :: "string list \<Rightarrow> string" where
  "frame_items [] = []"
| "frame_items (item # items) = htonll_bytes (of_nat (length item)) @ item @ frame_items items"

(* src/src/fediux/kernel/psi/operator/base_psi.cc:84-96 BasePsiOperator::ReceiveResult *)
function unframe_items :: "string \<Rightarrow> nat \<Rightarrow> string list cpp" where
  "unframe_items s offset =
     (if offset < length s then
        cbind (read_len s offset) (\<lambda>len.
        cbind (read_bytes s (offset + 8) len) (\<lambda>item.
        cbind (unframe_items s (offset + 8 + len)) (\<lambda>items. Ret (item # items))))
      else Ret [])"
  by pat_completeness auto
termination by (relation "measure (\<lambda>(s, offset). length s - offset)") auto

declare unframe_items.simps [simp del]

section \<open>The base operator\<close>

(* src/src/fediux/kernel/psi/operator/common.h:11-14 PsiResultType *)
datatype psi_result_type = INTERSECTION | DIFFERENCE

(* src/src/fediux/kernel/psi/operator/base_psi.h:12-19 Options *)
record psi_options =
  party_info :: "(string \<times> node) list"
  self_party :: string
  psi_result_type :: psi_result_type

(* src/src/fediux/kernel/psi/operator/base_psi.cc:121-126 BasePsiOperator::IgnoreResult *)
definition IgnoreResult :: "string \<Rightarrow> bool" where
  "IgnoreResult party_name = (if IsTeeCompute party_name then True else False)"

(* src/src/fediux/kernel/psi/operator/base_psi.cc:111-119 BasePsiOperator::IgnoreParty *)
definition IgnoreParty :: "psi_options \<Rightarrow> string \<Rightarrow> bool" where
  "IgnoreParty opts party_name =
     (if party_name = self_party opts then True else if IgnoreResult party_name then True else False)"

(* src/src/fediux/kernel/psi/operator/base_psi.cc:100-109 BasePsiOperator::BroadcastPartyList *)
definition BroadcastPartyList :: "psi_options \<Rightarrow> node list" where
  "BroadcastPartyList opts = map snd (filter (\<lambda>(name, _). \<not> IgnoreParty opts name) (party_info opts))"

(* src/src/fediux/kernel/psi/operator/base_psi.cc:151-161 BasePsiOperator::GetNodeByName *)
definition GetNodeByName :: "psi_options \<Rightarrow> string \<Rightarrow> node option" where
  "GetNodeByName opts party_name = map_of (party_info opts) party_name"

(* src/src/fediux/kernel/psi/operator/base_psi.cc:128-145 BasePsiOperator::PeerNode *)
definition PeerNode :: "psi_options \<Rightarrow> node" where
  "PeerNode opts =
     (if IsClient (self_party opts) then
        (case GetNodeByName opts PARTY_SERVER of None \<Rightarrow> empty_node | Some n \<Rightarrow> n)
      else if IsServer (self_party opts) then
        (case GetNodeByName opts PARTY_CLIENT of None \<Rightarrow> empty_node | Some n \<Rightarrow> n)
      else empty_node)"

definition psi_key :: string where "psi_key = ''default''"

(* src/src/fediux/kernel/psi/operator/base_psi.cc:62-70 BasePsiOperator::BroadcastResult *)
primrec send_to_all :: "node list \<Rightarrow> string \<Rightarrow> 'a proc \<Rightarrow> 'a proc" where
  "send_to_all [] msg k = k"
| "send_to_all (party # parties) msg k = Post party psi_key msg (\<lambda>ret. send_to_all parties msg k)"

(* src/src/fediux/kernel/psi/operator/base_psi.cc:44-72 BasePsiOperator::BroadcastResult *)
definition BroadcastResult :: "psi_options \<Rightarrow> string list \<Rightarrow> psi_proc" where
  "BroadcastResult opts result =
     send_to_all (BroadcastPartyList opts) (frame_items result) (Finish (SUCCESS, result))"

(* src/src/fediux/kernel/psi/operator/base_psi.cc:74-98 BasePsiOperator::ReceiveResult *)
definition ReceiveResult :: "string list \<Rightarrow> psi_proc" where
  "ReceiveResult result = Await psi_key (\<lambda>(ret, recv_data).
     if ret \<noteq> SUCCESS \<and> recv_data \<noteq> [] then Finish (FAIL, result)
     else with_cpp (unframe_items recv_data 0) (\<lambda>items. Finish (SUCCESS, result @ items)))"

(* src/src/fediux/kernel/psi/operator/base_psi.cc:31-42 BasePsiOperator::BroadcastPsiResult *)
definition BroadcastPsiResult :: "psi_options \<Rightarrow> string list \<Rightarrow> psi_proc" where
  "BroadcastPsiResult opts result =
     (if IgnoreResult (self_party opts) then Finish (SUCCESS, result)
      else if IsClient (self_party opts) then BroadcastResult opts result
      else ReceiveResult result)"

(* src/src/fediux/kernel/psi/operator/base_psi.cc:9-29 BasePsiOperator::Execute *)
definition psi_Execute :: "psi_options \<Rightarrow> psi_proc \<Rightarrow> bool \<Rightarrow> psi_proc" where
  "psi_Execute opts on_execute sync_result = pbind on_execute (\<lambda>(ret, result).
     if ret \<noteq> SUCCESS then Finish (FAIL, result)
     else if sync_result then BroadcastPsiResult opts result
     else Finish (ret, result))"

text \<open>
  The values at the found indices, or those at the others; the copying by several threads, each of
  which has its own range, is the copying of the list. With more indices than values the number of the
  others is below zero, and no vector reserves so much.
\<close>

(* src/src/fediux/kernel/psi/operator/base_psi.cc:162-222 BasePsiOperator::GetResult *)
definition GetResult :: "psi_result_type \<Rightarrow> string list \<Rightarrow> nat list \<Rightarrow> string list cpp" where
  "GetResult ty input index =
     (case ty of
        DIFFERENCE \<Rightarrow> if length index > length input then Throw ''vector::reserve'' else Ret (map (\<lambda>i. input ! i) (filter (\<lambda>i. i \<notin> set index) [0..<length input]))
      | INTERSECTION \<Rightarrow> if \<forall>i \<in> set index. i < length input then Ret (map (\<lambda>i. input ! i) index) else Undef)"

section \<open>The ECDH operator\<close>

text \<open>
  The library's client and server, each with its key: a request of the client's values, the server's
  setup and its answer to a request, and the indices that the client finds. Bits of a setup are a
  string; other data structures than the two are refused.
\<close>

datatype psi_setup = Gcs string int int | BloomFilter string int | NoStructure string

record 'req ecdh_lib =
  ec_ser_params :: "(string \<times> param_value) list \<Rightarrow> string"
  ec_parse_params :: "string \<Rightarrow> string \<rightharpoonup> param_value"
  ec_CreateRequest :: "bool \<Rightarrow> string list \<Rightarrow> 'req"
  ec_ser_request :: "'req \<Rightarrow> string"
  ec_parse_request :: "string \<Rightarrow> 'req"
  ec_CreateSetupMessage :: "bool \<Rightarrow> nat \<Rightarrow> string list \<Rightarrow> psi_setup"
  ec_ser_setup :: "psi_setup \<Rightarrow> string"
  ec_parse_setup :: "string \<Rightarrow> psi_setup"
  ec_ProcessRequest :: "bool \<Rightarrow> 'req \<Rightarrow> string list"
  ec_ser_response :: "string list \<Rightarrow> string"
  ec_parse_response :: "string \<Rightarrow> string list"
  ec_GetIntersection :: "bool \<Rightarrow> psi_setup \<Rightarrow> string list \<Rightarrow> nat list"

(* src/src/fediux/kernel/psi/operator/ecdh_psi.cc:132-155 EcdhPsiOperator::BuildInitParam *)
definition BuildInitParam :: "'req ecdh_lib \<Rightarrow> nat \<Rightarrow> string" where
  "BuildInitParam lib element_size = ec_ser_params lib
     [(''dataset_size'', PvInt64 (int element_size)), (''reveal_intersection'', PvInt32 1)]"

definition value_int64 :: "param_value \<Rightarrow> int" where
  "value_int64 v = (case v of PvInt64 i \<Rightarrow> i | _ \<Rightarrow> 0)"

(* src/src/fediux/kernel/psi/operator/ecdh_psi.cc:334-350 EcdhPsiOperator::RecvInitParam *)
definition parse_init_param :: "'req ecdh_lib \<Rightarrow> string \<Rightarrow> (nat \<times> bool) option" where
  "parse_init_param lib init_param =
     (case ec_parse_params lib init_param ''dataset_size'' of
        None \<Rightarrow> None
      | Some pv \<Rightarrow> (case ec_parse_params lib init_param ''reveal_intersection'' of
            None \<Rightarrow> None
          | Some pv' \<Rightarrow> Some (unat (of_int (value_int64 pv) :: u64), value_int32 pv' > 0)))"

(* src/src/fediux/kernel/psi/operator/ecdh_psi.cc:197-238 EcdhPsiOperator::ParsePsiResponseFromeString *)
definition ParsePsiResponse :: "'req ecdh_lib \<Rightarrow> string \<Rightarrow> (psi_setup \<times> string list) option cpp" where
  "ParsePsiResponse lib s =
     cbind (read_len s 0) (\<lambda>psi_res_len.
     cbind (read_bytes s 8 psi_res_len) (\<lambda>response.
     cbind (read_len s (8 + psi_res_len)) (\<lambda>setup_info_len.
     cbind (read_bytes s (16 + psi_res_len) setup_info_len) (\<lambda>setup_info.
       Ret (case ec_parse_setup lib setup_info of
              NoStructure _ \<Rightarrow> None
            | stp \<Rightarrow> Some (stp, ec_parse_response lib response))))))"

(* src/src/fediux/kernel/psi/operator/ecdh_psi.cc:73-130 EcdhPsiOperator::GetIntersection *)
definition ecdh_GetIntersection ::
  "'req ecdh_lib \<Rightarrow> psi_result_type \<Rightarrow> string list \<Rightarrow> psi_setup \<Rightarrow> string list \<Rightarrow> (retcode \<times> string list) cpp" where
  "ecdh_GetIntersection lib ty origin_data stp elements =
     (case stp of NoStructure _ \<Rightarrow> Ret (FAIL, [])
      | _ \<Rightarrow> cbind (GetResult ty origin_data (ec_GetIntersection lib True stp elements))
               (\<lambda>result. Ret (SUCCESS, result)))"

(* src/src/fediux/kernel/psi/operator/ecdh_psi.cc:161-195 EcdhPsiOperator::SendPSIRequestAndWaitResponse *)
definition request_and_wait ::
  "'req ecdh_lib \<Rightarrow> node \<Rightarrow> 'req \<Rightarrow> ((psi_setup \<times> string list) option \<Rightarrow> 'a proc) \<Rightarrow> 'a proc" where
  "request_and_wait lib peer request k = Post peer psi_key (ec_ser_request lib request) (\<lambda>ret.
     if ret \<noteq> SUCCESS then k None
     else Await psi_key (\<lambda>(ret, recv_data).
       if ret \<noteq> SUCCESS \<or> recv_data = [] then k None
       else with_cpp (ParsePsiResponse lib recv_data) k))"

(* src/src/fediux/kernel/psi/operator/ecdh_psi.cc:33-71 EcdhPsiOperator::ExecuteAsClient *)
definition ExecuteAsClient :: "'req ecdh_lib \<Rightarrow> psi_options \<Rightarrow> string list \<Rightarrow> psi_proc" where
  "ExecuteAsClient lib opts input = Post (PeerNode opts) psi_key (BuildInitParam lib (length input)) (\<lambda>ret.
     if ret \<noteq> SUCCESS then Finish (FAIL, [])
     else request_and_wait lib (PeerNode opts) (ec_CreateRequest lib True input) (\<lambda>resp. case resp of
         None \<Rightarrow> Finish (FAIL, [])
       | Some (stp, elements) \<Rightarrow>
           with_cpp (ecdh_GetIntersection lib (psi_result_type opts) input stp elements) Finish))"

(* src/src/fediux/kernel/psi/operator/ecdh_psi.cc:295-310 EcdhPsiOperator::PreparePSIResponse *)
definition build_response :: "'req ecdh_lib \<Rightarrow> string list \<Rightarrow> psi_setup \<Rightarrow> string" where
  "build_response lib response stp =
     frame_items [ec_ser_response lib response, ec_ser_setup lib stp]"

text \<open>The return code of the answer's sending is not used.\<close>

(* src/src/fediux/kernel/psi/operator/ecdh_psi.cc:241-323 EcdhPsiOperator::ExecuteAsServer *)
definition ExecuteAsServer :: "'req ecdh_lib \<Rightarrow> psi_options \<Rightarrow> string list \<Rightarrow> psi_proc" where
  "ExecuteAsServer lib opts input = Await psi_key (\<lambda>(ret, init_param).
     if ret \<noteq> SUCCESS then Finish (FAIL, [])
     else case parse_init_param lib init_param of
         None \<Rightarrow> Finish (FAIL, [])
       | Some (num_client_elements, reveal) \<Rightarrow>
           Await psi_key (\<lambda>(ret, request).
             if ret \<noteq> SUCCESS then Finish (FAIL, [])
             else Post (PeerNode opts) psi_key
               (build_response lib (ec_ProcessRequest lib reveal (ec_parse_request lib request))
                 (ec_CreateSetupMessage lib reveal num_client_elements input))
               (\<lambda>ret. Finish (SUCCESS, []))))"

(* src/src/fediux/kernel/psi/operator/ecdh_psi.cc:15-31 EcdhPsiOperator::OnExecute *)
definition ecdh_OnExecute :: "'req ecdh_lib \<Rightarrow> psi_options \<Rightarrow> string list \<Rightarrow> psi_proc" where
  "ecdh_OnExecute lib opts input =
     (if input = [] then Finish (FAIL, [])
      else if IsClient (self_party opts) then ExecuteAsClient lib opts input
      else if IsServer (self_party opts) then ExecuteAsServer lib opts input
      else Finish (FAIL, []))"

section \<open>The KKRT operator\<close>

text \<open>
  The library's receiver gives the indices it finds from both parties' hashed values; the values are
  hashed in blocks by several threads.
\<close>

(* src/src/fediux/kernel/psi/operator/kkrt_psi.cc:191-239 KkrtPsiOperator::HashDataParallel *)
definition HashDataParallel :: "nat \<Rightarrow> (string \<Rightarrow> 'h) \<Rightarrow> string list \<Rightarrow> 'h list" where
  "HashDataParallel MAX_BLOCK_NUM hash input =
     (let data_size = length input;
          block_num = data_size div MAX_BLOCK_NUM + (if data_size mod MAX_BLOCK_NUM \<noteq> 0 then 1 else 0)
      in if block_num = 1 then map hash input
         else concat (map (\<lambda>i. map hash (take (min ((i + 1) * MAX_BLOCK_NUM) data_size - i * MAX_BLOCK_NUM)
                (drop (i * MAX_BLOCK_NUM) input))) [0..<block_num]))"

(* src/src/fediux/kernel/psi/operator/kkrt_psi.cc:23-77 KkrtPsiOperator::OnExecute *)
definition kkrt_OnExecute ::
  "(string \<Rightarrow> 'h) \<Rightarrow> ('h list \<Rightarrow> nat list) \<Rightarrow> psi_options \<Rightarrow> string list \<Rightarrow> (retcode \<times> string list) cpp" where
  "kkrt_OnExecute hash protocol opts input =
     (if input = [] then Ret (FAIL, [])
      else if \<not> IsClient (self_party opts) \<and> \<not> IsServer (self_party opts) then Ret (FAIL, [])
      else if GetNodeByName opts (if IsClient (self_party opts) then PARTY_SERVER else PARTY_CLIENT) = None
        then Ret (FAIL, [])
      else if IsClient (self_party opts) then
        cbind (GetResult (psi_result_type opts) input (protocol (HashDataParallel 10000000 hash input)))
          (\<lambda>result. Ret (SUCCESS, result))
      else Ret (SUCCESS, []))"

end
