(* ===== verification/Commuting_Steps.thy ===== *)
theory Commuting_Steps
  imports Prelude
begin

text \<open>
  Threads whose steps can be exchanged: when each of two different steps leaves the other possible, with
  the same outcome, one run that ends shows how every run ends.
\<close>

text \<open>
  A relation ends in \<open>t\<close> after \<open>n\<close> steps from \<open>s\<close> whatever steps are taken: no run is longer, and every
  run goes on to \<open>t\<close>.
\<close>

definition ends_in :: "('s \<Rightarrow> 's \<Rightarrow> bool) \<Rightarrow> 's \<Rightarrow> nat \<Rightarrow> 's \<Rightarrow> bool" where
  "ends_in R s n t \<longleftrightarrow> (\<nexists>u. R t u) \<and> (\<forall>m u. (R ^^ m) s u \<longrightarrow> m \<le> n \<and> (R ^^ (n - m)) u t)"

lemma strip_step:
  assumes diamond: "\<And>a b c. P a \<Longrightarrow> R a b \<Longrightarrow> R a c \<Longrightarrow> b = c \<or> (\<exists>d. R b d \<and> R c d)"
    and kept: "\<And>a b. P a \<Longrightarrow> R a b \<Longrightarrow> P b"
    and "\<nexists>u. R t u" "(R ^^ n) s t" "R s s'" "P s"
  shows "n \<noteq> 0 \<and> (R ^^ (n - 1)) s' t"
  using assms(4-6)
proof (induction n arbitrary: s s')
  case 0
  then show ?case using assms(3) by auto
next
  case (Suc n)
  from Suc.prems(1) obtain a where a: "R s a" "(R ^^ n) a t" by (rule relpowp_Suc_E2)
  show ?case
  proof (cases "s' = a")
    case False
    then obtain d where "R a d" "R s' d" using diamond [OF Suc.prems(3) a(1) Suc.prems(2)] by auto
    moreover from Suc.IH [OF a(2) \<open>R a d\<close> kept [OF Suc.prems(3) a(1)]]
    have "n \<noteq> 0" "(R ^^ (n - 1)) d t" by auto
    ultimately have "(R ^^ Suc (n - 1)) s' t" by (blast intro: relpowp_Suc_I2)
    with \<open>n \<noteq> 0\<close> show ?thesis by simp
  qed (use a in simp)
qed

lemma kept_along:
  assumes "\<And>a b. P a \<Longrightarrow> R a b \<Longrightarrow> P b" "(R ^^ m) s u" "P s"
  shows "P u"
  using assms(2) by (induction m arbitrary: u) (use assms in auto)

lemma one_run_all_runs:
  assumes diamond: "\<And>a b c. P a \<Longrightarrow> R a b \<Longrightarrow> R a c \<Longrightarrow> b = c \<or> (\<exists>d. R b d \<and> R c d)"
    and t: "\<nexists>u. R t u" and run: "(R ^^ n) s t"
    and kept: "\<And>a b. P a \<Longrightarrow> R a b \<Longrightarrow> P b" and P: "P s"
  shows "ends_in R s n t"
proof -
  have "m \<le> n \<and> (R ^^ (n - m)) u t" if "(R ^^ m) s u" for m u
    using that
  proof (induction m arbitrary: u)
    case 0
    then show ?case using run by simp
  next
    case (Suc m)
    then obtain v where v: "(R ^^ m) s v" "R v u" by auto
    from Suc.IH [OF v(1)] have "m \<le> n" "(R ^^ (n - m)) v t" by auto
    moreover have "P v" using kept v(1) P by (rule kept_along [of P R])
    with v(2) \<open>(R ^^ (n - m)) v t\<close> have "n - m \<noteq> 0 \<and> (R ^^ (n - m - 1)) u t"
      using strip_step [of P R t] diamond kept t by blast
    ultimately show ?case by simp
  qed
  with t show ?thesis by (simp add: ends_in_def)
qed

lemma relpowp_plus: "(R ^^ m) s t \<Longrightarrow> (R ^^ n) t u \<Longrightarrow> (R ^^ (m + n)) s u"
  unfolding relpowp_add by (rule relcomppI)

lemma ends_in_reaches: "ends_in R s n t \<Longrightarrow> (R ^^ n) s t"
  by (metis diff_zero ends_in_def relpowp_0_I)

end
