(* ===== verification/Psi_Correct.thy ===== *)
theory Psi_Correct
  imports Psi_Operator Commuting_Steps "HOL-Library.Multiset"
begin

text \<open>
  What a run of the ECDH operators gives. Two parties and the queues between them are a step
  relation, in which a party posts, or awaits what has come. The parties' steps commute, so that all
  runs end alike.
\<close>

section \<open>Framing\<close>

lemma byte_mask: "(w :: u64) AND 255 = take_bit 8 w"
  by (simp add: take_bit_eq_mask mask_eq_exp_minus_1)

lemma byte_char: "(of_char (char_of (uint (w AND 255 :: u64))) :: u64) = w AND 255"
proof -
  have "uint (w AND 255) < 256"
    unfolding byte_mask by (simp only: unsigned_take_bit_eq) (simp add: take_bit_eq_mod)
  moreover have "0 \<le> uint (w AND 255)" by simp
  ultimately have "of_char (char_of (uint (w AND 255))) = uint (w AND 255)" by simp
  then have "of_int (of_char (char_of (uint (w AND 255)))) = (w AND 255)" by simp
  then show ?thesis by (simp only: of_int_of_char)
qed

lemma next_byte: "push_bit 8 (drop_bit (k + 8) w) OR (drop_bit k w AND 255) = drop_bit k (w :: u64)"
  unfolding byte_mask by (intro bit_word_eqI) (auto simp: bit_simps)

lemma ntohll_htonll [simp]: "ntohll_bytes (htonll_bytes w) = w"
proof -
  have "[0..<8] = [0, 1, 2, 3, 4, 5, 6, 7 :: nat]" by (simp add: upt_conv_Cons)
  then have "ntohll_bytes (htonll_bytes w) = foldl (\<lambda>v k. push_bit 8 v OR (drop_bit k w AND 255))
      (drop_bit 64 w) [56, 48, 40, 32, 24, 16, 8, 0]"
    by (simp add: ntohll_bytes_def htonll_bytes_def byte_char drop_bit_word_beyond)
  also have "\<dots> = w"
    using next_byte [of 56 w] next_byte [of 48 w] next_byte [of 40 w] next_byte [of 32 w]
      next_byte [of 24 w] next_byte [of 16 w] next_byte [of 8 w] next_byte [of 0 w] by simp
  finally show ?thesis .
qed

lemma length_htonll [simp]: "length (htonll_bytes w) = 8"
  by (simp add: htonll_bytes_def)

lemma htonll_not_Nil [simp]: "htonll_bytes w \<noteq> []"
  using length_htonll [of w] by (metis length_0_conv zero_neq_numeral)

lemma read_len_append: "length p = n \<Longrightarrow> read_len (p @ htonll_bytes w @ s) n = Ret (unat w)"
  by (simp add: read_len_def read_bytes_def)

lemma read_bytes_append: "length p = n \<Longrightarrow> length x = k \<Longrightarrow> read_bytes (p @ x @ s) n k = Ret x"
  by (simp add: read_bytes_def)

lemma unframe_frame:
  assumes "\<forall>x \<in> set items. length x < 2 ^ 64"
  shows "unframe_items (p @ frame_items items) (length p) = Ret items"
  using assms
proof (induction items arbitrary: p)
  case Nil
  then show ?case by (simp add: unframe_items.simps)
next
  case (Cons x items)
  let ?l = "htonll_bytes (of_nat (length x))"
  have u: "unat (of_nat (length x) :: u64) = length x" using Cons.prems by (simp add: unat_of_nat)
  have "unframe_items ((p @ ?l @ x) @ frame_items items) (length (p @ ?l @ x)) = Ret items"
    using Cons.IH [of "p @ ?l @ x"] Cons.prems by simp
  moreover have "read_bytes (p @ ?l @ x @ frame_items items) (length p + 8) (length x) = Ret x"
    using read_bytes_append [of "p @ ?l" _ x _ "frame_items items"] by simp
  ultimately show ?case
    by (subst unframe_items.simps) (simp add: read_len_append u add.assoc)
qed

section \<open>Two parties\<close>

text \<open>
  The client and the server with the messages that have come for each, by key. A message to the
  other's node arrives; with \<open>lossy\<close>, a call may also fail and the message is lost.
\<close>

record 'a net =
  client :: "'a proc"
  server :: "'a proc"
  to_client :: "string \<Rightarrow> string list"
  to_server :: "string \<Rightarrow> string list"

definition client_move :: "node \<Rightarrow> 'a net \<Rightarrow> 'a net option" where
  "client_move snode s = (case client s of
     Post n key msg k \<Rightarrow> if n = snode then
       Some (s\<lparr>client := k SUCCESS, to_server := (to_server s)(key := to_server s key @ [msg])\<rparr>) else None
   | Await key k \<Rightarrow> (case to_client s key of [] \<Rightarrow> None | m # ms \<Rightarrow>
       Some (s\<lparr>client := k (SUCCESS, m), to_client := (to_client s)(key := ms)\<rparr>))
   | _ \<Rightarrow> None)"

definition server_move :: "node \<Rightarrow> 'a net \<Rightarrow> 'a net option" where
  "server_move cnode s = (case server s of
     Post n key msg k \<Rightarrow> if n = cnode then
       Some (s\<lparr>server := k SUCCESS, to_client := (to_client s)(key := to_client s key @ [msg])\<rparr>) else None
   | Await key k \<Rightarrow> (case to_server s key of [] \<Rightarrow> None | m # ms \<Rightarrow>
       Some (s\<lparr>server := k (SUCCESS, m), to_server := (to_server s)(key := ms)\<rparr>))
   | _ \<Rightarrow> None)"

inductive net_step :: "node \<Rightarrow> node \<Rightarrow> bool \<Rightarrow> 'a net \<Rightarrow> 'a net \<Rightarrow> bool" for cnode snode lossy where
  client_moves: "client_move snode s = Some s' \<Longrightarrow> net_step cnode snode lossy s s'"
| server_moves: "server_move cnode s = Some s' \<Longrightarrow> net_step cnode snode lossy s s'"
| client_fails: "lossy \<Longrightarrow> client s = Post n key msg k \<Longrightarrow>
    net_step cnode snode lossy s (s\<lparr>client := k FAIL\<rparr>)"
| server_fails: "lossy \<Longrightarrow> server s = Post n key msg k \<Longrightarrow>
    net_step cnode snode lossy s (s\<lparr>server := k FAIL\<rparr>)"

inductive_simps net_step_lossless: "net_step cnode snode False s s'"

definition start_net :: "'a proc \<Rightarrow> 'a proc \<Rightarrow> 'a net" where
  "start_net c s = \<lparr>client = c, server = s, to_client = (\<lambda>_. []), to_server = (\<lambda>_. [])\<rparr>"

text \<open>A client's step and a server's step can be taken in both orders.\<close>

lemma client_move_iff:
  "client_move snode s = Some a \<longleftrightarrow>
     (\<exists>key msg k. client s = Post snode key msg k
        \<and> a = s\<lparr>client := k SUCCESS, to_server := (to_server s)(key := to_server s key @ [msg])\<rparr>)
     \<or> (\<exists>key k m ms. client s = Await key k \<and> to_client s key = m # ms
        \<and> a = s\<lparr>client := k (SUCCESS, m), to_client := (to_client s)(key := ms)\<rparr>)"
  by (cases "client s") (auto simp: client_move_def split: list.splits)

lemma server_move_iff:
  "server_move cnode s = Some b \<longleftrightarrow>
     (\<exists>key msg k. server s = Post cnode key msg k
        \<and> b = s\<lparr>server := k SUCCESS, to_client := (to_client s)(key := to_client s key @ [msg])\<rparr>)
     \<or> (\<exists>key k m ms. server s = Await key k \<and> to_server s key = m # ms
        \<and> b = s\<lparr>server := k (SUCCESS, m), to_server := (to_server s)(key := ms)\<rparr>)"
  by (cases "server s") (auto simp: server_move_def split: list.splits)

lemma moves_commute:
  assumes "client_move snode s = Some a" "server_move cnode s = Some b"
  shows "server_move cnode a = client_move snode b \<and> client_move snode b \<noteq> None"
proof -
  have upd: "f(x := u, y := v) = f(y := v, x := u)" if "x \<noteq> y" for f :: "string \<Rightarrow> string list" and x y u v
    using that by (rule fun_upd_twist)
  consider (post) key msg k where "client s = Post snode key msg k"
      "a = s\<lparr>client := k SUCCESS, to_server := (to_server s)(key := to_server s key @ [msg])\<rparr>"
    | (await) key k m ms where "client s = Await key k" "to_client s key = m # ms"
      "a = s\<lparr>client := k (SUCCESS, m), to_client := (to_client s)(key := ms)\<rparr>"
    using assms(1) unfolding client_move_iff by blast
  then show ?thesis
  proof cases
    case post
    note C = this
    consider (post') key' msg' k' where "server s = Post cnode key' msg' k'"
        "b = s\<lparr>server := k' SUCCESS, to_client := (to_client s)(key' := to_client s key' @ [msg'])\<rparr>"
      | (await') key' k' m ms where "server s = Await key' k'" "to_server s key' = m # ms"
        "b = s\<lparr>server := k' (SUCCESS, m), to_server := (to_server s)(key' := ms)\<rparr>"
      using assms(2) unfolding server_move_iff by blast
    then show ?thesis
    proof cases
      case post'
      with C show ?thesis by (simp add: client_move_def server_move_def)
    next
      case await'
      with C show ?thesis
        by (cases "key' = key") (simp_all add: client_move_def server_move_def upd [of key key'])
    qed
  next
    case await
    note C = this
    consider (post') key' msg' k' where "server s = Post cnode key' msg' k'"
        "b = s\<lparr>server := k' SUCCESS, to_client := (to_client s)(key' := to_client s key' @ [msg'])\<rparr>"
      | (await') key' k' m ms where "server s = Await key' k'" "to_server s key' = m # ms"
        "b = s\<lparr>server := k' (SUCCESS, m), to_server := (to_server s)(key' := ms)\<rparr>"
      using assms(2) unfolding server_move_iff by blast
    then show ?thesis
    proof cases
      case post'
      with C show ?thesis
        by (cases "key' = key") (simp_all add: client_move_def server_move_def upd [of key key'])
    next
      case await'
      with C show ?thesis by (simp add: client_move_def server_move_def)
    qed
  qed
qed

lemma net_diamond:
  assumes "net_step cnode snode False a b" "net_step cnode snode False a c"
  shows "b = c \<or> (\<exists>d. net_step cnode snode False b d \<and> net_step cnode snode False c d)"
proof -
  have both: "\<exists>d. net_step cnode snode False x d \<and> net_step cnode snode False y d"
    if "client_move snode a = Some x" "server_move cnode a = Some y" for x y
    using moves_commute [OF that] by (metis net_step.client_moves net_step.server_moves not_None_eq)
  from assms show ?thesis unfolding net_step_lossless
    by (elim disjE; simp) (use both net_step_lossless in blast)+
qed

text \<open>A run as the sequence of the parties that move, the client where it is true.\<close>

primrec play :: "node \<Rightarrow> node \<Rightarrow> bool list \<Rightarrow> 'a net \<Rightarrow> 'a net option" where
  "play cnode snode [] s = Some s"
| "play cnode snode (c # cs) s =
     Option.bind (if c then client_move snode s else server_move cnode s) (play cnode snode cs)"

lemma play_steps: "play cnode snode cs s = Some t \<Longrightarrow> (net_step cnode snode lossy ^^ length cs) s t"
proof (induction cs arbitrary: s)
  case (Cons c cs)
  from Cons.prems obtain u where u: "(if c then client_move snode s else server_move cnode s) = Some u"
    "play cnode snode cs u = Some t" by (auto split: bind_splits)
  then have "net_step cnode snode lossy s u"
    by (cases c) (auto intro: net_step.client_moves net_step.server_moves)
  with Cons.IH [OF u(2)] show ?case unfolding list.size(4) add_0_right add_Suc_right by (rule relpowp_Suc_I2 [rotated])
qed simp

lemma all_runs_end:
  assumes "play cnode snode cs s = Some t" "client t = Finish a" "server t = Finish b"
  shows "ends_in (net_step cnode snode False) s (length cs) t"
proof (rule one_run_all_runs [OF net_diamond _ play_steps [OF assms(1)], where P = "\<lambda>_. True"])
  show "\<nexists>u. net_step cnode snode False t u"
    using assms(2,3) by (simp add: net_step_lossless client_move_def server_move_def)
qed simp_all

section \<open>A run of the ECDH operators\<close>

text \<open>
  What the libraries do with the two parties' values: every message is read back as it was written,
  and the indices found are those of the client's values that the server has. (The server's setup is
  a compressed set, which finds others with a small probability.)
\<close>

definition ecdh_exchange :: "'req ecdh_lib \<Rightarrow> string list \<Rightarrow> string list \<Rightarrow> nat list \<Rightarrow> bool" where
  "ecdh_exchange lib cli srv idx \<longleftrightarrow>
     (let req = ec_CreateRequest lib True cli; elems = ec_ProcessRequest lib True req;
          stp = ec_CreateSetupMessage lib True (length cli) srv
      in ec_parse_params lib (BuildInitParam lib (length cli))
           = [''dataset_size'' \<mapsto> PvInt64 (int (length cli)), ''reveal_intersection'' \<mapsto> PvInt32 1]
       \<and> ec_parse_request lib (ec_ser_request lib req) = req
       \<and> ec_parse_response lib (ec_ser_response lib elems) = elems
       \<and> ec_parse_setup lib (ec_ser_setup lib stp) = stp \<and> (\<forall>b. stp \<noteq> NoStructure b)
       \<and> ec_GetIntersection lib True stp elems = idx
       \<and> length cli < 2 ^ 64 \<and> length (ec_ser_response lib elems) < 2 ^ 64
       \<and> length (ec_ser_setup lib stp) < 2 ^ 64 \<and> (\<forall>x \<in> set cli. length x < 2 ^ 64))
     \<and> distinct idx \<and> set idx = {i. i < length cli \<and> cli ! i \<in> set srv}"

definition two_parties :: "node \<Rightarrow> node \<Rightarrow> psi_result_type \<Rightarrow> string \<Rightarrow> psi_options" where
  "two_parties cnode snode ty self = \<lparr>party_info = [(PARTY_CLIENT, cnode), (PARTY_SERVER, snode)],
     self_party = self, psi_result_type = ty\<rparr>"

definition ecdh_party :: "'req ecdh_lib \<Rightarrow> psi_options \<Rightarrow> bool \<Rightarrow> string list \<Rightarrow> psi_proc" where
  "ecdh_party lib opts sync input = psi_Execute opts (ecdh_OnExecute lib opts input) sync"

definition psi_value :: "psi_result_type \<Rightarrow> string list \<Rightarrow> string list \<Rightarrow> nat list \<Rightarrow> string list" where
  "psi_value ty cli srv idx = (case ty of INTERSECTION \<Rightarrow> map (\<lambda>i. cli ! i) idx
     | DIFFERENCE \<Rightarrow> filter (\<lambda>x. x \<notin> set srv) cli)"

lemma two_parties_simps:
  "self_party (two_parties cn sn ty self) = self" "psi_result_type (two_parties cn sn ty self) = ty"
  "PeerNode (two_parties cn sn ty PARTY_CLIENT) = sn" "PeerNode (two_parties cn sn ty PARTY_SERVER) = cn"
  "BroadcastPartyList (two_parties cn sn ty PARTY_CLIENT) = [sn]"
  by (simp_all add: two_parties_def PeerNode_def GetNodeByName_def IsClient_def IsServer_def
      BroadcastPartyList_def IgnoreParty_def IgnoreResult_def IsTeeCompute_def party_defs)

lemma roles [simp]: "IsClient PARTY_CLIENT" "\<not> IsClient PARTY_SERVER" "IsServer PARTY_SERVER"
  "\<not> IgnoreResult PARTY_CLIENT" "\<not> IgnoreResult PARTY_SERVER"
  by (simp_all add: IsClient_def IsServer_def IgnoreResult_def IsTeeCompute_def party_defs)

lemma others_by_index:
  assumes "set idx = {i. i < length xs \<and> P (xs ! i)}"
  shows "map (\<lambda>i. xs ! i) (filter (\<lambda>i. i \<notin> set idx) [0..<length xs]) = filter (\<lambda>x. \<not> P x) xs"
proof -
  have "filter (\<lambda>i. i \<notin> set idx) [0..<length xs] = filter (\<lambda>i. \<not> P (xs ! i)) [0..<length xs]"
    by (rule filter_cong) (use assms in auto)
  also have "map (\<lambda>i. xs ! i) \<dots> = filter (\<lambda>x. \<not> P x) (map (\<lambda>i. xs ! i) [0..<length xs])"
    by (simp add: filter_map o_def)
  finally show ?thesis by (simp add: map_nth)
qed

lemma found_by_index:
  assumes "distinct idx" "set idx = {i. i < length xs \<and> P (xs ! i)}"
  shows "mset (map (\<lambda>i. xs ! i) idx) = filter_mset P (mset xs)"
proof -
  have "mset idx = mset (filter (\<lambda>i. P (xs ! i)) [0..<length xs])"
    using assms by (subst set_eq_iff_mset_eq_distinct [symmetric]) auto
  then have "mset (map (\<lambda>i. xs ! i) idx) = mset (map (\<lambda>i. xs ! i) (filter (\<lambda>i. P (xs ! i)) [0..<length xs]))"
    by (simp only: mset_map)
  also have "\<dots> = mset (filter P (map (\<lambda>i. xs ! i) [0..<length xs]))"
    by (simp add: filter_map o_def)
  finally show ?thesis by (simp add: map_nth)
qed

lemma GetResult_found:
  assumes "set idx = {i. i < length cli \<and> cli ! i \<in> set srv}" "distinct idx"
  shows "GetResult ty cli idx = Ret (psi_value ty cli srv idx)"
proof -
  have "card (set idx) \<le> card {..<length cli}" by (rule card_mono) (use assms(1) in auto)
  then have "length idx \<le> length cli" using distinct_card [OF assms(2)] by simp
  then show ?thesis
    using assms(1) others_by_index [OF assms(1)] by (cases ty) (simp_all add: GetResult_def psi_value_def)
qed

lemma parse_built_response:
  assumes "length (ec_ser_response lib elems) < 2 ^ 64" "length (ec_ser_setup lib stp) < 2 ^ 64"
    "ec_parse_response lib (ec_ser_response lib elems) = elems"
    "ec_parse_setup lib (ec_ser_setup lib stp) = stp" "\<forall>b. stp \<noteq> NoStructure b"
  shows "ParsePsiResponse lib (build_response lib elems stp) = Ret (Some (stp, elems))"
proof -
  let ?a = "ec_ser_response lib elems" and ?b = "ec_ser_setup lib stp"
  let ?s = "htonll_bytes (of_nat (length ?a)) @ ?a @ htonll_bytes (of_nat (length ?b)) @ ?b"
  have u: "unat (of_nat (length ?a) :: u64) = length ?a" "unat (of_nat (length ?b) :: u64) = length ?b"
    using assms(1,2) by (simp_all add: unat_of_nat)
  have "read_len ?s 0 = Ret (length ?a)" using read_len_append [of "[]"] by (simp add: u)
  moreover have "read_bytes ?s 8 (length ?a) = Ret ?a" by (simp add: read_bytes_def)
  moreover have "read_len ?s (8 + length ?a) = Ret (length ?b)"
    using read_len_append [of "htonll_bytes (of_nat (length ?a)) @ ?a"] by (simp add: u)
  moreover have "read_bytes ?s (16 + length ?a) (length ?b) = Ret ?b" by (simp add: read_bytes_def)
  moreover have "build_response lib elems stp = ?s" by (simp add: build_response_def)
  ultimately show ?thesis
    using assms(3-5) by (cases stp) (simp_all add: ParsePsiResponse_def)
qed

text \<open>The moves of a run: the client's parameters, its request, the answer, and the result.\<close>

definition psi_moves :: "bool \<Rightarrow> bool list" where
  "psi_moves sync = [True, False, True, False, False, True] @ (if sync then [True, False] else [])"

lemma psi_facts:
  assumes "ecdh_exchange lib cli srv idx"
  shows "parse_init_param lib (BuildInitParam lib (length cli)) = Some (length cli, True)"
    "ec_parse_request lib (ec_ser_request lib (ec_CreateRequest lib True cli)) = ec_CreateRequest lib True cli"
    "ParsePsiResponse lib (build_response lib (ec_ProcessRequest lib True (ec_CreateRequest lib True cli))
       (ec_CreateSetupMessage lib True (length cli) srv))
     = Ret (Some (ec_CreateSetupMessage lib True (length cli) srv,
         ec_ProcessRequest lib True (ec_CreateRequest lib True cli)))"
    "build_response lib elems stp \<noteq> []"
    "ecdh_GetIntersection lib ty cli (ec_CreateSetupMessage lib True (length cli) srv)
       (ec_ProcessRequest lib True (ec_CreateRequest lib True cli)) = Ret (SUCCESS, psi_value ty cli srv idx)"
    "unframe_items (frame_items (psi_value ty cli srv idx)) 0 = Ret (psi_value ty cli srv idx)"
proof -
  let ?req = "ec_CreateRequest lib True cli" and ?stp = "ec_CreateSetupMessage lib True (length cli) srv"
  let ?elems = "ec_ProcessRequest lib True ?req" and ?res = "psi_value ty cli srv idx"
  have e: "ec_parse_params lib (BuildInitParam lib (length cli))
           = [''dataset_size'' \<mapsto> PvInt64 (int (length cli)), ''reveal_intersection'' \<mapsto> PvInt32 1]"
    "ec_parse_request lib (ec_ser_request lib ?req) = ?req"
    "ec_parse_response lib (ec_ser_response lib ?elems) = ?elems"
    "ec_parse_setup lib (ec_ser_setup lib ?stp) = ?stp" "\<forall>b. ?stp \<noteq> NoStructure b"
    "ec_GetIntersection lib True ?stp ?elems = idx"
    "length cli < 2 ^ 64" "length (ec_ser_response lib ?elems) < 2 ^ 64"
    "length (ec_ser_setup lib ?stp) < 2 ^ 64" "\<forall>x \<in> set cli. length x < 2 ^ 64"
    and idx: "distinct idx" "set idx = {i. i < length cli \<and> cli ! i \<in> set srv}"
    using assms(1) by (simp_all add: ecdh_exchange_def Let_def)
  show "parse_init_param lib (BuildInitParam lib (length cli)) = Some (length cli, True)"
    using e(1,7) by (simp add: parse_init_param_def value_int64_def value_int32_def unat_of_nat)
  show "ParsePsiResponse lib (build_response lib ?elems ?stp) = Ret (Some (?stp, ?elems))"
    by (rule parse_built_response) (use e in simp_all)
  show "build_response lib elems stp \<noteq> []" by (simp add: build_response_def)
  show "ecdh_GetIntersection lib ty cli ?stp ?elems = Ret (SUCCESS, ?res)"
    using e(5,6) GetResult_found [OF idx(2,1)] by (cases ?stp) (simp_all add: ecdh_GetIntersection_def)
  have "\<forall>x \<in> set ?res. length x < 2 ^ 64"
    using e(10) idx(2) by (cases ty) (auto simp: psi_value_def)
  then show "unframe_items (frame_items ?res) 0 = Ret ?res"
    using unframe_frame [of ?res "[]"] by simp
qed (use assms in \<open>simp add: ecdh_exchange_def Let_def\<close>)

lemmas psi_program_defs = ecdh_party_def psi_Execute_def ecdh_OnExecute_def ExecuteAsClient_def
  ExecuteAsServer_def request_and_wait_def two_parties_simps start_net_def client_move_def
  server_move_def BroadcastPsiResult_def BroadcastResult_def ReceiveResult_def

lemma psi_played:
  assumes "ecdh_exchange lib cli srv idx" "cli \<noteq> []" "srv \<noteq> []"
  shows "\<exists>t. play cn sn (psi_moves sync) (start_net
      (ecdh_party lib (two_parties cn sn ty PARTY_CLIENT) sync cli)
      (ecdh_party lib (two_parties cn sn ty PARTY_SERVER) sync srv)) = Some t
    \<and> client t = Finish (SUCCESS, psi_value ty cli srv idx)
    \<and> server t = Finish (SUCCESS, if sync then psi_value ty cli srv idx else [])"
  using assms(2,3) psi_facts [OF assms(1)]
  by (cases sync) (simp_all add: psi_moves_def psi_program_defs)

text \<open>
  C5: when no message is lost, every run of the two ECDH parties, whatever their order, ends after the
  same number of steps with success at both; the client has its values that the server has too, or
  those that it has not, and so has the server when the result is shared.
\<close>

theorem psi_runs_end:
  assumes "ecdh_exchange lib cli srv idx" "cli \<noteq> []" "srv \<noteq> []"
  shows "\<exists>n t res. ends_in (net_step cn sn False) (start_net
      (ecdh_party lib (two_parties cn sn ty PARTY_CLIENT) sync cli)
      (ecdh_party lib (two_parties cn sn ty PARTY_SERVER) sync srv)) n t
    \<and> client t = Finish (SUCCESS, res) \<and> server t = Finish (SUCCESS, if sync then res else [])
    \<and> (case ty of INTERSECTION \<Rightarrow> mset res = filter_mset (\<lambda>x. x \<in> set srv) (mset cli)
         | DIFFERENCE \<Rightarrow> res = filter (\<lambda>x. x \<notin> set srv) cli)"
proof -
  from psi_played [OF assms] obtain t where
    t: "play cn sn (psi_moves sync) (start_net
      (ecdh_party lib (two_parties cn sn ty PARTY_CLIENT) sync cli)
      (ecdh_party lib (two_parties cn sn ty PARTY_SERVER) sync srv)) = Some t"
    "client t = Finish (SUCCESS, psi_value ty cli srv idx)"
    "server t = Finish (SUCCESS, if sync then psi_value ty cli srv idx else [])" by blast
  have "distinct idx" "set idx = {i. i < length cli \<and> cli ! i \<in> set srv}"
    using assms(1) by (simp_all add: ecdh_exchange_def)
  from found_by_index [OF this] all_runs_end [OF t] t(2,3) show ?thesis
    by (intro exI [of _ "length (psi_moves sync)"] exI [of _ t] exI [of _ "psi_value ty cli srv idx"])
      (cases ty, simp_all add: psi_value_def)
qed

text \<open>A library in the clear.\<close>

definition unframed :: "string \<Rightarrow> string list" where
  "unframed s = (case unframe_items s 0 of Ret xs \<Rightarrow> xs | _ \<Rightarrow> [])"

definition demo_ecdh :: "string list ecdh_lib" where
  "demo_ecdh =
     \<lparr>ec_ser_params = (\<lambda>kvs. case snd (hd kvs) of PvInt64 n \<Rightarrow> dec_string (nat n) | _ \<Rightarrow> []),
      ec_parse_params = (\<lambda>s. [''dataset_size'' \<mapsto> PvInt64 (int (dec_val s)), ''reveal_intersection'' \<mapsto> PvInt32 1]),
      ec_CreateRequest = (\<lambda>_ cli. cli), ec_ser_request = frame_items, ec_parse_request = unframed,
      ec_CreateSetupMessage = (\<lambda>_ _ srv. Gcs (frame_items srv) 0 0),
      ec_ser_setup = (\<lambda>st. case st of Gcs b _ _ \<Rightarrow> b | _ \<Rightarrow> []), ec_parse_setup = (\<lambda>s. Gcs s 0 0),
      ec_ProcessRequest = (\<lambda>_ req. req), ec_ser_response = frame_items, ec_parse_response = unframed,
      ec_GetIntersection = (\<lambda>_ st elems. case st of
         Gcs b _ _ \<Rightarrow> filter (\<lambda>i. elems ! i \<in> set (unframed b)) [0..<length elems] | _ \<Rightarrow> [])\<rparr>"

lemma unframed_frame [simp]: "\<forall>x \<in> set xs. length x < 2 ^ 64 \<Longrightarrow> unframed (frame_items xs) = xs"
  using unframe_frame [of xs "[]"] by (simp add: unframed_def)

lemma demo_exchange:
  "ecdh_exchange demo_ecdh [''a'', ''bc'', ''d''] [''bc'', ''x'', ''a''] [0, 1]"
proof -
  have u: "unframed (frame_items [''a'', ''bc'', ''d'']) = [''a'', ''bc'', ''d'']"
    "unframed (frame_items [''bc'', ''x'', ''a'']) = [''bc'', ''x'', ''a'']"
    by (rule unframed_frame; simp)+
  have "length (frame_items [''a'', ''bc'', ''d'']) < 2 ^ 64" "length (frame_items [''bc'', ''x'', ''a'']) < 2 ^ 64"
    by simp_all
  then show ?thesis
    unfolding ecdh_exchange_def demo_ecdh_def BuildInitParam_def Let_def
    by (simp add: u upt_conv_Cons del: frame_items.simps) (auto simp: less_Suc_eq)
qed

theorem psi_runs_end_witness:
  "\<exists>n t res. ends_in (net_step empty_node empty_node False) (start_net
      (ecdh_party demo_ecdh (two_parties empty_node empty_node INTERSECTION PARTY_CLIENT) True [''a'', ''bc'', ''d''])
      (ecdh_party demo_ecdh (two_parties empty_node empty_node INTERSECTION PARTY_SERVER) True [''bc'', ''x'', ''a''])) n t
    \<and> client t = Finish (SUCCESS, res) \<and> server t = Finish (SUCCESS, res) \<and> mset res = {#''a'', ''bc''#}"
  using psi_runs_end [OF demo_exchange, of empty_node empty_node INTERSECTION True] by simp

section \<open>Failures\<close>

text \<open>
  A run in which the messages of some moves arrive and the next one is lost: the sender is told that the
  call has failed.
\<close>

definition client_loses :: "node \<Rightarrow> node \<Rightarrow> bool list \<Rightarrow> 'a net \<Rightarrow> 'a net \<Rightarrow> bool" where
  "client_loses cn sn cs s t \<longleftrightarrow> (\<exists>u n key msg k. play cn sn cs s = Some u \<and> client u = Post n key msg k
     \<and> t = u\<lparr>client := k FAIL\<rparr>)"

definition server_loses :: "node \<Rightarrow> node \<Rightarrow> bool list \<Rightarrow> 'a net \<Rightarrow> 'a net \<Rightarrow> bool" where
  "server_loses cn sn cs s t \<longleftrightarrow> (\<exists>u n key msg k. play cn sn cs s = Some u \<and> server u = Post n key msg k
     \<and> t = u\<lparr>server := k FAIL\<rparr>)"

text \<open>A state that the run gets to and in which neither party has a step left.\<close>

definition stands_still :: "node \<Rightarrow> node \<Rightarrow> 'a net \<Rightarrow> 'a net \<Rightarrow> bool" where
  "stands_still cn sn s t \<longleftrightarrow> (net_step cn sn True)\<^sup>*\<^sup>* s t \<and> (\<nexists>u. net_step cn sn True t u)"

lemma no_step_left:
  assumes "(\<exists>a. client t = Finish a) \<or> (\<exists>key k. client t = Await key k \<and> to_client t key = [])"
    "(\<exists>a. server t = Finish a) \<or> (\<exists>key k. server t = Await key k \<and> to_server t key = [])"
  shows "\<nexists>u. net_step cn sn lossy t u"
  using assms by (auto simp: net_step.simps client_move_def server_move_def)

lemma loss_reached:
  "client_loses cn sn cs s t \<Longrightarrow> (net_step cn sn True)\<^sup>*\<^sup>* s t"
  "server_loses cn sn cs s t \<Longrightarrow> (net_step cn sn True)\<^sup>*\<^sup>* s t"
proof -
  show "(net_step cn sn True)\<^sup>*\<^sup>* s t" if "client_loses cn sn cs s t"
  proof -
    obtain u n key msg k where u: "play cn sn cs s = Some u" "client u = Post n key msg k" "t = u\<lparr>client := k FAIL\<rparr>"
      using \<open>client_loses cn sn cs s t\<close> by (auto simp: client_loses_def)
    have "(net_step cn sn True)\<^sup>*\<^sup>* s u" using play_steps [OF u(1)] by (rule relpowp_imp_rtranclp)
    also have "net_step cn sn True u t" unfolding u(3) using u(2) by (intro net_step.client_fails) simp_all
    finally show ?thesis .
  qed
  show "(net_step cn sn True)\<^sup>*\<^sup>* s t" if "server_loses cn sn cs s t"
  proof -
    obtain u n key msg k where u: "play cn sn cs s = Some u" "server u = Post n key msg k" "t = u\<lparr>server := k FAIL\<rparr>"
      using \<open>server_loses cn sn cs s t\<close> by (auto simp: server_loses_def)
    have "(net_step cn sn True)\<^sup>*\<^sup>* s u" using play_steps [OF u(1)] by (rule relpowp_imp_rtranclp)
    also have "net_step cn sn True u t" unfolding u(3) using u(2) by (intro net_step.server_fails) simp_all
    finally show ?thesis .
  qed
qed

definition psi_start ::
  "'req ecdh_lib \<Rightarrow> node \<Rightarrow> node \<Rightarrow> psi_result_type \<Rightarrow> string list \<Rightarrow> string list \<Rightarrow> bool \<Rightarrow> (retcode \<times> string list) net" where
  "psi_start lib cn sn ty cli srv sync = start_net (ecdh_party lib (two_parties cn sn ty PARTY_CLIENT) sync cli)
     (ecdh_party lib (two_parties cn sn ty PARTY_SERVER) sync srv)"

text \<open>What both have come to, as the lost message is the first, second, or fourth of the client or the server's.\<close>

lemma psi_client_losses:
  assumes "ecdh_exchange lib cli srv idx" "cli \<noteq> []" "srv \<noteq> []"
  shows "\<exists>t k. client_loses cn sn [] (start_net (ecdh_party lib (two_parties cn sn ty PARTY_CLIENT) sync cli)
        (ecdh_party lib (two_parties cn sn ty PARTY_SERVER) sync srv)) t
      \<and> client t = Finish (FAIL, []) \<and> server t = Await psi_key k \<and> to_server t psi_key = []"
    "\<exists>t k. client_loses cn sn [True, False] (start_net (ecdh_party lib (two_parties cn sn ty PARTY_CLIENT) sync cli)
        (ecdh_party lib (two_parties cn sn ty PARTY_SERVER) sync srv)) t
      \<and> client t = Finish (FAIL, []) \<and> server t = Await psi_key k \<and> to_server t psi_key = []"
    "\<exists>t k. client_loses cn sn (psi_moves False) (start_net (ecdh_party lib (two_parties cn sn ty PARTY_CLIENT) True cli)
        (ecdh_party lib (two_parties cn sn ty PARTY_SERVER) True srv)) t
      \<and> client t = Finish (SUCCESS, psi_value ty cli srv idx) \<and> server t = Await psi_key k \<and> to_server t psi_key = []"
  using assms(2,3) psi_facts [OF assms(1)]
  by (simp_all add: client_loses_def psi_moves_def psi_program_defs)

lemma psi_server_loss:
  assumes "ecdh_exchange lib cli srv idx" "cli \<noteq> []" "srv \<noteq> []"
  shows "\<exists>t k k'. server_loses cn sn [True, False, True, False]
        (start_net (ecdh_party lib (two_parties cn sn ty PARTY_CLIENT) sync cli)
          (ecdh_party lib (two_parties cn sn ty PARTY_SERVER) sync srv)) t
      \<and> client t = Await psi_key k \<and> to_client t psi_key = [] \<and> to_server t psi_key = []
      \<and> server t = (if sync then Await psi_key k' else Finish (SUCCESS, []))"
  using assms(2,3) psi_facts [OF assms(1)]
  by (cases sync) (simp_all add: server_loses_def psi_program_defs)

text \<open>
  C38: in the exchange of two ECDH parties a lost message leaves a party waiting, with no step of either
  left. When the client's parameters or its request are lost, it ends with failure, and so it does at once
  when it has no values, and the server waits. When the client's result is lost, it reports success, and
  the server waits. When the server's answer is lost, the client waits, and the server reports success,
  or waits for the result. What ends such a wait is only the killing of the task from outside.
\<close>

theorem psi_failures_strand_server:
  assumes "ecdh_exchange lib cli srv idx" "cli \<noteq> []" "srv \<noteq> []"
  shows "(\<forall>cs \<in> {[], [True, False]}. \<exists>t key k. client_loses cn sn cs (psi_start lib cn sn ty cli srv sync) t \<and> stands_still cn sn (psi_start lib cn sn ty cli srv sync) t
        \<and> client t = Finish (FAIL, []) \<and> server t = Await key k)
    \<and> (\<exists>t key k res. client_loses cn sn (psi_moves False) (psi_start lib cn sn ty cli srv True) t \<and> stands_still cn sn (psi_start lib cn sn ty cli srv True) t
        \<and> client t = Finish (SUCCESS, res) \<and> server t = Await key k)
    \<and> (\<exists>t key k key' k'. server_loses cn sn [True, False, True, False] (psi_start lib cn sn ty cli srv sync) t \<and> stands_still cn sn (psi_start lib cn sn ty cli srv sync) t
        \<and> client t = Await key k \<and> server t = (if sync then Await key' k' else Finish (SUCCESS, [])))
    \<and> (let none = psi_start lib cn sn ty [] srv sync
       in stands_still cn sn none none \<and> client none = Finish (FAIL, []) \<and> (\<exists>key k. server none = Await key k))"
proof (intro conjI)
  note losses = psi_client_losses [OF assms, of cn sn ty, folded psi_start_def]
  show "\<forall>cs \<in> {[], [True, False]}. \<exists>t key k. client_loses cn sn cs (psi_start lib cn sn ty cli srv sync) t \<and> stands_still cn sn (psi_start lib cn sn ty cli srv sync) t
        \<and> client t = Finish (FAIL, []) \<and> server t = Await key k"
  proof
    fix cs :: "bool list"
    assume "cs \<in> {[], [True, False]}"
    then obtain t k where t: "client_loses cn sn cs (psi_start lib cn sn ty cli srv sync) t" "client t = Finish (FAIL, [])"
      "server t = Await psi_key k" "to_server t psi_key = []" using losses(1,2) [of sync] by blast
    have "\<nexists>u. net_step cn sn True t u" by (rule no_step_left) (use t(2-4) in auto)
    with t loss_reached(1) [OF t(1)]
    show "\<exists>t key k. client_loses cn sn cs (psi_start lib cn sn ty cli srv sync) t \<and> stands_still cn sn (psi_start lib cn sn ty cli srv sync) t
        \<and> client t = Finish (FAIL, []) \<and> server t = Await key k"
      unfolding stands_still_def by blast
  qed
  obtain t k where t: "client_loses cn sn (psi_moves False) (psi_start lib cn sn ty cli srv True) t"
    "client t = Finish (SUCCESS, psi_value ty cli srv idx)" "server t = Await psi_key k" "to_server t psi_key = []"
    using losses(3) by blast
  have "\<nexists>u. net_step cn sn True t u" by (rule no_step_left) (use t(2-4) in auto)
  with t loss_reached(1) [OF t(1)]
  show "\<exists>t key k res. client_loses cn sn (psi_moves False) (psi_start lib cn sn ty cli srv True) t \<and> stands_still cn sn (psi_start lib cn sn ty cli srv True) t
        \<and> client t = Finish (SUCCESS, res) \<and> server t = Await key k"
    unfolding stands_still_def by blast
  obtain t k k' where t: "server_loses cn sn [True, False, True, False] (psi_start lib cn sn ty cli srv sync) t"
    "client t = Await psi_key k" "to_client t psi_key = []" "to_server t psi_key = []"
    "server t = (if sync then Await psi_key k' else Finish (SUCCESS, []))"
    using psi_server_loss [OF assms, of cn sn ty sync, folded psi_start_def] by blast
  have "\<nexists>u. net_step cn sn True t u" by (rule no_step_left) (use t(2-5) in auto)
  with t loss_reached(2) [OF t(1)]
  show "\<exists>t key k key' k'. server_loses cn sn [True, False, True, False] (psi_start lib cn sn ty cli srv sync) t \<and> stands_still cn sn (psi_start lib cn sn ty cli srv sync) t
        \<and> client t = Await key k \<and> server t = (if sync then Await key' k' else Finish (SUCCESS, []))"
    unfolding stands_still_def by blast
  let ?e = "psi_start lib cn sn ty [] srv sync"
  have e: "client ?e = Finish (FAIL, [])" "\<exists>key k. server ?e = Await key k \<and> to_server ?e key = []"
    using assms(3) by (simp_all add: psi_start_def psi_program_defs)
  have "\<nexists>u. net_step cn sn True ?e u" by (rule no_step_left) (use e in auto)
  with e show "let none = ?e in stands_still cn sn none none \<and> client none = Finish (FAIL, [])
      \<and> (\<exists>key k. server none = Await key k)"
    unfolding stands_still_def Let_def by blast
qed

theorem psi_failures_strand_server_witness:
  "\<exists>t res key k. stands_still empty_node empty_node
        (psi_start demo_ecdh empty_node empty_node DIFFERENCE [''a'', ''bc'', ''d''] [''bc'', ''x'', ''a''] True) t
      \<and> client t = Finish (SUCCESS, res) \<and> server t = Await key k"
  using psi_failures_strand_server [OF demo_exchange, of empty_node empty_node DIFFERENCE] by blast

end
