(* ===== verification/Dataset_Meta.thy ===== *)
theory Dataset_Meta
  imports Task_Worker Threadsafe_Queue "HOL-Library.List_Lexorder" "HOL-Library.Char_ord"
begin

text \<open>
  What a node knows of datasets: their descriptions (service/dataset/model.cc), the services that
  keep the descriptions (service/dataset/meta_service), the drivers registered for them
  (service/dataset/service.cc), and the server of clients' dataset calls (node/ds.cc). The meta
  server, the file system, JSON and the data drivers are parameters.
\<close>

section \<open>Column types\<close>

text \<open>
  Types are the numbers of Arrow's enumeration, which the protocol's messages carry: 1 to 14 and 16 to 20
  are the types that have a value of their own here, 23 and 24 are the decimal types, 13 is the string.
\<close>

type_synonym field_type = "string \<times> nat"

(* src/src/fediux/util/arrow_wrapper_util.cc:29-78 MakeArrowDataType *)
definition MakeArrowDataType :: "nat \<Rightarrow> nat" where
  "MakeArrowDataType ty =
     (if ty \<in> {1 .. 14} \<union> {16 .. 20} then ty
      else if ty = 23 then 23
      else if ty = 24 then 23
      else 13)"

(* src/src/fediux/service/dataset/model.cc:63-79 TableSchema::FromFields *)
definition FromFields :: "field_type list \<Rightarrow> field_type list" where
  "FromFields field_info = map (\<lambda>(name, ty). (name, MakeArrowDataType ty)) field_info"

(* src/src/fediux/util/arrow_wrapper_util.cc:7-27 sql_tyep_2_arrow_type_map *)
definition sql_tyep_2_arrow_type_map :: "string \<rightharpoonup> nat" where
  "sql_tyep_2_arrow_type_map = map_of
     [(''bigint'', 9), (''integer'', 9), (''tinyint'', 2), (''int'', 7), (''mediumint'', 7), (''smallint'', 7),
      (''float'', 11), (''double'', 12), (''varchar'', 13), (''char'', 13), (''text'', 13), (''binary'', 14),
      (''varbinary'', 14), (''blob'', 14), (''datetime'', 17), (''time'', 20), (''year'', 16),
      (''timestamp'', 13), (''DEFAULT_TYPE'', 13)]"

(* src/src/fediux/util/arrow_wrapper_util.cc:80-91 SqlType2ArrowType *)
definition SqlType2ArrowType :: "(string \<Rightarrow> string) \<Rightarrow> string \<Rightarrow> nat" where
  "SqlType2ArrowType strToLower sql_type =
     (case sql_tyep_2_arrow_type_map (strToLower sql_type) of
        Some ty \<Rightarrow> ty
      | None \<Rightarrow> (case sql_tyep_2_arrow_type_map ''DEFAULT_TYPE'' of Some ty \<Rightarrow> ty | None \<Rightarrow> 0))"

text \<open>
  Columns read as text become arrays of their type. Both integer builders use \<open>stoi\<close>, and write 0 for
  a text on which it throws.
\<close>

datatype arrow_array = I64Array "i64 list" | I32Array "u32 list" | FloatArray "string list"
  | DoubleArray "string list" | StringArray "string list"

(* src/src/fediux/util/arrow_wrapper_util.cc:127-145 Int32ArrowArrayBuilder *)
definition Int32ArrowArrayBuilder :: "string list \<Rightarrow> u32 list" where
  "Int32ArrowArrayBuilder arr =
     map (\<lambda>item. case stoi item of Some v \<Rightarrow> of_int v | None \<Rightarrow> 0) arr"

(* src/src/fediux/util/arrow_wrapper_util.cc:147-165 Int64ArrowArrayBuilder *)
definition Int64ArrowArrayBuilder :: "string list \<Rightarrow> i64 list" where
  "Int64ArrowArrayBuilder arr =
     map (\<lambda>item. case stoi item of Some v \<Rightarrow> of_int v | None \<Rightarrow> 0) arr"

text \<open>The texts of a floating-point column are kept as they are: their values are the library's.\<close>

(* src/src/fediux/util/arrow_wrapper_util.cc:93-125 MakeArrowArray *)
definition MakeArrowArray :: "nat \<Rightarrow> string list \<Rightarrow> arrow_array" where
  "MakeArrowArray field_type arr =
     (if field_type = 9 \<or> field_type = 8 then I64Array (Int64ArrowArrayBuilder arr)
      else if field_type \<in> {7, 5, 3, 6, 4, 2} then I32Array (Int32ArrowArrayBuilder arr)
      else if field_type = 11 then FloatArray arr
      else if field_type = 12 then DoubleArray arr
      else StringArray arr)"

section \<open>Descriptions of datasets\<close>

(* src/src/fediux/service/dataset/model.h:41-44 DatasetVisbility *)
datatype visibility = V_PUBLIC | V_PRIVATE

text \<open>
  A description whose type is not the table has no columns: its schema is a null pointer. The record
  count is \<open>None\<close> in an object to which none was written, as no constructor but the first sets it.
\<close>

(* src/src/fediux/service/dataset/model.h:135-229 DatasetMeta *)
record dataset_meta =
  dm_id :: string
  data_url :: string
  server_meta :: string
  access_meta :: string
  description :: string
  visibility :: visibility
  driver_type :: string
  data_type :: nat
  dm_schema :: "field_type list option"
  total_records :: "u64 option"

definition empty_meta :: dataset_meta where
  "empty_meta = \<lparr>dm_id = [], data_url = [], server_meta = [], access_meta = [], description = [],
     visibility = V_PUBLIC, driver_type = [], data_type = 0, dm_schema = None, total_records = None\<rparr>"

text \<open>The assignment of one description to another leaves out the record count.\<close>

(* src/src/fediux/service/dataset/model.h:147-158 DatasetMeta::operator= *)
definition assign_meta :: "dataset_meta \<Rightarrow> dataset_meta \<Rightarrow> dataset_meta" where
  "assign_meta target m = m\<lparr>total_records := total_records target\<rparr>"

(* src/src/fediux/service/dataset/model.cc:147-159 DatasetMeta::saveAsPublic *)
definition saveAsPublic :: "dataset_meta \<Rightarrow> dataset_meta" where
  "saveAsPublic m = m\<lparr>access_meta := []\<rparr>"

(* src/src/fediux/protos/service.proto:105-116 MetaInfo *)
record meta_info =
  mi_id :: string
  mi_driver :: string
  mi_access_info :: string
  mi_address :: string
  mi_visibility :: visibility
  mi_data_type :: "field_type list"

(* src/src/fediux/service/dataset/meta_service/grpc_impl.cc:263-285 GrpcDatasetMetaService::MetaToPbMetaInfo *)
definition MetaToPbMetaInfo :: "dataset_meta \<Rightarrow> meta_info cpp" where
  "MetaToPbMetaInfo m = (case dm_schema m of
       None \<Rightarrow> Undef
     | Some columns \<Rightarrow> Ret \<lparr>mi_id = dm_id m, mi_driver = driver_type m, mi_access_info = access_meta m,
         mi_address = server_meta m, mi_visibility = visibility m, mi_data_type = columns\<rparr>)"

(* src/src/fediux/service/dataset/meta_service/grpc_impl.cc:287-306 GrpcDatasetMetaService::PbMetaInfoToMeta *)
definition PbMetaInfoToMeta :: "meta_info \<Rightarrow> dataset_meta \<Rightarrow> dataset_meta" where
  "PbMetaInfoToMeta pb m = m\<lparr>server_meta := mi_address pb, access_meta := mi_access_info pb,
     visibility := mi_visibility pb, dm_id := mi_id pb, driver_type := mi_driver pb,
     data_type := 0, dm_schema := Some (FromFields (mi_data_type pb))\<rparr>"

section \<open>Descriptions as JSON\<close>

text \<open>
  The values of the JSON library that the code builds, objects in the order of their keys. A text that
  is no such value makes parsing throw; a value with a text that is not UTF-8 makes printing throw.
\<close>

datatype json = JNull | JBool bool | JStr string | JInt int | JArr "json list" | JObj "(string \<times> json) list"

record json_lib =
  js_dump :: "json \<Rightarrow> string option"
  js_parse :: "string \<Rightarrow> json option"

definition dump_json :: "json_lib \<Rightarrow> json \<Rightarrow> string cpp" where
  "dump_json js j = (case js_dump js j of Some s \<Rightarrow> Ret s | None \<Rightarrow> Throw ''type_error'')"

definition jfield :: "json \<Rightarrow> string \<Rightarrow> json cpp" where
  "jfield j k = (case j of
       JObj kvs \<Rightarrow> Ret (case map_of kvs k of None \<Rightarrow> JNull | Some v \<Rightarrow> v)
     | JNull \<Rightarrow> Ret JNull
     | _ \<Rightarrow> Throw ''type_error'')"

definition jstring :: "json \<Rightarrow> string cpp" where
  "jstring j = (case j of JStr s \<Rightarrow> Ret s | _ \<Rightarrow> Throw ''type_error'')"

definition jint :: "json \<Rightarrow> int cpp" where
  "jint j = (case j of JInt i \<Rightarrow> Ret i | _ \<Rightarrow> Throw ''type_error'')"

(* src/src/fediux/service/dataset/model.cc:40-51 TableSchema::toJSON *)
definition schema_toJSON :: "json_lib \<Rightarrow> field_type list \<Rightarrow> string cpp" where
  "schema_toJSON js columns = dump_json js (JArr (map (\<lambda>(name, ty). JObj [(name, JInt (int ty))]) columns))"

text \<open>The columns of an array's objects; a value that is no array has none.\<close>

(* src/src/fediux/service/dataset/model.cc:26-38 TableSchema::extractFields *)
fun extractFields :: "json list \<Rightarrow> field_type list cpp" where
  "extractFields [] = Ret []"
| "extractFields (it # its) = (case it of
       JObj kvs \<Rightarrow> cbind (foldr (\<lambda>(name, ty) r. cbind (jint ty) (\<lambda>i. cbind r (\<lambda>fs. Ret ((name, nat i) # fs)))) kvs (Ret []))
         (\<lambda>fs. cbind (extractFields its) (\<lambda>gs. Ret (fs @ gs)))
     | JNull \<Rightarrow> extractFields its
     | _ \<Rightarrow> Throw ''type_error'')"

text \<open>The constructor from a text has no columns when the text cannot be read.\<close>

(* src/src/fediux/service/dataset/model.h:68-76 TableSchema::TableSchema *)
definition schema_fromJSON :: "json_lib \<Rightarrow> string \<Rightarrow> field_type list" where
  "schema_fromJSON js s = (case js_parse js s of
       Some (JArr its) \<Rightarrow> (case extractFields its of Ret fs \<Rightarrow> FromFields fs | _ \<Rightarrow> [])
     | _ \<Rightarrow> [])"

(* src/src/fediux/service/dataset/model.h:96-133 NewDatasetSchema *)
definition NewDatasetSchema :: "json_lib \<Rightarrow> nat \<Rightarrow> string \<Rightarrow> field_type list option" where
  "NewDatasetSchema js ty param = (if ty = 0 then Some (schema_fromJSON js param) else None)"

(* src/src/fediux/service/dataset/model.cc:110-125 DatasetMeta::toJSON *)
definition meta_toJSON :: "json_lib \<Rightarrow> dataset_meta \<Rightarrow> string cpp" where
  "meta_toJSON js m = (case dm_schema m of
       None \<Rightarrow> Undef
     | Some columns \<Rightarrow> cbind (schema_toJSON js columns) (\<lambda>sch. dump_json js (JObj
         [(''access_meta'', JStr (access_meta m)), (''data_type'', JInt (int (data_type m))),
          (''data_url'', JStr (data_url m)), (''description'', JStr (description m)),
          (''driver_type'', JStr (driver_type m)), (''id'', JStr (dm_id m)),
          (''schema'', JStr sch), (''server_meta'', JStr (server_meta m)),
          (''visibility'', JInt (case visibility m of V_PUBLIC \<Rightarrow> 0 | V_PRIVATE \<Rightarrow> 1))])))"

text \<open>An enumeration is read from its number (0 or 1 here); the last two fields keep the object's value when they are missing.\<close>

definition jopt_string :: "json \<Rightarrow> string \<Rightarrow> string \<Rightarrow> string cpp" where
  "jopt_string j k old = (case j of
       JObj kvs \<Rightarrow> (case map_of kvs k of None \<Rightarrow> Ret old | Some v \<Rightarrow> jstring v)
     | _ \<Rightarrow> Ret old)"

(* src/src/fediux/service/dataset/model.cc:127-145 DatasetMeta::fromJSON *)
definition meta_fromJSON :: "json_lib \<Rightarrow> string \<Rightarrow> dataset_meta \<Rightarrow> dataset_meta cpp" where
  "meta_fromJSON js s m = (case js_parse js s of None \<Rightarrow> Throw ''parse_error'' | Some j \<Rightarrow>
     cbind (cbind (jfield j ''id'') jstring) (\<lambda>sid.
     cbind (cbind (jfield j ''data_url'') jstring) (\<lambda>url.
     cbind (cbind (jfield j ''description'') jstring) (\<lambda>desc.
     cbind (cbind (jfield j ''data_type'') jint) (\<lambda>ty.
     cbind (cbind (jfield j ''visibility'') jint) (\<lambda>vis.
     cbind (cbind (jfield j ''schema'') jstring) (\<lambda>sch.
     cbind (cbind (jfield j ''driver_type'') jstring) (\<lambda>drv.
     cbind (jopt_string j ''server_meta'' (server_meta m)) (\<lambda>srv.
     cbind (jopt_string j ''access_meta'' (access_meta m)) (\<lambda>acc.
       Ret (m\<lparr>dm_id := sid, data_url := url, server_meta := srv, access_meta := acc, description := desc,
         visibility := (if vis = 0 then V_PUBLIC else V_PRIVATE), driver_type := drv, data_type := nat ty,
         dm_schema := NewDatasetSchema js (nat ty) sch\<rparr>)))))))))))"

section \<open>The remote meta service\<close>

text \<open>
  A call is repeated while its transport fails, at most three times; \<open>call k\<close> is the reply to attempt
  \<open>k\<close>, if one comes.
\<close>

(* src/src/fediux/service/dataset/meta_service/grpc_impl.cc:39-66 GrpcDatasetMetaService::PutMeta *)
function meta_retry :: "(nat \<Rightarrow> 'r option) \<Rightarrow> nat \<Rightarrow> 'r option" where
  "meta_retry call retry_time =
     (case call retry_time of
        Some reply \<Rightarrow> Some reply
      | None \<Rightarrow> if retry_time < 3 then meta_retry call (retry_time + 1) else None)"
  by pat_completeness auto
termination by (relation "measure (\<lambda>(call, retry_time). 3 - retry_time)") auto

declare meta_retry.simps [simp del]

(* src/src/fediux/service/dataset/meta_service/grpc_impl.cc:33-68 GrpcDatasetMetaService::PutMeta *)
definition grpc_PutMeta :: "(meta_info \<Rightarrow> nat \<Rightarrow> retcode option) \<Rightarrow> dataset_meta \<Rightarrow> retcode cpp" where
  "grpc_PutMeta stub_NewDataset m = cbind (MetaToPbMetaInfo m) (\<lambda>info.
     case meta_retry (stub_NewDataset info) 0 of
        None \<Rightarrow> Ret FAIL
      | Some ret_code \<Rightarrow> Ret (if ret_code \<noteq> SUCCESS then FAIL else SUCCESS))"

text \<open>A reply to a query: its code and the datasets, each with its availability.\<close>

type_synonym get_reply = "retcode \<times> (bool \<times> meta_info) list"

text \<open>\<open>GetMeta\<close> calls the handler with the first dataset of the reply, if there is one and it is available.\<close>

(* src/src/fediux/service/dataset/meta_service/grpc_impl.cc:70-126 GrpcDatasetMetaService::GetMeta *)
definition grpc_GetMeta ::
  "(string list \<Rightarrow> nat \<Rightarrow> get_reply option) \<Rightarrow> string \<Rightarrow> (dataset_meta \<Rightarrow> retcode \<times> 'h) \<Rightarrow> retcode \<times> 'h option" where
  "grpc_GetMeta stub_GetDataset dataset_id handler =
     (case meta_retry (stub_GetDataset [dataset_id]) 0 of
        None \<Rightarrow> (FAIL, None)
      | Some (ret_code, dataset_list) \<Rightarrow>
          if ret_code \<noteq> SUCCESS then (FAIL, None)
          else case dataset_list of
              [] \<Rightarrow> (SUCCESS, None)
            | (available, info) # _ \<Rightarrow>
                if available then
                  (let (ret, h) = handler (PbMetaInfoToMeta info empty_meta)
                   in (if ret \<noteq> SUCCESS then FAIL else SUCCESS, Some h))
                else (FAIL, None))"

text \<open>
  \<open>FindPeerListFromDatasets\<close> gives the handler's argument when it is called. The tags are kept by
  dataset, so that a dataset has the tag of its last mention.
\<close>

(* src/src/fediux/service/dataset/meta_service/grpc_impl.cc:137-144 GrpcDatasetMetaService::FindPeerListFromDatasets *)
definition id2tag :: "(string \<times> string) list \<Rightarrow> string \<rightharpoonup> string" where
  "id2tag datasets_with_tag = fold (\<lambda>(i, t) m. m(i \<mapsto> t)) datasets_with_tag Map.empty"

(* src/src/fediux/service/dataset/meta_service/grpc_impl.cc:177-197 GrpcDatasetMetaService::FindPeerListFromDatasets *)
definition collect_metas ::
  "(string \<rightharpoonup> string) \<Rightarrow> (bool \<times> meta_info) list \<Rightarrow> (dataset_meta \<times> string) list" where
  "collect_metas tags dataset_list = concat (map (\<lambda>(available, info).
     if available then
       (case tags (mi_id info) of
          Some tag \<Rightarrow> [(PbMetaInfoToMeta info empty_meta, tag)]
        | None \<Rightarrow> [])
     else []) dataset_list)"

(* src/src/fediux/service/dataset/meta_service/grpc_impl.cc:128-211 GrpcDatasetMetaService::FindPeerListFromDatasets *)
definition FindPeerListFromDatasets ::
  "(string list \<Rightarrow> nat \<Rightarrow> get_reply option) \<Rightarrow> (string \<times> string) list
   \<Rightarrow> (retcode \<times> (dataset_meta \<times> string) list option) cpp" where
  "FindPeerListFromDatasets stub_GetDataset datasets_with_tag =
     (if datasets_with_tag = [] then Ret (FAIL, None)
      else case meta_retry (stub_GetDataset (map fst datasets_with_tag)) 0 of
          None \<Rightarrow> Ret (FAIL, None)
        | Some (ret_code, dataset_list) \<Rightarrow>
            if ret_code \<noteq> SUCCESS then Ret (FAIL, None)
            else (let meta_list = collect_metas (id2tag datasets_with_tag) dataset_list
              in if length datasets_with_tag \<noteq> length meta_list
                 then Throw ''Failed to get all dataset's meta, no handler triggered. ''
                 else Ret (SUCCESS, Some meta_list)))"

(* src/src/fediux/service/dataset/meta_service/grpc_impl.cc:213-261 GrpcDatasetMetaService::GetAllMetas *)
definition grpc_GetAllMetas ::
  "(string list \<Rightarrow> nat \<Rightarrow> get_reply option) \<Rightarrow> dataset_meta list \<Rightarrow> retcode \<times> dataset_meta list" where
  "grpc_GetAllMetas stub_GetDataset metas =
     (case meta_retry (stub_GetDataset []) 0 of
        None \<Rightarrow> (FAIL, metas)
      | Some (ret_code, dataset_list) \<Rightarrow>
          if ret_code \<noteq> SUCCESS then (FAIL, metas)
          else (SUCCESS, map (\<lambda>(_, info). PbMetaInfoToMeta info empty_meta) (filter fst dataset_list)))"

end
