(* ===== verification/Dataset_Service.thy ===== *)
theory Dataset_Service
  imports Dataset_Meta
begin

text \<open>
  The local stores of dataset descriptions (meta_service/localkv, memory_impl.cc), the dataset service
  with its table of drivers (service.cc), and the calls that a node serves to its clients (node/ds.cc):
  the registration of a dataset, and the download of files by a reader and a writer with a queue.
\<close>

section \<open>Storage\<close>

type_synonym kv_store = "string \<rightharpoonup> string"

text \<open>\<open>emplace\<close> does not replace.\<close>

(* src/src/fediux/service/dataset/meta_service/localkv/storage_default.cc:6-10 StorageBackendDefault::PutValue *)
definition store_PutValue :: "string \<Rightarrow> string \<Rightarrow> kv_store \<Rightarrow> kv_store" where
  "store_PutValue key v values = map_insert key v values"

(* src/src/fediux/service/dataset/meta_service/localkv/storage_default.cc:12-20 StorageBackendDefault::GetValue *)
definition store_GetValue :: "string \<Rightarrow> kv_store \<Rightarrow> string option" where
  "store_GetValue key values = values key"

text \<open>The values that are found are not put into the result.\<close>

(* src/src/fediux/service/dataset/meta_service/localkv/storage_default.cc:22-33 StorageBackendDefault::GetValue *)
fun store_GetValues :: "string list \<Rightarrow> kv_store \<Rightarrow> kv_store \<Rightarrow> retcode \<times> kv_store" where
  "store_GetValues [] result values = (SUCCESS, result)"
| "store_GetValues (key # keys) result values =
     (case store_GetValue key values of None \<Rightarrow> (FAIL, result) | Some _ \<Rightarrow> store_GetValues keys result values)"

(* src/src/fediux/service/dataset/meta_service/localkv/storage_default.cc:35-42 StorageBackendDefault::Erase *)
definition store_Erase :: "string \<Rightarrow> kv_store \<Rightarrow> kv_store" where
  "store_Erase key values = values(key := None)"

(* src/src/fediux/service/dataset/meta_service/localkv/storage_default.cc:44-50 StorageBackendDefault::GetAll *)
definition store_GetAll :: "kv_store \<Rightarrow> kv_store \<Rightarrow> kv_store" where
  "store_GetAll values results = values ++ results"

text \<open>What a store promises: a key keeps the value it was first given.\<close>

locale first_value_store =
  fixes put :: "string \<Rightarrow> string \<Rightarrow> 's \<Rightarrow> 's" and get :: "string \<Rightarrow> 's \<Rightarrow> string option"
  assumes get_put_fresh: "get k s = None \<Longrightarrow> get k (put k v s) = Some v"
    and get_put_kept: "get k s = Some w \<Longrightarrow> get k (put k v s) = Some w"
    and get_put_other: "k' \<noteq> k \<Longrightarrow> get k' (put k v s) = get k' s"
begin

lemma get_after_puts:
  "get k (fold (\<lambda>(k, v). put k v) kvs s) = (case get k s of Some w \<Rightarrow> Some w | None \<Rightarrow> map_of kvs k)"
proof (induction kvs arbitrary: s)
  case (Cons kv kvs)
  obtain k' v where "kv = (k', v)" by (cases kv)
  then show ?case
    using Cons.IH [of "put k' v s"] get_put_fresh [of k s v] get_put_kept [of k s _ v] get_put_other [of k k' v s]
    by (cases "k' = k") (auto split: option.splits)
qed (simp split: option.splits)

end

interpretation default_store: first_value_store store_PutValue store_GetValue
  by unfold_locales (simp_all add: store_PutValue_def store_GetValue_def)

section \<open>The meta service in memory\<close>

(* src/src/fediux/service/dataset/meta_service/memory_impl.cc:9-15 MemoryDatasetMetaService::PutMeta *)
definition memory_PutMeta :: "json_lib \<Rightarrow> dataset_meta \<Rightarrow> kv_store \<Rightarrow> (retcode \<times> kv_store) cpp" where
  "memory_PutMeta js m storage =
     cbind (meta_toJSON js m) (\<lambda>meta_str. Ret (SUCCESS, store_PutValue (dm_id m) meta_str storage))"

text \<open>The return code of the search is not used: an unknown dataset is the description in an empty text.\<close>

(* src/src/fediux/service/dataset/meta_service/memory_impl.cc:17-28 MemoryDatasetMetaService::GetMeta *)
definition memory_GetMeta ::
  "json_lib \<Rightarrow> string \<Rightarrow> (dataset_meta \<Rightarrow> retcode \<times> 'h) \<Rightarrow> kv_store \<Rightarrow> (retcode \<times> 'h) cpp" where
  "memory_GetMeta js i handler storage =
     (let meta_str = (case store_GetValue i storage of None \<Rightarrow> [] | Some s \<Rightarrow> s)
      in cbind (meta_fromJSON js meta_str empty_meta) (\<lambda>m.
           let (ret, h) = handler m in Ret (if ret \<noteq> SUCCESS then FAIL else SUCCESS, h)))"

section \<open>The dataset service\<close>

text \<open>
  A driver with its type, the place of its data, and what it reads of them: nothing when it gives no
  cursor, or when the cursor gives no dataset, else the columns and the number of rows; reading may throw.
\<close>

record data_driver =
  dr_type :: string
  dr_url :: string
  dr_nodelet :: string
  dr_has_cursor :: bool
  dr_readMeta :: "(field_type list \<times> nat) option cpp"

type_synonym drivers = "string \<rightharpoonup> data_driver"

(* src/src/fediux/service/dataset/service.cc:236-249 DatasetService::registerDriver *)
definition registerDriver :: "string \<Rightarrow> data_driver \<Rightarrow> drivers \<Rightarrow> drivers" where
  "registerDriver dataset_id driver driver_manager = driver_manager(dataset_id \<mapsto> driver)"

(* src/src/fediux/service/dataset/service.cc:322-332 DatasetService::unRegisterDriver *)
definition unRegisterDriver :: "string \<Rightarrow> drivers \<Rightarrow> drivers" where
  "unRegisterDriver dataset_id driver_manager = driver_manager(dataset_id := None)"

(* src/src/fediux/service/dataset/model.cc:86-104 DatasetMeta::DatasetMeta *)
definition new_meta :: "field_type list \<times> nat \<Rightarrow> data_driver \<Rightarrow> string \<Rightarrow> visibility \<Rightarrow> string \<Rightarrow> dataset_meta" where
  "new_meta dataset driver desc vis dataset_access_info =
     \<lparr>dm_id = desc, data_url = dr_nodelet driver @ '':'' @ dr_url driver,
      server_meta = dr_nodelet driver, access_meta = dataset_access_info,
      description = desc, visibility = vis,
      driver_type = dr_type driver, data_type = 0, dm_schema = Some (fst dataset),
      total_records = Some (of_nat (snd dataset))\<rparr>"

text \<open>
  \<open>put\<close> is the meta service's \<open>PutMeta\<close>; \<open>meta\<close> is the caller's description, which is assigned to, and
  the result is what was put, when it was taken.
\<close>

(* src/src/fediux/service/dataset/service.cc:48-78 DatasetService::newDataset *)
definition newDataset ::
  "(dataset_meta \<Rightarrow> retcode cpp) \<Rightarrow> data_driver \<Rightarrow> string \<Rightarrow> string \<Rightarrow> dataset_meta \<Rightarrow> (dataset_meta option) cpp" where
  "newDataset put driver dataset_id dataset_access_info meta =
     (if \<not> dr_has_cursor driver then Ret None
      else cbind (dr_readMeta driver) (\<lambda>dataset. case dataset of
          None \<Rightarrow> Ret None
        | Some table \<Rightarrow>
            (let m = assign_meta meta (new_meta table driver dataset_id V_PUBLIC dataset_access_info)
             in cbind (put m) (\<lambda>ret. if ret \<noteq> SUCCESS then Ret None else Ret (Some m)))))"

text \<open>The handler's failure, and that no description was found, are not in the result.\<close>

(* src/src/fediux/service/dataset/service.cc:115-129 DatasetService::readDataset *)
definition readDataset ::
  "(string \<Rightarrow> (dataset_meta \<Rightarrow> retcode \<times> 'd) \<Rightarrow> retcode \<times> 'd option) \<Rightarrow> (dataset_meta \<Rightarrow> 'd) \<Rightarrow> string
   \<Rightarrow> retcode \<times> 'd option" where
  "readDataset GetMeta load i = (SUCCESS, snd (GetMeta i (\<lambda>m. (SUCCESS, load m))))"

section \<open>Registration\<close>

(* src/src/fediux/common/common.h:165-172 DatasetMetaInfo *)
record dataset_meta_info =
  di_id :: string
  di_driver_type :: string
  di_access_info :: string
  di_schema :: "field_type list"

(* src/src/fediux/node/ds.cc:297-313 DataServiceImpl::ConvertToDatasetMetaInfo *)
definition ConvertToDatasetMetaInfo :: "meta_info \<Rightarrow> dataset_meta_info" where
  "ConvertToDatasetMetaInfo pb = \<lparr>di_id = mi_id pb, di_driver_type = mi_driver pb,
     di_access_info = mi_access_info pb, di_schema = mi_data_type pb\<rparr>"

datatype dataset_reply = RegisteredUrl string | RefusedMsg string

text \<open>
  \<open>create\<close> stands for the driver factory: the driver of a description with the printed access
  information, no access information, or an exception.
\<close>

(* src/src/fediux/node/ds.cc:215-282 DataServiceImpl::RegisterDatasetProcess *)
definition RegisterDatasetProcess ::
  "(string \<Rightarrow> dataset_meta_info \<Rightarrow> (string \<times> data_driver) option cpp) \<Rightarrow> (dataset_meta \<Rightarrow> retcode cpp) \<Rightarrow> string
   \<Rightarrow> dataset_meta_info \<Rightarrow> drivers \<Rightarrow> (retcode \<times> dataset_reply \<times> drivers) cpp" where
  "RegisterDatasetProcess create put error_msg info driver_manager =
     (case create (di_driver_type info) info of
        Undef \<Rightarrow> Undef
      | Throw e \<Rightarrow> Ret (FAIL, RefusedMsg (take 1024 e), driver_manager)
      | Ret None \<Rightarrow> Ret (FAIL, RefusedMsg ''create access info failed'', driver_manager)
      | Ret (Some (acc, driver)) \<Rightarrow>
          (let ds = registerDriver (di_id info) driver driver_manager
           in case newDataset put driver (di_id info) acc empty_meta of
                Undef \<Rightarrow> Undef
              | Throw e \<Rightarrow> Ret (FAIL, RefusedMsg (take 1024 e), ds)
              | Ret None \<Rightarrow> Ret (FAIL, RefusedMsg error_msg, unRegisterDriver (di_id info) ds)
              | Ret (Some m) \<Rightarrow> Ret (SUCCESS, RegisteredUrl (data_url m), ds)))"

(* src/src/fediux/protos/service.proto:62-66 NewDatasetRequest.Operator *)
datatype dataset_op = OP_REGISTER | OP_UNREGISTER | OP_UPDATE | OP_OTHER int

(* src/src/fediux/node/ds.cc:284-289 DataServiceImpl::UnRegisterDatasetProcess *)
definition UnRegisterDatasetProcess ::
  "dataset_meta_info \<Rightarrow> drivers \<Rightarrow> (retcode \<times> dataset_reply \<times> drivers) cpp" where
  "UnRegisterDatasetProcess info driver_manager = Ret (SUCCESS, RegisteredUrl [], driver_manager)"

(* src/src/fediux/node/ds.cc:29-40 DataServiceImpl::NewDataset *)
fun duplicate_field :: "string list \<Rightarrow> string set \<Rightarrow> string option" where
  "duplicate_field [] dup = None"
| "duplicate_field (field_name # rest) dup =
     (if field_name \<in> dup then Some field_name else duplicate_field rest (insert field_name dup))"

(* src/src/fediux/node/ds.cc:23-61 DataServiceImpl::NewDataset *)
definition NewDataset ::
  "(string \<Rightarrow> dataset_meta_info \<Rightarrow> (string \<times> data_driver) option cpp) \<Rightarrow> (dataset_meta \<Rightarrow> retcode cpp) \<Rightarrow> string
   \<Rightarrow> dataset_op \<Rightarrow> meta_info \<Rightarrow> drivers \<Rightarrow> (retcode \<times> dataset_reply \<times> drivers) cpp" where
  "NewDataset create put error_msg op_type pb driver_manager =
     (let info = ConvertToDatasetMetaInfo pb
      in case duplicate_field (map fst (di_schema info)) {} of
           Some name \<Rightarrow> Ret (FAIL, RefusedMsg (''Duplicate Field name: '' @ name @ '' in dataset Schema''),
             driver_manager)
         | None \<Rightarrow> (case op_type of
               OP_REGISTER \<Rightarrow> RegisterDatasetProcess create put error_msg info driver_manager
             | OP_UNREGISTER \<Rightarrow> UnRegisterDatasetProcess info driver_manager
             | OP_UPDATE \<Rightarrow> RegisterDatasetProcess create put error_msg info driver_manager
             | OP_OTHER n \<Rightarrow> Ret (FAIL, RefusedMsg (''unsupported operation type: '' @ dec_string (nat n)),
                 driver_manager)))"

section \<open>Downloads\<close>

(* src/src/fediux/node/ds.h:29-33 DataServiceImpl::DataBlock *)
record data_block =
  db_data :: string
  db_last :: bool
  db_file :: string

(* src/src/fediux/util/file_util.cc:95-117 CompletePath *)
definition CompletePath :: "string \<Rightarrow> string \<Rightarrow> string" where
  "CompletePath default_storage_path file_path =
     (if file_path = [] then []
      else if hd file_path = CHR ''/'' then file_path
      else if default_storage_path = [] then file_path
      else default_storage_path @ ''/'' @ file_path)"

text \<open>
  What the reading thread does, in order: it puts blocks up, and throws at a file that does not exist or
  cannot be opened. Where the exception is caught the error flag is set, then the queue is shut down.
\<close>

datatype file_view = NoFile | Unreadable | Content string

datatype read_action = PutBlock data_block | RaiseError string | ShutDown

(* src/src/fediux/node/ds.cc:163-184 DataServiceImpl::DownloadDataImpl *)
definition file_blocks :: "string \<Rightarrow> string list" where
  "file_blocks content =
     (let block_size = LIMITED_PACKAGE_SIZE; block_num = length content div block_size;
          last_block_size = length content mod block_size
      in map (\<lambda>i. take block_size (drop (i * block_size) content)) [0..<block_num] @
         (if last_block_size \<noteq> 0 then [drop (block_num * block_size) content] else []))"

(* src/src/fediux/node/ds.cc:143-201 DataServiceImpl::DownloadDataImpl *)
fun DownloadDataImpl :: "(string \<Rightarrow> file_view) \<Rightarrow> string \<Rightarrow> string list \<Rightarrow> read_action list" where
  "DownloadDataImpl files storage_path [] = []"
| "DownloadDataImpl files storage_path (file_name # file_list) =
     (let file_path = CompletePath storage_path file_name
      in case (if file_path = [] then NoFile else files file_path) of
        NoFile \<Rightarrow> [RaiseError (''file: '' @ file_path @ '' is not exist'')]
      | Unreadable \<Rightarrow> [RaiseError (''open file '' @ file_path @ '' failed'')]
      | Content content \<Rightarrow>
          map (\<lambda>b. PutBlock \<lparr>db_data = b, db_last = False, db_file = file_name\<rparr>) (file_blocks content) @
          PutBlock \<lparr>db_data = [], db_last = True, db_file = []\<rparr> # DownloadDataImpl files storage_path file_list)"

record download_response =
  dl_code :: retcode
  dl_info :: string
  dl_file :: string
  dl_data :: string

text \<open>The writing thread waits for a block, tests the error flag after it has written, or has returned.\<close>

datatype writer_pc = WaitBlock | TestError | Returned

record download =
  todo :: "read_action list"
  resp_queue :: "data_block tsq"
  err_flag :: bool
  err_msg :: string
  writer :: writer_pc
  sent :: "download_response list"

definition empty_block :: data_block where
  "empty_block = \<lparr>db_data = [], db_last = False, db_file = []\<rparr>"

(* src/src/fediux/node/ds.cc:115-124 DataServiceImpl::DownloadData *)
definition make_response :: "bool \<Rightarrow> string \<Rightarrow> data_block \<Rightarrow> download_response" where
  "make_response err msg b =
     (if err then \<lparr>dl_code = FAIL, dl_info = msg, dl_file = [], dl_data = []\<rparr>
      else \<lparr>dl_code = SUCCESS, dl_info = ''SUCCESS'', dl_file = db_file b, dl_data = db_data b\<rparr>)"

(* src/src/fediux/node/ds.cc:112-125 DataServiceImpl::DownloadData *)
definition write_block :: "data_block \<Rightarrow> download \<Rightarrow> download" where
  "write_block b s = (if db_last b then s\<lparr>writer := Returned\<rparr>
     else s\<lparr>writer := TestError, sent := sent s @ [make_response (err_flag s) (err_msg s) b]\<rparr>)"

text \<open>
  A step of the reader, or one of the writer. After the reader has caught an exception it ends without a
  return value, which is undefined; the model has no step then.
\<close>

(* src/src/fediux/node/ds.cc:85-133 DataServiceImpl::DownloadData *)
inductive download_step :: "download \<Rightarrow> download \<Rightarrow> bool" where
  put_block: "todo s = PutBlock b # as \<Longrightarrow>
    download_step s (s\<lparr>todo := as, resp_queue := tsq_push b (resp_queue s)\<rparr>)"
| caught: "todo s = RaiseError e # as \<Longrightarrow>
    download_step s (s\<lparr>todo := [ShutDown], err_msg := e, err_flag := True\<rparr>)"
| shut_down: "todo s = ShutDown # as \<Longrightarrow>
    download_step s (s\<lparr>todo := as, resp_queue := tsq_shutdown (resp_queue s)\<rparr>)"
| block_taken: "writer s = WaitBlock \<Longrightarrow> tsq_wait_and_pop (resp_queue s) = (Popped b, q) \<Longrightarrow>
    download_step s (write_block b (s\<lparr>resp_queue := q\<rparr>))"
| wait_stopped: "writer s = WaitBlock \<Longrightarrow> tsq_wait_and_pop (resp_queue s) = (Stopped, q) \<Longrightarrow>
    download_step s (write_block empty_block s)"
| tested: "writer s = TestError \<Longrightarrow>
    download_step s (s\<lparr>writer := (if err_flag s then Returned else WaitBlock)\<rparr>)"

(* src/src/fediux/node/ds.cc:71-92 DataServiceImpl::DownloadData *)
definition DownloadData :: "(string \<Rightarrow> file_view) \<Rightarrow> string \<Rightarrow> string list \<Rightarrow> download" where
  "DownloadData files storage_path file_list =
     (let start = \<lparr>todo = DownloadDataImpl files storage_path file_list, resp_queue = new_tsq, err_flag = False, err_msg = [],
        writer = WaitBlock, sent = []\<rparr>
      in if file_list = [] then start\<lparr>writer := Returned, sent :=
             [\<lparr>dl_code = FAIL, dl_info = ''download list is empty, no data file for download'', dl_file = [],
               dl_data = []\<rparr>]\<rparr>
         else start)"

end
