(* ===== verification/Dataset_Correct.thy ===== *)
theory Dataset_Correct
  imports Dataset_Service Commuting_Steps
begin

text \<open>
  What the dataset services give: integer columns that are read from text, the descriptions found for a
  task's datasets, the descriptions kept in memory, and what a download sends.
\<close>

section \<open>Columns\<close>

text \<open>
  A column of 64-bit integers that is read from its decimal text has the values below 2 to the 31,
  and 0 in place of every other.
\<close>

theorem int64_column_loses_large:
  "MakeArrowArray 9 (map dec_string ns) = I64Array (map (\<lambda>n. if n < 2 ^ 31 then of_nat n else 0) ns)"
  by (simp add: MakeArrowArray_def Int64ArrowArrayBuilder_def stoi_dec)

section \<open>Descriptions\<close>

lemma id2tag_spec: "fold (\<lambda>(i, t) m. m(i \<mapsto> t)) ds m = m ++ map_of (rev ds)"
  by (induction ds arbitrary: m) (auto simp: fun_eq_iff map_add_def split: option.splits)

lemma id2tag_map_of: "id2tag ds = map_of (rev ds)"
  by (simp add: id2tag_def id2tag_spec)

lemma id2tag_distinct: "distinct (map fst ds) \<Longrightarrow> (i, t) \<in> set ds \<Longrightarrow> id2tag ds i = Some t"
  by (simp add: id2tag_map_of rev_map [symmetric] map_of_eq_Some_iff)

definition described :: "(string \<Rightarrow> meta_info) \<Rightarrow> (string list \<Rightarrow> nat \<Rightarrow> get_reply option) \<Rightarrow> string list \<Rightarrow> bool" where
  "described info stub ids \<longleftrightarrow> meta_retry (stub ids) 0 = Some (SUCCESS, map (\<lambda>i. (True, info i)) ids)
     \<and> (\<forall>i \<in> set ids. mi_id (info i) = i)"

lemma collect_described:
  assumes "\<forall>(i, t) \<in> set ds. tags i = Some t \<and> mi_id (info i) = i"
  shows "collect_metas tags (map (\<lambda>i. (True, info i)) (map fst ds))
    = map (\<lambda>(i, t). (PbMetaInfoToMeta (info i) empty_meta, t)) ds"
  using assms by (induction ds) (auto simp: collect_metas_def)

lemma peers_found:
  assumes "ds \<noteq> []" "distinct (map fst ds)" "described info stub (map fst ds)"
  shows "FindPeerListFromDatasets stub ds
    = Ret (SUCCESS, Some (map (\<lambda>(i, t). (PbMetaInfoToMeta (info i) empty_meta, t)) ds))"
proof -
  have "\<forall>(i, t) \<in> set ds. id2tag ds i = Some t \<and> mi_id (info i) = i"
    using assms(2,3) by (auto simp: id2tag_distinct described_def)
  from collect_described [OF this] assms show ?thesis
    by (simp add: FindPeerListFromDatasets_def described_def Let_def)
qed

section \<open>Descriptions as text\<close>

text \<open>
  UTF-8 as the JSON library's printer checks it: no overlong form, no surrogate, nothing beyond 10FFFF.
\<close>

definition byte_in :: "nat \<Rightarrow> nat \<Rightarrow> char \<Rightarrow> bool" where
  "byte_in lo hi c \<longleftrightarrow> lo \<le> of_char c \<and> of_char c \<le> hi"

abbreviation continues :: "char \<Rightarrow> bool" where
  "continues \<equiv> byte_in 128 191"

definition after_char :: "char \<Rightarrow> string \<Rightarrow> string option" where
  "after_char c s =
     (if byte_in 0 127 c then Some s
      else if byte_in 194 223 c then
        (case s of c1 # t \<Rightarrow> if continues c1 then Some t else None | _ \<Rightarrow> None)
      else if byte_in 224 239 c then
        (case s of c1 # c2 # t \<Rightarrow>
           if byte_in (if of_char c = (224 :: nat) then 160 else 128)
             (if of_char c = (237 :: nat) then 159 else 191) c1 \<and> continues c2 then Some t else None
         | _ \<Rightarrow> None)
      else if byte_in 240 244 c then
        (case s of c1 # c2 # c3 # t \<Rightarrow>
           if byte_in (if of_char c = (240 :: nat) then 144 else 128)
             (if of_char c = (244 :: nat) then 143 else 191) c1 \<and> continues c2 \<and> continues c3 then Some t else None
         | _ \<Rightarrow> None)
      else None)"

lemma after_char_shorter: "after_char c s = Some t \<Longrightarrow> length t \<le> length s"
  by (auto simp: after_char_def split: if_splits list.splits)

lemma after_char_append: "after_char c s = Some r \<Longrightarrow> after_char c (s @ t) = Some (r @ t)"
  by (auto simp: after_char_def split: if_splits list.splits)

function utf8 :: "string \<Rightarrow> bool" where
  "utf8 [] = True"
| "utf8 (c # s) = (case after_char c s of None \<Rightarrow> False | Some t \<Rightarrow> utf8 t)"
  by pat_completeness auto
termination by (relation "measure length") (auto dest: after_char_shorter)

lemma utf8_append: "utf8 s \<Longrightarrow> utf8 t \<Longrightarrow> utf8 (s @ t)"
proof (induction s rule: utf8.induct)
  case (2 c s)
  then obtain r where "after_char c s = Some r" "utf8 r" by (auto split: option.splits)
  with 2 after_char_append [of c s r t] show ?case by simp
qed simp

lemma utf8_ascii: "\<forall>c \<in> set s. of_char c < (128 :: nat) \<Longrightarrow> utf8 s"
  by (induction s) (auto simp: after_char_def byte_in_def)

lemma utf8_tagged: "of_char c < (128 :: nat) \<Longrightarrow> utf8 s \<Longrightarrow> utf8 (c # s)"
  by (simp add: after_char_def byte_in_def)

declare utf8.simps(2) [simp del]

text \<open>
  The values whose texts are UTF-8, and those that are in the form in which the library keeps a value:
  objects with their keys in order, integers of 64 bits.
\<close>

primrec json_utf8 :: "json \<Rightarrow> bool" where
  "json_utf8 JNull = True"
| "json_utf8 (JBool b) = True"
| "json_utf8 (JStr s) = utf8 s"
| "json_utf8 (JInt i) = True"
| "json_utf8 (JArr js) = (\<forall>b \<in> set (map json_utf8 js). b)"
| "json_utf8 (JObj kvs) = (\<forall>(k, b) \<in> set (map (map_prod id json_utf8) kvs). utf8 k \<and> b)"

primrec json_kept :: "json \<Rightarrow> bool" where
  "json_kept JNull = True"
| "json_kept (JBool b) = True"
| "json_kept (JStr s) = True"
| "json_kept (JInt i) = (- (2 ^ 63) \<le> i \<and> i < 2 ^ 64)"
| "json_kept (JArr js) = (\<forall>b \<in> set (map json_kept js). b)"
| "json_kept (JObj kvs) = (sorted_wrt (<) (map fst kvs) \<and> (\<forall>(k, b) \<in> set (map (map_prod id json_kept) kvs). b))"

text \<open>
  What the JSON library documents: a value whose texts are UTF-8 is printed as a text in UTF-8 and read
  back from it, a value with another text is not printed, and the empty text is no value.
\<close>

definition json_laws :: "json_lib \<Rightarrow> bool" where
  "json_laws js \<longleftrightarrow>
     (\<forall>j. json_utf8 j \<and> json_kept j \<longrightarrow> (\<exists>s. js_dump js j = Some s \<and> utf8 s \<and> js_parse js s = Some j))
     \<and> (\<forall>j. \<not> json_utf8 j \<longrightarrow> js_dump js j = None)
     \<and> js_parse js [] = None"

lemma extract_columns:
  "extractFields (map (\<lambda>(name, ty). JObj [(name, JInt (int ty))]) columns) = Ret columns"
  by (induction columns) (auto simp: jint_def)

text \<open>The columns have the numbers of Arrow's types, far below the bound.\<close>

definition is_table :: "dataset_meta \<Rightarrow> bool" where
  "is_table m \<longleftrightarrow> data_type m = 0 \<and> (\<exists>columns. dm_schema m = Some columns \<and> (\<forall>(name, ty) \<in> set columns. ty < 2 ^ 31))"

definition meta_utf8 :: "dataset_meta \<Rightarrow> bool" where
  "meta_utf8 m \<longleftrightarrow> utf8 (dm_id m) \<and> utf8 (data_url m) \<and> utf8 (server_meta m) \<and> utf8 (access_meta m)
     \<and> utf8 (description m) \<and> utf8 (driver_type m)
     \<and> (case dm_schema m of None \<Rightarrow> True | Some columns \<Rightarrow> \<forall>(name, ty) \<in> set columns. utf8 name)"

definition normal_meta :: "dataset_meta \<Rightarrow> dataset_meta" where
  "normal_meta m = m\<lparr>dm_schema := map_option FromFields (dm_schema m)\<rparr>"

lemma schema_printed:
  assumes "json_laws js" "\<forall>(name, ty) \<in> set columns. utf8 name" "\<forall>(name, ty) \<in> set columns. ty < 2 ^ 31"
  shows "\<exists>s. schema_toJSON js columns = Ret s \<and> utf8 s \<and> schema_fromJSON js s = FromFields columns"
proof -
  let ?j = "JArr (map (\<lambda>(name, ty). JObj [(name, JInt (int ty))]) columns)"
  have "json_utf8 ?j" using assms(2) by auto
  moreover have "json_kept ?j" using assms(3) by fastforce
  ultimately obtain s where "js_dump js ?j = Some s" "utf8 s" "js_parse js s = Some ?j"
    using assms(1) unfolding json_laws_def by blast
  then show ?thesis
    by (intro exI [of _ s]) (simp add: schema_toJSON_def dump_json_def schema_fromJSON_def extract_columns)
qed

lemma schema_refused:
  assumes "json_laws js" "\<not> (\<forall>(name, ty) \<in> set columns. utf8 name)"
  shows "schema_toJSON js columns = Throw ''type_error''"
proof -
  let ?j = "JArr (map (\<lambda>(name, ty). JObj [(name, JInt (int ty))]) columns)"
  have "\<not> json_utf8 ?j" using assms(2) by (auto simp: case_prod_unfold)
  then have "js_dump js ?j = None" using assms(1) unfolding json_laws_def by blast
  then show ?thesis by (simp add: schema_toJSON_def dump_json_def)
qed

text \<open>The value of a description, with the text of its columns.\<close>

definition meta_value :: "dataset_meta \<Rightarrow> string \<Rightarrow> json" where
  "meta_value m sch = JObj
     [(''access_meta'', JStr (access_meta m)), (''data_type'', JInt (int (data_type m))),
      (''data_url'', JStr (data_url m)), (''description'', JStr (description m)),
      (''driver_type'', JStr (driver_type m)), (''id'', JStr (dm_id m)),
      (''schema'', JStr sch), (''server_meta'', JStr (server_meta m)),
      (''visibility'', JInt (case visibility m of V_PUBLIC \<Rightarrow> 0 | V_PRIVATE \<Rightarrow> 1))]"

lemma meta_keys: "sorted_wrt (<) [''access_meta'', ''data_type'', ''data_url'', ''description'', ''driver_type'', ''id'',
    ''schema'', ''server_meta'', ''visibility'']"
  by code_simp

lemma meta_names_utf8: "utf8 ''access_meta''" "utf8 ''data_type''" "utf8 ''data_url''" "utf8 ''description''"
  "utf8 ''driver_type''" "utf8 ''id''" "utf8 ''schema''" "utf8 ''server_meta''" "utf8 ''visibility''"
  by code_simp+

lemma meta_value_kept: "data_type m = 0 \<Longrightarrow> json_kept (meta_value m sch)"
  using meta_keys by (auto simp: meta_value_def split: visibility.split)

lemma meta_value_utf8: "utf8 sch \<Longrightarrow> dm_schema m = Some columns \<Longrightarrow>
    json_utf8 (meta_value m sch) \<and> (\<forall>(name, ty) \<in> set columns. utf8 name) \<longleftrightarrow> meta_utf8 m"
  by (simp add: meta_value_def meta_utf8_def meta_names_utf8) blast

lemma meta_toJSON_value: "meta_toJSON js m = (case dm_schema m of None \<Rightarrow> Undef
     | Some columns \<Rightarrow> cbind (schema_toJSON js columns) (\<lambda>sch. dump_json js (meta_value m sch)))"
  by (cases "dm_schema m") (simp_all add: meta_toJSON_def meta_value_def)

lemma meta_fromJSON_value:
  assumes "js_parse js s = Some (meta_value m sch)" "data_type m = 0" "dm_schema m = Some columns"
    "schema_fromJSON js sch = FromFields columns"
  shows "meta_fromJSON js s old = Ret ((normal_meta m)\<lparr>total_records := total_records old\<rparr>)"
  using assms
  by (cases "visibility m") (simp_all add: meta_fromJSON_def meta_value_def jfield_def jstring_def
        jint_def jopt_string_def NewDatasetSchema_def normal_meta_def)

lemma meta_printed:
  assumes "json_laws js" "is_table m" "meta_utf8 m"
  shows "\<exists>s. meta_toJSON js m = Ret s
    \<and> (\<forall>old. meta_fromJSON js s old = Ret ((normal_meta m)\<lparr>total_records := total_records old\<rparr>))"
proof -
  obtain columns where c: "dm_schema m = Some columns" "data_type m = 0" "\<forall>(name, ty) \<in> set columns. ty < 2 ^ 31"
    using assms(2) by (auto simp: is_table_def)
  have "\<forall>(name, ty) \<in> set columns. utf8 name" using assms(3) c(1) by (simp add: meta_utf8_def)
  then obtain sch where sch: "schema_toJSON js columns = Ret sch" "utf8 sch" "schema_fromJSON js sch = FromFields columns"
    using schema_printed [OF assms(1) _ c(3)] by blast
  have "json_utf8 (meta_value m sch)" using meta_value_utf8 [OF sch(2) c(1)] assms(3) by blast
  with meta_value_kept [OF c(2)] obtain s where "js_dump js (meta_value m sch) = Some s"
    "js_parse js s = Some (meta_value m sch)" using assms(1) unfolding json_laws_def by blast
  with meta_fromJSON_value [OF _ c(2,1) sch(3)] c(1) sch(1) show ?thesis
    by (simp add: meta_toJSON_value dump_json_def)
qed

lemma meta_refused:
  assumes "json_laws js" "is_table m" "\<not> meta_utf8 m"
  shows "meta_toJSON js m = Throw ''type_error''"
proof -
  obtain columns where c: "dm_schema m = Some columns" "\<forall>(name, ty) \<in> set columns. ty < 2 ^ 31"
    using assms(2) by (auto simp: is_table_def)
  show ?thesis
  proof (cases "\<forall>(name, ty) \<in> set columns. utf8 name")
    case True
    then obtain sch where sch: "schema_toJSON js columns = Ret sch" "utf8 sch"
      using schema_printed [OF assms(1) _ c(2)] by blast
    have "\<not> json_utf8 (meta_value m sch)" using meta_value_utf8 [OF sch(2) c(1)] assms(3) True by blast
    then have "js_dump js (meta_value m sch) = None" using assms(1) unfolding json_laws_def by blast
    with c(1) sch(1) show ?thesis by (simp add: meta_toJSON_value dump_json_def)
  next
    case False
    from schema_refused [OF assms(1) this] c(1) show ?thesis by (simp add: meta_toJSON_value)
  qed
qed

text \<open>
  C22: the text of a table's description whose texts are UTF-8 is read back as the description, with the
  types of its columns made Arrow types again and without its record count, for which the object keeps the
  one it had; all else that the object held before is replaced. A description with another text cannot be
  written: the JSON library throws.
\<close>

theorem meta_text_roundtrip:
  assumes "json_laws js" "is_table m"
  shows "cbind (meta_toJSON js m) (\<lambda>s. meta_fromJSON js s old)
    = (if meta_utf8 m then Ret ((normal_meta m)\<lparr>total_records := total_records old\<rparr>) else Throw ''type_error'')"
  using meta_printed [OF assms] meta_refused [OF assms] by (cases "meta_utf8 m") auto

section \<open>Descriptions in memory\<close>

definition put_all :: "json_lib \<Rightarrow> dataset_meta list \<Rightarrow> kv_store \<Rightarrow> kv_store cpp" where
  "put_all js ms s = foldl (\<lambda>r m. cbind r (\<lambda>s. cbind (memory_PutMeta js m s) (\<lambda>(_, s'). Ret s'))) (Ret s) ms"

definition meta_text :: "json_lib \<Rightarrow> dataset_meta \<Rightarrow> string" where
  "meta_text js m = (case meta_toJSON js m of Ret s \<Rightarrow> s | _ \<Rightarrow> [])"

lemma put_all_store:
  "json_laws js \<Longrightarrow> \<forall>m \<in> set ms. is_table m \<and> meta_utf8 m \<Longrightarrow>
    put_all js ms s = Ret (fold (\<lambda>(k, v). store_PutValue k v) (map (\<lambda>m. (dm_id m, meta_text js m)) ms) s)"
proof (induction ms arbitrary: s)
  case (Cons m ms)
  then obtain t where "meta_toJSON js m = Ret t" using meta_printed by fastforce
  with Cons show ?case by (simp add: put_all_def memory_PutMeta_def meta_text_def)
qed (simp add: put_all_def)

lemma map_of_metas:
  "map_of (map (\<lambda>m. (dm_id m, f m)) ms) i = map_option f (find (\<lambda>m. dm_id m = i) ms)"
  by (induction ms) auto

text \<open>
  The service in memory gives the description that was put first under an identifier, and
  throws for an identifier under which none was put.
\<close>

theorem first_description_stays:
  assumes "json_laws js" "\<forall>m \<in> set ms. is_table m \<and> meta_utf8 m"
  shows "cbind (put_all js ms Map.empty) (memory_GetMeta js i handler) = (case find (\<lambda>m. dm_id m = i) ms of
       None \<Rightarrow> Throw ''parse_error''
     | Some m \<Rightarrow> Ret (handler ((normal_meta m)\<lparr>total_records := None\<rparr>)))"
proof -
  have r: "(case handler m of (ret, h) \<Rightarrow> Ret (if ret = FAIL then FAIL else SUCCESS, h)) = Ret (handler m)" for m
    by (cases "handler m"; cases "fst (handler m)") auto
  have e: "store_GetValue i Map.empty = None" by (simp add: store_GetValue_def)
  have g: "cbind (put_all js ms Map.empty) (memory_GetMeta js i handler)
    = cbind (meta_fromJSON js (case find (\<lambda>m. dm_id m = i) ms of None \<Rightarrow> [] | Some m \<Rightarrow> meta_text js m) empty_meta)
        (\<lambda>m. Ret (handler m))"
    using default_store.get_after_puts [of i "map (\<lambda>m. (dm_id m, meta_text js m)) ms" Map.empty]
    by (simp add: put_all_store [OF assms] memory_GetMeta_def map_of_metas e r split: option.splits)
  show ?thesis
  proof (cases "find (\<lambda>m. dm_id m = i) ms")
    case None
    with g assms(1) show ?thesis by (simp add: meta_fromJSON_def json_laws_def)
  next
    case (Some m)
    then have "is_table m" "meta_utf8 m" using assms(2) by (metis find_Some_iff nth_mem)+
    then obtain t where "meta_toJSON js m = Ret t"
      "meta_fromJSON js t empty_meta = Ret ((normal_meta m)\<lparr>total_records := total_records empty_meta\<rparr>)"
      using meta_printed [OF assms(1)] by blast
    then have "meta_fromJSON js (meta_text js m) empty_meta = Ret ((normal_meta m)\<lparr>total_records := None\<rparr>)"
      by (simp add: meta_text_def empty_meta_def)
    with g Some show ?thesis by simp
  qed
qed

section \<open>A JSON library\<close>

text \<open>A printer with counted parts, for examples.\<close>

definition framed :: "string \<Rightarrow> string" where
  "framed s = replicate (length s) (CHR ''1'') @ CHR ''0'' # s"

definition frame_length :: "string \<Rightarrow> nat" where
  "frame_length s = length (takeWhile (\<lambda>c. c = CHR ''1'') s)"

function frames :: "string \<Rightarrow> string list" where
  "frames s = (if s = [] then [] else
     (let n = frame_length s; r = drop (Suc n) s in take n r # frames (drop n r)))"
  by pat_completeness auto
termination by (relation "measure length") auto

declare frames.simps [simp del]

lemma frames_step: "frames (framed x @ s) = x # frames s"
proof -
  have "frame_length (framed x @ s) = length x"
    by (simp add: frame_length_def framed_def takeWhile_append)
  then show ?thesis
    by (subst frames.simps) (simp add: framed_def Let_def)
qed

lemma frames_concat: "frames (concat (map framed xs)) = xs"
  by (induction xs) (simp_all add: frames_step frames.simps [of "[]"])

lemma length_frames: "x \<in> set (frames s) \<Longrightarrow> length x < Suc (length s)"
proof (induction s rule: frames.induct)
  case (1 s)
  show ?case
  proof (cases "s = []")
    case False
    have "x \<in> set (frames (drop (frame_length s) (drop (Suc (frame_length s)) s))) \<Longrightarrow> length x < Suc (length s)"
      using 1(1) [OF False refl refl] by simp
    then show ?thesis using 1(2) False by (subst (asm) (2) frames.simps) (auto simp: Let_def)
  qed (use 1(2) frames.simps [of "[]"] in simp)
qed

primrec print_json :: "json \<Rightarrow> string" where
  "print_json JNull = ''n''"
| "print_json (JBool b) = (if b then ''t'' else ''f'')"
| "print_json (JStr s) = CHR ''s'' # s"
| "print_json (JInt i) = (if i < 0 then CHR ''-'' else CHR ''+'') # dec_string (nat \<bar>i\<bar>)"
| "print_json (JArr js) = CHR ''a'' # concat (map framed (map print_json js))"
| "print_json (JObj kvs) = CHR ''o'' # concat (map framed (concat (map (\<lambda>(k, s). [k, s]) (map (map_prod id print_json) kvs))))"

fun pairs :: "'a list \<Rightarrow> ('a \<times> 'a) list" where
  "pairs (k # v # xs) = (k, v) # pairs xs"
| "pairs _ = []"

lemma pairs_concat: "pairs (concat (map (\<lambda>(k, s). [k, s]) kvs)) = kvs"
  by (induction kvs) auto

lemma pairs_set: "(k, v) \<in> set (pairs xs) \<Longrightarrow> v \<in> set xs"
  by (induction xs rule: pairs.induct) auto

function parse_json :: "string \<Rightarrow> json option" where
  "parse_json [] = None"
| "parse_json (c # s) = (if c = CHR ''n'' then Some JNull
     else if c = CHR ''t'' then Some (JBool True) else if c = CHR ''f'' then Some (JBool False)
     else if c = CHR ''s'' then Some (JStr s)
     else if c = CHR ''-'' then Some (JInt (- int (dec_val s)))
     else if c = CHR ''+'' then Some (JInt (int (dec_val s)))
     else if c = CHR ''a'' then map_option JArr (those (map parse_json (frames s)))
     else map_option JObj (those (map (\<lambda>(k, v). map_option (Pair k) (parse_json v)) (pairs (frames s)))))"
  by pat_completeness auto
termination
  by (relation "measure length") (auto dest!: pairs_set dest: length_frames)

lemma those_map_Some: "\<forall>x \<in> set xs. f (g x) = Some x \<Longrightarrow> those (map f (map g xs)) = Some xs"
  by (induction xs) auto

lemma parse_print: "parse_json (print_json j) = Some j"
proof (induction j)
  case (JArr js)
  then show ?case using those_map_Some [of js parse_json print_json] by (simp add: frames_concat del: map_map)
next
  case (JObj kvs)
  have "\<forall>kv \<in> set kvs. (case map_prod id print_json kv of (k, v) \<Rightarrow> map_option (Pair k) (parse_json v)) = Some kv"
  proof
    fix kv assume "kv \<in> set kvs"
    obtain k v where "kv = (k, v)" by (cases kv)
    with JObj [OF \<open>kv \<in> set kvs\<close>, of v] show "(case map_prod id print_json kv of (k, v) \<Rightarrow> map_option (Pair k) (parse_json v)) = Some kv"
      by simp
  qed
  then have "those (map (\<lambda>(k, v). map_option (Pair k) (parse_json v)) (map (map_prod id print_json) kvs)) = Some kvs"
    by (rule those_map_Some)
  then show ?case by (simp add: frames_concat pairs_concat del: map_map)
qed simp_all

lemma utf8_concat: "\<forall>s \<in> set xs. utf8 s \<Longrightarrow> utf8 (concat xs)"
  by (induction xs) (auto intro: utf8_append)

lemma utf8_framed: "utf8 s \<Longrightarrow> utf8 (framed s)"
proof -
  assume "utf8 s"
  moreover have "utf8 (replicate n (CHR ''1''))" "utf8 ''0''" for n by (auto intro: utf8_ascii)
  ultimately show ?thesis unfolding framed_def by (metis append_Cons append_Nil utf8_append)
qed

lemma utf8_number: "utf8 (dec_string n)"
  by (rule utf8_ascii) (auto dest!: dec_string_digits simp: is_digit_def)

lemma print_utf8: "json_utf8 j \<Longrightarrow> utf8 (print_json j)"
proof (induction j)
  case (JArr js)
  then have "\<forall>s \<in> set (map framed (map print_json js)). utf8 s" by (auto intro: utf8_framed)
  then show ?case by (auto intro!: utf8_tagged utf8_concat)
next
  case (JObj kvs)
  then have "utf8 k \<and> utf8 (print_json v)" if "(k, v) \<in> set kvs" for k v using that by fastforce
  then have "\<forall>s \<in> set (map framed (concat (map (\<lambda>(k, s). [k, s]) (map (map_prod id print_json) kvs)))). utf8 s"
    by (auto intro!: utf8_framed)
  then show ?case by (auto intro!: utf8_tagged utf8_concat)
qed (auto intro!: utf8_tagged utf8_number)

definition demo_json :: json_lib where
  "demo_json = \<lparr>js_dump = (\<lambda>j. if json_utf8 j then Some (print_json j) else None), js_parse = parse_json\<rparr>"

lemma demo_json_laws: "json_laws demo_json"
  by (simp add: json_laws_def demo_json_def parse_print print_utf8)

definition demo_meta :: "string \<Rightarrow> dataset_meta" where
  "demo_meta node = \<lparr>dm_id = ''d'', data_url = node @ '':/data/d.csv'', server_meta = node, access_meta = ''/data/d.csv'',
     description = ''d'', visibility = V_PUBLIC, driver_type = ''CSV'', data_type = 0,
     dm_schema = Some [(''x'', 9), (''y'', 24)], total_records = Some 7\<rparr>"

lemma demo_meta_ok: "is_table (demo_meta node)" "utf8 node \<Longrightarrow> meta_utf8 (demo_meta node)"
  by (auto simp: is_table_def demo_meta_def meta_utf8_def intro!: utf8_append utf8_tagged)

lemma not_utf8: "\<not> utf8 [CHR 0xFF]"
  by code_simp

theorem meta_text_roundtrip_witness:
  "cbind (meta_toJSON demo_json (demo_meta ''n0:10.0.0.1:50050:0'')) (\<lambda>s. meta_fromJSON demo_json s empty_meta)
   = Ret ((demo_meta ''n0:10.0.0.1:50050:0'')\<lparr>dm_schema := Some [(''x'', 9), (''y'', 23)], total_records := None\<rparr>)
   \<and> cbind (meta_toJSON demo_json (demo_meta [CHR 0xFF])) (\<lambda>s. meta_fromJSON demo_json s empty_meta) = Throw ''type_error''"
  using meta_text_roundtrip [OF demo_json_laws demo_meta_ok(1), of "''n0:10.0.0.1:50050:0''" empty_meta]
    meta_text_roundtrip [OF demo_json_laws demo_meta_ok(1), of "[CHR 0xFF]" empty_meta]
    demo_meta_ok(2) [of "''n0:10.0.0.1:50050:0''"] not_utf8
  by (simp add: utf8_tagged) (simp add: demo_meta_def meta_utf8_def normal_meta_def FromFields_def MakeArrowDataType_def
      empty_meta_def)

theorem first_description_stays_witness:
  "cbind (put_all demo_json [demo_meta ''n0'', demo_meta ''n1''] Map.empty)
     (memory_GetMeta demo_json ''d'' (\<lambda>m. (SUCCESS, server_meta m))) = Ret (SUCCESS, ''n0'')"
  using first_description_stays [OF demo_json_laws, of "[demo_meta ''n0'', demo_meta ''n1'']" "''d''"
      "\<lambda>m. (SUCCESS, server_meta m)"]
    demo_meta_ok(2) [of "''n0''"] demo_meta_ok(2) [of "''n1''"]
  by (simp add: utf8_tagged demo_meta_ok(1)) (simp add: demo_meta_def normal_meta_def)

section \<open>Downloads\<close>

lemma concat_file_blocks: "concat (file_blocks content) = content"
proof -
  let ?n = LIMITED_PACKAGE_SIZE
  have "concat (map (\<lambda>i. take ?n (drop (i * ?n) content)) [0..<k]) = take (k * ?n) content" for k
    using concat_map_range_chunks [of "\<lambda>i. i * ?n" content k] by (simp add: mono_def)
  then show ?thesis
    by (simp add: file_blocks_def Let_def minus_mod_eq_div_mult [symmetric])
qed

lemma file_blocks_bounded: "b \<in> set (file_blocks content) \<Longrightarrow> length b \<le> LIMITED_PACKAGE_SIZE"
  by (auto simp: file_blocks_def Let_def minus_div_mult_eq_mod LIMITED_PACKAGE_SIZE_def split: if_splits)

definition readable :: "(string \<Rightarrow> file_view) \<Rightarrow> string \<Rightarrow> string \<Rightarrow> bool" where
  "readable files path name \<longleftrightarrow> CompletePath path name \<noteq> [] \<and> (\<exists>c. files (CompletePath path name) = Content c)"

definition quiet :: "download \<Rightarrow> bool" where
  "quiet s \<longleftrightarrow> (\<exists>bs. todo s = map PutBlock bs) \<and> \<not> err_flag s \<and> \<not> stop_flag (resp_queue s)"

lemma quiet_readable:
  "\<forall>f \<in> set fs. readable files path f \<Longrightarrow> \<exists>bs. DownloadDataImpl files path fs = map PutBlock bs"
proof (induction fs)
  case (Cons f fs)
  then obtain c bs where "files (CompletePath path f) = Content c" "CompletePath path f \<noteq> []"
    "DownloadDataImpl files path fs = map PutBlock bs" by (auto simp: readable_def)
  then show ?case
    by (intro exI [of _ "map (\<lambda>b. \<lparr>db_data = b, db_last = False, db_file = f\<rparr>) (file_blocks c) @
        \<lparr>db_data = [], db_last = True, db_file = []\<rparr> # bs"]) (simp add: o_def)
qed simp

inductive_cases download_stepE: "download_step s t"

lemma quiet_kept: "quiet s \<Longrightarrow> download_step s t \<Longrightarrow> quiet t"
  by (erule download_stepE) (auto simp: quiet_def write_block_def wait_and_pop_Popped_iff Cons_eq_map_conv
      split: if_splits)

definition read_step :: "download \<Rightarrow> download option" where
  "read_step s = (case todo s of
     PutBlock b # as \<Rightarrow> Some (s\<lparr>todo := as, resp_queue := tsq_push b (resp_queue s)\<rparr>) | _ \<Rightarrow> None)"

definition write_step :: "download \<Rightarrow> download option" where
  "write_step s = (case writer s of
     WaitBlock \<Rightarrow> (case m_queue (resp_queue s) of [] \<Rightarrow> None
       | b # xs \<Rightarrow> Some (write_block b (s\<lparr>resp_queue := (resp_queue s)\<lparr>m_queue := xs\<rparr>\<rparr>)))
   | TestError \<Rightarrow> Some (s\<lparr>writer := WaitBlock\<rparr>)
   | Returned \<Rightarrow> None)"

lemma quiet_step_iff:
  assumes "quiet s"
  shows "download_step s t \<longleftrightarrow> read_step s = Some t \<or> write_step s = Some t"
proof
  assume "download_step s t"
  then show "read_step s = Some t \<or> write_step s = Some t"
    by (rule download_stepE)
      (use assms in \<open>auto simp: quiet_def read_step_def write_step_def wait_and_pop_Popped_iff tsq_wait_and_pop_def
        tsq_empty_def Cons_eq_map_conv neq_Nil_conv split: if_splits\<close>)
next
  assume "read_step s = Some t \<or> write_step s = Some t"
  then show "download_step s t"
  proof
    assume "read_step s = Some t"
    then show ?thesis
      by (auto simp: read_step_def split: list.splits read_action.splits intro: download_step.put_block)
  next
    assume w: "write_step s = Some t"
    show ?thesis
    proof (cases "writer s")
      case WaitBlock
      with w obtain b xs where "m_queue (resp_queue s) = b # xs"
        "t = write_block b (s\<lparr>resp_queue := (resp_queue s)\<lparr>m_queue := xs\<rparr>\<rparr>)"
        by (auto simp: write_step_def split: list.splits)
      with WaitBlock assms show ?thesis
        by (auto simp: quiet_def queue_simps intro!: download_step.block_taken)
    next
      case TestError
      with w assms download_step.tested [OF TestError] show ?thesis by (simp add: write_step_def quiet_def)
    qed (use w in \<open>simp add: write_step_def\<close>)
  qed
qed

lemma read_write_commute:
  assumes "read_step s = Some a" "write_step s = Some b"
  shows "\<exists>d. write_step a = Some d \<and> read_step b = Some d"
  using assms
  by (auto simp: read_step_def write_step_def write_block_def tsq_push_def tsq_emplace_def
      split: list.splits read_action.splits writer_pc.splits if_splits)

lemma quiet_diamond:
  assumes "quiet s" "download_step s a" "download_step s b"
  shows "a = b \<or> (\<exists>d. download_step a d \<and> download_step b d)"
proof -
  have q: "quiet a" "quiet b" using quiet_kept assms by blast+
  from assms(2,3) show ?thesis
    unfolding quiet_step_iff [OF assms(1)] quiet_step_iff [OF q(1)] quiet_step_iff [OF q(2)]
    using read_write_commute by (metis option.inject)
qed

text \<open>One run: everything is read, then the blocks of the first file are written.\<close>

lemma read_all:
  "todo s = map PutBlock bs \<Longrightarrow> (download_step ^^ length bs) s
     (s\<lparr>todo := [], resp_queue := (resp_queue s)\<lparr>m_queue := m_queue (resp_queue s) @ bs\<rparr>\<rparr>)"
proof (induction bs arbitrary: s)
  case (Cons b bs)
  let ?u = "s\<lparr>todo := map PutBlock bs, resp_queue := tsq_push b (resp_queue s)\<rparr>"
  have "download_step s ?u" using Cons.prems by (auto intro: download_step.put_block)
  moreover have "(download_step ^^ length bs) ?u (?u\<lparr>todo := [],
      resp_queue := (resp_queue ?u)\<lparr>m_queue := m_queue (resp_queue ?u) @ bs\<rparr>\<rparr>)" by (rule Cons.IH) simp
  ultimately have "(download_step ^^ Suc (length bs)) s (?u\<lparr>todo := [],
      resp_queue := (resp_queue ?u)\<lparr>m_queue := m_queue (resp_queue ?u) @ bs\<rparr>\<rparr>)" by (rule relpowp_Suc_I2)
  then show ?case by (simp add: tsq_push_def tsq_emplace_def del: relpowp.simps)
qed simp

lemma write_all:
  assumes "quiet s" "writer s = WaitBlock" "m_queue (resp_queue s) = bs @ rest" "\<forall>b \<in> set bs. \<not> db_last b"
  shows "(download_step ^^ (2 * length bs)) s
     (s\<lparr>resp_queue := (resp_queue s)\<lparr>m_queue := rest\<rparr>, sent := sent s @ map (make_response False (err_msg s)) bs\<rparr>)"
  using assms
proof (induction bs arbitrary: s)
  case (Cons b bs)
  let ?u = "write_block b (s\<lparr>resp_queue := (resp_queue s)\<lparr>m_queue := bs @ rest\<rparr>\<rparr>)"
  let ?v = "?u\<lparr>writer := WaitBlock\<rparr>"
  have u: "?u = s\<lparr>resp_queue := (resp_queue s)\<lparr>m_queue := bs @ rest\<rparr>, writer := TestError,
      sent := sent s @ [make_response False (err_msg s) b]\<rparr>"
    using Cons.prems by (simp add: write_block_def quiet_def)
  have su: "download_step s ?u"
    using Cons.prems by (simp add: quiet_step_iff write_step_def)
  then have qu: "quiet ?u" using Cons.prems(1) quiet_kept by blast
  have uv: "download_step ?u ?v" unfolding quiet_step_iff [OF qu] by (simp add: write_step_def u)
  then have qv: "quiet ?v" using qu quiet_kept by blast
  have "(download_step ^^ (2 * length bs)) ?v
     (?v\<lparr>resp_queue := (resp_queue ?v)\<lparr>m_queue := rest\<rparr>, sent := sent ?v @ map (make_response False (err_msg ?v)) bs\<rparr>)"
    by (rule Cons.IH [OF qv]) (use Cons.prems(4) in \<open>simp_all add: u\<close>)
  then have "(download_step ^^ Suc (Suc (2 * length bs))) s
     (?v\<lparr>resp_queue := (resp_queue ?v)\<lparr>m_queue := rest\<rparr>, sent := sent ?v @ map (make_response False (err_msg ?v)) bs\<rparr>)"
    using su uv by (blast intro: relpowp_Suc_I2)
  moreover have "s\<lparr>writer := WaitBlock\<rparr> = s" using Cons.prems(2) by (cases s) simp
  ultimately show ?case by (simp add: u del: relpowp.simps)
qed simp

text \<open>
  C23: when all files of a list can be read, every run of a download ends, after the content of the first
  file was sent in packages of at most 3 MB; of the other files nothing is sent.
\<close>

theorem download_sends_first_file:
  assumes "\<forall>f \<in> set (name # rest). readable files path f" "files (CompletePath path name) = Content c"
  shows "\<exists>n t. ends_in download_step (DownloadData files path (name # rest)) n t \<and> writer t = Returned
    \<and> concat (map dl_data (sent t)) = c
    \<and> (\<forall>r \<in> set (sent t). dl_code r = SUCCESS \<and> dl_file r = name \<and> length (dl_data r) \<le> LIMITED_PACKAGE_SIZE)"
proof -
  let ?s = "DownloadData files path (name # rest)"
  let ?bs = "map (\<lambda>b. \<lparr>db_data = b, db_last = False, db_file = name\<rparr>) (file_blocks c)"
  let ?l = "\<lparr>db_data = [], db_last = True, db_file = []\<rparr>"
  obtain os where os: "DownloadDataImpl files path rest = map PutBlock os"
    using quiet_readable [of rest files path] assms(1) by auto
  have td: "todo ?s = map PutBlock (?bs @ ?l # os)"
    using assms os by (simp add: DownloadData_def readable_def o_def)
  have s: "writer ?s = WaitBlock" "m_queue (resp_queue ?s) = []" "quiet ?s" "sent ?s = []"
    using td by (simp_all add: DownloadData_def quiet_def Let_def del: map_append map_map DownloadDataImpl.simps) blast
  define u where "u = ?s\<lparr>todo := [], resp_queue := (resp_queue ?s)\<lparr>m_queue := ?bs @ ?l # os\<rparr>\<rparr>"
  define v where "v = u\<lparr>resp_queue := (resp_queue u)\<lparr>m_queue := ?l # os\<rparr>,
    sent := map (make_response False (err_msg u)) ?bs\<rparr>"
  define t where "t = v\<lparr>resp_queue := (resp_queue v)\<lparr>m_queue := os\<rparr>, writer := Returned\<rparr>"
  have "(download_step ^^ length (?bs @ ?l # os)) ?s u"
    using read_all [OF td] s(2) by (simp add: u_def)
  moreover have qu: "quiet u" using s(3) by (simp add: u_def quiet_def)
  have "(download_step ^^ (2 * length ?bs)) u v"
    using write_all [OF qu, of ?bs "?l # os"] s(1,4) by (simp add: u_def v_def)
  moreover have "(download_step ^^ 1) v t"
    unfolding relpowp_1
  proof -
    have "quiet v" using qu by (simp add: v_def quiet_def)
    then show "download_step v t" using s(1) by (simp add: quiet_step_iff write_step_def write_block_def v_def t_def u_def)
  qed
  ultimately have run: "(download_step ^^ (length (?bs @ ?l # os) + (2 * length ?bs + 1))) ?s t"
    by (intro relpowp_plus)
  have "quiet t" using qu by (simp add: t_def v_def quiet_def)
  then have "\<nexists>w. download_step t w"
    by (simp add: quiet_step_iff read_step_def write_step_def t_def v_def u_def)
  then have "ends_in download_step ?s (length (?bs @ ?l # os) + (2 * length ?bs + 1)) t"
    using one_run_all_runs [of quiet download_step t, OF _ _ run _ s(3)] quiet_diamond quiet_kept by blast
  moreover have "sent t = map (make_response False (err_msg u)) ?bs" "writer t = Returned"
    by (simp_all add: t_def v_def)
  ultimately show ?thesis
    using concat_file_blocks [of c] file_blocks_bounded [of _ c]
    by (intro exI [of _ "length (?bs @ ?l # os) + (2 * length ?bs + 1)"] exI [of _ t]) (auto simp: make_response_def o_def)
qed

theorem download_sends_first_file_witness:
  "\<exists>n t. ends_in download_step (DownloadData (\<lambda>p. if p = ''/out/a'' then Content ''abc'' else Content ''d'') ''/out'' [''a'', ''b'']) n t
    \<and> writer t = Returned \<and> concat (map dl_data (sent t)) = ''abc''"
  using download_sends_first_file [of "''a''" "[''b'']" "\<lambda>p. if p = ''/out/a'' then Content ''abc'' else Content ''d''" "''/out''" "''abc''"]
  by (auto simp: readable_def CompletePath_def)

text \<open>The reader puts blocks up while other actions follow.\<close>

lemma read_some:
  "todo s = map PutBlock bs @ as \<Longrightarrow> download_step\<^sup>*\<^sup>* s
     (s\<lparr>todo := as, resp_queue := (resp_queue s)\<lparr>m_queue := m_queue (resp_queue s) @ bs\<rparr>\<rparr>)"
proof (induction bs arbitrary: s)
  case (Cons b bs)
  let ?u = "s\<lparr>todo := map PutBlock bs @ as, resp_queue := tsq_push b (resp_queue s)\<rparr>"
  have "download_step s ?u" using Cons.prems by (auto intro: download_step.put_block)
  moreover have "download_step\<^sup>*\<^sup>* ?u (?u\<lparr>todo := as,
      resp_queue := (resp_queue ?u)\<lparr>m_queue := m_queue (resp_queue ?u) @ bs\<rparr>\<rparr>)" by (rule Cons.IH) simp
  ultimately have "download_step\<^sup>*\<^sup>* s (?u\<lparr>todo := as,
      resp_queue := (resp_queue ?u)\<lparr>m_queue := m_queue (resp_queue ?u) @ bs\<rparr>\<rparr>)"
    by (rule converse_rtranclp_into_rtranclp)
  then show ?case by (simp add: tsq_push_def tsq_emplace_def)
next
  case Nil
  then have "s\<lparr>todo := as, resp_queue := (resp_queue s)\<lparr>m_queue := m_queue (resp_queue s) @ []\<rparr>\<rparr> = s"
    by (cases s) simp
  then show ?case by simp
qed

text \<open>
  When a file of more than 3 MB is followed by one that does not exist, the download can end after the
  first package, and every response says success.
\<close>

theorem download_can_be_cut:
  assumes "CompletePath path name \<noteq> []" "files (CompletePath path name) = Content c"
    "LIMITED_PACKAGE_SIZE < length c" "files (CompletePath path missing) = NoFile"
  shows "\<exists>t. download_step\<^sup>*\<^sup>* (DownloadData files path [name, missing]) t \<and> writer t = Returned
    \<and> sent t = [\<lparr>dl_code = SUCCESS, dl_info = ''SUCCESS'', dl_file = name, dl_data = take LIMITED_PACKAGE_SIZE c\<rparr>]"
proof -
  let ?s = "DownloadData files path [name, missing]"
  let ?bs = "map (\<lambda>b. \<lparr>db_data = b, db_last = False, db_file = name\<rparr>) (file_blocks c) @
    [\<lparr>db_data = [], db_last = True, db_file = []\<rparr>]"
  obtain e where e: "DownloadDataImpl files path [missing] = [RaiseError e]"
    using that [of "''file: '' @ CompletePath path missing @ '' is not exist''"] assms(4)
    by (cases "CompletePath path missing = []") (simp_all add: Let_def)
  then have td: "todo ?s = map PutBlock ?bs @ [RaiseError e]"
    using assms(1,2) by (simp add: DownloadData_def o_def)
  have "0 < length c div LIMITED_PACKAGE_SIZE"
    using assms(3) by (simp add: div_greater_zero_iff LIMITED_PACKAGE_SIZE_def)
  then have "hd (file_blocks c) = take LIMITED_PACKAGE_SIZE c" "file_blocks c \<noteq> []"
    by (simp_all add: file_blocks_def Let_def hd_append hd_map upt_conv_Cons)
  then obtain xs where bs: "?bs = \<lparr>db_data = take LIMITED_PACKAGE_SIZE c, db_last = False, db_file = name\<rparr> # xs"
    by (cases "file_blocks c") auto
  define u where "u = ?s\<lparr>todo := [RaiseError e], resp_queue := (resp_queue ?s)\<lparr>m_queue := ?bs\<rparr>\<rparr>"
  define v where "v = write_block (hd ?bs) (u\<lparr>resp_queue := (resp_queue u)\<lparr>m_queue := xs\<rparr>\<rparr>)"
  define w where "w = v\<lparr>todo := [ShutDown], err_msg := e, err_flag := True\<rparr>"
  have s: "writer ?s = WaitBlock" "m_queue (resp_queue ?s) = []" "\<not> stop_flag (resp_queue ?s)" "\<not> err_flag ?s" "sent ?s = []"
    by (simp_all add: DownloadData_def)
  have "download_step\<^sup>*\<^sup>* ?s u" using read_some [OF td] s(2) by (simp add: u_def)
  also have "download_step u v"
    unfolding v_def by (rule download_step.block_taken) (use s in \<open>simp_all add: u_def bs queue_simps\<close>)
  also have "download_step v w"
    unfolding w_def by (rule download_step.caught) (simp add: v_def write_block_def u_def)
  also have "download_step w (w\<lparr>writer := Returned\<rparr>)"
    using download_step.tested [of w] by (simp add: w_def v_def write_block_def bs)
  finally have "download_step\<^sup>*\<^sup>* ?s (w\<lparr>writer := Returned\<rparr>)" .
  moreover have "sent (w\<lparr>writer := Returned\<rparr>) = [\<lparr>dl_code = SUCCESS, dl_info = ''SUCCESS'', dl_file = name,
      dl_data = take LIMITED_PACKAGE_SIZE c\<rparr>]"
    using s by (simp add: w_def v_def write_block_def bs u_def make_response_def)
  ultimately show ?thesis by (intro exI [of _ "w\<lparr>writer := Returned\<rparr>"]) simp
qed

theorem download_can_be_cut_witness:
  "\<exists>t. download_step\<^sup>*\<^sup>* (DownloadData (\<lambda>p. if p = ''/a'' then Content (replicate (2 ^ 22) CHR ''x'') else NoFile) [] [''/a'', ''/b'']) t
    \<and> writer t = Returned \<and> length (sent t) = 1 \<and> (\<forall>r \<in> set (sent t). dl_code r = SUCCESS)"
  using download_can_be_cut [of "[]" "''/a''" "\<lambda>p. if p = ''/a'' then Content (replicate (2 ^ 22) CHR ''x'') else NoFile"
      "replicate (2 ^ 22) CHR ''x''" "''/b''"]
  by (auto simp: CompletePath_def LIMITED_PACKAGE_SIZE_def simp del: replicate.simps)

end
