(* ===== verification/Task_Schedule.thy ===== *)
theory Task_Schedule
  imports Dataset_Meta "HOL-Library.AList" "HOL-Library.List_Lexorder" "HOL-Library.Char_ord"
begin

text \<open>
  How a submitted task is sent to the nodes that execute it: the datasets of the request are read
  (task/language), the nodes that have them are looked up (task/semantic/parser.cc), and a scheduler sends
  each party its request (task/semantic/scheduler). The nodes that are called and the meta service are
  parameters.
\<close>

section \<open>Messages\<close>

(* src/src/fediux/protos/common.proto:9-14 Language *)
datatype language = PYTHON | JAVA | CPP | PROTO

(* src/src/fediux/protos/common.proto:21-31 TaskType *)
datatype task_type = ACTOR_TASK | NODE_TASK | PIR_TASK | PSI_TASK | NODE_PIR_TASK | NODE_PSI_TASK
  | TEE_TASK | TEE_EXECUTOR_TASK | TEE_DATAPROVIDER_TASK

(* src/src/fediux/protos/common.proto:106-109 LinkType *)
datatype link_type = LINK_SERVER | LINK_CLIENT

(* src/src/fediux/protos/common.proto:111-116 EndPoint *)
record end_point =
  ep_ip :: string
  ep_port :: int
  ep_name :: string
  ep_link_type :: link_type

definition empty_end_point :: end_point where
  "empty_end_point = \<lparr>ep_ip = [], ep_port = 0, ep_name = [], ep_link_type = LINK_SERVER\<rparr>"

(* src/src/fediux/protos/common.proto:118-122 VirtualMachine *)
record virtual_machine =
  vm_party_id :: int
  vm_next :: end_point
  vm_prev :: end_point

text \<open>A node in a message has the fields of an address and two of its own.\<close>

(* src/src/fediux/protos/common.proto:124-133 Node *)
record pb_node = node +
  pn_vm :: "virtual_machine list"
  pn_party_id :: int

definition to_node :: "pb_node \<Rightarrow> node" where
  "to_node pn = pbNode2Node (node.truncate pn)"

definition set_node :: "node \<Rightarrow> pb_node \<Rightarrow> pb_node" where
  "set_node n pn = node.extend (node2PbNode n) (pb_node.fields (pn_vm pn) (pn_party_id pn))"

definition empty_pb :: pb_node where
  "empty_pb = node.extend empty_node (pb_node.fields [] 0)"

text \<open>A parameter has its own array flag.\<close>

record param =
  pm_is_array :: bool
  pm_value :: param_value

text \<open>The maps of a message are lists here, without an order that means anything.\<close>

(* src/src/fediux/protos/common.proto:176-190 Task *)
record task_config =
  tk_type :: task_type
  tk_language :: language
  tk_code :: string
  tk_params :: "string \<rightharpoonup> param"
  tk_node_map :: "(string \<times> pb_node) list"
  tk_info :: task_ctx
  tk_party_name :: string
  tk_datasets :: "(string \<times> party_data) list"
  tk_access :: "(string \<times> pb_node) list"
  tk_aux :: "string \<rightharpoonup> node"

section \<open>The environment\<close>

text \<open>
  The public address of this node; the order in which a map of a message is gone through and the order in
  which the threads of a dispatch run, both unspecified; the result of a call to a node, with the task
  servers of its reply; the meta service's search, and the JSON library.
\<close>

record sched_env =
  se_local :: node
  se_iter :: "(string \<times> pb_node) list \<Rightarrow> (string \<times> pb_node) list"
  se_threads :: "(string \<times> pb_node) list \<Rightarrow> (string \<times> pb_node) list"
  se_execute :: "node \<Rightarrow> task_config \<Rightarrow> retcode \<times> node list"
  se_submit :: "node \<Rightarrow> task_config \<Rightarrow> retcode \<times> node list"
  se_find :: "(string \<times> string) list \<Rightarrow> (retcode \<times> (dataset_meta \<times> string) list option) cpp"
  se_json :: json_lib

text \<open>What a scheduler has done: the requests it sent, the task servers it was told, and its error flag.\<close>

(* src/src/fediux/task/semantic/scheduler/scheduler.h:62-69 VMScheduler *)
record scheduler =
  sc_calls :: "(node \<times> task_config) list"
  sc_servers :: "node list"
  sc_error :: bool

definition new_scheduler :: scheduler where
  "new_scheduler = \<lparr>sc_calls = [], sc_servers = [], sc_error = False\<rparr>"

section \<open>The base scheduler\<close>

(* src/src/fediux/task/semantic/scheduler/scheduler.cc:87-95 VMScheduler::AddSchedulerNode *)
definition AddSchedulerNode :: "sched_env \<Rightarrow> task_config \<Rightarrow> task_config" where
  "AddSchedulerNode env task = task\<lparr>tk_aux := (tk_aux task)(SCHEDULER_NODE \<mapsto> node2PbNode (se_local env))\<rparr>"

(* src/src/fediux/task/semantic/scheduler/scheduler.cc:58-77 VMScheduler::parseNotifyServer *)
definition parseNotifyServer :: "node list \<Rightarrow> scheduler \<Rightarrow> scheduler" where
  "parseNotifyServer task_server sc =
     sc\<lparr>sc_servers := sc_servers sc @ map (\<lambda>n. n\<lparr>node_id := []\<rparr>) task_server\<rparr>"

text \<open>The call of one party; \<open>report\<close> says whether a failure sets the error flag.\<close>

definition send_execute :: "bool \<Rightarrow> sched_env \<Rightarrow> node \<Rightarrow> task_config \<Rightarrow> scheduler \<Rightarrow> scheduler" where
  "send_execute report env dest request sc =
     (let (ret, servers) = se_execute env dest request;
          sc1 = sc\<lparr>sc_calls := sc_calls sc @ [(dest, request)]\<rparr>
      in if ret = SUCCESS then parseNotifyServer servers sc1
         else if report then sc1\<lparr>sc_error := True\<rparr> else sc1)"

(* src/src/fediux/task/semantic/scheduler/scheduler.cc:108-137 VMScheduler::ScheduleTask *)
definition ScheduleTask :: "sched_env \<Rightarrow> task_config \<Rightarrow> string \<Rightarrow> node \<Rightarrow> scheduler \<Rightarrow> scheduler" where
  "ScheduleTask env request party_name dest sc =
     send_execute True env dest (AddSchedulerNode env (request\<lparr>tk_party_name := party_name\<rparr>)) sc"

text \<open>One thread per party, and the wait for all of them.\<close>

definition run_threads ::
  "(string \<Rightarrow> node \<Rightarrow> scheduler \<Rightarrow> scheduler) \<Rightarrow> sched_env \<Rightarrow> (string \<times> pb_node) list \<Rightarrow> scheduler \<Rightarrow> scheduler" where
  "run_threads thread env parties sc =
     fold (\<lambda>(party_name, pn). thread party_name (to_node pn)) (se_threads env parties) sc"

definition finish :: "scheduler \<Rightarrow> retcode cpp \<times> scheduler" where
  "finish sc = (Ret (if sc_error sc then FAIL else SUCCESS), sc)"

(* src/src/fediux/task/semantic/scheduler/scheduler.cc:15-56 VMScheduler::dispatch *)
definition VM_dispatch :: "sched_env \<Rightarrow> task_config \<Rightarrow> scheduler \<Rightarrow> retcode cpp \<times> scheduler" where
  "VM_dispatch env task sc = finish (run_threads (ScheduleTask env task) env (tk_access task) sc)"

section \<open>Federated learning\<close>

(* src/src/fediux/task/semantic/scheduler/fl_scheduler.cc:26-54 FLScheduler::ScheduleTask *)
definition FL_ScheduleTask :: "sched_env \<Rightarrow> task_config \<Rightarrow> string \<Rightarrow> node \<Rightarrow> scheduler \<Rightarrow> scheduler" where
  "FL_ScheduleTask env request party_name dest sc =
     send_execute False env dest (AddSchedulerNode env (request\<lparr>tk_party_name := party_name\<rparr>)) sc"

(* src/src/fediux/task/semantic/scheduler/fl_scheduler.cc:60-95 FLScheduler::dispatch *)
definition FL_dispatch :: "sched_env \<Rightarrow> task_config \<Rightarrow> scheduler \<Rightarrow> retcode cpp \<times> scheduler" where
  "FL_dispatch env task sc = finish (run_threads (FL_ScheduleTask env task) env (tk_access task) sc)"

section \<open>Private information retrieval\<close>

definition cleared_param :: param where
  "cleared_param = \<lparr>pm_is_array = False, pm_value = PvNotSet\<rparr>"

(* src/src/fediux/task/semantic/scheduler/pir_scheduler.cc:30-37 PIRScheduler::ScheduleTask *)
definition without_client_data :: "string \<Rightarrow> task_config \<Rightarrow> task_config" where
  "without_client_data party_name task =
     (if party_name = PARTY_SERVER then
        (case tk_params task ''clientData'' of
           Some _ \<Rightarrow> task\<lparr>tk_params := (tk_params task)(''clientData'' \<mapsto> cleared_param)\<rparr>
         | None \<Rightarrow> task)
      else task)"

(* src/src/fediux/task/semantic/scheduler/pir_scheduler.cc:19-56 PIRScheduler::ScheduleTask *)
definition PIR_ScheduleTask :: "sched_env \<Rightarrow> task_config \<Rightarrow> string \<Rightarrow> node \<Rightarrow> scheduler \<Rightarrow> scheduler" where
  "PIR_ScheduleTask env request party_name dest sc =
     send_execute True env dest
       (AddSchedulerNode env (without_client_data party_name (request\<lparr>tk_party_name := party_name\<rparr>))) sc"

text \<open>A query with its own data instead of a dataset is this node's: it becomes the client.\<close>

(* src/src/fediux/task/semantic/scheduler/pir_scheduler.cc:64-76 PIRScheduler::dispatch *)
definition add_client :: "sched_env \<Rightarrow> task_config \<Rightarrow> task_config" where
  "add_client env task =
     (case tk_params task ''clientData'' of
        Some pv \<Rightarrow>
          if pm_is_array pv then
            (let old = (case map_of (tk_access task) PARTY_CLIENT of Some pn \<Rightarrow> pn | None \<Rightarrow> empty_pb)
             in task\<lparr>tk_access := AList.update PARTY_CLIENT (set_node (se_local env) old) (tk_access task)\<rparr>)
          else task
      | None \<Rightarrow> task)"

definition addresses :: "(string \<times> pb_node) list \<Rightarrow> string set" where
  "addresses parties = set (map (\<lambda>(_, pn). node_to_string (to_node pn)) parties)"

(* src/src/fediux/task/semantic/scheduler/pir_scheduler.cc:58-129 PIRScheduler::dispatch *)
definition PIR_dispatch :: "sched_env \<Rightarrow> task_config \<Rightarrow> scheduler \<Rightarrow> retcode cpp \<times> scheduler" where
  "PIR_dispatch env task sc =
     (let push_request = add_client env task
      in if tk_params task ''DbInfo'' = None \<and> card (addresses (tk_access push_request)) < 2 then
           (Throw (''PIR task need 2 party to participate for this task.but get '' @
              dec_string (card (addresses (tk_access push_request)))), sc)
         else finish (run_threads (PIR_ScheduleTask env push_request) env (tk_access push_request) sc))"

section \<open>ABY3\<close>

definition int_string :: "int \<Rightarrow> string" where
  "int_string i = (if i < 0 then CHR ''-'' # dec_string (nat (- i)) else dec_string (nat i))"

text \<open>
  The remainder of the language has the sign of the dividend; a negative index is a read outside the
  vector of nodes.
\<close>

definition c_rem3 :: "int \<Rightarrow> int" where
  "c_rem3 i = (if i < 0 then - ((- i) mod 3) else i mod 3)"

definition node_at :: "pb_node list \<Rightarrow> int \<Rightarrow> pb_node cpp" where
  "node_at nodes i = (if i < 0 then Undef else nth_cpp nodes (nat i))"

definition session_basePort :: int where "session_basePort = 12120"

definition aby3_end_point :: "task_config \<Rightarrow> int \<Rightarrow> int \<Rightarrow> string \<Rightarrow> end_point" where
  "aby3_end_point task party_id other ip =
     \<lparr>ep_ip = ip, ep_port = min party_id other + session_basePort,
      ep_name = job_id (tk_info task) @ ''_'' @ task_id (tk_info task) @ ''_'' @
        int_string (min party_id other) @ int_string (max party_id other),
      ep_link_type = (if party_id < other then LINK_SERVER else LINK_CLIENT)\<rparr>"

(* src/src/fediux/task/semantic/scheduler/aby3_scheduler.cc:50-84 ABY3Scheduler::add_vm *)
definition aby3_add_vm :: "int \<Rightarrow> task_config \<Rightarrow> pb_node list \<Rightarrow> pb_node \<Rightarrow> pb_node cpp" where
  "aby3_add_vm party_id task party_nodes pn =
     (let nxt = c_rem3 (party_id + 1); prev = c_rem3 (party_id + 2)
      in cbind (node_at party_nodes nxt) (\<lambda>next_node. cbind (node_at party_nodes prev) (\<lambda>prev_node.
           Ret (pn\<lparr>pn_vm := pn_vm pn @ [\<lparr>vm_party_id = party_id,
             vm_next = aby3_end_point task party_id nxt (node_ip next_node),
             vm_prev = aby3_end_point task party_id prev (node_ip prev_node)\<rparr>]\<rparr>))))"

(* src/src/fediux/task/semantic/scheduler/aby3_scheduler.cc:120-124 ABY3Scheduler::dispatch *)
fun add_vms :: "task_config \<Rightarrow> pb_node list \<Rightarrow> (string \<times> pb_node) list \<Rightarrow> (string \<times> pb_node) list cpp" where
  "add_vms task party_nodes [] = Ret []"
| "add_vms task party_nodes ((name, pn) # parties) =
     cbind (aby3_add_vm (pn_party_id pn) task party_nodes pn) (\<lambda>pn'.
     cbind (add_vms task party_nodes parties) (\<lambda>rest. Ret ((name, pn') # rest)))"

(* src/src/fediux/task/semantic/scheduler/aby3_scheduler.cc:91-162 ABY3Scheduler::dispatch *)
definition ABY3_dispatch :: "sched_env \<Rightarrow> task_config \<Rightarrow> scheduler \<Rightarrow> retcode cpp \<times> scheduler" where
  "ABY3_dispatch env task sc =
     (let parties = se_iter env (tk_access task);
          prepared = (if tk_type task = ACTOR_TASK then
            (if card (addresses parties) \<noteq> 3 then
               Throw (''ABY3 protocol need 3 party, but get '' @ dec_string (card (addresses parties)))
             else if card (set (map fst parties)) \<noteq> 3 then
               Throw ''ABY3 protocol: different party set same name''
             else cbind (add_vms task (map snd parties) parties) (\<lambda>access. Ret (task\<lparr>tk_access := access\<rparr>)))
            else Ret task)
      in case prepared of
           Ret send_request \<Rightarrow>
             finish (run_threads (ScheduleTask env send_request) env (tk_access send_request) sc)
         | Throw e \<Rightarrow> (Throw e, sc)
         | Undef \<Rightarrow> (Undef, sc))"

section \<open>Schedulers over a list of peers\<close>

text \<open>
  The state these schedulers are constructed with. The factory uses the default constructor, which leaves
  it empty and zero.
\<close>

(* src/src/fediux/task/semantic/scheduler/mpc_scheduler.h:36-43 MPCScheduler *)
record peers =
  peer_list :: "pb_node list"
  peer_datasets :: "string \<rightharpoonup> (string \<times> string) list"
  party_num :: nat

definition no_peers :: peers where
  "no_peers = \<lparr>peer_list = [], peer_datasets = Map.empty, party_num = 0\<rparr>"

(* src/src/fediux/task/semantic/scheduler/mpc_scheduler.cc:30-37 MPCScheduler::push_task *)
definition add_dataset_params :: "(string \<times> string) list \<Rightarrow> task_config \<Rightarrow> task_config" where
  "add_dataset_params datasets task = task\<lparr>tk_params := fold (\<lambda>(dataset, tag) m.
     m(tag \<mapsto> \<lparr>pm_is_array = False, pm_value = PvString dataset\<rparr>)) datasets (tk_params task)\<rparr>"

(* src/src/fediux/task/semantic/scheduler/mpc_scheduler.cc:13-50 MPCScheduler::push_task *)
definition MPC_push_task :: "sched_env \<Rightarrow> peers \<Rightarrow> task_config \<Rightarrow> string \<Rightarrow> node \<Rightarrow> scheduler \<Rightarrow> scheduler" where
  "MPC_push_task env ps request key dest sc =
     (case peer_datasets ps key of
        None \<Rightarrow> sc
      | Some datasets \<Rightarrow>
          (let push_request = AddSchedulerNode env (add_dataset_params datasets request);
               (ret, servers) = se_submit env dest push_request
           in parseNotifyServer servers (sc\<lparr>sc_calls := sc_calls sc @ [(dest, push_request)]\<rparr>)))"

text \<open>
  The requests of the parties found so far already run in threads when a later one is missing; their
  destruction ends the program.
\<close>

(* src/src/fediux/task/semantic/scheduler/mpc_scheduler.cc:52-106 MPCScheduler::dispatch *)
definition MPC_dispatch ::
  "(pb_node list \<Rightarrow> nat \<Rightarrow> pb_node \<Rightarrow> pb_node) \<Rightarrow> sched_env \<Rightarrow> peers \<Rightarrow> task_config \<Rightarrow> scheduler \<Rightarrow> retcode cpp \<times> scheduler" where
  "MPC_dispatch add_vm env ps task sc =
     (let actor = (tk_type task = ACTOR_TASK); n = party_num ps
      in if actor \<and> length (peer_list ps) \<noteq> n then (Ret FAIL, sc)
         else
           (let request = (if actor then
                  task\<lparr>tk_type := NODE_TASK, tk_node_map := fold (\<lambda>i m.
                    let pn = add_vm (peer_list ps) i (peer_list ps ! i) in AList.update (node_id pn) pn m)
                    [0..<n] (tk_node_map task)\<rparr>
                else task);
                found = map (\<lambda>i. let key = ''node'' @ dec_string i
                  in map_option (\<lambda>pn. (key, pn)) (map_of (tk_node_map request) key)) [0..<n]
            in case those found of
                 Some parties \<Rightarrow> finish (run_threads (MPC_push_task env ps request) env parties sc)
               | None \<Rightarrow> if hd found = None then (Ret FAIL, sc) else (Throw ''terminate'', sc)))"

definition port_at :: "string \<Rightarrow> int \<Rightarrow> link_type \<Rightarrow> string \<Rightarrow> end_point" where
  "port_at ip port ty name = \<lparr>ep_ip = ip, ep_port = port, ep_name = name, ep_link_type = ty\<rparr>"

(* src/src/fediux/task/semantic/scheduler/mpc_scheduler.cc:108-127 CRYPTFLOW2Scheduler::add_vm *)
definition cryptflow2_add_vm :: "pb_node list \<Rightarrow> nat \<Rightarrow> pb_node \<Rightarrow> pb_node" where
  "cryptflow2_add_vm ps i pn = pn\<lparr>pn_vm := pn_vm pn @ [\<lparr>vm_party_id = int i, vm_next =
     (if i = 0 then port_at (node_ip (ps ! i)) 30020 LINK_SERVER ''CRYPTFLOW2_Server''
      else port_at (node_ip (ps ! (i - 1))) 30020 LINK_CLIENT ''CRYPTFLOW2_Client''),
     vm_prev = empty_end_point\<rparr>]\<rparr>"

(* src/src/fediux/task/semantic/scheduler/mpc_scheduler.cc:129-212 FalconScheduler::add_vm *)
definition falcon_add_vm :: "pb_node list \<Rightarrow> nat \<Rightarrow> pb_node \<Rightarrow> pb_node" where
  "falcon_add_vm ps i pn =
     (let ip = (\<lambda>k. node_ip (ps ! k));
          vm = (\<lambda>a b. \<lparr>vm_party_id = int i, vm_next = a, vm_prev = b\<rparr>)
      in pn\<lparr>pn_vm := pn_vm pn @
        (if i = 0 then
           [vm (port_at (ip i) 32003 LINK_SERVER ''Falcon_server_0'') (port_at (ip i) 32006 LINK_SERVER ''Falcon_server_1''),
            vm (port_at (ip 1) 32001 LINK_CLIENT ''Falcon_client_0'') (port_at (ip 2) 32002 LINK_CLIENT ''Falcon_client_1'')]
         else if i = 1 then
           [vm (port_at (ip i) 32001 LINK_SERVER ''Falcon_server_2'') (port_at (ip i) 32007 LINK_SERVER ''Falcon_server_3''),
            vm (port_at (ip 0) 32003 LINK_CLIENT ''Falcon_client_2'') (port_at (ip 2) 32005 LINK_CLIENT ''Falcon_client_3'')]
         else
           [vm (port_at (ip i) 32002 LINK_SERVER ''Falcon_server_4'') (port_at (ip i) 32005 LINK_SERVER ''Falcon_server_5''),
            vm (port_at (ip 0) 32006 LINK_CLIENT ''Falcon_client_4'') (port_at (ip 1) 32007 LINK_CLIENT ''Falcon_client_4'')])\<rparr>)"

(* src/src/fediux/task/semantic/scheduler/tee_scheduler.cc:98-134 TEEScheduler::push_task_to_node *)
definition TEE_push_task :: "sched_env \<Rightarrow> peers \<Rightarrow> task_config \<Rightarrow> string \<Rightarrow> node \<Rightarrow> scheduler \<Rightarrow> scheduler" where
  "TEE_push_task env ps request key dest sc =
     (case peer_datasets ps key of
        None \<Rightarrow> sc
      | Some datasets \<Rightarrow> sc\<lparr>sc_calls := sc_calls sc @
          [(dest, AddSchedulerNode env (add_dataset_params datasets request))]\<rparr>)"

text \<open>
  The end points that are added to the nodes here are added to copies that are not sent. The end of the
  function is reached without a return value.
\<close>

(* src/src/fediux/task/semantic/scheduler/tee_scheduler.cc:16-68 TEEScheduler::dispatch *)
definition TEE_dispatch :: "sched_env \<Rightarrow> peers \<Rightarrow> task_config \<Rightarrow> scheduler \<Rightarrow> retcode cpp \<times> scheduler" where
  "TEE_dispatch env ps task sc =
     (let tee = (tk_type task = TEE_TASK);
          executor = (case peer_list ps of pn # _ \<Rightarrow> if tee then node_id pn else [] | [] \<Rightarrow> []);
          request = (if tee then
             task\<lparr>tk_type := TEE_DATAPROVIDER_TASK, tk_node_map :=
               fold (\<lambda>pn m. AList.update (node_id pn) pn m) (peer_list ps) (tk_node_map task)\<rparr>
           else task);
          providers = filter (\<lambda>(_, pn). node_id pn \<noteq> executor) (se_iter env (tk_node_map request))
      in (Undef, fold (\<lambda>(key, pn). TEE_push_task env ps request key (to_node pn)) providers sc))"

section \<open>The choice of a scheduler\<close>

(* src/src/fediux/task/semantic/scheduler/factory.h:59-70 SchedulerFactory::CreateMPCScheduler *)
definition MPC_scheduler :: "sched_env \<Rightarrow> task_config \<Rightarrow> scheduler \<Rightarrow> retcode cpp \<times> scheduler" where
  "MPC_scheduler env task =
     (if tk_code task = ''maxpool'' then MPC_dispatch cryptflow2_add_vm env no_peers task
      else if tk_code task = ''lenet'' then MPC_dispatch falcon_add_vm env no_peers task
      else ABY3_dispatch env task)"

(* src/src/fediux/task/semantic/scheduler/factory.h:15-57 SchedulerFactory::CreateScheduler *)
definition CreateScheduler :: "sched_env \<Rightarrow> task_config \<Rightarrow> (scheduler \<Rightarrow> retcode cpp \<times> scheduler) option" where
  "CreateScheduler env task =
     (case tk_language task of
        PYTHON \<Rightarrow> Some (FL_dispatch env task)
      | PROTO \<Rightarrow> (case tk_type task of
            ACTOR_TASK \<Rightarrow> Some (MPC_scheduler env task)
          | PSI_TASK \<Rightarrow> Some (VM_dispatch env task)
          | PIR_TASK \<Rightarrow> Some (PIR_dispatch env task)
          | TEE_TASK \<Rightarrow> Some (TEE_dispatch env no_peers task)
          | _ \<Rightarrow> None)
      | _ \<Rightarrow> None)"

section \<open>The datasets of a request\<close>

(* src/src/fediux/task/language/proto_parser.cc:20-38 ProtoParser::parseDatasets *)
definition Proto_parseDatasets :: "task_config \<Rightarrow> (string \<times> string) list" where
  "Proto_parseDatasets task = concat (map (\<lambda>(party_name, dataset_map).
     concat (map (\<lambda>(_, datasetid). if datasetid = [] then [] else [(datasetid, party_name)]) (pd_data dataset_map)))
     (tk_datasets task))"

text \<open>Python tasks drop a repetition, by the name of the party with the dataset's behind it.\<close>

(* src/src/fediux/task/language/py_parser.cc:22-39 PyParser::parseDatasets *)
fun drop_repeated :: "string set \<Rightarrow> (string \<times> string) list \<Rightarrow> (string \<times> string) list" where
  "drop_repeated dup_filter [] = []"
| "drop_repeated dup_filter ((dataset_id, party_name) # ds) =
     (let uniq_id = party_name @ dataset_id
      in if uniq_id \<in> dup_filter then drop_repeated dup_filter ds
         else (dataset_id, party_name) # drop_repeated (insert uniq_id dup_filter) ds)"

(* src/src/fediux/task/language/py_parser.cc:13-41 PyParser::parseDatasets *)
definition Py_parseDatasets :: "task_config \<Rightarrow> (string \<times> string) list" where
  "Py_parseDatasets task = drop_repeated {} (Proto_parseDatasets task)"

section \<open>The nodes of the parties\<close>

(* src/src/fediux/task/semantic/parser.cc:235-253 ProtocolSemanticParser::metasToPartyAccessInfo *)
fun metasToPartyAccessInfo :: "(dataset_meta \<times> string) list \<Rightarrow> (string \<times> node) list \<Rightarrow> (string \<times> node) list cpp" where
  "metasToPartyAccessInfo [] party_access_info = Ret party_access_info"
| "metasToPartyAccessInfo ((m, party_name) # metas) party_access_info =
     cbind (node_fromString (server_meta m) empty_node) (\<lambda>access_info.
       metasToPartyAccessInfo metas (AList.update party_name access_info party_access_info))"

text \<open>Every party keeps its first node, and gets the number of its name in the order of names.\<close>

definition add_absent :: "string \<times> 'b \<Rightarrow> (string \<times> 'b) list \<Rightarrow> (string \<times> 'b) list" where
  "add_absent kv m = (if fst kv \<in> fst ` set m then m else m @ [kv])"

(* src/src/fediux/task/language/parser.cc:8-39 LanguageParser::MergePartyAccessInfo *)
definition MergePartyAccessInfo :: "(string \<times> node) list \<Rightarrow> task_config \<Rightarrow> task_config" where
  "MergePartyAccessInfo party_access_info task =
     (let old = map (\<lambda>(name, pn). (name, to_node pn)) (tk_access task);
          filtered_party = fold add_absent party_access_info old
      in task\<lparr>tk_access := map (\<lambda>(party_id, name, n). (name, (set_node n empty_pb)\<lparr>pn_party_id := int party_id\<rparr>))
           (enumerate 0 (sort_key fst filtered_party))\<rparr>)"

definition param_string :: "param \<Rightarrow> string" where
  "param_string pv = (case pm_value pv of PvString s \<Rightarrow> s | _ \<Rightarrow> [])"

definition jbool :: "json \<Rightarrow> bool cpp" where
  "jbool j = (case j of JBool b \<Rightarrow> Ret b | _ \<Rightarrow> Throw ''type_error'')"

(* src/src/fediux/task/semantic/parser.cc:78-106 ProtocolSemanticParser::ProcessAuxiliaryServer *)
definition auxiliary_node :: "sched_env \<Rightarrow> json \<Rightarrow> node cpp" where
  "auxiliary_node env js_info =
     cbind (cbind (jfield js_info ''is_dataset'') jbool) (\<lambda>is_dataset.
       if is_dataset then
         cbind (cbind (jfield js_info ''dataset_id'') jstring) (\<lambda>dataset_id.
         cbind (se_find env [(dataset_id, ''default'')]) (\<lambda>(_, metas).
           case metas of
             Some [(m, _)] \<Rightarrow> cbind (node_fromString (server_meta m) empty_node) (\<lambda>n. Ret (node2PbNode n))
           | _ \<Rightarrow> Ret empty_node))
       else
         cbind (cbind (jfield js_info ''ip'') jstring) (\<lambda>ip.
         cbind (cbind (jfield js_info ''port'') jint) (\<lambda>port.
         cbind (cbind (jfield js_info ''use_tls'') jbool) (\<lambda>use_tls.
           Ret (empty_node\<lparr>node_ip := ip, node_port := nat (port mod 2 ^ 32), node_use_tls := use_tls\<rparr>)))))"

(* src/src/fediux/task/semantic/parser.cc:63-111 ProtocolSemanticParser::ProcessAuxiliaryServer *)
definition ProcessAuxiliaryServer :: "sched_env \<Rightarrow> task_config \<Rightarrow> task_config cpp" where
  "ProcessAuxiliaryServer env task =
     (case tk_params task ''auxiliary_server'' of
        None \<Rightarrow> Ret task
      | Some pv \<Rightarrow> (case js_parse (se_json env) (param_string pv) of
            None \<Rightarrow> Throw ''parse_error''
          | Some js_info \<Rightarrow> cbind (auxiliary_node env js_info)
              (\<lambda>n. Ret (task\<lparr>tk_aux := (tk_aux task)(AUX_COMPUTE_NODE \<mapsto> n)\<rparr>))))"

(* src/src/fediux/task/semantic/parser.cc:113-144 ProtocolSemanticParser::ParseDatasetToPartyAccessInfo *)
definition ParseDatasetToPartyAccessInfo :: "sched_env \<Rightarrow> (string \<times> string) list \<Rightarrow> task_config \<Rightarrow> task_config cpp" where
  "ParseDatasetToPartyAccessInfo env datasets_with_tag task =
     (if tk_access task \<noteq> [] then Ret task
      else cbind (se_find env datasets_with_tag) (\<lambda>(_, metas).
        cbind (case metas of None \<Rightarrow> Ret task | Some ms \<Rightarrow>
            cbind (metasToPartyAccessInfo ms []) (\<lambda>info. Ret (MergePartyAccessInfo info task)))
          (ProcessAuxiliaryServer env)))"

text \<open>The two languages are scheduled by the same steps.\<close>

(* src/src/fediux/task/semantic/parser.cc:146-190 ProtocolSemanticParser::scheduleProtoTask *)
definition scheduleTask :: "sched_env \<Rightarrow> (string \<times> string) list \<Rightarrow> task_config \<Rightarrow> retcode cpp \<times> scheduler" where
  "scheduleTask env datasets task =
     (case ParseDatasetToPartyAccessInfo env datasets task of
        Throw e \<Rightarrow> (Throw e, new_scheduler)
      | Undef \<Rightarrow> (Undef, new_scheduler)
      | Ret task_config \<Rightarrow>
          if tk_access task_config = [] then (Ret FAIL, new_scheduler)
          else (case CreateScheduler env task_config of
              None \<Rightarrow> (Ret FAIL, new_scheduler)
            | Some dispatch \<Rightarrow> dispatch new_scheduler))"

text \<open>
  \<open>None\<close>: there is no parser for the language. Otherwise the datasets are parsed and the task is
  scheduled.
\<close>

(* src/src/fediux/task/language/factory.h:23-41 LanguageParserFactory::Create *)
definition parse_datasets :: "task_config \<Rightarrow> (string \<times> string) list option" where
  "parse_datasets task = (case tk_language task of
     PROTO \<Rightarrow> Some (Proto_parseDatasets task) | PYTHON \<Rightarrow> Some (Py_parseDatasets task) | _ \<Rightarrow> None)"

(* src/src/fediux/task/semantic/parser.cc:26-57 ProtocolSemanticParser::parseTaskSyntaxTree *)
definition parseTaskSyntaxTree :: "sched_env \<Rightarrow> task_config \<Rightarrow> (retcode cpp \<times> scheduler) option" where
  "parseTaskSyntaxTree env task =
     map_option (\<lambda>datasets. scheduleTask env datasets task) (parse_datasets task)"

end
