(* ===== verification/Dispatch_Correct.thy ===== *)
theory Dispatch_Correct
  imports Task_Schedule Dataset_Correct "HOL-Library.Multiset"
begin

text \<open>
  What a dispatch does: which nodes get which requests, when it reports success, what a server learns of a
  query, and whether the end points that the parties are given fit together.
\<close>

section \<open>The calls of a dispatch\<close>

text \<open>The orders in which maps are gone through and threads run are orders of the same elements.\<close>

definition shuffles :: "sched_env \<Rightarrow> bool" where
  "shuffles env \<longleftrightarrow> (\<forall>xs. mset (se_iter env xs) = mset xs \<and> mset (se_threads env xs) = mset xs)"

lemma shuffles_set: "shuffles env \<Longrightarrow> set (se_iter env xs) = set xs \<and> set (se_threads env xs) = set xs"
  by (metis set_mset_mset shuffles_def)

lemma shuffles_Nil: "shuffles env \<Longrightarrow> se_iter env [] = [] \<and> se_threads env [] = []"
  by (metis mset_zero_iff mset.simps(1) shuffles_def)

definition call_of :: "(string \<Rightarrow> task_config) \<Rightarrow> string \<times> pb_node \<Rightarrow> node \<times> task_config" where
  "call_of req p = (to_node (snd p), req (fst p))"

definition replies :: "sched_env \<Rightarrow> node \<times> task_config \<Rightarrow> node list" where
  "replies env c = (case se_execute env (fst c) (snd c) of
     (ret, servers) \<Rightarrow> if ret = SUCCESS then map (\<lambda>n. n\<lparr>node_id := []\<rparr>) servers else [])"

definition succeeds :: "sched_env \<Rightarrow> node \<times> task_config \<Rightarrow> bool" where
  "succeeds env c \<longleftrightarrow> fst (se_execute env (fst c) (snd c)) = SUCCESS"

lemma one_call:
  "send_execute report env (to_node (snd p)) (req (fst p)) sc =
     \<lparr>sc_calls = sc_calls sc @ [call_of req p], sc_servers = sc_servers sc @ replies env (call_of req p),
      sc_error = (sc_error sc \<or> report \<and> \<not> succeeds env (call_of req p))\<rparr>"
  by (cases sc) (auto simp: send_execute_def call_of_def replies_def succeeds_def parseNotifyServer_def Let_def
      split: prod.splits)

lemma fold_calls:
  "fold (\<lambda>p. send_execute report env (to_node (snd p)) (req (fst p))) ps sc =
     \<lparr>sc_calls = sc_calls sc @ map (call_of req) ps,
      sc_servers = sc_servers sc @ concat (map (replies env \<circ> call_of req) ps),
      sc_error = (sc_error sc \<or> report \<and> (\<exists>p \<in> set ps. \<not> succeeds env (call_of req p)))\<rparr>"
  by (induction ps arbitrary: sc) (auto simp: one_call)

lemma run_calls:
  "run_threads (\<lambda>name dest. send_execute report env dest (req name)) env ps new_scheduler =
     \<lparr>sc_calls = map (call_of req) (se_threads env ps),
      sc_servers = concat (map (replies env \<circ> call_of req) (se_threads env ps)),
      sc_error = (report \<and> (\<exists>p \<in> set (se_threads env ps). \<not> succeeds env (call_of req p)))\<rparr>"
  using fold_calls [of report env req "se_threads env ps" new_scheduler]
  by (simp add: run_threads_def new_scheduler_def case_prod_unfold)

definition party_request :: "sched_env \<Rightarrow> task_config \<Rightarrow> string \<Rightarrow> task_config" where
  "party_request env task name = AddSchedulerNode env (task\<lparr>tk_party_name := name\<rparr>)"

lemma VM_dispatch_calls:
  "VM_dispatch env task new_scheduler =
     (let ps = se_threads env (tk_access task); calls = map (call_of (party_request env task)) ps
      in (Ret (if \<forall>c \<in> set calls. succeeds env c then SUCCESS else FAIL),
          \<lparr>sc_calls = calls, sc_servers = concat (map (replies env) calls),
           sc_error = (\<exists>c \<in> set calls. \<not> succeeds env c)\<rparr>))"
proof -
  have "ScheduleTask env task = (\<lambda>name dest. send_execute True env dest (party_request env task name))"
    by (simp add: fun_eq_iff ScheduleTask_def party_request_def)
  then show ?thesis
    by (simp add: VM_dispatch_def finish_def run_calls o_def Let_def)
qed

lemma FL_dispatch_calls:
  "FL_dispatch env task new_scheduler =
     (let calls = map (call_of (party_request env task)) (se_threads env (tk_access task))
      in (Ret SUCCESS, \<lparr>sc_calls = calls, sc_servers = concat (map (replies env) calls), sc_error = False\<rparr>))"
proof -
  have "FL_ScheduleTask env task = (\<lambda>name dest. send_execute False env dest (party_request env task name))"
    by (simp add: fun_eq_iff FL_ScheduleTask_def party_request_def)
  then show ?thesis
    by (simp add: FL_dispatch_def finish_def run_calls o_def Let_def)
qed

text \<open>An environment in which threads run in the opposite order, and a meta service that knows every dataset.\<close>

definition demo_owner :: "string \<Rightarrow> node" where
  "demo_owner p = \<lparr>node_id = p, node_ip = ''10.0.0.1'', node_port = 50050, node_use_tls = False, node_role = ''0''\<rparr>"

definition demo_info :: "(string \<Rightarrow> string) \<Rightarrow> string \<Rightarrow> meta_info" where
  "demo_info owner_of i = \<lparr>mi_id = i, mi_driver = ''CSV'', mi_access_info = [], mi_address = node_to_string (demo_owner (owner_of i)),
     mi_visibility = V_PUBLIC, mi_data_type = []\<rparr>"

definition demo_stub :: "(string \<Rightarrow> string) \<Rightarrow> string list \<Rightarrow> nat \<Rightarrow> get_reply option" where
  "demo_stub owner_of ids k = Some (SUCCESS, map (\<lambda>i. (True, demo_info owner_of i)) ids)"

definition demo_env :: "retcode \<Rightarrow> (string \<Rightarrow> string) \<Rightarrow> sched_env" where
  "demo_env ret owner_of = \<lparr>se_local = demo_owner ''n0'', se_iter = id, se_threads = rev,
     se_execute = \<lambda>dest request. (ret, [dest]), se_submit = \<lambda>dest request. (ret, [dest]),
     se_find = FindPeerListFromDatasets (demo_stub owner_of), se_json = demo_json\<rparr>"

definition demo_task :: "(string \<times> party_data) list \<Rightarrow> (string \<times> pb_node) list \<Rightarrow> task_config" where
  "demo_task datasets access_info = \<lparr>tk_type = PSI_TASK, tk_language = PROTO, tk_code = [], tk_params = Map.empty,
     tk_node_map = [], tk_info = \<lparr>job_id = ''j'', task_id = ''t'', sub_task_id = [], tc_request_id = ''r''\<rparr>,
     tk_party_name = [], tk_datasets = datasets, tk_access = access_info, tk_aux = Map.empty\<rparr>"

lemma demo_env_sel [simp]:
  "shuffles (demo_env ret owner_of)" "se_execute (demo_env ret owner_of) dest request = (ret, [dest])"
  "se_find (demo_env ret owner_of) = FindPeerListFromDatasets (demo_stub owner_of)"
  "se_local (demo_env ret owner_of) = demo_owner ''n0''"
  by (simp_all add: shuffles_def demo_env_def)

lemma demo_described: "described (demo_info owner_of) (demo_stub owner_of) ids"
  by (simp add: described_def demo_stub_def meta_retry.simps [of _ 0] demo_info_def)

text \<open>
  When every call to a party's node fails, the dispatch of a Python task reports success, though it
  has no task server; that of any other task reports failure.
\<close>

theorem python_dispatch_hides_failures:
  assumes "shuffles env" "\<forall>dest request. fst (se_execute env dest request) = FAIL" "tk_access task \<noteq> []"
  shows "fst (FL_dispatch env task new_scheduler) = Ret SUCCESS
    \<and> sc_servers (snd (FL_dispatch env task new_scheduler)) = []
    \<and> fst (VM_dispatch env task new_scheduler) = Ret FAIL"
proof -
  have "se_threads env (tk_access task) \<noteq> []" using assms(1,3) by (metis mset_zero_iff shuffles_def)
  then obtain p ps where "se_threads env (tk_access task) = p # ps" by (cases "se_threads env (tk_access task)") auto
  moreover have "\<not> succeeds env c" "replies env c = []" for c
    using assms(2) [rule_format, of "fst c" "snd c"]
    by (auto simp: succeeds_def replies_def split: prod.splits)
  ultimately show ?thesis
    by (simp add: FL_dispatch_calls VM_dispatch_calls Let_def split_paired_Ex [symmetric] del: split_paired_Ex)
qed

theorem python_dispatch_hides_failures_witness:
  "fst (FL_dispatch (demo_env FAIL id) (demo_task [] [(''A'', empty_pb)]) new_scheduler) = Ret SUCCESS
    \<and> fst (VM_dispatch (demo_env FAIL id) (demo_task [] [(''A'', empty_pb)]) new_scheduler) = Ret FAIL"
  using python_dispatch_hides_failures [of "demo_env FAIL id" "demo_task [] [(''A'', empty_pb)]"]
  by (simp add: demo_task_def)

text \<open>The factory constructs two of the schedulers without their peers.\<close>

text \<open>
  A task for one of the two neural-network libraries is dispatched with success, but no request is
  sent and there is no task server.
\<close>

theorem network_tasks_are_not_sent:
  assumes "shuffles env" "tk_code task \<in> {''maxpool'', ''lenet''}" "tk_type task = ACTOR_TASK" "tk_language task = PROTO"
  shows "map_option (\<lambda>dispatch. dispatch new_scheduler) (CreateScheduler env task) = Some (Ret SUCCESS, new_scheduler)"
  using assms shuffles_Nil [OF assms(1)]
  by (auto simp: CreateScheduler_def MPC_scheduler_def MPC_dispatch_def no_peers_def run_threads_def finish_def
      new_scheduler_def)

theorem network_tasks_are_not_sent_witness:
  "map_option (\<lambda>dispatch. dispatch new_scheduler)
     (CreateScheduler (demo_env SUCCESS id) ((demo_task [] [(''A'', empty_pb)])\<lparr>tk_type := ACTOR_TASK, tk_code := ''maxpool''\<rparr>))
   = Some (Ret SUCCESS, new_scheduler)"
  by (rule network_tasks_are_not_sent) (simp_all add: demo_task_def)

section \<open>What a server learns\<close>

definition with_query :: "param_value \<Rightarrow> task_config \<Rightarrow> task_config" where
  "with_query x task = task\<lparr>tk_params := (tk_params task)(''clientData'' \<mapsto> \<lparr>pm_is_array = True, pm_value = x\<rparr>)\<rparr>"

definition calls_to :: "string \<Rightarrow> scheduler \<Rightarrow> (node \<times> task_config) list" where
  "calls_to name sc = filter (\<lambda>(_, q). tk_party_name q = name) (sc_calls sc)"

definition query_request :: "sched_env \<Rightarrow> task_config \<Rightarrow> string \<Rightarrow> task_config" where
  "query_request env task name = AddSchedulerNode env (without_client_data name (task\<lparr>tk_party_name := name\<rparr>))"

lemma PIR_calls:
  "sc_calls (snd (PIR_dispatch env task new_scheduler)) =
     (let t = add_client env task
      in if tk_params task ''DbInfo'' = None \<and> card (addresses (tk_access t)) < 2 then []
         else map (call_of (query_request env t)) (se_threads env (tk_access t)))"
proof -
  have "PIR_ScheduleTask env t = (\<lambda>name dest. send_execute True env dest (query_request env t name))" for t
    by (simp add: fun_eq_iff PIR_ScheduleTask_def query_request_def)
  then show ?thesis
    by (simp add: PIR_dispatch_def finish_def run_calls Let_def) (simp add: new_scheduler_def)
qed

lemma query_request_name [simp]: "tk_party_name (query_request env task name) = name"
  by (simp add: query_request_def AddSchedulerNode_def without_client_data_def split: option.splits)

lemma with_query_DbInfo [simp]: "tk_params (with_query x task) ''DbInfo'' = tk_params task ''DbInfo''"
  by (simp add: with_query_def)

lemma query_hidden:
  "query_request env (add_client env (with_query x task)) PARTY_SERVER
   = query_request env (add_client env (with_query y task)) PARTY_SERVER"
  by (simp add: query_request_def AddSchedulerNode_def without_client_data_def add_client_def with_query_def
      Let_def)

lemma add_client_access:
  "tk_access (add_client env (with_query x task)) = tk_access (add_client env (with_query y task))"
  by (simp add: add_client_def with_query_def Let_def)

text \<open>
  C20: the requests that the server of a keyword search is sent do not depend on the client's query, while
  the client is sent it when the task is dispatched at all.
\<close>

theorem server_is_not_sent_query:
  assumes "shuffles env"
  shows "calls_to PARTY_SERVER (snd (PIR_dispatch env (with_query x task) new_scheduler))
      = calls_to PARTY_SERVER (snd (PIR_dispatch env (with_query y task) new_scheduler))
    \<and> (fst (PIR_dispatch env (with_query x task) new_scheduler) \<in> range Ret \<longrightarrow>
        (\<exists>(dest, q) \<in> set (calls_to PARTY_CLIENT (snd (PIR_dispatch env (with_query x task) new_scheduler))).
          dest = pbNode2Node (node2PbNode (se_local env)) \<and> tk_params q ''clientData'' = Some \<lparr>pm_is_array = True, pm_value = x\<rparr>))"
proof (intro conjI impI)
  have f: "filter (\<lambda>(_, q). tk_party_name q = name) (map (call_of (query_request env t)) ps)
      = map (call_of (\<lambda>_. query_request env t name)) (filter (\<lambda>p. fst p = name) ps)" for name t ps
    by (induction ps) (auto simp: call_of_def)
  show "calls_to PARTY_SERVER (snd (PIR_dispatch env (with_query x task) new_scheduler))
      = calls_to PARTY_SERVER (snd (PIR_dispatch env (with_query y task) new_scheduler))"
    unfolding calls_to_def PIR_calls Let_def
    by (simp add: f add_client_access [of env x task y] query_hidden [of env x task y])
next
  let ?t = "add_client env (with_query x task)"
  assume "fst (PIR_dispatch env (with_query x task) new_scheduler) \<in> range Ret"
  then have run: "\<not> (tk_params (with_query x task) ''DbInfo'' = None \<and> card (addresses (tk_access ?t)) < 2)"
    by (auto simp: PIR_dispatch_def Let_def split: if_splits)
  have "map_of (tk_access ?t) PARTY_CLIENT \<noteq> None"
    by (simp add: add_client_def with_query_def Let_def update_conv)
  then obtain pn where pn: "map_of (tk_access ?t) PARTY_CLIENT = Some pn" by blast
  then have n: "to_node pn = pbNode2Node (node2PbNode (se_local env))"
    by (auto simp: add_client_def with_query_def Let_def update_conv to_node_def set_node_def
        node.defs pbNode2Node_def node2PbNode_def)
  have "(PARTY_CLIENT, pn) \<in> set (se_threads env (tk_access ?t))"
    using shuffles_set [OF assms] map_of_SomeD [OF pn] by simp
  then have "call_of (query_request env ?t) (PARTY_CLIENT, pn)
      \<in> set (calls_to PARTY_CLIENT (snd (PIR_dispatch env (with_query x task) new_scheduler)))"
    using run by (auto simp: calls_to_def PIR_calls Let_def) (simp_all add: call_of_def)
  moreover have "tk_params (query_request env ?t PARTY_CLIENT) ''clientData'' = Some \<lparr>pm_is_array = True, pm_value = x\<rparr>"
    by (simp add: query_request_def AddSchedulerNode_def without_client_data_def add_client_def with_query_def
        Let_def party_defs)
  ultimately show "\<exists>(dest, q) \<in> set (calls_to PARTY_CLIENT (snd (PIR_dispatch env (with_query x task) new_scheduler))).
          dest = pbNode2Node (node2PbNode (se_local env)) \<and> tk_params q ''clientData'' = Some \<lparr>pm_is_array = True, pm_value = x\<rparr>"
    using n by (auto simp: call_of_def)
qed

theorem server_is_not_sent_query_witness:
  "calls_to PARTY_SERVER (snd (PIR_dispatch (demo_env SUCCESS id) (with_query (PvString ''x'') (demo_task [] [(''SERVER'', empty_pb)])) new_scheduler))
   = calls_to PARTY_SERVER (snd (PIR_dispatch (demo_env SUCCESS id) (with_query (PvString ''y'') (demo_task [] [(''SERVER'', empty_pb)])) new_scheduler))"
  using server_is_not_sent_query [of "demo_env SUCCESS id" "PvString ''x''" "demo_task [] [(''SERVER'', empty_pb)]" "PvString ''y''"]
  by simp

section \<open>The owners of the datasets\<close>

lemma access_of_metas:
  assumes "distinct (map snd metas)" "\<forall>(m, t) \<in> set metas. node_fromString (server_meta m) empty_node = Ret (owner t)"
    "\<forall>t \<in> snd ` set metas. t \<notin> fst ` set acc"
  shows "metasToPartyAccessInfo metas acc = Ret (acc @ map (\<lambda>(m, t). (t, owner t)) metas)"
  using assms
proof (induction metas arbitrary: acc)
  case (Cons mt metas)
  obtain m t where "mt = (m, t)" by (cases mt)
  moreover have "AList.update t n acc = acc @ [(t, n)]" if "t \<notin> fst ` set acc" for n :: node
    using that by (induction acc) auto
  ultimately show ?case using Cons.prems Cons.IH [of "acc @ [(t, owner t)]"] by auto
qed simp

lemma absent_all: "distinct (map fst xs) \<Longrightarrow> \<forall>k \<in> fst ` set xs. k \<notin> fst ` set m \<Longrightarrow> fold add_absent xs m = m @ xs"
proof (induction xs arbitrary: m)
  case (Cons x xs)
  then have "fst x \<notin> fst ` set m" by simp
  moreover have "fold add_absent xs (m @ [x]) = (m @ [x]) @ xs"
    by (rule Cons.IH) (use Cons.prems in \<open>auto simp: image_iff\<close>)
  ultimately show ?case by (simp add: add_absent_def [of x m])
qed simp

lemma to_node_set_node [simp]: "to_node (set_node n pn) = n" "to_node (pn\<lparr>pn_party_id := i\<rparr>) = to_node pn"
  by (simp_all add: to_node_def set_node_def node.defs pbNode2Node_def node2PbNode_def)

definition owner_request :: "string list \<Rightarrow> task_config \<Rightarrow> bool" where
  "owner_request parties q \<longleftrightarrow> map fst (tk_access q) = sort parties
     \<and> map (pn_party_id \<circ> snd) (tk_access q) = map int [0..<length parties]"

lemma merged_access:
  assumes "tk_access task = []" "distinct (map fst info)"
  shows "tk_access (MergePartyAccessInfo info task) = map (\<lambda>(party_id, name, n).
      (name, (set_node n empty_pb)\<lparr>pn_party_id := int party_id\<rparr>)) (enumerate 0 (sort_key fst info))"
  using assms absent_all [of info "[]"] by (simp add: MergePartyAccessInfo_def)

lemma map_enumerate: "map (\<lambda>(i, x). f x) (enumerate k xs) = map f xs"
  by (induction xs arbitrary: k) simp_all

lemma sort_key_fst: "map fst (sort_key fst xs) = sort (map fst xs)"
  by (rule sym, rule properties_for_sort) simp_all

lemma merged_owner_request:
  assumes "tk_access task = []" "distinct (map fst info)"
  shows "owner_request (map fst info) (MergePartyAccessInfo info task)"
proof -
  let ?l = "enumerate 0 (sort_key fst info)"
  have "map fst (tk_access (MergePartyAccessInfo info task)) = map (\<lambda>(i, x). fst x) ?l"
    unfolding merged_access [OF assms] by (simp add: case_prod_unfold o_def)
  also have "\<dots> = sort (map fst info)" by (simp add: map_enumerate sort_key_fst)
  moreover have "map (pn_party_id \<circ> snd) (tk_access (MergePartyAccessInfo info task)) = map int (map fst ?l)"
    unfolding merged_access [OF assms] by (simp add: case_prod_unfold o_def del: map_fst_enumerate)
  moreover have "map fst ?l = [0..<length (map fst info)]" by simp
  ultimately show ?thesis by (simp add: owner_request_def)
qed

lemma merged_nodes:
  assumes "tk_access task = []" "distinct (map fst info)"
  shows "mset (map (\<lambda>(name, pn). (name, to_node pn)) (tk_access (MergePartyAccessInfo info task))) = mset info"
proof -
  have "map (\<lambda>(name, pn). (name, to_node pn)) (tk_access (MergePartyAccessInfo info task)) = sort_key fst info"
    unfolding merged_access [OF assms] using map_enumerate [of id 0 "sort_key fst info"]
    by (simp add: case_prod_unfold o_def id_def)
  then show ?thesis by simp
qed

text \<open>
  C13: a task of private set intersection whose parties are to be found by their datasets, with different
  datasets that are all described, is sent to the owner of each party's dataset under the party's name and
  nowhere else; all requests number the parties in the order of their names, and the dispatch succeeds exactly
  when all calls do.
\<close>

theorem task_reaches_owners:
  assumes "shuffles env" "tk_language task = PROTO" "tk_type task = PSI_TASK" "tk_access task = []"
    "tk_params task ''auxiliary_server'' = None"
    "Proto_parseDatasets task = ds" "ds \<noteq> []" "distinct (map fst ds)" "distinct (map snd ds)"
    "se_find env = FindPeerListFromDatasets stub" "described info stub (map fst ds)"
    "\<forall>(i, p) \<in> set ds. mi_address (info i) = node_to_string (owner p) \<and> plain_fields (owner p)"
  shows "\<exists>sc. parseTaskSyntaxTree env task = Some (Ret (if \<forall>c \<in> set (sc_calls sc). succeeds env c then SUCCESS else FAIL), sc)
    \<and> mset (map (\<lambda>(dest, q). (tk_party_name q, dest)) (sc_calls sc)) = mset (map (\<lambda>(i, p). (p, owner p)) ds)
    \<and> (\<forall>(dest, q) \<in> set (sc_calls sc). owner_request (map snd ds) q
        \<and> tk_aux q SCHEDULER_NODE = Some (node2PbNode (se_local env)))"
proof -
  let ?metas = "map (\<lambda>(i, t). (PbMetaInfoToMeta (info i) empty_meta, t)) ds"
  let ?info = "map (\<lambda>(i, p). (p, owner p)) ds"
  let ?t = "MergePartyAccessInfo ?info task"
  define calls where "calls = map (call_of (party_request env ?t)) (se_threads env (tk_access ?t))"
  have names: "map fst ?info = map snd ds" "map snd ?metas = map snd ds" by (induction ds) auto
  have "\<forall>(m, t) \<in> set ?metas. node_fromString (server_meta m) empty_node = Ret (owner t)"
    using assms(12) node_string_roundtrip by (fastforce simp: PbMetaInfoToMeta_def)
  moreover have "distinct (map snd ?metas)" unfolding names(2) by (rule assms(9))
  ultimately have acc: "metasToPartyAccessInfo ?metas [] = Ret ?info"
    using access_of_metas [of ?metas owner "[]"] by (simp add: case_prod_unfold o_def)
  have d: "distinct (map fst ?info)" unfolding names(1) by (rule assms(9))
  have t: "tk_params ?t = tk_params task" "tk_language ?t = PROTO" "tk_type ?t = PSI_TASK"
    using assms(2,3) by (simp_all add: MergePartyAccessInfo_def Let_def)
  have "tk_access ?t \<noteq> []"
    using merged_access [OF assms(4) d] assms(7) by (metis (no_types, lifting) enumerate_simps(1) length_0_conv
        length_enumerate length_map length_sort map_is_Nil_conv)
  then have run: "parseTaskSyntaxTree env task = Some (VM_dispatch env ?t new_scheduler)"
    using assms(2-6,10) acc peers_found [OF assms(7,8,11)] t
    by (simp add: parseTaskSyntaxTree_def parse_datasets_def scheduleTask_def ParseDatasetToPartyAccessInfo_def
        ProcessAuxiliaryServer_def CreateScheduler_def)
  have "image_mset (\<lambda>(name, pn). (name, to_node pn)) (mset (se_threads env (tk_access ?t))) = mset ?info"
    using merged_nodes [OF assms(4) d] assms(1) by (simp add: shuffles_def)
  moreover have "map (\<lambda>(dest, q). (tk_party_name q, dest)) calls = map (\<lambda>(name, pn). (name, to_node pn)) (se_threads env (tk_access ?t))"
    by (simp add: calls_def call_of_def party_request_def AddSchedulerNode_def case_prod_unfold)
  ultimately have m: "mset (map (\<lambda>(dest, q). (tk_party_name q, dest)) calls) = mset ?info" by (metis mset_map)
  have o: "owner_request (map snd ds) ?t"
    using merged_owner_request [OF assms(4) d] unfolding names(1) .
  have "\<forall>(dest, q) \<in> set calls. owner_request (map snd ds) q \<and> tk_aux q SCHEDULER_NODE = Some (node2PbNode (se_local env))"
    using o by (auto simp: calls_def call_of_def party_request_def AddSchedulerNode_def owner_request_def)
  with m show ?thesis
    unfolding run VM_dispatch_calls Let_def calls_def [symmetric]
    by (intro exI [of _ "\<lparr>sc_calls = calls, sc_servers = concat (map (replies env) calls),
        sc_error = (\<exists>c \<in> set calls. \<not> succeeds env c)\<rparr>"]) simp
qed

definition demo_datasets :: "(string \<times> string) list \<Rightarrow> (string \<times> party_data) list" where
  "demo_datasets = map (\<lambda>(p, i). (p, \<lparr>pd_data = [(''data'', i)], pd_detail = False\<rparr>))"

theorem task_reaches_owners_witness:
  "\<exists>sc. parseTaskSyntaxTree (demo_env SUCCESS (case_list ''?'' (\<lambda>c _. [c])))
        (demo_task (demo_datasets [(''SERVER'', ''b.csv''), (''CLIENT'', ''a.csv'')]) []) = Some (Ret SUCCESS, sc)
    \<and> mset (map (\<lambda>(dest, q). (tk_party_name q, node_id dest)) (sc_calls sc)) = {#(''CLIENT'', ''a''), (''SERVER'', ''b'')#}"
proof -
  let ?o = "case_list ''?'' (\<lambda>c _. [c]) :: string \<Rightarrow> string"
  let ?own = "\<lambda>p. if p = ''SERVER'' then demo_owner ''b'' else demo_owner ''a''"
  let ?ds = "[(''b.csv'', ''SERVER''), (''a.csv'', ''CLIENT'')]"
  obtain sc where sc: "parseTaskSyntaxTree (demo_env SUCCESS ?o)
        (demo_task (demo_datasets [(''SERVER'', ''b.csv''), (''CLIENT'', ''a.csv'')]) [])
      = Some (Ret (if \<forall>c \<in> set (sc_calls sc). succeeds (demo_env SUCCESS ?o) c then SUCCESS else FAIL), sc)"
    and m: "mset (map (\<lambda>(dest, q). (tk_party_name q, dest)) (sc_calls sc)) = mset (map (\<lambda>(i, p). (p, ?own p)) ?ds)"
    using task_reaches_owners [of "demo_env SUCCESS ?o" "demo_task (demo_datasets [(''SERVER'', ''b.csv''), (''CLIENT'', ''a.csv'')]) []"
        ?ds "demo_stub ?o" "demo_info ?o" ?own]
    by (auto simp: demo_task_def demo_datasets_def Proto_parseDatasets_def demo_described demo_info_def demo_owner_def
        plain_fields_def)
  from m have "image_mset (map_prod id node_id) (mset (map (\<lambda>(dest, q). (tk_party_name q, dest)) (sc_calls sc)))
      = {#(''CLIENT'', ''a''), (''SERVER'', ''b'')#}"
    by (simp add: demo_owner_def)
  then have "mset (map (\<lambda>(dest, q). (tk_party_name q, node_id dest)) (sc_calls sc)) = {#(''CLIENT'', ''a''), (''SERVER'', ''b'')#}"
    by (simp add: case_prod_unfold multiset.map_comp o_def)
  with sc show ?thesis by (intro exI [of _ sc]) (simp add: succeeds_def)
qed

lemma access_names: "metasToPartyAccessInfo metas acc = Ret info \<Longrightarrow> fst ` set info \<subseteq> fst ` set acc \<union> snd ` set metas"
proof (induction metas arbitrary: acc)
  case (Cons mt metas)
  obtain m t where mt: "mt = (m, t)" by (cases mt)
  with Cons.prems obtain n where "metasToPartyAccessInfo metas (AList.update t n acc) = Ret info"
    by (auto simp: cbind_Ret_iff)
  from Cons.IH [OF this] show ?case by (auto simp: mt dom_update)
qed simp

lemma absent_names: "fst ` set (fold add_absent xs m) = fst ` set m \<union> fst ` set xs"
  by (induction xs arbitrary: m) (auto simp: add_absent_def)

lemma merged_names:
  "tk_access task = [] \<Longrightarrow> fst ` set (tk_access (MergePartyAccessInfo info task)) = fst ` set info"
proof -
  assume e: "tk_access task = []"
  let ?l = "sort_key fst (fold add_absent info [])"
  have "map fst (tk_access (MergePartyAccessInfo info task)) = map fst ?l"
    using e map_enumerate [of fst 0 ?l] by (simp add: MergePartyAccessInfo_def case_prod_unfold o_def)
  then have "fst ` set (tk_access (MergePartyAccessInfo info task)) = fst ` set ?l" by (metis list.set_map)
  then show ?thesis by (simp add: absent_names)
qed

lemma collect_metas_Cons: "collect_metas tags ((available, info) # l) =
   (if available then map (Pair (PbMetaInfoToMeta info empty_meta)) (case tags (mi_id info) of Some tag \<Rightarrow> [tag] | None \<Rightarrow> [])
    else []) @ collect_metas tags l"
  by (cases "tags (mi_id info)") (simp_all add: collect_metas_def)

lemma collected_tag: "(m, t) \<in> set (collect_metas tags l) \<Longrightarrow> t \<in> ran tags"
proof (induction l)
  case (Cons x l)
  obtain available info where x: "x = (available, info)" by (cases x)
  show ?case
    using Cons
    by (cases "tags (mi_id info)"; cases available) (simp_all add: x collect_metas_Cons, auto simp: ranI)
qed (simp add: collect_metas_def)

lemma found_parties:
  assumes "FindPeerListFromDatasets stub [(i, a), (i, b)] = Ret (ret, Some metas)"
  shows "snd ` set metas \<subseteq> {b}"
proof -
  from assms obtain l where "metas = collect_metas (id2tag [(i, a), (i, b)]) l"
    by (auto simp: FindPeerListFromDatasets_def Let_def split: option.splits if_splits)
  moreover have "ran (id2tag [(i, a), (i, b)]) = {b}" by (simp add: id2tag_def)
  ultimately show ?thesis using collected_tag by fastforce
qed

text \<open>The parties that a task has after its nodes were looked up.\<close>

lemma found_access:
  assumes "ParseDatasetToPartyAccessInfo env [(i, a), (i, b)] task = Ret t"
    "se_find env = FindPeerListFromDatasets stub" "tk_access task = []" "tk_params task ''auxiliary_server'' = None"
  shows "fst ` set (tk_access t) \<subseteq> {b} \<and> tk_type t = tk_type task \<and> tk_language t = tk_language task"
proof -
  from assms obtain ret metas where f: "FindPeerListFromDatasets stub [(i, a), (i, b)] = Ret (ret, metas)"
    and t: "cbind (case metas of None \<Rightarrow> Ret task | Some ms \<Rightarrow>
      cbind (metasToPartyAccessInfo ms []) (\<lambda>info. Ret (MergePartyAccessInfo info task))) (ProcessAuxiliaryServer env) = Ret t"
    by (auto simp: ParseDatasetToPartyAccessInfo_def cbind_Ret_iff)
  show ?thesis
  proof (cases metas)
    case None
    with t assms(3,4) show ?thesis by (simp add: ProcessAuxiliaryServer_def)
  next
    case (Some ms)
    with t obtain info where m: "metasToPartyAccessInfo ms [] = Ret info"
      and "ProcessAuxiliaryServer env (MergePartyAccessInfo info task) = Ret t"
      by (auto simp: cbind_Ret_iff)
    then have "t = MergePartyAccessInfo info task"
      using assms(4) by (simp add: ProcessAuxiliaryServer_def MergePartyAccessInfo_def Let_def)
    moreover have "fst ` set info \<subseteq> {b}" using access_names [OF m] found_parties f Some by fastforce
    ultimately show ?thesis
      using merged_names [OF assms(3), of info] by (simp add: MergePartyAccessInfo_def Let_def)
  qed
qed

lemma VM_names:
  "shuffles env \<Longrightarrow> (dest, q) \<in> set (sc_calls (snd (VM_dispatch env t new_scheduler)))
    \<Longrightarrow> tk_party_name q \<in> fst ` set (tk_access t)"
  by (auto simp: VM_dispatch_calls Let_def call_of_def party_request_def AddSchedulerNode_def shuffles_set
      intro: rev_image_eqI)

text \<open>
  When two parties of a task are to be found by the same dataset, the first of them is not sent the
  task, whatever the meta service answers.
\<close>

theorem shared_dataset_loses_party:
  assumes "shuffles env" "tk_language task = PROTO" "tk_type task = PSI_TASK" "tk_access task = []"
    "tk_params task ''auxiliary_server'' = None" "se_find env = FindPeerListFromDatasets stub"
    "Proto_parseDatasets task = [(i, a), (i, b)]" "a \<noteq> b" "parseTaskSyntaxTree env task = Some (r, sc)"
  shows "\<forall>(dest, q) \<in> set (sc_calls sc). tk_party_name q \<noteq> a"
proof (cases "ParseDatasetToPartyAccessInfo env [(i, a), (i, b)] task")
  case (Ret t)
  note t = found_access [OF Ret assms(6,4,5)]
  with Ret assms(2,3,7,9) have "sc_calls sc = [] \<or> sc = snd (VM_dispatch env t new_scheduler)"
    by (cases "tk_access t = []")
      (auto simp: parseTaskSyntaxTree_def parse_datasets_def scheduleTask_def CreateScheduler_def new_scheduler_def)
  with VM_names [OF assms(1)] t assms(8) show ?thesis by fastforce
qed (use assms(2,7,9) in \<open>auto simp: parseTaskSyntaxTree_def parse_datasets_def scheduleTask_def new_scheduler_def\<close>)

theorem shared_dataset_loses_party_witness:
  "\<exists>x. parseTaskSyntaxTree (demo_env SUCCESS id) (demo_task (demo_datasets [(''A'', ''d''), (''B'', ''d'')]) []) = Some x
    \<and> (\<forall>(dest, q) \<in> set (sc_calls (snd x)). tk_party_name q \<noteq> ''A'')"
proof -
  obtain x where x: "parseTaskSyntaxTree (demo_env SUCCESS id) (demo_task (demo_datasets [(''A'', ''d''), (''B'', ''d'')]) []) = Some x"
    by (simp add: parseTaskSyntaxTree_def parse_datasets_def demo_task_def)
  moreover have "\<forall>(dest, q) \<in> set (sc_calls (snd x)). tk_party_name q \<noteq> ''A''"
    by (rule shared_dataset_loses_party [of "demo_env SUCCESS id" "demo_task (demo_datasets [(''A'', ''d''), (''B'', ''d'')]) []"
        "demo_stub id" "''d''" "''A''" "''B''" "fst x" "snd x"])
      (use x in \<open>simp_all add: demo_task_def demo_datasets_def Proto_parseDatasets_def\<close>)
  ultimately show ?thesis by blast
qed

section \<open>The links of the three parties\<close>

definition linked :: "task_config \<Rightarrow> pb_node list \<Rightarrow> pb_node \<Rightarrow> pb_node" where
  "linked task nodes pn = (let i = pn_party_id pn; j = (i + 1) mod 3; k = (i + 2) mod 3
     in pn\<lparr>pn_vm := pn_vm pn @ [\<lparr>vm_party_id = i, vm_next = aby3_end_point task i j (node_ip (nodes ! nat j)),
          vm_prev = aby3_end_point task i k (node_ip (nodes ! nat k))\<rparr>]\<rparr>)"

lemma node_at_rem: "length nodes = 3 \<Longrightarrow> node_at nodes (i mod 3) = Ret (nodes ! nat (i mod 3))"
  by (simp add: node_at_def nat_less_iff)

lemma c_rem3_nonneg: "0 \<le> i \<Longrightarrow> c_rem3 i = i mod 3"
  by (simp add: c_rem3_def)

lemma add_vms_linked:
  "length nodes = 3 \<Longrightarrow> \<forall>(n, pn) \<in> set ps. pn_party_id pn \<in> {0, 1, 2} \<Longrightarrow>
     add_vms task nodes ps = Ret (map (\<lambda>(n, pn). (n, linked task nodes pn)) ps)"
proof (induction ps)
  case (Cons p ps)
  obtain n pn where p: "p = (n, pn)" by (cases p)
  then have "0 \<le> pn_party_id pn" using Cons.prems(2) by auto
  then have "aby3_add_vm (pn_party_id pn) task nodes pn = Ret (linked task nodes pn)"
    using Cons.prems(1) by (simp add: aby3_add_vm_def linked_def node_at_rem c_rem3_nonneg Let_def)
  with Cons p show ?case by simp
qed simp

text \<open>The two ends of a link have one name and one port, and one of them listens.\<close>

definition fits :: "end_point \<Rightarrow> end_point \<Rightarrow> bool" where
  "fits e f \<longleftrightarrow> ep_name e = ep_name f \<and> ep_port e = ep_port f \<and> (ep_link_type e = LINK_SERVER) \<noteq> (ep_link_type f = LINK_SERVER)"

lemma neighbours_fit:
  assumes "i \<in> {0, 1, 2}"
  shows "fits (aby3_end_point task i ((i + 1) mod 3) ip) (aby3_end_point task ((i + 1) mod 3) (((i + 1) mod 3 + 2) mod 3) ip')"
  using assms by (auto simp: fits_def aby3_end_point_def)

lemma digit_strings: "int_string 0 = ''0''" "int_string 1 = ''1''" "int_string 2 = ''2''"
  by code_simp+

lemma different_links:
  assumes "i \<in> {0, 1, 2}"
  shows "ep_name (aby3_end_point task i ((i + 1) mod 3) ip) \<noteq> ep_name (aby3_end_point task i ((i + 2) mod 3) ip')"
  using assms by (auto simp: aby3_end_point_def digit_strings)

lemma ABY3_calls:
  assumes "tk_type task = ACTOR_TASK" "card (addresses (se_iter env (tk_access task))) = 3"
    "card (set (map fst (se_iter env (tk_access task)))) = 3" "length (se_iter env (tk_access task)) = 3"
    "\<forall>(n, pn) \<in> set (se_iter env (tk_access task)). pn_party_id pn \<in> {0, 1, 2}"
  shows "ABY3_dispatch env task new_scheduler = VM_dispatch env
    (task\<lparr>tk_access := map (\<lambda>(n, pn). (n, linked task (map snd (se_iter env (tk_access task))) pn)) (se_iter env (tk_access task))\<rparr>)
    new_scheduler"
  using assms add_vms_linked [of "map snd (se_iter env (tk_access task))" "se_iter env (tk_access task)" task]
  by (simp add: ABY3_dispatch_def VM_dispatch_def Let_def)

definition three_parties :: "(string \<times> pb_node) list \<Rightarrow> bool" where
  "three_parties ps \<longleftrightarrow> mset (map (pn_party_id \<circ> snd) ps) = {#0, 1, 2#} \<and> distinct (map fst ps)
     \<and> distinct (map (\<lambda>(_, pn). node_to_string (to_node pn)) ps) \<and> (\<forall>(n, pn) \<in> set ps. pn_vm pn = [])"

lemma three_parties_mset: "mset ps = mset qs \<Longrightarrow> three_parties ps \<longleftrightarrow> three_parties qs"
  unfolding three_parties_def by (metis (no_types, lifting) mset_eq_imp_distinct_iff mset_eq_setD mset_map)

lemma three_parties_length: "three_parties ps \<Longrightarrow> length ps = 3"
  unfolding three_parties_def by (metis (no_types, lifting) One_nat_def add_mset_add_single length_map numeral_3_eq_3
      size_add_mset size_empty size_mset)

lemma three_parties_ids:
  assumes "three_parties ps" "(n, pn) \<in> set ps"
  shows "pn_party_id pn \<in> {0, 1, 2}"
proof -
  have "pn_party_id pn \<in># mset (map (pn_party_id \<circ> snd) ps)" using assms(2) by force
  also have "mset (map (pn_party_id \<circ> snd) ps) = {#0, 1, 2#}" using assms(1) by (simp only: three_parties_def)
  finally show ?thesis by auto
qed

text \<open>
  In the access info of a request, each party has one pair of links under its own number. A link to the
  next party and that party's link to the previous one fit together, a party's two links differ, and
  each names the address of the node at the place of the other party's number.
\<close>

definition neighbours_linked :: "pb_node list \<Rightarrow> (string \<times> pb_node) list \<Rightarrow> bool" where
  "neighbours_linked nodes ps \<longleftrightarrow> (\<forall>a \<in> set (map snd ps). \<forall>b \<in> set (map snd ps).
     pn_party_id b = (pn_party_id a + 1) mod 3 \<longrightarrow>
       (\<exists>va vb. pn_vm a = [va] \<and> pn_vm b = [vb]
         \<and> vm_party_id va = pn_party_id a \<and> vm_party_id vb = pn_party_id b
         \<and> fits (vm_next va) (vm_prev vb) \<and> ep_name (vm_next va) \<noteq> ep_name (vm_prev va)
         \<and> ep_ip (vm_next va) = node_ip (nodes ! nat (pn_party_id b))
         \<and> ep_ip (vm_prev vb) = node_ip (nodes ! nat (pn_party_id a))))"

lemma back_forth: "i \<in> {0, 1, 2} \<Longrightarrow> ((i + 1) mod 3 + 2) mod 3 = (i :: int)"
  by auto

lemma linked_neighbours:
  assumes "three_parties ps"
  shows "neighbours_linked nodes (map (\<lambda>(n, pn). (n, linked task nodes pn)) ps)"
  unfolding neighbours_linked_def
proof (intro ballI impI)
  fix a b
  assume ab: "a \<in> set (map snd (map (\<lambda>(n, pn). (n, linked task nodes pn)) ps))"
    "b \<in> set (map snd (map (\<lambda>(n, pn). (n, linked task nodes pn)) ps))" "pn_party_id b = (pn_party_id a + 1) mod 3"
  then obtain n a0 m b0 where a: "(n, a0) \<in> set ps" "a = linked task nodes a0" and b: "(m, b0) \<in> set ps" "b = linked task nodes b0"
    by auto
  have e: "pn_vm a0 = []" "pn_vm b0 = []" using assms a(1) b(1) by (auto simp: three_parties_def)
  have i: "pn_party_id a0 \<in> {0, 1, 2}" using three_parties_ids [OF assms a(1)] .
  let ?i = "pn_party_id a0"
  have id: "pn_party_id b0 = (?i + 1) mod 3" using ab(3) by (simp add: a b linked_def Let_def)
  let ?va = "\<lparr>vm_party_id = ?i, vm_next = aby3_end_point task ?i ((?i + 1) mod 3) (node_ip (nodes ! nat ((?i + 1) mod 3))),
    vm_prev = aby3_end_point task ?i ((?i + 2) mod 3) (node_ip (nodes ! nat ((?i + 2) mod 3)))\<rparr>"
  let ?j = "(?i + 1) mod 3"
  let ?vb = "\<lparr>vm_party_id = ?j, vm_next = aby3_end_point task ?j ((?j + 1) mod 3) (node_ip (nodes ! nat ((?j + 1) mod 3))),
    vm_prev = aby3_end_point task ?j ((?j + 2) mod 3) (node_ip (nodes ! nat ((?j + 2) mod 3)))\<rparr>"
  have vm: "pn_vm a = [?va]" "pn_vm b = [?vb]" "pn_party_id a = ?i" "pn_party_id b = ?j"
    using e id by (simp_all add: a b linked_def Let_def)
  have "fits (vm_next ?va) (vm_prev ?vb)" "ep_name (vm_next ?va) \<noteq> ep_name (vm_prev ?va)"
    using neighbours_fit [OF i] different_links [OF i] by simp_all
  moreover have "ep_ip (vm_next ?va) = node_ip (nodes ! nat ?j)" "ep_ip (vm_prev ?vb) = node_ip (nodes ! nat ?i)"
    by (simp_all only: virtual_machine.simps aby3_end_point_def end_point.simps back_forth [OF i])
  ultimately show "\<exists>va vb. pn_vm a = [va] \<and> pn_vm b = [vb]
      \<and> vm_party_id va = pn_party_id a \<and> vm_party_id vb = pn_party_id b
      \<and> fits (vm_next va) (vm_prev vb) \<and> ep_name (vm_next va) \<noteq> ep_name (vm_prev va)
      \<and> ep_ip (vm_next va) = node_ip (nodes ! nat (pn_party_id b))
      \<and> ep_ip (vm_prev vb) = node_ip (nodes ! nat (pn_party_id a))"
    unfolding vm by (intro exI [of _ ?va] exI [of _ ?vb]) simp
qed

text \<open>The parties of a request without their links.\<close>

definition without_links :: "(string \<times> pb_node) list \<Rightarrow> (string \<times> pb_node) list" where
  "without_links = map (\<lambda>(name, pn). (name, pn\<lparr>pn_vm := []\<rparr>))"

lemma linked_without_links:
  "\<forall>(n, pn) \<in> set ps. pn_vm pn = [] \<Longrightarrow> without_links (map (\<lambda>(n, pn). (n, linked task nodes pn)) ps) = ps"
  by (induction ps) (auto simp: without_links_def linked_def Let_def)

lemma linked_node: "to_node (linked task nodes pn) = to_node pn"
  by (simp add: to_node_def linked_def Let_def node.defs)

text \<open>
  C21: an ABY3 task of three different parties with the numbers 0, 1 and 2 is sent to each of the three at
  its own address under its own name, once. Every request lists the three parties with nothing but their
  links added; the two ends of the link between neighbours have one name and one port and exactly one of
  them listens, the two links of a party have different names, and the address at the other end of each is
  that of the node which stands, in the order of iteration, at the place of the neighbour's number.
\<close>

theorem aby3_links_fit:
  assumes "shuffles env" "tk_type task = ACTOR_TASK" "three_parties (tk_access task)"
  shows "mset (map (\<lambda>(dest, q). (tk_party_name q, dest)) (sc_calls (snd (ABY3_dispatch env task new_scheduler))))
      = mset (map (\<lambda>(name, pn). (name, to_node pn)) (tk_access task))
    \<and> (\<forall>(dest, q) \<in> set (sc_calls (snd (ABY3_dispatch env task new_scheduler))).
        mset (without_links (tk_access q)) = mset (tk_access task)
        \<and> neighbours_linked (map snd (se_iter env (tk_access task))) (tk_access q))"
proof -
  let ?ps = "se_iter env (tk_access task)"
  let ?nodes = "map snd ?ps"
  let ?ls = "map (\<lambda>(n, pn). (n, linked task ?nodes pn)) ?ps"
  let ?t = "task\<lparr>tk_access := ?ls\<rparr>"
  have m: "mset ?ps = mset (tk_access task)" using assms(1) by (simp add: shuffles_def)
  then have ps: "three_parties ?ps" using assms(3) three_parties_mset by blast
  then have l: "length ?ps = 3" by (rule three_parties_length)
  have "card (addresses ?ps) = 3" "card (set (map fst ?ps)) = 3"
    using ps l distinct_card [of "map fst ?ps"] distinct_card [of "map (\<lambda>(_, pn). node_to_string (to_node pn)) ?ps"]
    by (simp_all add: three_parties_def addresses_def)
  then have run: "ABY3_dispatch env task new_scheduler = VM_dispatch env ?t new_scheduler"
    using ABY3_calls [OF assms(2) _ _ l] three_parties_ids [OF ps] by auto
  have calls: "sc_calls (snd (VM_dispatch env ?t new_scheduler)) = map (call_of (party_request env ?t)) (se_threads env ?ls)"
    by (simp add: VM_dispatch_calls Let_def)
  define g :: "string \<times> pb_node \<Rightarrow> string \<times> node" where "g = (\<lambda>(name, pn). (name, to_node pn))"
  have "map (\<lambda>(dest, q). (tk_party_name q, dest)) (sc_calls (snd (VM_dispatch env ?t new_scheduler)))
      = map g (se_threads env ?ls)"
    unfolding calls g_def by (simp add: call_of_def party_request_def AddSchedulerNode_def case_prod_unfold)
  moreover have "mset (map g (se_threads env ?ls)) = mset (map g ?ls)"
    using assms(1) unfolding shuffles_def by (simp only: mset_map)
  moreover have "map g ?ls = map g ?ps"
    by (simp add: g_def case_prod_unfold linked_node)
  moreover have "mset (map g ?ps) = mset (map g (tk_access task))"
    using m by (simp only: mset_map)
  ultimately have called: "mset (map (\<lambda>(dest, q). (tk_party_name q, dest)) (sc_calls (snd (VM_dispatch env ?t new_scheduler))))
      = mset (map (\<lambda>(name, pn). (name, to_node pn)) (tk_access task))"
    by (simp only: g_def)
  have acc: "tk_access q = ?ls" if "(dest, q) \<in> set (sc_calls (snd (VM_dispatch env ?t new_scheduler)))" for dest q
    using that by (auto simp: calls call_of_def party_request_def AddSchedulerNode_def)
  have "without_links ?ls = ?ps" by (rule linked_without_links) (use ps in \<open>simp add: three_parties_def\<close>)
  then have links: "mset (without_links ?ls) = mset (tk_access task)" using m by simp
  have "mset (without_links (tk_access q)) = mset (tk_access task) \<and> neighbours_linked ?nodes (tk_access q)"
    if "(dest, q) \<in> set (sc_calls (snd (VM_dispatch env ?t new_scheduler)))" for dest q
    unfolding acc [OF that] using links linked_neighbours [OF ps] by (rule conjI)
  with called show ?thesis unfolding run by blast
qed

definition demo_party :: "int \<Rightarrow> string \<times> pb_node" where
  "demo_party i = (int_string i, (set_node (demo_owner (int_string i)) empty_pb)\<lparr>pn_party_id := i\<rparr>)"

theorem aby3_links_fit_witness:
  "image_mset fst (mset (map (\<lambda>(dest, q). (tk_party_name q, dest)) (sc_calls (snd (ABY3_dispatch (demo_env SUCCESS id)
     ((demo_task [] (map demo_party [2, 0, 1]))\<lparr>tk_type := ACTOR_TASK\<rparr>) new_scheduler))))) = {#''2'', ''0'', ''1''#}"
proof -
  have "three_parties (map demo_party [2, 0, 1])"
    by (auto simp: three_parties_def demo_party_def digit_strings demo_owner_def node_to_string_def set_node_def empty_pb_def
        to_node_def node.defs pbNode2Node_def node2PbNode_def pb_node.defs)
  then have "mset (map (\<lambda>(dest, q). (tk_party_name q, dest)) (sc_calls (snd (ABY3_dispatch (demo_env SUCCESS id)
     ((demo_task [] (map demo_party [2, 0, 1]))\<lparr>tk_type := ACTOR_TASK\<rparr>) new_scheduler))))
    = mset (map (\<lambda>(name, pn). (name, to_node pn)) (map demo_party [2, 0, 1]))"
    using aby3_links_fit [of "demo_env SUCCESS id" "(demo_task [] (map demo_party [2, 0, 1]))\<lparr>tk_type := ACTOR_TASK\<rparr>"]
    by (simp add: demo_task_def)
  then show ?thesis by (simp only:) (simp add: demo_party_def digit_strings)
qed

end
