(* ===== verification/Mpc_Task.thy ===== *)
theory Mpc_Task
  imports Task_Schedule Channels
begin

text \<open>
  The frame of the tasks of three parties: who the parties of a request are (common/party_config.cc,
  algorithm/base.h), the channels between neighbours (algorithm/base.cc), and the steps that a task goes
  through (task/semantic/mpc_task.cc). The tables that the tasks read come from the drivers and are values
  here.
\<close>

section \<open>The parties of a request\<close>

text \<open>The party's own number is not initialised when the request does not list the party.\<close>

(* src/src/fediux/common/party_config.h:7-24 PartyConfig *)
record party_config =
  pc_party_name :: string
  pc_party_id :: "u16 option"
  pc_names :: "(u16 \<times> string) list"
  pc_nodes :: "(string \<times> pb_node) list"
  pc_info :: task_ctx

text \<open>\<open>parties\<close> is the map of the request in the order in which it is gone through.\<close>

(* src/src/fediux/common/party_config.cc:4-26 PartyConfig::PartyConfig *)
definition new_party_config :: "(string \<times> pb_node) list \<Rightarrow> task_config \<Rightarrow> party_config" where
  "new_party_config parties task =
     \<lparr>pc_party_name = tk_party_name task,
      pc_party_id = map_option (\<lambda>pn. word_of_int (pn_party_id pn)) (map_of parties (tk_party_name task)),
      pc_names = fold (\<lambda>(party_name, pn). AList.update (word_of_int (pn_party_id pn)) party_name) parties [],
      pc_nodes = fold (\<lambda>(party_name, pn). AList.update party_name pn) parties [],
      pc_info = tk_info task\<rparr>"

(* src/src/fediux/algorithm/base.h:43-45 ABY3PartyConfig::SelfPartyId *)
definition SelfPartyId :: "party_config \<Rightarrow> u16 cpp" where
  "SelfPartyId c = (case pc_party_id c of None \<Rightarrow> Undef | Some i \<Rightarrow> Ret i)"

(* src/src/fediux/algorithm/base.h:39-41 ABY3PartyConfig::NextPartyId *)
definition NextPartyId :: "party_config \<Rightarrow> u16 cpp" where
  "NextPartyId c = cbind (SelfPartyId c) (\<lambda>i. Ret (of_nat ((unat i + 1) mod 3)))"

(* src/src/fediux/algorithm/base.h:47-49 ABY3PartyConfig::PrevPartyId *)
definition PrevPartyId :: "party_config \<Rightarrow> u16 cpp" where
  "PrevPartyId c = cbind (SelfPartyId c) (\<lambda>i. Ret (of_nat ((unat i + 2) mod 3)))"

(* src/src/fediux/algorithm/base.h:51-59 ABY3PartyConfig::NextPartyName *)
definition party_name_of :: "party_config \<Rightarrow> u16 \<Rightarrow> string" where
  "party_name_of c i = (case map_of (pc_names c) i of None \<Rightarrow> [] | Some name \<Rightarrow> name)"

(* src/src/fediux/algorithm/base.h:101-107 ABY3PartyConfig::PartyName2PartyInfo *)
definition PartyName2PartyInfo :: "party_config \<Rightarrow> string \<Rightarrow> node" where
  "PartyName2PartyInfo c party_name =
     (case map_of (pc_nodes c) party_name of None \<Rightarrow> to_node empty_pb | Some pn \<Rightarrow> to_node pn)"

text \<open>The numbers are gone through in their order.\<close>

(* src/src/fediux/algorithm/base.h:89-98 ABY3PartyConfig::PartyName2PartyId *)
definition PartyName2PartyId :: "party_config \<Rightarrow> string \<Rightarrow> u16 option" where
  "PartyName2PartyId c party_name =
     map_option fst (find (\<lambda>(i, name). party_name = name) (sort_key fst (pc_names c)))"

section \<open>Channels to the neighbours\<close>

(* src/src/fediux/algorithm/base.cc:75-86 AlgorithmBase::ExtractProxyNode *)
definition ExtractProxyNode :: "task_config \<Rightarrow> node option" where
  "ExtractProxyNode task = map_option pbNode2Node (tk_aux task PROXY_NODE)"

text \<open>A channel with the node it sends to; it receives from the proxy node.\<close>

record party_link =
  pl_channel :: mpc_channel
  pl_node :: node

(* src/src/fediux/algorithm/base.cc:212-261 AlgorithmBase::initPartyComm *)
definition initPartyComm :: "party_config \<Rightarrow> (party_link \<times> party_link) cpp" where
  "initPartyComm c =
     cbind (PrevPartyId c) (\<lambda>prev. cbind (NextPartyId c) (\<lambda>nxt.
       let link = (\<lambda>i. \<lparr>pl_channel = new_mpc_channel (tc_request_id (pc_info c)) (sub_task_id (pc_info c))
             (pc_party_name c) (party_name_of c i),
           pl_node = PartyName2PartyInfo c (party_name_of c i)\<rparr>)
       in Ret (link prev, link nxt)))"

section \<open>Tables\<close>

text \<open>
  A column of a table is a sequence of chunks of one type. The integers of the narrow types, and what the
  model does not look at, are kept apart. Missing values are outside the model.
\<close>

datatype 'd chunks =
    Int64Chunks "i64 list list"
  | Int32Chunks "u32 list list"
  | Int16Chunks "u16 list list"
  | Int8Chunks "u8 list list"
  | DoubleChunks "'d list list"
  | StringChunks "string list list"

type_synonym 'd table = "(string \<times> 'd chunks) list"

fun chunk_lengths :: "'d chunks \<Rightarrow> nat list" where
  "chunk_lengths (Int64Chunks cs) = map length cs"
| "chunk_lengths (Int32Chunks cs) = map length cs"
| "chunk_lengths (Int16Chunks cs) = map length cs"
| "chunk_lengths (Int8Chunks cs) = map length cs"
| "chunk_lengths (DoubleChunks cs) = map length cs"
| "chunk_lengths (StringChunks cs) = map length cs"

text \<open>The column of a name is null unless exactly one has the name.\<close>

definition GetColumnByName :: "'d table \<Rightarrow> string \<Rightarrow> 'd chunks option" where
  "GetColumnByName t name = (case filter (\<lambda>(n, _). n = name) t of [(_, c)] \<Rightarrow> Some c | _ \<Rightarrow> None)"

lemma GetColumnByName_distinct:
  "distinct (map fst t) \<Longrightarrow> (name, c) \<in> set t \<Longrightarrow> GetColumnByName t name = Some c"
proof -
  assume d: "distinct (map fst t)" and m: "(name, c) \<in> set t"
  then have "filter (\<lambda>(n, _). n = name) t = [(name, c)]"
  proof (induction t)
    case (Cons x t)
    obtain k b where x: "x = (k, b)" by (cases x)
    show ?case
    proof (cases "k = name")
      case True
      with Cons.prems have "filter (\<lambda>(n, _). n = name) t = []" by (force simp: x filter_empty_conv)
      moreover have "b = c" using Cons.prems True by (force simp: x)
      ultimately show ?thesis using True by (simp add: x)
    qed (use Cons in \<open>auto simp: x\<close>)
  qed simp
  then show ?thesis by (simp add: GetColumnByName_def)
qed

section \<open>The steps of a task\<close>

datatype accuracy = D16 | D32

datatype mpc_algorithm = LogisticRegression | Statistics | MissingValues | Arithmetic accuracy

(* src/src/fediux/task/semantic/mpc_task.cc:14-65 MPCTask::MPCTask *)
definition choose_algorithm :: "string \<Rightarrow> task_config \<Rightarrow> mpc_algorithm option" where
  "choose_algorithm function_name task =
     (if function_name = ''logistic_regression'' then Some LogisticRegression
      else if function_name = ''mpc_statistics'' then Some Statistics
      else if function_name = ''AbnormalProcessTask'' then Some MissingValues
      else if function_name = ''arithmetic'' then
        Some (Arithmetic (if map_option param_string (tk_params task ''Accuracy'') = Some ''D32'' then D32 else D16))
      else None)"

text \<open>
  The steps stop at the first result that is not zero; an exception leaves them. The result of the step
  that sets the engine up is not looked at.
\<close>

fun run_steps :: "('a \<Rightarrow> (int \<times> 'a) cpp) list \<Rightarrow> 'a \<Rightarrow> (retcode \<times> 'a) cpp" where
  "run_steps [] a = Ret (SUCCESS, a)"
| "run_steps (step # steps) a =
     cbind (step a) (\<lambda>(ret, a'). if ret \<noteq> 0 then Ret (FAIL, a') else run_steps steps a')"

record 'a algorithm =
  al_loadParams :: "task_config \<Rightarrow> 'a \<Rightarrow> (int \<times> 'a) cpp"
  al_loadDataset :: "'a \<Rightarrow> (int \<times> 'a) cpp"
  al_initPartyComm :: "'a \<Rightarrow> (int \<times> 'a) cpp"
  al_InitEngine :: "'a \<Rightarrow> 'a cpp"
  al_execute :: "'a \<Rightarrow> (int \<times> 'a) cpp"
  al_saveModel :: "'a \<Rightarrow> (int \<times> 'a) cpp"

definition prepare_steps :: "'a algorithm \<Rightarrow> task_config \<Rightarrow> ('a \<Rightarrow> (int \<times> 'a) cpp) list" where
  "prepare_steps al task = [al_loadParams al task, al_loadDataset al, al_initPartyComm al,
     \<lambda>a. cbind (al_InitEngine al a) (\<lambda>a'. Ret (0, a'))]"

(* src/src/fediux/task/semantic/mpc_task.cc:139-169 MPCTask::ExecuteImpl *)
definition ExecuteImpl :: "'a algorithm \<Rightarrow> task_config \<Rightarrow> 'a \<Rightarrow> (retcode \<times> 'a) cpp" where
  "ExecuteImpl al task = run_steps (prepare_steps al task @ [al_execute al, al_saveModel al])"

lemma run_steps_append:
  "run_steps (ss @ ts) a = cbind (run_steps ss a) (\<lambda>(r, a'). if r = SUCCESS then run_steps ts a' else Ret (FAIL, a'))"
proof (induction ss arbitrary: a)
  case (Cons s ss)
  show ?case by (cases "s a") (auto simp: Cons)
qed simp

end
