(* ===== verification/Arithmetic_Task.thy ===== *)
theory Arithmetic_Task
  imports Mpc_Task Dataset_Service Express_Mpc Aby3_Compare
begin

text \<open>
  The arithmetic task (algorithm/arithmetic.cc): it reads its parameters and the party's columns, evaluates
  an expression, or compares two columns, by the executor and the operator of the other theories, and
  writes the result. The data set, the storage path and the writing of a file are parameters, and so are
  doubles and the protocol, as in those theories.
\<close>

section \<open>State\<close>

datatype saved_type = SavedDouble | SavedInt64 | SavedBool

text \<open>The array of a saved table holds doubles, whatever type its schema gives.\<close>

record 'd saved_table =
  sv_name :: string
  sv_type :: saved_type
  sv_values :: "'d list"

(* src/src/fediux/algorithm/arithmetic.h:22-64 ArithmeticExecutor *)
record ('m, 'd, 'si, 'sf) arith =
  ar_config :: party_config
  ar_party_id :: u32
  ar_dataset_id :: string
  ar_detail :: bool
  ar_parties :: "u32 list"
  ar_is_cmp :: bool
  ar_cmp_res :: "bool list"
  ar_i64_cmp :: bool
  ar_expr :: string
  ar_cmp_col1 :: string
  ar_cmp_col2 :: string
  ar_owner :: "(string \<times> u32) list"
  ar_dtype :: "(string \<times> bool) list"
  ar_final_double :: "'d list"
  ar_final_int64 :: "i64 list"
  ar_val_double :: "(string \<times> 'd list) list"
  ar_val_int :: "(string \<times> i64 list) list"
  ar_res_name :: string
  ar_exec :: "('d, 'si, 'sf) executor"
  ar_links :: "(party_link \<times> party_link) option"
  ar_mpc :: 'm
  ar_files :: "(string \<times> 'd saved_table) list"

record ('m, 'si, 'sf, 'd, 'fx) arith_env =
  ae_fp :: "'d fp_arith"
  ae_op :: "('m, 'si, 'sf, 'd, 'fx) mpc_op"
  ae_read :: "string \<Rightarrow> bool \<Rightarrow> 'd table option cpp"
  ae_storage :: string
  ae_write :: "string \<Rightarrow> 'd saved_table \<Rightarrow> int"

(* src/src/fediux/executor/express.cc:359-362 MPCExpressExecutor::MPCExpressExecutor *)
definition new_executor :: "('d, 'si, 'sf) executor" where
  "new_executor = \<lparr>x_fp64_run = False, x_expr = [], x_suffix = [], x_cfg = None, x_feed = None,
     x_tokval = Map.empty, x_toktype = Map.empty, x_party = 0\<rparr>"

(* src/src/fediux/algorithm/arithmetic.cc:25-33 ArithmeticExecutor::ArithmeticExecutor *)
definition new_arith :: "party_config \<Rightarrow> 'm \<Rightarrow> ('m, 'd, 'si, 'sf) arith cpp" where
  "new_arith config m = cbind (SelfPartyId config) (\<lambda>i. Ret
     \<lparr>ar_config = config, ar_party_id = ucast i, ar_dataset_id = [], ar_detail = False, ar_parties = [],
      ar_is_cmp = False, ar_cmp_res = [], ar_i64_cmp = True, ar_expr = [], ar_cmp_col1 = [], ar_cmp_col2 = [],
      ar_owner = [], ar_dtype = [], ar_final_double = [], ar_final_int64 = [], ar_val_double = [],
      ar_val_int = [], ar_res_name = [], ar_exec = new_executor, ar_links = None, ar_mpc = m, ar_files = []\<rparr>)"

section \<open>Parameters\<close>

definition text_param :: "task_config \<Rightarrow> string \<Rightarrow> string" where
  "text_param task k = (case tk_params task k of None \<Rightarrow> [] | Some p \<Rightarrow> param_string p)"

(* src/src/fediux/algorithm/arithmetic.cc:43-71 ArithmeticExecutor::loadParams *)
definition task_dataset :: "string \<Rightarrow> task_config \<Rightarrow> (string \<times> bool) option" where
  "task_dataset party_name task =
     Option.bind (map_of (tk_datasets task) party_name) (\<lambda>pd.
     Option.bind (map_of (pd_data pd) ''Data_File'') (\<lambda>dataset_id.
       if pd_detail pd \<and> tk_params task ''Data_File'' = None then None else Some (dataset_id, pd_detail pd)))"

text \<open>The parts before and behind the first dash; without one, both are the whole text.\<close>

(* src/src/fediux/algorithm/arithmetic.cc:85-87 ArithmeticExecutor::loadParams *)
definition split_dash :: "string \<Rightarrow> string \<times> string" where
  "split_dash s = (if CHR ''-'' \<in> set s
     then (takeWhile (\<lambda>c. c \<noteq> CHR ''-'') s, tl (dropWhile (\<lambda>c. c \<noteq> CHR ''-'') s)) else (s, s))"

(* src/src/fediux/algorithm/arithmetic.cc:84-97 ArithmeticExecutor::loadParams *)
fun parse_owners :: "party_config \<Rightarrow> string list \<Rightarrow> (string \<times> u32) list \<Rightarrow> (string \<times> u32) list option" where
  "parse_owners c [] m = Some m"
| "parse_owners c (w # ws) m =
     (let (col, party_name) = split_dash w
      in Option.bind (PartyName2PartyId c party_name) (\<lambda>owner. parse_owners c ws (al_insert col (ucast owner) m)))"

text \<open>\<open>atoi\<close>: the value of \<open>strtol\<close>, which saturates, cut to 32 bits.\<close>

definition c_strtol :: "string \<Rightarrow> int" where
  "c_strtol s0 = (let s = dropWhile is_space_char s0;
     v = (case s of [] \<Rightarrow> 0
       | c # cs \<Rightarrow> if c = CHR ''-'' then - int (dec_val (takeWhile is_digit cs))
                   else if c = CHR ''+'' then int (dec_val (takeWhile is_digit cs))
                   else int (dec_val (takeWhile is_digit s)))
     in max (- (2 ^ 63)) (min (2 ^ 63 - 1) v))"

definition c_atoi :: "string \<Rightarrow> int" where
  "c_atoi s = sint (word_of_int (c_strtol s) :: u32)"

text \<open>The type of a column is kept as a truth value.\<close>

(* src/src/fediux/algorithm/arithmetic.cc:102-108 ArithmeticExecutor::loadParams *)
definition parse_dtypes :: "string list \<Rightarrow> (string \<times> bool) list" where
  "parse_dtypes ws = fold (\<lambda>w. case split_dash w of (col, ty) \<Rightarrow> al_insert col (c_atoi ty \<noteq> 0)) ws []"

(* src/src/fediux/algorithm/arithmetic.cc:137-148 ArithmeticExecutor::loadParams *)
fun parse_parties :: "party_config \<Rightarrow> string list \<Rightarrow> u32 list option" where
  "parse_parties c [] = Some []"
| "parse_parties c (w # ws) =
     Option.bind (PartyName2PartyId c w) (\<lambda>i. map_option (Cons (ucast i)) (parse_parties c ws))"

text \<open>The columns of a comparison are cut out of the text of every expression; one of fewer than four characters throws.\<close>

(* src/src/fediux/algorithm/arithmetic.cc:112-116 ArithmeticExecutor::loadParams *)
definition compared_columns :: "string \<Rightarrow> (string \<times> string) option" where
  "compared_columns expr =
     (if length expr < 4 then None
      else let comma = length (takeWhile (\<lambda>c. c \<noteq> CHR '','') expr); rest = drop 4 expr
        in if comma = length expr then Some (rest, take (length expr - 1) expr)
           else Some (if 4 \<le> comma then take (comma - 4) rest else rest,
             if comma + 2 \<le> length expr then take (length expr - comma - 2) (drop (comma + 1) expr) else []))"

text \<open>
  \<open>None\<close>: the step fails, and the task ends with it. The executor of expressions is there in any case; a
  comparison does not use it.
\<close>

(* src/src/fediux/algorithm/arithmetic.cc:35-159 ArithmeticExecutor::loadParams *)
definition arith_params ::
  "string \<Rightarrow> task_config \<Rightarrow> ('m, 'd, 'si, 'sf) arith \<Rightarrow> ('m, 'd, 'si, 'sf) arith option" where
  "arith_params storage task a =
     (let c = ar_config a; expr = text_param task ''Expr''
      in Option.bind (ExtractProxyNode task) (\<lambda>proxy_node.
         Option.bind (task_dataset (pc_party_name c) task) (\<lambda>(dataset_id, detail).
         Option.bind (parse_owners c (str_split_char (CHR '';'') (text_param task ''Col_And_Owner'')) (ar_owner a)) (\<lambda>owner.
         Option.bind (compared_columns expr) (\<lambda>(col1, col2).
         Option.bind (parse_parties c (str_split_char (CHR '';'') (text_param task ''RevealToParties''))) (\<lambda>parties.
           Some (a\<lparr>ar_dataset_id := dataset_id, ar_detail := detail, ar_owner := owner,
             ar_dtype := parse_dtypes (str_split_char (CHR '';'') (text_param task ''Col_And_Dtype'')),
             ar_expr := expr, ar_cmp_col1 := col1, ar_cmp_col2 := col2, ar_is_cmp := (take 3 expr = ''CMP''),
             ar_parties := parties, ar_res_name := CompletePath storage (text_param task ''ResFileName'')\<rparr>)))))))"

(* src/src/fediux/algorithm/arithmetic.cc:35-159 ArithmeticExecutor::loadParams *)
definition arith_loadParams ::
  "('m, 'si, 'sf, 'd, 'fx) arith_env \<Rightarrow> task_config \<Rightarrow> ('m, 'd, 'si, 'sf) arith \<Rightarrow> (int \<times> ('m, 'd, 'si, 'sf) arith) cpp" where
  "arith_loadParams env task a =
     (case arith_params (ae_storage env) task a of None \<Rightarrow> Ret (-1, a) | Some a' \<Rightarrow> Ret (0, a'))"

section \<open>Data\<close>

fun fold_cpp :: "('a \<Rightarrow> 's \<Rightarrow> 's cpp) \<Rightarrow> 'a list \<Rightarrow> 's \<Rightarrow> 's cpp" where
  "fold_cpp f [] s = Ret s"
| "fold_cpp f (x # xs) s = cbind (f x s) (fold_cpp f xs)"

text \<open>
  A column that the task names is read by its type; a column of text, or of narrow integers, is read as
  doubles through a cast that it does not allow.
\<close>

(* src/src/fediux/algorithm/arithmetic.cc:487-581 ArithmeticExecutor::_LoadDatasetFromCSV *)
definition load_column ::
  "'d fp_arith \<Rightarrow> 'd table \<Rightarrow> nat \<Rightarrow> string \<times> 'd chunks \<Rightarrow> ('m, 'd, 'si, 'sf) arith \<Rightarrow> ('m, 'd, 'si, 'sf) arith cpp" where
  "load_column fp table array_len = (\<lambda>(col_name, col) a.
     case map_of (ar_dtype a) col_name of
       None \<Rightarrow> Ret a
     | Some is_double \<Rightarrow>
         if GetColumnByName table col_name = None then Undef
         else
           (let checked = (\<lambda>n a'. if n = array_len then Ret a'
               else Throw (''Party: '' @ pc_party_name (ar_config a) @ '', Column '' @ col_name @ '' has '' @ dec_string n @
                 '' value, but other column has '' @ dec_string array_len @ '' value.''));
                doubles = (\<lambda>v. checked (length v) (a\<lparr>ar_val_double := al_insert col_name v (ar_val_double a)\<rparr>))
            in if \<not> is_double then
                 (case col of
                    Int64Chunks cs \<Rightarrow> checked (length (concat cs))
                      (a\<lparr>ar_val_int := al_insert col_name (concat cs) (ar_val_int a)\<rparr>)
                  | _ \<Rightarrow> Throw (''Local data type is inconsistent with the demand data type!Demand data type is int,'' @
                      ''but local data type is double!Please input consistent data type!''))
               else
                 (case col of
                    Int64Chunks cs \<Rightarrow> doubles (map (f_of_i64 fp) (concat cs))
                  | DoubleChunks cs \<Rightarrow> doubles (concat cs)
                  | _ \<Rightarrow> Undef)))"

(* src/src/fediux/algorithm/arithmetic.cc:448-586 ArithmeticExecutor::_LoadDatasetFromCSV *)
definition LoadDatasetFromCSV ::
  "('m, 'si, 'sf, 'd, 'fx) arith_env \<Rightarrow> ('m, 'd, 'si, 'sf) arith \<Rightarrow> (int \<times> ('m, 'd, 'si, 'sf) arith) cpp" where
  "LoadDatasetFromCSV env a =
     cbind (ae_read env (ar_dataset_id a) (ar_detail a)) (\<lambda>ds. case ds of
         None \<Rightarrow> Ret (-1, a)
       | Some table \<Rightarrow>
           if table = [] then Undef
           else (let array_len = sum_list (chunk_lengths (snd (last table)))
             in cbind (fold_cpp (load_column (ae_fp env) table array_len) table a) (\<lambda>a'.
                  Ret (sint (of_nat array_len :: u32), a'))))"

text \<open>Two columns of different types: the one of integers is turned into doubles, by its owner.\<close>

(* src/src/fediux/algorithm/arithmetic.cc:170-244 ArithmeticExecutor::loadDataset *)
definition compare_types ::
  "'d fp_arith \<Rightarrow> ('m, 'd, 'si, 'sf) arith \<Rightarrow> (int \<times> ('m, 'd, 'si, 'sf) arith) cpp" where
  "compare_types fp a =
     (case map_of (ar_dtype a) (ar_cmp_col1 a) of
        None \<Rightarrow> Throw (''Can't find dtype of column '' @ ar_cmp_col1 a @ ''.'')
      | Some d1 \<Rightarrow> (case map_of (ar_dtype a) (ar_cmp_col2 a) of
            None \<Rightarrow> Throw (''Can't find dtype of column '' @ ar_cmp_col1 a @ ''.'')
          | Some d2 \<Rightarrow>
              if d1 = d2 then Ret (0, a\<lparr>ar_i64_cmp := \<not> d1\<rparr>)
              else
                (let convert_col = (if \<not> d1 then ar_cmp_col1 a else ar_cmp_col2 a); a = a\<lparr>ar_i64_cmp := False\<rparr>
                 in case map_of (ar_owner a) convert_col of
                      None \<Rightarrow> Throw (''Party: '' @ pc_party_name (ar_config a) @ '', Can't find the party that column '' @
                        convert_col @ '' belong to.'')
                    | Some owner \<Rightarrow>
                        if ar_party_id a \<noteq> owner then Ret (0, a)
                        else (case map_of (ar_val_int a) convert_col of
                            None \<Rightarrow> Throw (''Party: '' @ pc_party_name (ar_config a) @ '', Can't find column value with column name '' @
                              convert_col @ ''.'')
                          | Some col_src \<Rightarrow> Ret (0, a\<lparr>
                              ar_val_double := al_insert convert_col (map (f_of_i64 fp) col_src) (ar_val_double a),
                              ar_val_int := AList.delete convert_col (ar_val_int a)\<rparr>)))))"

text \<open>
  The expression's executor is set up. The columns of integers are given to it only when there is none of
  doubles; results other than exceptions are not looked at.
\<close>

(* src/src/fediux/algorithm/arithmetic.cc:246-268 ArithmeticExecutor::loadDataset *)
definition load_express ::
  "'d fp_arith \<Rightarrow> ('m, 'd, 'si, 'sf) arith \<Rightarrow> (int \<times> ('m, 'd, 'si, 'sf) arith) cpp" where
  "load_express fp a =
     (let x0 = x_initColumnConfig (ar_party_id a) (ar_exec a);
          values = (if ar_val_double a \<noteq> [] then map (\<lambda>(c, v). (c, Inr v)) (sort_key fst (ar_val_double a))
            else map (\<lambda>(c, v). (c, Inl v)) (sort_key fst (ar_val_int a)))
      in cbind (fold_cpp (\<lambda>(col, p) x. cbind (x_importColumnOwner col p x) (\<lambda>(_, x). Ret x)) (sort_key fst (ar_owner a)) x0) (\<lambda>x.
         cbind (fold_cpp (\<lambda>(col, d) x. cbind (x_importColumnDtype col d x) (\<lambda>(_, x). Ret x)) (sort_key fst (ar_dtype a)) x) (\<lambda>x.
         cbind (x_importExpress (ar_expr a) x) (\<lambda>(_, x).
         cbind (x_resolveRunMode x) (\<lambda>(_, x).
         cbind (fold_cpp (\<lambda>(col, v) x. cbind (x_importColumnValues fp col v x) (\<lambda>(_, x). Ret x)) values (x_InitFeedDict x)) (\<lambda>x.
           Ret (0, a\<lparr>ar_exec := x\<rparr>)))))))"

(* src/src/fediux/algorithm/arithmetic.cc:161-269 ArithmeticExecutor::loadDataset *)
definition arith_loadDataset ::
  "('m, 'si, 'sf, 'd, 'fx) arith_env \<Rightarrow> ('m, 'd, 'si, 'sf) arith \<Rightarrow> (int \<times> ('m, 'd, 'si, 'sf) arith) cpp" where
  "arith_loadDataset env a =
     cbind (LoadDatasetFromCSV env a) (\<lambda>(ret, a).
       if ret \<le> 0 then Ret (-1, a)
       else if ar_is_cmp a then compare_types (ae_fp env) a
       else load_express (ae_fp env) a)"

section \<open>The run\<close>

(* src/src/fediux/algorithm/arithmetic.cc:271-280 ArithmeticExecutor::InitEngine *)
definition arith_InitEngine :: "('m, 'd, 'si, 'sf) arith \<Rightarrow> ('m, 'd, 'si, 'sf) arith cpp" where
  "arith_InitEngine a =
     (if ar_is_cmp a then Ret a
      else Ret (a\<lparr>ar_exec := (ar_exec a)\<lparr>x_party := ar_party_id a\<rparr>\<rparr>))"

definition rethrow :: "(string \<Rightarrow> string) \<Rightarrow> 'a cpp \<Rightarrow> 'a cpp" where
  "rethrow f r = (case r of Throw e \<Rightarrow> Throw (f e) | _ \<Rightarrow> r)"

lemma rethrow_Ret [simp]: "rethrow f (Ret x) = Ret x"
  by (simp add: rethrow_def)

text \<open>The result of the evaluation is not looked at before its value is revealed.\<close>

(* src/src/fediux/algorithm/arithmetic.cc:353-375 ArithmeticExecutor::execute *)
definition execute_express ::
  "('m, 'si, 'sf, 'd, 'fx) arith_env \<Rightarrow> ('m, 'd, 'si, 'sf) arith \<Rightarrow> (int \<times> ('m, 'd, 'si, 'sf) arith) cpp" where
  "execute_express env a = rethrow (\<lambda>e. ''Error occurs during MPC run, '' @ e @ ''.'')
     (cbind (runMPCEvaluate (ae_fp env) (ae_op env) (ar_exec a) (ar_mpc a)) (\<lambda>(_, x, m).
       if x_fp64_run x then
         cbind (revealMPCResult_fp (ae_op env) (ar_parties a) (ar_final_double a) x m) (\<lambda>(v, x, m).
           Ret (0, a\<lparr>ar_exec := x, ar_mpc := m, ar_final_double := v\<rparr>))
       else
         cbind (revealMPCResult_i64 (ae_op env) (ar_parties a) (ar_final_int64 a) x m) (\<lambda>(v, x, m).
           Ret (0, a\<lparr>ar_exec := x, ar_mpc := m, ar_final_int64 := v\<rparr>))))"

(* src/src/fediux/algorithm/arithmetic.cc:391-424 ArithmeticExecutor::saveModel *)
definition result_table :: "'d fp_arith \<Rightarrow> ('m, 'd, 'si, 'sf) arith \<Rightarrow> 'd saved_table" where
  "result_table fp a =
     (if ar_final_double a \<noteq> [] then
        \<lparr>sv_name = ar_expr a, sv_type = SavedDouble, sv_values = ar_final_double a\<rparr>
      else if ar_final_int64 a \<noteq> [] then
        \<lparr>sv_name = ar_expr a, sv_type = SavedInt64, sv_values = map (f_of_i64 fp) (ar_final_int64 a)\<rparr>
      else
        \<lparr>sv_name = ar_expr a, sv_type = SavedBool, sv_values = map (\<lambda>b. f_of_i64 fp (if b then 1 else 0)) (ar_cmp_res a)\<rparr>)"

(* src/src/fediux/algorithm/arithmetic.cc:378-446 ArithmeticExecutor::saveModel *)
definition arith_saveModel ::
  "('m, 'si, 'sf, 'd, 'fx) arith_env \<Rightarrow> ('m, 'd, 'si, 'sf) arith \<Rightarrow> (int \<times> ('m, 'd, 'si, 'sf) arith) cpp" where
  "arith_saveModel env a =
     (if ar_party_id a \<notin> set (ar_parties a) then Ret (0, a)
      else let table = result_table (ae_fp env) a
        in if ae_write env (ar_res_name a) table \<noteq> 0 then Ret (-1, a)
           else Ret (0, a\<lparr>ar_files := ar_files a @ [(ar_res_name a, table)]\<rparr>))"

text \<open>
  The task of one party. The comparison is a step of all three together; \<open>compare\<close> is this party's part of
  it, and its three parts are below.
\<close>

definition arithmetic ::
  "('m, 'si, 'sf, 'd, 'fx) arith_env \<Rightarrow> (('m, 'd, 'si, 'sf) arith \<Rightarrow> (int \<times> ('m, 'd, 'si, 'sf) arith) cpp)
   \<Rightarrow> ('m, 'd, 'si, 'sf) arith algorithm" where
  "arithmetic env compare =
     \<lparr>al_loadParams = arith_loadParams env,
      al_loadDataset = arith_loadDataset env,
      al_initPartyComm = (\<lambda>a. cbind (initPartyComm (ar_config a)) (\<lambda>ls. Ret (0, a\<lparr>ar_links := Some ls\<rparr>))),
      al_InitEngine = arith_InitEngine,
      al_execute = (\<lambda>a. if ar_is_cmp a then compare a else execute_express env a),
      al_saveModel = arith_saveModel env\<rparr>"

section \<open>The comparison of columns\<close>

text \<open>
  The owner of a column brings it as a row; the owner that the map does not know is party 0, and a column
  without values is empty. Doubles are given in fixed point.
\<close>

(* src/src/fediux/algorithm/arithmetic.cc:290-333 ArithmeticExecutor::execute *)
definition compare_matrix :: "('d \<Rightarrow> i64) \<Rightarrow> ('m, 'd, 'si, 'sf) arith \<Rightarrow> matrix option" where
  "compare_matrix fix_point a =
     (let owner = (\<lambda>col. case map_of (ar_owner a) col of None \<Rightarrow> 0 | Some p \<Rightarrow> p);
          column = (\<lambda>col. if ar_i64_cmp a then (case map_of (ar_val_int a) col of None \<Rightarrow> [] | Some v \<Rightarrow> v)
            else (case map_of (ar_val_double a) col of None \<Rightarrow> [] | Some v \<Rightarrow> map fix_point v));
          row = (\<lambda>v. \<lparr>m_rows = 1, m_cols = length v, m_at = v\<rparr>)
      in if owner (ar_cmp_col1 a) = ar_party_id a then Some (row (column (ar_cmp_col1 a)))
         else if owner (ar_cmp_col2 a) = ar_party_id a then Some (row (column (ar_cmp_col2 a)))
         else None)"

(* src/src/fediux/algorithm/arithmetic.cc:335-344 ArithmeticExecutor::execute *)
fun reveal_compare ::
  "('n, 'b) aby3_bin \<Rightarrow> 'b \<Rightarrow> u32 list \<Rightarrow> (nat \<Rightarrow> ('m, 'd, 'si, 'sf) arith) \<Rightarrow> 'n \<Rightarrow> (nat \<Rightarrow> ('m, 'd, 'si, 'sf) arith) \<times> 'n" where
  "reveal_compare bin res [] as n = (as, n)"
| "reveal_compare bin res (q # qs) as n =
     (let (bits, n) = bin_reveal bin res n
      in reveal_compare bin res qs
           (\<lambda>p. if ar_party_id (as p) = q then (as p)\<lparr>ar_cmp_res := ar_cmp_res (as p) @ bits\<rparr> else as p) n)"

text \<open>
  The three parties reveal to the same parties in the same order; when their lists differ they wait for
  each other's messages, which is not told from undefined behaviour.
\<close>

(* src/src/fediux/algorithm/arithmetic.cc:282-351 ArithmeticExecutor::execute *)
definition execute_compare ::
  "('n, 'b) aby3_bin \<Rightarrow> (nat \<Rightarrow> i64 list) \<Rightarrow> ('d \<Rightarrow> i64) \<Rightarrow> (nat \<Rightarrow> ('m, 'd, 'si, 'sf) arith) \<Rightarrow> 'n
   \<Rightarrow> ((nat \<Rightarrow> ('m, 'd, 'si, 'sf) arith) \<times> 'n) cpp" where
  "execute_compare bin fresh fix_point as n =
     cbind (rethrow (\<lambda>e. ''Error occurs during MPC Compare, '' @ e) (MPC_Compare bin fresh (\<lambda>p. compare_matrix fix_point (as p)) n))
       (\<lambda>(res, _, n). if \<forall>p \<in> set [1, 2]. ar_parties (as p) = ar_parties (as 0)
          then Ret (reveal_compare bin res (ar_parties (as 0)) as n) else Undef)"

text \<open>The whole task of the three parties, when it is a comparison.\<close>

definition compare_task ::
  "('n, 'b) aby3_bin \<Rightarrow> (nat \<Rightarrow> i64 list) \<Rightarrow> ('d \<Rightarrow> i64) \<Rightarrow> (nat \<Rightarrow> ('m, 'si, 'sf, 'd, 'fx) arith_env)
   \<Rightarrow> (nat \<Rightarrow> task_config) \<Rightarrow> (nat \<Rightarrow> ('m, 'd, 'si, 'sf) arith) \<Rightarrow> 'n
   \<Rightarrow> (nat \<Rightarrow> retcode \<times> ('m, 'd, 'si, 'sf) arith) cpp" where
  "compare_task bin fresh fix_point env task as n =
     cbind (jointly (\<lambda>p. run_steps (prepare_steps (arithmetic (env p) (\<lambda>a. Ret (0, a))) (task p)) (as p))) (\<lambda>views.
       if \<forall>p \<in> set [0, 1, 2]. fst (views p) = SUCCESS \<and> ar_is_cmp (snd (views p)) then
         cbind (execute_compare bin fresh fix_point (\<lambda>p. snd (views p)) n) (\<lambda>(as, _).
           jointly (\<lambda>p. run_steps [arith_saveModel (env p)] (as p)))
       else Undef)"

end
