(* ===== verification/Arithmetic_Correct.thy ===== *)
theory Arithmetic_Correct
  imports Arithmetic_Task Express_Correct "HOL-Library.Multiset"
begin

text \<open>
  The arithmetic task from its request to the written file: the parameters and the party's columns reach the
  executor, whose result is what the expression means. Where this fails is said too.
\<close>

section \<open>Parameters\<close>

lemma al_insert_new: "k \<notin> fst ` set al \<Longrightarrow> al_insert k v al = al @ [(k, v)]"
proof -
  assume "k \<notin> fst ` set al"
  then have "map_of al k = None" by (simp add: map_of_eq_None_iff)
  then show ?thesis by (simp add: al_insert_def)
qed

lemma split_dash_join: "CHR ''-'' \<notin> set col \<Longrightarrow> split_dash (col @ CHR ''-'' # w) = (col, w)"
  by (simp add: split_dash_def takeWhile_append dropWhile_append)

definition pid :: "party_config \<Rightarrow> string \<Rightarrow> u32" where
  "pid c party_name = (case PartyName2PartyId c party_name of None \<Rightarrow> 0 | Some i \<Rightarrow> ucast i)"

lemma parse_owners_join:
  "distinct (map fst cols) \<Longrightarrow> fst ` set cols \<inter> fst ` set m = {} \<Longrightarrow>
   \<forall>(col, owner) \<in> set cols. CHR ''-'' \<notin> set col \<and> PartyName2PartyId c owner \<noteq> None \<Longrightarrow>
   parse_owners c (map (\<lambda>(col, owner). col @ CHR ''-'' # owner) cols) m
     = Some (m @ map (\<lambda>(col, owner). (col, pid c owner)) cols)"
proof (induction cols arbitrary: m)
  case (Cons x cols)
  obtain col owner where x: "x = (col, owner)" by (cases x)
  obtain i where i: "PartyName2PartyId c owner = Some i" "CHR ''-'' \<notin> set col" using Cons.prems(3) x by auto
  have n: "al_insert col (ucast i) m = m @ [(col, ucast i)]"
    using Cons.prems(2) x by (intro al_insert_new) auto
  have d: "distinct (map fst cols)" "fst ` set cols \<inter> fst ` set (m @ [(col, ucast i :: u32)]) = {}"
    using Cons.prems(1,2) x by (auto simp: image_iff)
  have "parse_owners c (map (\<lambda>(col, owner). col @ CHR ''-'' # owner) cols) (m @ [(col, ucast i)])
     = Some ((m @ [(col, ucast i)]) @ map (\<lambda>(col, owner). (col, pid c owner)) cols)"
    by (rule Cons.IH [OF d]) (use Cons.prems(3) in auto)
  then show ?case using i n by (simp add: x split_dash_join pid_def)
qed simp

lemma parse_dtypes_fold:
  "distinct (map fst cols) \<Longrightarrow> fst ` set cols \<inter> fst ` set m = {} \<Longrightarrow> \<forall>(col, _) \<in> set cols. CHR ''-'' \<notin> set col \<Longrightarrow>
   fold (\<lambda>w. case split_dash w of (col, ty) \<Rightarrow> al_insert col (c_atoi ty \<noteq> 0)) (map (\<lambda>(col, owner). col @ ''-0'') cols) m
     = m @ map (\<lambda>(col, owner). (col, False)) cols"
proof (induction cols arbitrary: m)
  case (Cons x cols)
  obtain col owner where x: "x = (col, owner)" by (cases x)
  have z: "c_atoi ''0'' = 0" by (simp add: c_atoi_def c_strtol_def is_space_char_def is_digit_def dec_val_def digit_val_def)
  have "al_insert col False m = m @ [(col, False)]"
    using Cons.prems(2) x by (intro al_insert_new) auto
  moreover have "fold (\<lambda>w. case split_dash w of (col, ty) \<Rightarrow> al_insert col (c_atoi ty \<noteq> 0)) (map (\<lambda>(col, owner). col @ ''-0'') cols)
      (m @ [(col, False)]) = (m @ [(col, False)]) @ map (\<lambda>(col, owner). (col, False)) cols"
    by (rule Cons.IH) (use Cons.prems x in \<open>auto simp: image_iff\<close>)
  ultimately show ?case using Cons.prems(3) split_dash_join [of col "''0''"] by (simp add: x z)
qed simp

lemma parse_parties_all:
  "\<forall>p \<in> set ps. PartyName2PartyId c p \<noteq> None \<Longrightarrow> parse_parties c ps = Some (map (pid c) ps)"
proof (induction ps)
  case (Cons p ps)
  then obtain i where "PartyName2PartyId c p = Some i" by auto
  with Cons show ?case by (simp add: pid_def)
qed simp

text \<open>
  A task over columns of integers, that names the owner of each and the parties that get the result; and one
  that asks for the expression \<open>e\<close> over them.
\<close>

definition column_params :: "party_config \<Rightarrow> task_config \<Rightarrow> (string \<times> string) list \<Rightarrow> string list \<Rightarrow> bool" where
  "column_params c task cols parties \<longleftrightarrow>
     cols \<noteq> [] \<and> distinct (map fst cols) \<and> parties \<noteq> []
     \<and> (\<forall>(col, owner) \<in> set cols. CHR ''-'' \<notin> set col \<and> CHR '';'' \<notin> set col \<and> CHR '';'' \<notin> set owner
          \<and> PartyName2PartyId c owner \<noteq> None)
     \<and> (\<forall>p \<in> set parties. CHR '';'' \<notin> set p \<and> PartyName2PartyId c p \<noteq> None)
     \<and> text_param task ''Col_And_Owner'' = join_with '';'' (map (\<lambda>(col, owner). col @ CHR ''-'' # owner) cols)
     \<and> text_param task ''Col_And_Dtype'' = join_with '';'' (map (\<lambda>(col, owner). col @ ''-0'') cols)
     \<and> text_param task ''RevealToParties'' = join_with '';'' parties
     \<and> ExtractProxyNode task \<noteq> None"

definition expression_task :: "party_config \<Rightarrow> task_config \<Rightarrow> syn \<Rightarrow> (string \<times> string) list \<Rightarrow> string list \<Rightarrow> bool" where
  "expression_task c task e cols parties \<longleftrightarrow>
     wf_syn e \<and> no_div e \<and> pend e = [] \<and> set (leaves e) \<subseteq> fst ` set cols
     \<and> text_param task ''Expr'' = syn_text e \<and> column_params c task cols parties"

lemma params_read:
  assumes "column_params (ar_config a) task cols parties" "compared_columns (text_param task ''Expr'') = Some (col1, col2)"
    "task_dataset (pc_party_name (ar_config a)) task = Some (ds, detail)" "ar_owner a = []"
  shows "arith_params storage task a = Some (a\<lparr>ar_dataset_id := ds, ar_detail := detail,
        ar_owner := map (\<lambda>(col, owner). (col, pid (ar_config a) owner)) cols,
        ar_dtype := map (\<lambda>(col, owner). (col, False)) cols, ar_expr := text_param task ''Expr'', ar_cmp_col1 := col1,
        ar_cmp_col2 := col2, ar_is_cmp := (take 3 (text_param task ''Expr'') = ''CMP''),
        ar_parties := map (pid (ar_config a)) parties,
        ar_res_name := CompletePath storage (text_param task ''ResFileName'')\<rparr>)"
proof -
  let ?c = "ar_config a"
  note e = assms(1) [unfolded column_params_def]
  obtain n where n: "ExtractProxyNode task = Some n" using e by blast
  have o: "str_split_char CHR '';'' (text_param task ''Col_And_Owner'') = map (\<lambda>(col, owner). col @ CHR ''-'' # owner) cols"
    using e str_split_char_join [of "map (\<lambda>(col, owner). col @ CHR ''-'' # owner) cols" "CHR '';''"] by auto
  have t: "str_split_char CHR '';'' (text_param task ''Col_And_Dtype'') = map (\<lambda>(col, owner). col @ ''-0'') cols"
    using e str_split_char_join [of "map (\<lambda>(col, owner). col @ ''-0'') cols" "CHR '';''"] by auto
  have r: "str_split_char CHR '';'' (text_param task ''RevealToParties'') = parties"
    using e str_split_char_join [of parties "CHR '';''"] by auto
  have "parse_owners ?c (map (\<lambda>(col, owner). col @ CHR ''-'' # owner) cols) [] = Some ([] @ map (\<lambda>(col, owner). (col, pid ?c owner)) cols)"
    by (rule parse_owners_join) (use e in auto)
  moreover have "parse_dtypes (map (\<lambda>(col, owner). col @ ''-0'') cols) = [] @ map (\<lambda>(col, owner). (col, False)) cols"
    unfolding parse_dtypes_def by (rule parse_dtypes_fold) (use e in auto)
  moreover have "parse_parties ?c parties = Some (map (pid ?c) parties)" by (rule parse_parties_all) (use e in auto)
  ultimately show ?thesis
    using n o t r assms(2-4) by (simp add: arith_params_def Let_def)
qed

lemma expression_columns: "4 \<le> length s \<Longrightarrow> \<exists>col1 col2. compared_columns s = Some (col1, col2)"
proof -
  assume "4 \<le> length s"
  then have "compared_columns s \<noteq> None" by (simp add: compared_columns_def Let_def)
  then show ?thesis by (metis option.exhaust surj_pair)
qed

section \<open>The party's columns\<close>

text \<open>
  The table of a party: the columns that the task names are columns of integers of one length \<open>n\<close>, and
  those that belong to the party are there, with the values of \<open>env\<close>.
\<close>

definition holds ::
  "'d table \<Rightarrow> (string \<times> u32) list \<Rightarrow> u32 \<Rightarrow> (string \<Rightarrow> i64 list) \<Rightarrow> nat \<Rightarrow> bool" where
  "holds table owners me env n \<longleftrightarrow>
     table \<noteq> [] \<and> distinct (map fst table) \<and> 0 < n \<and> n < 2 ^ 31 \<and> sum_list (chunk_lengths (snd (last table))) = n
     \<and> (\<forall>(name, col) \<in> set table. name \<in> fst ` set owners \<longrightarrow> (\<exists>cs. col = Int64Chunks cs \<and> length (concat cs) = n))
     \<and> (\<forall>(name, owner) \<in> set owners. owner = me \<longrightarrow> (\<exists>cs. (name, Int64Chunks cs) \<in> set table \<and> concat cs = env name))"

fun int_values :: "'d chunks \<Rightarrow> i64 list" where
  "int_values (Int64Chunks cs) = concat cs"
| "int_values _ = []"

lemma load_columns:
  assumes "distinct (map fst table)" "\<forall>(name, col) \<in> set table. map_of (ar_dtype a) name \<noteq> None \<longrightarrow>
     map_of (ar_dtype a) name = Some False \<and> (\<exists>cs. col = Int64Chunks cs \<and> length (concat cs) = n)"
    "set cols \<subseteq> set table" "distinct (map fst cols)" "fst ` set cols \<inter> fst ` set (ar_val_int a) = {}"
  shows "fold_cpp (load_column fp table n) cols a = Ret (a\<lparr>ar_val_int := ar_val_int a @
     map (\<lambda>(name, col). (name, int_values col)) (filter (\<lambda>(name, _). map_of (ar_dtype a) name \<noteq> None) cols)\<rparr>)"
  using assms(2-)
proof (induction cols arbitrary: a)
  case (Cons x cols)
  obtain name col where x: "x = (name, col)" by (cases x)
  then have get: "GetColumnByName table name = Some col"
    using Cons.prems(2) GetColumnByName_distinct [OF assms(1), of name col] by simp
  show ?case
  proof (cases "map_of (ar_dtype a) name")
    case None
    then have "load_column fp table n (name, col) a = Ret a" by (simp add: load_column_def)
    with Cons None show ?thesis by (simp add: x)
  next
    case (Some d)
    with Cons.prems(1,2) x obtain cs where cs: "col = Int64Chunks cs" "length (concat cs) = n" "d = False" by fastforce
    let ?a = "a\<lparr>ar_val_int := ar_val_int a @ [(name, concat cs)]\<rparr>"
    have "al_insert name (concat cs) (ar_val_int a) = ar_val_int a @ [(name, concat cs)]"
      using Cons.prems(4) x by (intro al_insert_new) auto
    then have "load_column fp table n (name, col) a = Ret ?a"
      using Some cs get by (simp add: load_column_def Let_def del: length_concat)
    moreover have "fold_cpp (load_column fp table n) cols ?a = Ret (?a\<lparr>ar_val_int := ar_val_int ?a @
        map (\<lambda>(name, col). (name, int_values col)) (filter (\<lambda>(name, _). map_of (ar_dtype ?a) name \<noteq> None) cols)\<rparr>)"
      by (rule Cons.IH) (use Cons.prems x in \<open>auto simp: image_iff\<close>)
    ultimately show ?thesis using Some cs by (simp add: x all_bool_eq ex_bool_eq)
  qed
qed simp

section \<open>The executor is set up\<close>

lemma import_owners:
  "x_cfg x = Some c \<Longrightarrow> distinct (map fst os) \<Longrightarrow> fst ` set os \<inter> fst ` set (col_owner c) = {} \<Longrightarrow>
   fold_cpp (\<lambda>(col, p) x. cbind (x_importColumnOwner col p x) (\<lambda>(_, x). Ret x)) os x
     = Ret (x\<lparr>x_cfg := Some (c\<lparr>col_owner := col_owner c @ os\<rparr>)\<rparr>)"
proof (induction os arbitrary: x c)
  case (Cons y os)
  obtain col p where y: "y = (col, p)" by (cases y)
  let ?c = "c\<lparr>col_owner := col_owner c @ [(col, p)]\<rparr>"
  have new: "col \<notin> fst ` set (col_owner c)" using Cons.prems(3) y by auto
  then have "map_of (col_owner c) col = None" by (simp add: map_of_eq_None_iff)
  then have "x_importColumnOwner col p x = Ret (0, x\<lparr>x_cfg := Some ?c\<rparr>)"
    using Cons.prems(1) al_insert_new [OF new] by (simp add: x_importColumnOwner_def cfg_importColumnOwner_def)
  moreover have "fold_cpp (\<lambda>(col, p) x. cbind (x_importColumnOwner col p x) (\<lambda>(_, x). Ret x)) os (x\<lparr>x_cfg := Some ?c\<rparr>)
     = Ret (x\<lparr>x_cfg := Some ?c\<rparr>\<lparr>x_cfg := Some (?c\<lparr>col_owner := col_owner ?c @ os\<rparr>)\<rparr>)"
    by (rule Cons.IH) (use Cons.prems y in \<open>auto simp: image_iff\<close>)
  ultimately show ?case by (simp add: y)
qed simp

lemma import_dtypes:
  "x_cfg x = Some c \<Longrightarrow> distinct (map fst ds) \<Longrightarrow> fst ` set ds \<inter> fst ` set (col_dtype c) = {} \<Longrightarrow>
   fold_cpp (\<lambda>(col, d) x. cbind (x_importColumnDtype col d x) (\<lambda>(_, x). Ret x)) ds x
     = Ret (x\<lparr>x_cfg := Some (c\<lparr>col_dtype := col_dtype c @ map (\<lambda>(col, d). (col, if d then FP64 else INT64)) ds\<rparr>)\<rparr>)"
proof (induction ds arbitrary: x c)
  case (Cons y ds)
  obtain col d where y: "y = (col, d)" by (cases y)
  let ?t = "if d then FP64 else INT64"
  let ?c = "c\<lparr>col_dtype := col_dtype c @ [(col, ?t)]\<rparr>"
  have new: "col \<notin> fst ` set (col_dtype c)" using Cons.prems(3) y by auto
  then have "map_of (col_dtype c) col = None" by (simp add: map_of_eq_None_iff)
  then have "x_importColumnDtype col d x = Ret (0, x\<lparr>x_cfg := Some ?c\<rparr>)"
    using Cons.prems(1) al_insert_new [OF new] by (simp add: x_importColumnDtype_def cfg_importColumnDtype_def)
  moreover have "fold_cpp (\<lambda>(col, d) x. cbind (x_importColumnDtype col d x) (\<lambda>(_, x). Ret x)) ds (x\<lparr>x_cfg := Some ?c\<rparr>)
     = Ret (x\<lparr>x_cfg := Some ?c\<rparr>\<lparr>x_cfg := Some (?c\<lparr>col_dtype := col_dtype ?c @ map (\<lambda>(col, d). (col, if d then FP64 else INT64)) ds\<rparr>)\<rparr>)"
    by (rule Cons.IH) (use Cons.prems y in \<open>auto simp: image_iff\<close>)
  ultimately show ?case by (simp add: y)
qed simp

text \<open>Columns of other parties are refused, the own ones of one length are stored.\<close>

definition own :: "col_config \<Rightarrow> (string \<times> 'v) list \<Rightarrow> (string \<times> 'v) list" where
  "own c vs = filter (\<lambda>(col, _). map_of (local_col c) col = Some True) vs"

lemma import_ints:
  assumes "x_cfg x = Some c" "x_feed x = Some f" "\<not> float_run f" "distinct (map fst vs)"
    "\<forall>(col, v) \<in> set vs. length v = n \<and> map_of (local_col c) col \<noteq> None \<and> map_of (col_dtype c) col = Some INT64
       \<and> map_of (int64_col f) col = None" "val_count f = - 1 \<or> val_count f = int n"
  shows "fold_cpp (\<lambda>(col, v) x. cbind (x_importColumnValues fp col v x) (\<lambda>(_, x). Ret x)) (map (\<lambda>(c, v). (c, Inl v)) vs) x
       = Ret (x\<lparr>x_feed := Some (f\<lparr>val_count := (if own c vs = [] then val_count f else int n),
           int64_col := int64_col f @ own c vs\<rparr>)\<rparr>)"
  using assms
proof (induction vs arbitrary: x f)
  case Nil
  then have "x = x\<lparr>x_feed := Some f\<rparr>" by (cases x) simp
  with Nil show ?case by (simp add: own_def)
next
  case (Cons y vs)
  obtain col v where y: "y = (col, v)" by (cases y)
  have p: "length v = n" "map_of (local_col c) col \<noteq> None" "map_of (col_dtype c) col = Some INT64"
    "map_of (int64_col f) col = None" using Cons.prems(5) by (auto simp: y)
  have rest: "\<forall>(col', v) \<in> set vs. length v = n \<and> map_of (local_col c) col' \<noteq> None \<and> map_of (col_dtype c) col' = Some INT64
       \<and> map_of (int64_col f) col' = None \<and> col' \<noteq> col"
    using Cons.prems(4,5) by (auto simp: y image_iff)
  have dist: "distinct (map fst vs)" using Cons.prems(4) by simp
  show ?case
  proof (cases "map_of (local_col c) col = Some True")
    case True
    let ?f = "f\<lparr>val_count := int n, int64_col := int64_col f @ [(col, v)]\<rparr>"
    have al: "al_insert col v (int64_col f) = int64_col f @ [(col, v)]" using p(4) by (simp add: al_insert_def)
    have "setOrCheckValueCount (int n) f = (0, f\<lparr>val_count := int n\<rparr>)"
      using Cons.prems(6) by (cases f) (auto simp: setOrCheckValueCount_def)
    moreover have "cfg_getColumnLocality col c = Ret (0, True)" "cfg_getColumnDtype col c = Ret (0, INT64)" using True p(3) by simp_all
    ultimately have "fd_import_i64 (f_of_i64 fp) c col v f = Ret (0, [], ?f)"
      using p(1,4) Cons.prems(3) al
      by (simp add: fd_import_i64_def del: cfg_getColumnLocality_Ret cfg_getColumnDtype_Ret)
    then have step: "x_importColumnValues fp col (Inl v) x = Ret (0, x\<lparr>x_feed := Some ?f\<rparr>)"
      using Cons.prems(1,2) by (simp add: x_importColumnValues_def)
    have "fold_cpp (\<lambda>(col, v) x. cbind (x_importColumnValues fp col v x) (\<lambda>(_, x). Ret x)) (map (\<lambda>(c, v). (c, Inl v)) vs) (x\<lparr>x_feed := Some ?f\<rparr>)
       = Ret (x\<lparr>x_feed := Some ?f\<rparr>\<lparr>x_feed := Some (?f\<lparr>val_count := (if own c vs = [] then val_count ?f else int n),
           int64_col := int64_col ?f @ own c vs\<rparr>)\<rparr>)"
      by (rule Cons.IH) (use Cons.prems(1,3) dist rest in \<open>auto simp: map_add_def\<close>)
    with step True show ?thesis by (simp add: y own_def)
  next
    case False
    then have "cfg_getColumnLocality col c = Ret (0, False)" using p(2) by auto
    then have "x_importColumnValues fp col (Inl v) x = Ret (-1, x\<lparr>x_feed := Some f\<rparr>)"
      using Cons.prems(1,2) by (simp add: x_importColumnValues_def fd_import_i64_def del: cfg_getColumnLocality_Ret)
    moreover have "x\<lparr>x_feed := Some f\<rparr> = x" using Cons.prems(2) by (cases x) simp
    moreover have "own c (y # vs) = own c vs" using False by (simp add: own_def y)
    moreover have "\<forall>(col, v) \<in> set vs. length v = n \<and> map_of (local_col c) col \<noteq> None \<and> map_of (col_dtype c) col = Some INT64
       \<and> map_of (int64_col f) col = None" using rest by auto
    ultimately show ?thesis using Cons.IH [OF Cons.prems(1-3) dist _ Cons.prems(6)] by (simp add: y)
  qed
qed

lemma distinct_sort_key: "distinct (map fst xs) \<Longrightarrow> distinct (map fst (sort_key fst xs))"
proof -
  have "mset (map fst (sort_key fst xs)) = mset (map fst xs)" by simp
  then show "distinct (map fst xs) \<Longrightarrow> distinct (map fst (sort_key fst xs))" by (blast dest: mset_eq_imp_distinct_iff)
qed

lemma map_of_sort_key: "distinct (map fst xs) \<Longrightarrow> map_of (sort_key fst xs) = map_of xs"
  by (simp add: map_of_inject_set distinct_sort_key)

lemma map_of_const: "map_of (map (\<lambda>(k, v). (k, c)) xs) k = map_option (\<lambda>_. c) (map_of xs k)"
  by (induction xs) auto

lemma map_option_const: "map_option (\<lambda>_. c) (map_of xs k) = (if k \<in> fst ` set xs then Some c else None)"
proof (cases "map_of xs k")
  case (Some v)
  then have "k \<in> fst ` set xs" by (force dest: map_of_SomeD)
  with Some show ?thesis by simp
qed (simp add: map_of_eq_None_iff)

lemma map_of_filter: "map_of (filter (\<lambda>(k, _). P k) xs) k = (if P k then map_of xs k else None)"
  by (induction xs) auto

text \<open>The set-up without the values: the columns are known, the run is one of integers.\<close>

lemma express_configured:
  assumes "wf_syn e" "no_div e" "set (leaves e) \<subseteq> fst ` set owners" "distinct (map fst owners)"
    "dtypes = map (\<lambda>(col, _). (col, False)) owners"
  shows "\<exists>c x. cbind (fold_cpp (\<lambda>(col, p) x. cbind (x_importColumnOwner col p x) (\<lambda>(_, x). Ret x)) (sort_key fst owners)
        (x_initColumnConfig me new_executor)) (\<lambda>x.
      cbind (fold_cpp (\<lambda>(col, d) x. cbind (x_importColumnDtype col d x) (\<lambda>(_, x). Ret x)) (sort_key fst dtypes) x) (\<lambda>x.
      cbind (x_importExpress (syn_text e) x) (\<lambda>(_, x).
      cbind (x_resolveRunMode x) (\<lambda>(_, x). Ret x)))) = Ret x
    \<and> x_suffix x = postfix e \<and> \<not> x_fp64_run x \<and> x_cfg x = Some c \<and> x_feed x = None
    \<and> (\<forall>t \<in> set (leaves e). x_toktype x t = Some COLUMN)
    \<and> (\<forall>col. map_of (local_col c) col = map_option (\<lambda>p. p = me) (map_of owners col))
    \<and> (\<forall>col \<in> fst ` set owners. map_of (col_dtype c) col = Some INT64)"
proof -
  let ?os = "sort_key fst owners" and ?ds = "sort_key fst dtypes"
  have dd: "distinct (map fst dtypes)" using assms(4,5) by (simp add: case_prod_unfold o_def)
  let ?t = "map (\<lambda>(col, d). (col, if d then FP64 else INT64)) ?ds"
  have t: "?t = map (\<lambda>(col, d). (col, INT64)) ?ds" unfolding assms(5) by auto
  let ?c1 = "(new_col_config me)\<lparr>col_owner := ?os\<rparr>"
  let ?c2 = "?c1\<lparr>col_dtype := ?t\<rparr>"
  have dt: "map_of ?t col = (if col \<in> fst ` set owners then Some INT64 else None)" for col
  proof -
    have "map_of ?t col = map_option (\<lambda>_. INT64) (map_of ?ds col)" unfolding t by (rule map_of_const)
    also have "map_of ?ds col = map_of dtypes col" by (simp add: map_of_sort_key [OF dd])
    also have "map_option (\<lambda>_. INT64) (map_of dtypes col) = (if col \<in> fst ` set owners then Some INT64 else None)"
      unfolding assms(5) map_of_const map_option_const by simp
    finally show ?thesis .
  qed
  have l: "length ?t = length ?os" using assms(5) by simp
  let ?c3 = "?c2\<lparr>local_col := fold (\<lambda>(col, p). al_insert col (p = me)) ?os []\<rparr>"
  have r: "cfg_resolveLocalColumn ?c2 = Ret (0, ?c3)"
    using l dt by (auto simp: cfg_resolveLocalColumn_def list_ex_iff new_col_config_def) force
  have leaf: "\<forall>t \<in> set (postfix e). isOperator t \<or> map_of (col_dtype ?c3) t \<noteq> None"
  proof
    fix t assume t: "t \<in> set (postfix e)"
    show "isOperator t \<or> map_of (col_dtype ?c3) t \<noteq> None"
    proof (cases "isOperator t")
      case False
      with t have "t \<in> set (filter (\<lambda>t. \<not> isOperator t) (postfix e))" by simp
      then have "t \<in> fst ` set owners" unfolding leaves_postfix [OF assms(1)] using assms(3) by blast
      with dt [of t] show ?thesis by simp
    qed simp
  qed
  let ?x = "(x_initColumnConfig me new_executor)\<lparr>x_cfg := Some ?c2, x_suffix := postfix e\<rparr>"
  define ex :: "int \<times> string list \<times> string"
    where "ex = (if checkExpress (postfix e) then (0, postfix e, syn_text e) else (-1, postfix e, []))"
  have ie: "importExpress (syn_text e) ([], []) = Ret ex" "fst (snd ex) = postfix e"
    by (simp_all add: ex_def importExpress_def parseExpress_syn [OF assms(1)])
  let ?y = "?x\<lparr>x_expr := snd (snd ex)\<rparr>"
  have "\<not> cfg_hasFP64Column ?c3" using t by (auto simp: cfg_hasFP64Column_def list_ex_iff)
  then have rr: "x_resolveRunMode ?y = Ret (0, ?y\<lparr>x_cfg := Some ?c3, x_fp64_run := False,
      x_toktype := fold (\<lambda>t. map_insert t COLUMN) (leaves e) Map.empty\<rparr>)"
    using r resolve_tokens_Ret [OF leaf, of Map.empty False False] div_in_postfix [OF assms(1)] assms(2) leaves_postfix [OF assms(1)]
    by (simp add: x_resolveRunMode_def x_initColumnConfig_def new_executor_def)
  have s1: "fold_cpp (\<lambda>(col, p) x. cbind (x_importColumnOwner col p x) (\<lambda>(_, x). Ret x)) ?os (x_initColumnConfig me new_executor)
      = Ret ((x_initColumnConfig me new_executor)\<lparr>x_cfg := Some ?c1\<rparr>)"
    using import_owners [of "x_initColumnConfig me new_executor" "new_col_config me" ?os] distinct_sort_key [OF assms(4)]
    by (simp add: x_initColumnConfig_def new_col_config_def)
  have s2: "fold_cpp (\<lambda>(col, d) x. cbind (x_importColumnDtype col d x) (\<lambda>(_, x). Ret x)) ?ds ((x_initColumnConfig me new_executor)\<lparr>x_cfg := Some ?c1\<rparr>)
      = Ret ((x_initColumnConfig me new_executor)\<lparr>x_cfg := Some ?c2\<rparr>)"
    using import_dtypes [of "(x_initColumnConfig me new_executor)\<lparr>x_cfg := Some ?c1\<rparr>" ?c1 ?ds] distinct_sort_key [OF dd]
    by (simp add: x_initColumnConfig_def new_col_config_def)
  have s3: "x_importExpress (syn_text e) ((x_initColumnConfig me new_executor)\<lparr>x_cfg := Some ?c2\<rparr>) = Ret (fst ex, ?y)"
    using ie by (cases ex) (simp add: x_importExpress_def x_initColumnConfig_def new_executor_def)
  have loc: "map_of (fold (\<lambda>(col, p). al_insert col (p = me)) ?os []) col = map_option (\<lambda>p. p = me) (map_of owners col)" for col
    using map_of_fold_al_insert [OF distinct_sort_key [OF assms(4)], of "\<lambda>p. p = me" "[]" col] by (simp add: map_of_sort_key [OF assms(4)])
  let ?z = "?y\<lparr>x_cfg := Some ?c3, x_fp64_run := False, x_toktype := fold (\<lambda>t. map_insert t COLUMN) (leaves e) Map.empty\<rparr>"
  have run: "cbind (fold_cpp (\<lambda>(col, p) x. cbind (x_importColumnOwner col p x) (\<lambda>(_, x). Ret x)) ?os
        (x_initColumnConfig me new_executor)) (\<lambda>x.
      cbind (fold_cpp (\<lambda>(col, d) x. cbind (x_importColumnDtype col d x) (\<lambda>(_, x). Ret x)) ?ds x) (\<lambda>x.
      cbind (x_importExpress (syn_text e) x) (\<lambda>(_, x).
      cbind (x_resolveRunMode x) (\<lambda>(_, x). Ret x)))) = Ret ?z"
    unfolding s1 cbind.simps s2 s3 prod.case rr by (rule refl)
  show ?thesis
    by (intro exI [of _ ?c3] exI [of _ ?z] conjI run)
      (simp_all add: loc dt fold_map_insert x_initColumnConfig_def new_executor_def)
qed

text \<open>
  The executor that a party's own columns make ready. A party that has no column of the task would count
  \<open>2 ^ 32 - 1\<close> rows.
\<close>

lemma express_loaded:
  fixes a :: "('m, 'd, 'si, 'sf) arith"
  assumes "wf_syn e" "no_div e" "set (leaves e) \<subseteq> fst ` set (ar_owner a)" "distinct (map fst (ar_owner a))"
    "ar_dtype a = map (\<lambda>(col, _). (col, False)) (ar_owner a)" "ar_exec a = new_executor" "ar_expr a = syn_text e"
    "ar_val_double a = []" "distinct (map fst (ar_val_int a))" "fst ` set (ar_val_int a) \<subseteq> fst ` set (ar_owner a)"
    "\<forall>(col, v) \<in> set (ar_val_int a). length v = n"
  shows "\<exists>c f x. load_express fp a = Ret (0, a\<lparr>ar_exec := x\<rparr>)
    \<and> x_suffix x = postfix e \<and> \<not> x_fp64_run x \<and> x_cfg x = Some c \<and> x_feed x = Some f
    \<and> (\<forall>t \<in> set (leaves e). x_toktype x t = Some COLUMN)
    \<and> (\<forall>col. map_of (local_col c) col = map_option (\<lambda>p. p = ar_party_id a) (map_of (ar_owner a) col))
    \<and> \<not> float_run f
    \<and> val_count f = (if \<exists>col \<in> fst ` set (ar_val_int a). map_of (ar_owner a) col = Some (ar_party_id a) then int n else - 1)
    \<and> (\<forall>col. map_of (int64_col f) col = (if map_of (ar_owner a) col = Some (ar_party_id a) then map_of (ar_val_int a) col else None))"
proof -
  from express_configured [OF assms(1-5), of "ar_party_id a"] obtain c x where
    x: "cbind (fold_cpp (\<lambda>(col, p) x. cbind (x_importColumnOwner col p x) (\<lambda>(_, x). Ret x)) (sort_key fst (ar_owner a))
        (x_initColumnConfig (ar_party_id a) new_executor)) (\<lambda>x :: ('d, 'si, 'sf) executor.
      cbind (fold_cpp (\<lambda>(col, d) x. cbind (x_importColumnDtype col d x) (\<lambda>(_, x). Ret x)) (sort_key fst (ar_dtype a)) x) (\<lambda>x.
      cbind (x_importExpress (syn_text e) x) (\<lambda>(_, x).
      cbind (x_resolveRunMode x) (\<lambda>(_, x). Ret x)))) = Ret x"
    and p: "x_suffix x = postfix e" "\<not> x_fp64_run x" "x_cfg x = Some c" "x_feed x = None"
      "\<forall>t \<in> set (leaves e). x_toktype x t = Some COLUMN"
      "\<forall>col. map_of (local_col c) col = map_option (\<lambda>p. p = ar_party_id a) (map_of (ar_owner a) col)"
      "\<forall>col \<in> fst ` set (ar_owner a). map_of (col_dtype c) col = Some INT64" by blast
  let ?vs = "sort_key fst (ar_val_int a)"
  let ?f = "new_feed_dict False :: 'd feed_dict"
  let ?g = "?f\<lparr>val_count := (if own c ?vs = [] then val_count ?f else int n), int64_col := own c ?vs\<rparr>"
  have known: "\<forall>(col, v) \<in> set ?vs. length v = n \<and> map_of (local_col c) col \<noteq> None \<and> map_of (col_dtype c) col = Some INT64"
  proof (rule ballI, clarify)
    fix col v assume "(col, v) \<in> set ?vs"
    then have cv: "(col, v) \<in> set (ar_val_int a)" by simp
    then have "col \<in> fst ` set (ar_owner a)" using assms(10) by force
    moreover from this have "map_of (ar_owner a) col \<noteq> None" by (simp add: map_of_eq_None_iff)
    ultimately show "length v = n \<and> map_of (local_col c) col \<noteq> None \<and> map_of (col_dtype c) col = Some INT64"
      using cv assms(11) p(6,7) by auto
  qed
  have "fold_cpp (\<lambda>(col, v) x. cbind (x_importColumnValues fp col v x) (\<lambda>(_, x). Ret x)) (map (\<lambda>(c, v). (c, Inl v)) ?vs) (x_InitFeedDict x)
       = Ret ((x_InitFeedDict x)\<lparr>x_feed := Some (?f\<lparr>val_count := (if own c ?vs = [] then val_count ?f else int n),
           int64_col := int64_col ?f @ own c ?vs\<rparr>)\<rparr>)"
    using import_ints [of "x_InitFeedDict x" c ?f ?vs n fp] p(2-4) known distinct_sort_key [OF assms(9)] by (auto simp: x_InitFeedDict_def new_feed_dict_def)
  then have vals: "fold_cpp (\<lambda>(col, v) x. cbind (x_importColumnValues fp col v x) (\<lambda>(_, x). Ret x)) (map (\<lambda>(c, v). (c, Inl v)) ?vs) (x_InitFeedDict x)
       = Ret (x\<lparr>x_feed := Some ?g\<rparr>)"
    using p(2,4) by (simp add: x_InitFeedDict_def new_feed_dict_def)
  have run: "load_express fp a = Ret (0, a\<lparr>ar_exec := x\<lparr>x_feed := Some ?g\<rparr>\<rparr>)"
    using x vals assms(6-8)
    by (auto simp: load_express_def Let_def cbind_Ret_iff case_prod_unfold simp del: fold_cpp.simps)
  have local: "map_of (local_col c) col = Some True \<longleftrightarrow> map_of (ar_owner a) col = Some (ar_party_id a)" for col
    using p(6) by auto
  have own: "own c ?vs = [] \<longleftrightarrow> \<not> (\<exists>col \<in> fst ` set (ar_val_int a). map_of (ar_owner a) col = Some (ar_party_id a))"
    by (force simp: own_def filter_empty_conv local)
  have cols: "map_of (own c ?vs) col = (if map_of (ar_owner a) col = Some (ar_party_id a) then map_of (ar_val_int a) col else None)" for col
    unfolding own_def by (simp add: map_of_filter local map_of_sort_key [OF assms(9)])
  show ?thesis
    by (rule exI [of _ c], rule exI [of _ ?g], rule exI [of _ "x\<lparr>x_feed := Some ?g\<rparr>"])
      (use run p(1-3,5,6) own cols in \<open>simp add: new_feed_dict_def\<close>)
qed

section \<open>The whole task\<close>

lemma sint_of_nat_u32: "n < 2 ^ 31 \<Longrightarrow> sint (of_nat n :: u32) = int n"
  by (simp add: signed_of_nat signed_take_bit_int_eq_self)

text \<open>What a party's task is before its run: its columns are loaded.\<close>

lemma columns_loaded:
  assumes "ae_read env (ar_dataset_id a) (ar_detail a) = Ret (Some table)"
    "holds table (ar_owner a) me vals n" "ar_dtype a = map (\<lambda>(col, _). (col, False)) (ar_owner a)" "ar_val_int a = []"
  shows "\<exists>vi. LoadDatasetFromCSV env a = Ret (int n, a\<lparr>ar_val_int := vi\<rparr>) \<and> distinct (map fst vi)
    \<and> fst ` set vi \<subseteq> fst ` set (ar_owner a) \<and> (\<forall>(col, v) \<in> set vi. length v = n)
    \<and> (\<forall>(col, owner) \<in> set (ar_owner a). owner = me \<longrightarrow> map_of vi col = Some (vals col))"
proof -
  note h = assms(2) [unfolded holds_def]
  let ?known = "\<lambda>(name, _). map_of (ar_dtype a) name \<noteq> None"
  let ?vi = "map (\<lambda>(name, col). (name, int_values col)) (filter ?known table)"
  have dt: "map_of (ar_dtype a) name = (if name \<in> fst ` set (ar_owner a) then Some False else None)" for name
    unfolding assms(3) map_of_const map_option_const by simp
  have "fold_cpp (load_column (ae_fp env) table n) table a = Ret (a\<lparr>ar_val_int := ar_val_int a @ ?vi\<rparr>)"
    by (rule load_columns) (use h dt assms(4) in \<open>auto split: if_splits\<close>)
  then have run: "LoadDatasetFromCSV env a = Ret (int n, a\<lparr>ar_val_int := ?vi\<rparr>)"
    using h assms(1,4) sint_of_nat_u32 [of n] by (simp add: LoadDatasetFromCSV_def Let_def)
  have names: "map fst ?vi = map fst (filter ?known table)" by (simp add: case_prod_unfold o_def)
  have "distinct (map fst ?vi)"
    unfolding names using h distinct_map_filter by blast
  moreover have "fst ` set ?vi \<subseteq> fst ` set (ar_owner a)"
    using dt by (auto split: if_splits)
  moreover have "\<forall>(col, v) \<in> set ?vi. length v = n"
    using h dt by (fastforce split: if_splits)
  moreover have "map_of ?vi col = Some (vals col)" if o: "(col, me) \<in> set (ar_owner a)" for col
  proof -
    from h o obtain cs where cs: "(col, Int64Chunks cs) \<in> set table" "concat cs = vals col" by fastforce
    moreover have "map_of (ar_dtype a) col \<noteq> None" using dt [of col] o by (simp add: image_iff) force
    ultimately have "(col, vals col) \<in> set ?vi" by force
    with \<open>distinct (map fst ?vi)\<close> show ?thesis by simp
  qed
  ultimately show ?thesis using run by (intro exI [of _ ?vi]) auto
qed

lemma mpc_ready_party [simp]: "mpc_ready (x\<lparr>x_party := p\<rparr>) e env = mpc_ready x e env"
  by (simp add: mpc_ready_def)

lemma arithmetic_prepared:
  assumes "new_arith c m = Ret a" "expression_task c task e cols parties"
    "4 \<le> length (syn_text e)" "take 3 (syn_text e) \<noteq> ''CMP''"
    "task_dataset (pc_party_name c) task = Some (ds, detail)" "ae_read env ds detail = Ret (Some table)"
    "holds table (map (\<lambda>(col, owner). (col, pid c owner)) cols) (ar_party_id a) vals n"
  shows "\<exists>a' cc f. run_steps (prepare_steps (arithmetic env compare) task) a = Ret (SUCCESS, a')
    \<and> ar_is_cmp a' = False \<and> ar_party_id a' = ar_party_id a \<and> ar_mpc a' = m \<and> ar_files a' = [] \<and> ar_expr a' = syn_text e
    \<and> ar_parties a' = map (pid c) parties \<and> ar_final_double a' = [] \<and> ar_final_int64 a' = []
    \<and> ar_res_name a' = CompletePath (ae_storage env) (text_param task ''ResFileName'')
    \<and> x_party (ar_exec a') = ar_party_id a
    \<and> x_cfg (ar_exec a') = Some cc \<and> x_feed (ar_exec a') = Some f \<and> x_suffix (ar_exec a') = postfix e
    \<and> \<not> x_fp64_run (ar_exec a') \<and> (\<forall>t \<in> set (leaves e). x_toktype (ar_exec a') t = Some COLUMN)
    \<and> val_count f = (if ar_party_id a \<in> pid c ` snd ` set cols then int n else - 1)
    \<and> (\<forall>t \<in> set (leaves e). map_of (local_col cc) t = Some False \<or> fd_get_i64 cc t f = Ret (0, vals t))"
proof -
  obtain i where i: "SelfPartyId c = Ret i" "a = \<lparr>ar_config = c, ar_party_id = ucast i, ar_dataset_id = [], ar_detail = False, ar_parties = [],
      ar_is_cmp = False, ar_cmp_res = [], ar_i64_cmp = True, ar_expr = [], ar_cmp_col1 = [], ar_cmp_col2 = [],
      ar_owner = [], ar_dtype = [], ar_final_double = [], ar_final_int64 = [], ar_val_double = [],
      ar_val_int = [], ar_res_name = [], ar_exec = new_executor, ar_links = None, ar_mpc = m, ar_files = []\<rparr>"
    using assms(1) by (auto simp: new_arith_def cbind_Ret_iff)
  let ?owners = "map (\<lambda>(col, owner). (col, pid c owner)) cols"
  let ?dtypes = "map (\<lambda>(col, owner). (col, False)) cols"
  have ty: "?dtypes = map (\<lambda>(col, _). (col, False)) ?owners" by (simp add: case_prod_unfold o_def)
  have fsts: "fst ` set ?owners = fst ` set cols" by force
  note e = assms(2) [unfolded expression_task_def column_params_def]
  from expression_columns [OF assms(3)] obtain col1 col2 where "compared_columns (syn_text e) = Some (col1, col2)" by blast
  with params_read [of a task cols parties col1 col2 ds detail "ae_storage env"] assms(2-5) i(2) have
    p: "arith_params (ae_storage env) task a = Some (a\<lparr>ar_dataset_id := ds, ar_detail := detail,
        ar_owner := ?owners, ar_dtype := ?dtypes, ar_expr := syn_text e, ar_cmp_col1 := col1,
        ar_cmp_col2 := col2, ar_is_cmp := False, ar_parties := map (pid c) parties,
        ar_res_name := CompletePath (ae_storage env) (text_param task ''ResFileName'')\<rparr>)"
    by (simp add: expression_task_def)
  define b where "b = a\<lparr>ar_dataset_id := ds, ar_detail := detail,
        ar_owner := ?owners, ar_dtype := ?dtypes, ar_expr := syn_text e, ar_cmp_col1 := col1,
        ar_cmp_col2 := col2, ar_is_cmp := False, ar_parties := map (pid c) parties,
        ar_res_name := CompletePath (ae_storage env) (text_param task ''ResFileName'')\<rparr>"
  have bs: "ar_dataset_id b = ds" "ar_detail b = detail" "ar_owner b = ?owners" "ar_dtype b = ?dtypes" "ar_val_int b = []"
    "ar_is_cmp b = False" "ar_val_double b = []" "ar_exec b = new_executor" "ar_party_id b = ar_party_id a" "ar_expr b = syn_text e"
    by (simp_all add: b_def i(2))
  from columns_loaded [of env b table "ar_party_id a" vals n] assms(6,7) bs ty obtain vi where
    vi: "LoadDatasetFromCSV env b = Ret (int n, b\<lparr>ar_val_int := vi\<rparr>)" "distinct (map fst vi)"
      "fst ` set vi \<subseteq> fst ` set ?owners" "\<forall>(col, v) \<in> set vi. length v = n"
      "\<forall>(col, owner) \<in> set ?owners. owner = ar_party_id a \<longrightarrow> map_of vi col = Some (vals col)" by auto
  let ?b = "b\<lparr>ar_val_int := vi\<rparr>"
  have d: "distinct (map fst ?owners)" using e by (simp add: case_prod_unfold o_def)
  from express_loaded [of e ?b n "ae_fp env"] e d ty vi(2-4) fsts bs obtain cc f x where
    x: "load_express (ae_fp env) ?b = Ret (0, ?b\<lparr>ar_exec := x\<rparr>)"
      "x_suffix x = postfix e" "\<not> x_fp64_run x" "x_cfg x = Some cc" "x_feed x = Some f"
      "\<forall>t \<in> set (leaves e). x_toktype x t = Some COLUMN"
      "\<forall>col. map_of (local_col cc) col = map_option (\<lambda>p. p = ar_party_id a) (map_of ?owners col)"
      "\<not> float_run f"
      "val_count f = (if \<exists>col \<in> fst ` set vi. map_of ?owners col = Some (ar_party_id a) then int n else - 1)"
      "\<forall>col. map_of (int64_col f) col = (if map_of ?owners col = Some (ar_party_id a) then map_of vi col else None)"
    by auto
  have mine: "(\<exists>col \<in> fst ` set vi. map_of ?owners col = Some (ar_party_id a)) \<longleftrightarrow> ar_party_id a \<in> pid c ` snd ` set cols"
  proof
    assume "\<exists>col \<in> fst ` set vi. map_of ?owners col = Some (ar_party_id a)"
    then show "ar_party_id a \<in> pid c ` snd ` set cols" by (force dest!: map_of_SomeD)
  next
    assume "ar_party_id a \<in> pid c ` snd ` set cols"
    then obtain col where o: "(col, ar_party_id a) \<in> set ?owners" by force
    then have m: "map_of ?owners col = Some (ar_party_id a)" "map_of vi col = Some (vals col)" using d vi(5) by auto
    from map_of_SomeD [OF m(2)] have "col \<in> fst ` set vi" by force
    with m(1) show "\<exists>col \<in> fst ` set vi. map_of ?owners col = Some (ar_party_id a)" by blast
  qed
  have leaf: "map_of (local_col cc) t = Some False \<or> fd_get_i64 cc t f = Ret (0, vals t)" if t: "t \<in> set (leaves e)" for t
  proof -
    have "t \<in> fst ` set ?owners" using t e fsts by blast
    then obtain p where p: "(t, p) \<in> set ?owners" by force
    then have m: "map_of ?owners t = Some p" using d by simp
    show ?thesis
    proof (cases "p = ar_party_id a")
      case True
      with vi(5) p have "map_of vi t = Some (vals t)" by auto
      with True m x(7,8,10) show ?thesis by (simp add: fd_get_i64_Ret)
    qed (use m x(7) in simp)
  qed
  obtain ls where ls: "initPartyComm c = Ret ls"
    using i(1) by (auto simp: initPartyComm_def NextPartyId_def PrevPartyId_def Let_def)
  let ?z = "?b\<lparr>ar_exec := x\<rparr>\<lparr>ar_links := Some ls\<rparr>"
  have s1: "arith_loadParams env task a = Ret (0, b)" by (simp add: arith_loadParams_def p b_def)
  have s2: "arith_loadDataset env b = Ret (0, ?b\<lparr>ar_exec := x\<rparr>)"
    using vi(1) x(1) assms(7) bs by (simp add: arith_loadDataset_def holds_def)
  have "run_steps (prepare_steps (arithmetic env compare) task) a
      = Ret (SUCCESS, ?z\<lparr>ar_exec := x\<lparr>x_party := ar_party_id a\<rparr>\<rparr>)"
    using s1 s2 ls bs by (simp add: prepare_steps_def arithmetic_def arith_InitEngine_def b_def i(2))
  with x mine leaf show ?thesis
    by (intro exI [of _ "?z\<lparr>ar_exec := x\<lparr>x_party := ar_party_id a\<rparr>\<rparr>"] exI [of _ cc] exI [of _ f]) (simp add: b_def i(2))
qed

text \<open>
  C6: in a task over columns of integers, whose expression has an operator, no division, at least four
  characters, and does not begin with the letters of the comparison, a party that has at least one column of
  the task ends it with success; when it is named among those that get the result, the file that it writes
  holds the row-wise value of the expression, once for each time it is named, otherwise it writes nothing.
  The numbers are written as doubles in a column whose type says 64-bit integer. (A shorter expression fails,
  and a party without a column counts its rows wrongly: see the statements below.)
\<close>

theorem arithmetic_task_computes:
  assumes "new_arith c m = Ret a" "expression_task c task e cols parties"
    "4 \<le> length (syn_text e)" "take 3 (syn_text e) \<noteq> ''CMP''"
    "task_dataset (pc_party_name c) task = Some (ds, detail)" "ae_read env ds detail = Ret (Some table)"
    "holds table (map (\<lambda>(col, owner). (col, pid c owner)) cols) (ar_party_id a) vals n"
    "ar_party_id a \<in> pid c ` snd ` set cols" "\<forall>t \<in> set (leaves e). length (vals t) = n"
    "mpc_laws (ae_op env) plain inputs" "inputs m = map vals (shared e)" "\<forall>path t. ae_write env path t = 0"
  shows "\<exists>a'. ExecuteImpl (arithmetic env compare) task a = Ret (SUCCESS, a') \<and> ar_files a' =
    (if ar_party_id a \<in> pid c ` set parties then
       [(CompletePath (ae_storage env) (text_param task ''ResFileName''),
         \<lparr>sv_name = syn_text e, sv_type = SavedInt64, sv_values = concat (map (\<lambda>_. map (f_of_i64 (ae_fp env)) (meaning vals e))
            (filter (\<lambda>p. pid c p = ar_party_id a) parties))\<rparr>)]
     else [])"
proof -
  from arithmetic_prepared [OF assms(1-7), of compare] obtain a1 cc f where
    a1: "run_steps (prepare_steps (arithmetic env compare) task) a = Ret (SUCCESS, a1)"
      "ar_is_cmp a1 = False" "ar_party_id a1 = ar_party_id a" "ar_mpc a1 = m" "ar_files a1 = []" "ar_expr a1 = syn_text e"
      "ar_parties a1 = map (pid c) parties" "ar_final_double a1 = []" "ar_final_int64 a1 = []"
      "ar_res_name a1 = CompletePath (ae_storage env) (text_param task ''ResFileName'')"
    and x: "x_party (ar_exec a1) = ar_party_id a" "x_cfg (ar_exec a1) = Some cc" "x_feed (ar_exec a1) = Some f"
      "x_suffix (ar_exec a1) = postfix e" "\<not> x_fp64_run (ar_exec a1)"
      "\<forall>t \<in> set (leaves e). x_toktype (ar_exec a1) t = Some COLUMN"
      "val_count f = (if ar_party_id a \<in> pid c ` snd ` set cols then int n else - 1)"
      "\<forall>t \<in> set (leaves e). map_of (local_col cc) t = Some False \<or> fd_get_i64 cc t f = Ret (0, vals t)"
    by blast
  note e = assms(2) [unfolded expression_task_def column_params_def]
  have n: "0 < n" "n < 2 ^ 31" using assms(7) by (simp_all add: holds_def)
  have "unat (getColumnValuesCount f) = n"
    using x(7) assms(8) n by (simp add: getColumnValuesCount_def unat_of_nat take_bit_nat_eq_self)
  then have ready: "mpc_ready (ar_exec a1) e vals"
    using x assms(9) by (simp add: mpc_ready_def)
  have wf: "wf_syn e" "no_div e" "pend e = []" using e by blast+
  let ?bag = "concat (map (\<lambda>_. meaning vals e) (filter (\<lambda>p. p = ar_party_id a) (map (pid c) parties)))"
  from mpc_run [OF assms(10) wf(1,2) ready wf(3) assms(11), of "ae_fp env" "map (pid c) parties" "[]"] obtain x' m' tv m'' where
    run: "runMPCEvaluate (ae_fp env) (ae_op env) (ar_exec a1) m = Ret (0, x', m')"
      "revealMPCResult_i64 (ae_op env) (map (pid c) parties) [] x' m' = Ret (?bag, (ar_exec a1)\<lparr>x_suffix := [], x_tokval := tv\<rparr>, m'')"
    using x(1) by auto
  have "\<not> x_fp64_run x'"
    using run(1) x(5) by (auto simp: runMPCEvaluate_def cbind_Ret_iff split: option.splits if_splits prod.splits)
  then have ex: "execute_express env a1 = Ret (0, a1\<lparr>ar_exec := (ar_exec a1)\<lparr>x_suffix := [], x_tokval := tv\<rparr>,
      ar_mpc := m'', ar_final_int64 := ?bag\<rparr>)"
    using run a1 by (simp add: execute_express_def)
  have flt: "filter (\<lambda>p. p = ar_party_id a) (map (pid c) parties) = map (pid c) (filter (\<lambda>p. pid c p = ar_party_id a) parties)"
    by (simp add: filter_map o_def)
  have len: "length (meaning vals e) = n" by (rule length_meaning) (use assms(9) in simp)
  have bag: "?bag \<noteq> [] \<longleftrightarrow> ar_party_id a \<in> pid c ` set parties"
    using len n(1) by (auto simp: flt filter_empty_conv image_iff) metis
  have vals: "map (f_of_i64 (ae_fp env)) ?bag = concat (map (\<lambda>_. map (f_of_i64 (ae_fp env)) (meaning vals e))
            (filter (\<lambda>p. pid c p = ar_party_id a) parties))"
    by (simp add: flt map_concat o_def)
  have "meaning vals e \<noteq> []" using len n(1) by auto
  then show ?thesis
    using a1 ex bag vals assms(12)
    by (simp add: ExecuteImpl_def run_steps_append arithmetic_def arith_saveModel_def result_table_def Let_def image_iff)
qed

text \<open>
  An expression of fewer than four characters, as the sum of two columns with names of one letter,
  fails before anything is computed.
\<close>

theorem short_expression_fails:
  assumes "length (text_param task ''Expr'') < 4"
  shows "ExecuteImpl (arithmetic env compare) task a = Ret (FAIL, a)"
proof -
  have "arith_params (ae_storage env) task a = None"
    using assms by (auto simp: arith_params_def compared_columns_def Let_def Option.bind_eq_None_conv split: Option.bind_split)
  then show ?thesis
    by (simp add: ExecuteImpl_def prepare_steps_def arithmetic_def arith_loadParams_def)
qed

text \<open>
  C40: a party that owns none of the columns that the task's list of owners names loads its data with
  success, and counts \<open>2 ^ 32 - 1\<close> rows, to which it sizes its shares. (One listed column of its own is enough
  to count rightly, even when the expression does not use it.)
\<close>

theorem party_without_columns_miscounts:
  assumes "new_arith c m = Ret a" "expression_task c task e cols parties"
    "4 \<le> length (syn_text e)" "take 3 (syn_text e) \<noteq> ''CMP''"
    "task_dataset (pc_party_name c) task = Some (ds, detail)" "ae_read env ds detail = Ret (Some table)"
    "holds table (map (\<lambda>(col, owner). (col, pid c owner)) cols) (ar_party_id a) vals n"
    "ar_party_id a \<notin> pid c ` snd ` set cols"
  shows "\<exists>a' f. run_steps (prepare_steps (arithmetic env compare) task) a = Ret (SUCCESS, a')
    \<and> x_feed (ar_exec a') = Some f \<and> unat (getColumnValuesCount f) = 2 ^ 32 - 1"
proof -
  from arithmetic_prepared [OF assms(1-7), of compare] assms(8) obtain a' f where
    "run_steps (prepare_steps (arithmetic env compare) task) a = Ret (SUCCESS, a')" "x_feed (ar_exec a') = Some f"
    "val_count f = - 1" by auto
  moreover from this(3) have "unat (getColumnValuesCount f) = 2 ^ 32 - 1"
    by (simp add: getColumnValuesCount_def unsigned_minus_1_eq_mask mask_eq_exp_minus_1)
  ultimately show ?thesis by blast
qed

section \<open>Columns of both types\<close>

lemma import_doubles:
  assumes "fold_cpp (\<lambda>(col, v) x. cbind (x_importColumnValues fp col v x) (\<lambda>(_, x). Ret x)) (map (\<lambda>(c, v). (c, Inr v)) vs) x = Ret x'"
    "x_feed x = Some f"
  shows "\<exists>f'. x' = x\<lparr>x_feed := Some f'\<rparr> \<and> fst ` set (fp64_col f') \<subseteq> fst ` set (fp64_col f) \<union> fst ` set vs
    \<and> int64_col f' = int64_col f \<and> float_run f' = float_run f"
  using assms
proof (induction vs arbitrary: x f)
  case Nil
  then have "x' = x\<lparr>x_feed := Some f\<rparr>" by (cases x) simp
  with Nil show ?case by (intro exI [of _ f]) simp
next
  case (Cons y vs)
  obtain col v where y: "y = (col, v)" by (cases y)
  from Cons.prems obtain c r w f1 where
    1: "fd_import_fp64 c col v f = Ret (r, w, f1)"
      "fold_cpp (\<lambda>(col, v) x. cbind (x_importColumnValues fp col v x) (\<lambda>(_, x). Ret x)) (map (\<lambda>(c, v). (c, Inr v)) vs) (x\<lparr>x_feed := Some f1\<rparr>) = Ret x'"
    by (auto simp: y x_importColumnValues_def cbind_Ret_iff)
  have f1: "fst ` set (fp64_col f1) \<subseteq> insert col (fst ` set (fp64_col f))" "int64_col f1 = int64_col f" "float_run f1 = float_run f"
    using 1(1) set_al_insert [of col v "fp64_col f"]
    by (auto simp: fd_import_fp64_def cbind_Ret_iff setOrCheckValueCount_def Let_def split: if_splits)
  from Cons.IH [OF 1(2)] obtain f' where "x' = x\<lparr>x_feed := Some f1\<rparr>\<lparr>x_feed := Some f'\<rparr>"
    "fst ` set (fp64_col f') \<subseteq> fst ` set (fp64_col f1) \<union> fst ` set vs" "int64_col f' = int64_col f1" "float_run f' = float_run f1"
    by auto
  moreover have "fst ` set (fp64_col f') \<subseteq> fst ` set (fp64_col f) \<union> fst ` set (y # vs)"
    unfolding y using order_trans [OF calculation(2) Un_mono [OF f1(1) order_refl]] by auto
  ultimately show ?case using f1 by (intro exI [of _ f']) simp
qed

lemma import_keeps_feed:
  "x_importColumnOwner col p x = Ret (k, y) \<Longrightarrow> x_feed y = x_feed x"
  "x_importColumnDtype col d x = Ret (k, y) \<Longrightarrow> x_feed y = x_feed x"
  by (auto simp: x_importColumnOwner_def x_importColumnDtype_def cbind_Ret_iff case_prod_unfold Let_def)

lemma owners_keep_feed:
  "fold_cpp (\<lambda>(col, p) x. cbind (x_importColumnOwner col p x) (\<lambda>(_, x). Ret x)) os x = Ret y \<Longrightarrow> x_feed y = x_feed x"
  by (induction os arbitrary: x) (auto simp: cbind_Ret_iff dest: import_keeps_feed)

lemma dtypes_keep_feed:
  "fold_cpp (\<lambda>(col, d) x. cbind (x_importColumnDtype col d x) (\<lambda>(_, x). Ret x)) ds x = Ret y \<Longrightarrow> x_feed y = x_feed x"
  by (induction ds arbitrary: x) (auto simp: cbind_Ret_iff dest: import_keeps_feed)

text \<open>
  When a party has columns of doubles and of integers in one expression, the integers are not given to
  the executor: the token of such a column has no value, and the evaluation stops at it.
\<close>

theorem mixed_columns_are_lost:
  assumes "load_express fp a = Ret (r, a')" "x_feed (ar_exec a) = None" "ar_val_double a \<noteq> []"
    "col \<notin> fst ` set (ar_val_double a)" "x_cfg (ar_exec a') = Some c" "map_of (local_col c) col = Some True"
    "x_toktype (ar_exec a') col = Some COLUMN"
  shows "x_createTokenValue fp (ar_exec a') col = Ret (-2, Remote)"
proof -
  let ?vs = "sort_key fst (ar_val_double a)"
  from assms(1,3) obtain x1 x2 k3 x3 k4 x4 x5 where
    s: "fold_cpp (\<lambda>(col, p) x. cbind (x_importColumnOwner col p x) (\<lambda>(_, x). Ret x)) (sort_key fst (ar_owner a))
        (x_initColumnConfig (ar_party_id a) (ar_exec a)) = Ret x1"
      "fold_cpp (\<lambda>(col, d) x. cbind (x_importColumnDtype col d x) (\<lambda>(_, x). Ret x)) (sort_key fst (ar_dtype a)) x1 = Ret x2"
      "x_importExpress (ar_expr a) x2 = Ret (k3, x3)" "x_resolveRunMode x3 = Ret (k4, x4)"
      "fold_cpp (\<lambda>(col, v) x. cbind (x_importColumnValues fp col v x) (\<lambda>(_, x). Ret x)) (map (\<lambda>(c, v). (c, Inr v)) ?vs) (x_InitFeedDict x4) = Ret x5"
      "a' = a\<lparr>ar_exec := x5\<rparr>"
    by (auto simp: load_express_def Let_def cbind_Ret_iff)
  have "x_feed x4 = None"
    using owners_keep_feed [OF s(1)] dtypes_keep_feed [OF s(2)] s(3,4) assms(2)
    by (auto simp: x_importExpress_def x_resolveRunMode_def x_initColumnConfig_def cbind_Ret_iff split: if_splits)
  then have "x_feed (x_InitFeedDict x4) = Some (new_feed_dict (x_fp64_run x4))" by (simp add: x_InitFeedDict_def)
  from import_doubles [OF s(5) this] obtain f' where
    f': "x5 = (x_InitFeedDict x4)\<lparr>x_feed := Some f'\<rparr>" "fst ` set (fp64_col f') \<subseteq> fst ` set (ar_val_double a)" "int64_col f' = []"
      "float_run f' = x_fp64_run x4"
    by (auto simp: new_feed_dict_def)
  have "map_of (fp64_col f') col = None" using f'(2) assms(4) by (auto simp: map_of_eq_None_iff)
  moreover have "cfg_getColumnLocality col c = Ret (0, True)" using assms(6) by simp
  ultimately show ?thesis
    using assms(5,7) f' s(6)
    by (auto simp: x_createTokenValue_def token_type_def fd_get_fp64_def fd_get_i64_def x_InitFeedDict_def
        simp del: cfg_getColumnLocality_Ret split: option.splits)
qed

section \<open>Instances\<close>

text \<open>Party \<open>A\<close> has the columns \<open>a\<close> and \<open>b\<close>, party \<open>B\<close> has \<open>c\<close>; doubles are integers.\<close>

definition demo_config :: "string \<Rightarrow> u16 \<Rightarrow> party_config" where
  "demo_config name i = \<lparr>pc_party_name = name, pc_party_id = Some i, pc_names = [(0, ''A''), (1, ''B''), (2, ''C'')],
     pc_nodes = [], pc_info = empty_task_ctx\<rparr>"

definition demo_request :: "string \<Rightarrow> string \<Rightarrow> string \<Rightarrow> string \<Rightarrow> task_config" where
  "demo_request expr owners dtypes parties = \<lparr>tk_type = ACTOR_TASK, tk_language = PROTO, tk_code = ''arithmetic'',
     tk_params = map_option (\<lambda>s. \<lparr>pm_is_array = False, pm_value = PvString s\<rparr>) \<circ>
       map_of [(''Expr'', expr), (''Col_And_Owner'', owners), (''Col_And_Dtype'', dtypes), (''RevealToParties'', parties),
         (''ResFileName'', ''result.csv'')],
     tk_node_map = [], tk_info = empty_task_ctx, tk_party_name = [],
     tk_datasets = map (\<lambda>p. (p, \<lparr>pd_data = [(''Data_File'', p)], pd_detail = False\<rparr>)) [''A'', ''B'', ''C''],
     tk_access = [], tk_aux = [PROXY_NODE \<mapsto> empty_node]\<rparr>"

definition int_arith :: "int fp_arith" where
  "int_arith = \<lparr>f_add = (+), f_sub = (-), f_mul = (*), f_div = (div), f_one = 1, f_of_i64 = sint, f_stod = (\<lambda>_. Ret 0)\<rparr>"

definition demo_tables :: "string \<Rightarrow> int table" where
  "demo_tables p = (if p = ''A'' then [(''a'', Int64Chunks [[10], [20]]), (''b'', Int64Chunks [[2, 3]])]
     else [(''c'', Int64Chunks [[4, 21]]), (''d'', DoubleChunks [[0, 0]])])"

definition demo_arith_env :: "(i64 list list, i64 list, unit, int, int) arith_env" where
  "demo_arith_env = \<lparr>ae_fp = int_arith, ae_op = clear_mpc, ae_read = (\<lambda>d _. Ret (Some (demo_tables d))),
     ae_storage = ''/out'', ae_write = (\<lambda>_ _. 0)\<rparr>"

definition demo_columns :: "(string \<times> string) list" where
  "demo_columns = [(''a'', ''A''), (''b'', ''A''), (''c'', ''B'')]"

definition demo_expression :: task_config where
  "demo_expression = demo_request ''(a-c)*b'' ''a-A;b-A;c-B'' ''a-0;b-0;c-0'' ''B;A''"

lemma demo_names: "PartyName2PartyId (demo_config n i) ''A'' = Some 0" "PartyName2PartyId (demo_config n i) ''B'' = Some 1"
  "PartyName2PartyId (demo_config n i) ''C'' = Some 2"
  by (simp_all add: PartyName2PartyId_def demo_config_def)

lemma demo_expression_task: "expression_task (demo_config n i) demo_expression demo_syn demo_columns [''B'', ''A'']"
  unfolding expression_task_def column_params_def
  by (intro conjI)
    (simp_all add: demo_facts demo_syn_def demo_columns_def demo_names demo_expression_def demo_request_def text_param_def
      param_string_def ExtractProxyNode_def plain_char_def isOperatorChar_def Priority_def)

lemma demo_dataset: "p \<in> {''A'', ''B'', ''C''} \<Longrightarrow> task_dataset p demo_expression = Some (p, False)"
  by (auto simp: task_dataset_def demo_expression_def demo_request_def)

lemma demo_text: "syn_text demo_syn = ''(a-c)*b''" "text_param demo_expression ''ResFileName'' = ''result.csv''"
  by (simp_all add: demo_syn_def text_param_def demo_expression_def demo_request_def param_string_def)

lemma demo_holds: "holds (demo_tables ''A'') (map (\<lambda>(col, owner). (col, pid (demo_config n i) owner)) demo_columns) 0 demo_env 2"
  by (simp add: holds_def demo_tables_def demo_columns_def pid_def demo_names demo_env_def)

lemma demo_pid: "pid (demo_config n i) ''A'' = 0" "pid (demo_config n i) ''B'' = 1" "pid (demo_config n i) ''C'' = 2"
  by (simp_all add: pid_def demo_names)

lemma demo_arith_sel: "ae_read demo_arith_env d b = Ret (Some (demo_tables d))" "ae_op demo_arith_env = clear_mpc"
  "ae_fp demo_arith_env = int_arith" "ae_storage demo_arith_env = ''/out''" "ae_write demo_arith_env path t = 0"
  by (simp_all add: demo_arith_env_def)

lemma demo_lengths: "\<forall>t \<in> set (leaves demo_syn). length (demo_env t) = 2"
  by (simp add: demo_syn_def demo_env_def)

theorem arithmetic_task_computes_witness:
  "\<exists>a a'. new_arith (demo_config ''A'' 0) [[10, 20], [4, 21], [2, 3]] = Ret a
    \<and> ExecuteImpl (arithmetic demo_arith_env (\<lambda>a. Ret (0, a))) demo_expression a = Ret (SUCCESS, a')
    \<and> ar_files a' = [(''/out/result.csv'', \<lparr>sv_name = ''(a-c)*b'', sv_type = SavedInt64, sv_values = [12, -3]\<rparr>)]"
proof -
  let ?c = "demo_config ''A'' 0"
  obtain a where a: "new_arith ?c [[10, 20], [4, 21], [2, 3]] = Ret (a :: (i64 list list, int, i64 list, unit) arith)" "ar_party_id a = 0"
    by (simp add: new_arith_def SelfPartyId_def demo_config_def)
  have d: "task_dataset (pc_party_name ?c) demo_expression = Some (''A'', False)"
    using demo_dataset [of "''A''"] by (simp add: demo_config_def)
  have h: "holds (demo_tables ''A'') (map (\<lambda>(col, owner). (col, pid ?c owner)) demo_columns) (ar_party_id a) demo_env 2"
    unfolding a(2) by (rule demo_holds)
  have o: "ar_party_id a \<in> pid ?c ` snd ` set demo_columns" by (simp add: a(2) demo_columns_def demo_pid)
  have l: "mpc_laws (ae_op demo_arith_env) Some id" by (simp add: demo_arith_sel clear_mpc_laws)
  have i: "id [[10, 20], [4, 21], [2, 3]] = map demo_env (shared demo_syn)" by (simp add: demo_facts)
  have "\<exists>a'. ExecuteImpl (arithmetic demo_arith_env (\<lambda>a. Ret (0, a))) demo_expression a = Ret (SUCCESS, a') \<and> ar_files a' =
    (if ar_party_id a \<in> pid ?c ` set [''B'', ''A''] then
       [(CompletePath (ae_storage demo_arith_env) (text_param demo_expression ''ResFileName''),
         \<lparr>sv_name = syn_text demo_syn, sv_type = SavedInt64, sv_values = concat (map (\<lambda>_. map (f_of_i64 (ae_fp demo_arith_env)) (meaning demo_env demo_syn))
            (filter (\<lambda>p. pid ?c p = ar_party_id a) [''B'', ''A'']))\<rparr>)]
     else [])"
    by (rule arithmetic_task_computes [OF a(1) demo_expression_task _ _ d demo_arith_sel(1) h o demo_lengths l i])
      (simp_all add: demo_text demo_arith_sel(5))
  then show ?thesis
    using a by (simp add: demo_pid demo_text demo_facts demo_arith_sel int_arith_def CompletePath_def)
qed

theorem short_expression_fails_witness:
  "\<forall>a. ExecuteImpl (arithmetic demo_arith_env (\<lambda>a. Ret (0, a))) (demo_request ''a+c'' ''a-A;c-B'' ''a-0;c-0'' ''A'') a = Ret (FAIL, a)"
  by (intro allI short_expression_fails) (simp add: text_param_def demo_request_def param_string_def)

theorem party_without_columns_miscounts_witness:
  "\<exists>a a' f. new_arith (demo_config ''C'' 2) [] = Ret a
    \<and> run_steps (prepare_steps (arithmetic demo_arith_env (\<lambda>a. Ret (0, a))) demo_expression) a = Ret (SUCCESS, a')
    \<and> x_feed (ar_exec a') = Some f \<and> unat (getColumnValuesCount f) = 2 ^ 32 - 1"
proof -
  let ?c = "demo_config ''C'' 2"
  obtain a where a: "new_arith ?c [] = Ret (a :: (i64 list list, int, i64 list, unit) arith)" "ar_party_id a = 2"
    by (simp add: new_arith_def SelfPartyId_def demo_config_def)
  have "task_dataset (pc_party_name ?c) demo_expression = Some (''C'', False)"
    using demo_dataset [of "''C''"] by (simp add: demo_config_def)
  moreover have "holds (demo_tables ''C'') (map (\<lambda>(col, owner). (col, pid ?c owner)) demo_columns) (ar_party_id a) demo_env 2"
    unfolding a(2) by (simp add: holds_def demo_tables_def demo_columns_def demo_pid)
  moreover have "ar_party_id a \<notin> pid ?c ` snd ` set demo_columns" by (simp add: a(2) demo_columns_def demo_pid)
  ultimately have "\<exists>a' f. run_steps (prepare_steps (arithmetic demo_arith_env (\<lambda>a. Ret (0, a))) demo_expression) a = Ret (SUCCESS, a')
    \<and> x_feed (ar_exec a') = Some f \<and> unat (getColumnValuesCount f) = 2 ^ 32 - 1"
    by (intro party_without_columns_miscounts [OF a(1) demo_expression_task _ _ _ demo_arith_sel(1)]) (simp_all add: demo_text)
  then show ?thesis using a(1) by blast
qed

text \<open>A party with a column of doubles and one of integers.\<close>

definition demo_mixed :: "(unit, int, unit, unit) arith" where
  "demo_mixed = \<lparr>ar_config = demo_config ''A'' 0, ar_party_id = 0, ar_dataset_id = [], ar_detail = False, ar_parties = [0],
      ar_is_cmp = False, ar_cmp_res = [], ar_i64_cmp = True, ar_expr = ''x+y'', ar_cmp_col1 = [], ar_cmp_col2 = [],
      ar_owner = [(''x'', 0), (''y'', 0)], ar_dtype = [(''x'', True), (''y'', False)], ar_final_double = [], ar_final_int64 = [],
      ar_val_double = [(''x'', [1])], ar_val_int = [(''y'', [2])], ar_res_name = [], ar_exec = new_executor, ar_links = None,
      ar_mpc = (), ar_files = []\<rparr>"

lemma demo_mixed_loads:
  "\<exists>a' c. load_express int_arith demo_mixed = Ret (0, a') \<and> x_cfg (ar_exec a') = Some c
    \<and> map_of (local_col c) ''y'' = Some True \<and> x_toktype (ar_exec a') ''y'' = Some COLUMN"
proof -
  have "parseExpress ''x+y'' [] = Ret [''x'', ''y'', ''+'']"
    using parseExpress_syn [of "Bin CHR ''+'' (Name ''x'') (Name ''y'')"]
    by (simp add: plain_char_def isOperatorChar_def Priority_def)
  moreover have "checkExpress [''x'', ''y'', ''+'']"
    by (simp add: checkExpress_def isOperator_def)
  ultimately show ?thesis
    by (simp add: load_express_def demo_mixed_def x_initColumnConfig_def new_executor_def new_col_config_def
        x_importColumnOwner_def cfg_importColumnOwner_def al_insert_def x_importColumnDtype_def cfg_importColumnDtype_def
        x_importExpress_def importExpress_def x_resolveRunMode_def cfg_resolveLocalColumn_def isOperator_def
        cfg_getColumnDtype_def x_InitFeedDict_def new_feed_dict_def x_importColumnValues_def fd_import_fp64_def
        cfg_getColumnLocality_def setOrCheckValueCount_def cfg_hasFP64Column_def map_insert_def
        del: cfg_getColumnLocality_Ret cfg_getColumnDtype_Ret)
qed

theorem mixed_columns_are_lost_witness:
  "\<exists>a'. load_express int_arith demo_mixed = Ret (0, a') \<and> x_createTokenValue int_arith (ar_exec a') ''y'' = Ret (-2, Remote)"
proof -
  obtain a' c where a: "load_express int_arith demo_mixed = Ret (0, a')" "x_cfg (ar_exec a') = Some c"
    "map_of (local_col c) ''y'' = Some True" "x_toktype (ar_exec a') ''y'' = Some COLUMN" using demo_mixed_loads by blast
  have "x_createTokenValue int_arith (ar_exec a') ''y'' = Ret (-2, Remote)"
    by (rule mixed_columns_are_lost [OF a(1) _ _ _ a(2-4)]) (simp_all add: demo_mixed_def new_executor_def)
  with a(1) show ?thesis by blast
qed

end
