(* ===== verification/Compare_Task.thy ===== *)
theory Compare_Task
  imports Arithmetic_Correct
begin

text \<open>
  The comparison of two parties' columns as a task of all three, and the channels that the parties of any
  task open to their neighbours.
\<close>

section \<open>The task of a comparison\<close>

lemma reveal_compare_bits:
  assumes "\<forall>n. fst (bin_reveal bin res n) = bits"
  shows "fst (reveal_compare bin res qs as n) = (\<lambda>p. (as p)\<lparr>ar_cmp_res := ar_cmp_res (as p) @
     concat (map (\<lambda>_. bits) (filter (\<lambda>q. q = ar_party_id (as p)) qs))\<rparr>)"
proof (induction qs arbitrary: as n)
  case (Cons q qs)
  obtain n' where "bin_reveal bin res n = (bits, n')" using assms by (metis prod.collapse)
  then show ?case by (simp add: Cons fun_eq_iff)
qed simp

lemma compared_columns_cmp:
  assumes "CHR '','' \<notin> set c1"
  shows "compared_columns (''CMP('' @ c1 @ '','' @ c2 @ '')'') = Some (c1, c2)"
proof -
  let ?e = "''CMP('' @ c1 @ '','' @ c2 @ '')''"
  have "takeWhile (\<lambda>c. c \<noteq> CHR '','') (c1 @ CHR '','' # c2 @ '')'') = c1"
    using assms by (subst takeWhile_append2) auto
  then have "length (takeWhile (\<lambda>c. c \<noteq> CHR '','') ?e) = length c1 + 4" by simp
  then show ?thesis by (simp add: compared_columns_def Let_def)
qed

text \<open>What a party holds when the comparison starts.\<close>

lemma comparison_prepared:
  assumes "new_arith c m = Ret a" "column_params c task cols parties"
    "text_param task ''Expr'' = ''CMP('' @ c1 @ '','' @ c2 @ '')''" "CHR '','' \<notin> set c1"
    "task_dataset (pc_party_name c) task = Some (ds, detail)" "ae_read env ds detail = Ret (Some table)"
    "holds table (map (\<lambda>(col, owner). (col, pid c owner)) cols) (ar_party_id a) vals n"
    "(c1, o1) \<in> set cols" "(c2, o2) \<in> set cols"
  shows "\<exists>b. run_steps (prepare_steps (arithmetic env compare) task) a = Ret (SUCCESS, b) \<and> ar_is_cmp b
    \<and> ar_party_id b = ar_party_id a \<and> ar_parties b = map (pid c) parties \<and> ar_cmp_res b = [] \<and> ar_files b = []
    \<and> ar_final_double b = [] \<and> ar_final_int64 b = [] \<and> ar_expr b = text_param task ''Expr''
    \<and> ar_res_name b = CompletePath (ae_storage env) (text_param task ''ResFileName'')
    \<and> compare_matrix fix_point b =
        (if pid c o1 = ar_party_id a then Some \<lparr>m_rows = 1, m_cols = n, m_at = vals c1\<rparr>
         else if pid c o2 = ar_party_id a then Some \<lparr>m_rows = 1, m_cols = n, m_at = vals c2\<rparr> else None)"
proof -
  obtain i where i: "SelfPartyId c = Ret i" "a = \<lparr>ar_config = c, ar_party_id = ucast i, ar_dataset_id = [], ar_detail = False, ar_parties = [],
      ar_is_cmp = False, ar_cmp_res = [], ar_i64_cmp = True, ar_expr = [], ar_cmp_col1 = [], ar_cmp_col2 = [],
      ar_owner = [], ar_dtype = [], ar_final_double = [], ar_final_int64 = [], ar_val_double = [],
      ar_val_int = [], ar_res_name = [], ar_exec = new_executor, ar_links = None, ar_mpc = m, ar_files = []\<rparr>"
    using assms(1) by (auto simp: new_arith_def cbind_Ret_iff)
  let ?owners = "map (\<lambda>(col, owner). (col, pid c owner)) cols"
  let ?dtypes = "map (\<lambda>(col, owner). (col, False)) cols"
  have ty: "?dtypes = map (\<lambda>(col, _). (col, False)) ?owners" by (simp add: case_prod_unfold o_def)
  note e = assms(2) [unfolded column_params_def]
  have cc: "compared_columns (text_param task ''Expr'') = Some (c1, c2)"
    unfolding assms(3) by (rule compared_columns_cmp [OF assms(4)])
  define b where "b = a\<lparr>ar_dataset_id := ds, ar_detail := detail,
        ar_owner := ?owners, ar_dtype := ?dtypes, ar_expr := text_param task ''Expr'', ar_cmp_col1 := c1,
        ar_cmp_col2 := c2, ar_is_cmp := True, ar_parties := map (pid c) parties,
        ar_res_name := CompletePath (ae_storage env) (text_param task ''ResFileName'')\<rparr>"
  have p: "arith_params (ae_storage env) task a = Some b"
    using params_read [of a task cols parties c1 c2 ds detail "ae_storage env"] assms(2,3,5) cc i(2)
    by (simp add: b_def)
  have bs: "ar_dataset_id b = ds" "ar_detail b = detail" "ar_owner b = ?owners" "ar_dtype b = ?dtypes" "ar_val_int b = []"
    "ar_is_cmp b" "ar_party_id b = ar_party_id a" "ar_cmp_col1 b = c1" "ar_cmp_col2 b = c2"
    by (simp_all add: b_def i(2))
  from columns_loaded [of env b table "ar_party_id a" vals n] assms(6,7) bs ty obtain vi where
    vi: "LoadDatasetFromCSV env b = Ret (int n, b\<lparr>ar_val_int := vi\<rparr>)" "\<forall>(col, v) \<in> set vi. length v = n"
      "\<forall>(col, owner) \<in> set ?owners. owner = ar_party_id a \<longrightarrow> map_of vi col = Some (vals col)" by auto
  have d: "distinct (map fst ?owners)" "distinct (map fst ?dtypes)" using e by (simp_all add: case_prod_unfold o_def)
  have own: "map_of ?owners c1 = Some (pid c o1)" "map_of ?owners c2 = Some (pid c o2)"
    "map_of ?dtypes c1 = Some False" "map_of ?dtypes c2 = Some False"
    using d assms(8,9) by (auto intro!: map_of_is_SomeI)
  obtain ls where ls: "initPartyComm c = Ret ls"
    using i(1) by (auto simp: initPartyComm_def NextPartyId_def PrevPartyId_def Let_def)
  let ?z = "b\<lparr>ar_val_int := vi, ar_i64_cmp := True, ar_links := Some ls\<rparr>"
  have s1: "arith_loadParams env task a = Ret (0, b)" by (simp add: arith_loadParams_def p)
  have s2: "arith_loadDataset env b = Ret (0, b\<lparr>ar_val_int := vi, ar_i64_cmp := True\<rparr>)"
    using vi(1) assms(7) bs own by (simp add: arith_loadDataset_def holds_def compare_types_def)
  have "run_steps (prepare_steps (arithmetic env compare) task) a = Ret (SUCCESS, ?z)"
    using s1 s2 ls bs by (simp add: prepare_steps_def arithmetic_def arith_InitEngine_def b_def i(2))
  moreover have "compare_matrix fix_point ?z =
        (if pid c o1 = ar_party_id a then Some \<lparr>m_rows = 1, m_cols = n, m_at = vals c1\<rparr>
         else if pid c o2 = ar_party_id a then Some \<lparr>m_rows = 1, m_cols = n, m_at = vals c2\<rparr> else None)"
  proof -
    have "map_of vi c1 = Some (vals c1) \<and> length (vals c1) = n" if "pid c o1 = ar_party_id a"
      using that vi(2,3) assms(8) map_of_SomeD by fastforce
    moreover have "map_of vi c2 = Some (vals c2) \<and> length (vals c2) = n" if "pid c o2 = ar_party_id a"
      using that vi(2,3) assms(9) map_of_SomeD by fastforce
    ultimately show ?thesis using own bs by (simp add: compare_matrix_def)
  qed
  ultimately show ?thesis
    by (intro exI [of _ ?z]) (simp add: b_def i(2))
qed

text \<open>
  The party \<open>p\<close> before a comparison of \<open>c1\<close> and \<open>c2\<close>: its request, its columns, and the numbers of the
  parties.
\<close>

definition comparing ::
  "('m, 'si, 'sf, 'd, 'fx) arith_env \<Rightarrow> party_config \<Rightarrow> task_config \<Rightarrow> ('m, 'd, 'si, 'sf) arith \<Rightarrow> (string \<times> string) list
   \<Rightarrow> string list \<Rightarrow> string \<Rightarrow> string \<Rightarrow> (string \<Rightarrow> u32) \<Rightarrow> u32 \<Rightarrow> (string \<Rightarrow> i64 list) \<Rightarrow> nat \<Rightarrow> bool" where
  "comparing env c task a cols parties c1 c2 num p vals n \<longleftrightarrow>
     (\<exists>m. new_arith c m = Ret a) \<and> ar_party_id a = p \<and> column_params c task cols parties
     \<and> text_param task ''Expr'' = ''CMP('' @ c1 @ '','' @ c2 @ '')'' \<and> CHR '','' \<notin> set c1
     \<and> (\<exists>ds detail table. task_dataset (pc_party_name c) task = Some (ds, detail) \<and> ae_read env ds detail = Ret (Some table)
          \<and> holds table (map (\<lambda>(col, owner). (col, pid c owner)) cols) p vals n)
     \<and> (\<forall>name \<in> snd ` set cols \<union> set parties. pid c name = num name) \<and> (\<forall>path t. ae_write env path t = 0)"

text \<open>The party when the comparison starts.\<close>

definition ready ::
  "('m, 'si, 'sf, 'd, 'fx) arith_env \<Rightarrow> task_config \<Rightarrow> ('d \<Rightarrow> i64) \<Rightarrow> string list \<Rightarrow> string \<Rightarrow> string \<Rightarrow> string \<Rightarrow> string
   \<Rightarrow> (string \<Rightarrow> u32) \<Rightarrow> u32 \<Rightarrow> (string \<Rightarrow> i64 list) \<Rightarrow> nat \<Rightarrow> ('m, 'd, 'si, 'sf) arith \<Rightarrow> bool" where
  "ready env task fix_point parties c1 c2 o1 o2 num p vals n b \<longleftrightarrow>
     ar_is_cmp b \<and> ar_party_id b = p \<and> ar_parties b = map num parties \<and> ar_cmp_res b = [] \<and> ar_files b = []
     \<and> ar_final_double b = [] \<and> ar_final_int64 b = [] \<and> ar_expr b = ''CMP('' @ c1 @ '','' @ c2 @ '')''
     \<and> ar_res_name b = CompletePath (ae_storage env) (text_param task ''ResFileName'')
     \<and> compare_matrix fix_point b =
         (if num o1 = p then Some \<lparr>m_rows = 1, m_cols = n, m_at = vals c1\<rparr>
          else if num o2 = p then Some \<lparr>m_rows = 1, m_cols = n, m_at = vals c2\<rparr> else None)"

lemma comparing_prepared:
  assumes "comparing env c task a cols parties c1 c2 num p vals n" "(c1, o1) \<in> set cols" "(c2, o2) \<in> set cols"
  shows "\<exists>b. run_steps (prepare_steps (arithmetic env compare) task) a = Ret (SUCCESS, b)
    \<and> ready env task fix_point parties c1 c2 o1 o2 num p vals n b"
proof -
  note d = assms(1) [unfolded comparing_def]
  obtain m ds detail table where a: "new_arith c m = Ret a" "task_dataset (pc_party_name c) task = Some (ds, detail)"
    "ae_read env ds detail = Ret (Some table)" "holds table (map (\<lambda>(col, owner). (col, pid c owner)) cols) (ar_party_id a) vals n"
    using d by blast
  have e: "column_params c task cols parties" "text_param task ''Expr'' = ''CMP('' @ c1 @ '','' @ c2 @ '')''" "CHR '','' \<notin> set c1"
    "ar_party_id a = p" using d by blast+
  have num: "pid c o1 = num o1" "pid c o2 = num o2" "map (pid c) parties = map num parties" using d assms(2,3) by force+
  show ?thesis unfolding ready_def
    by (rule comparison_prepared [OF a(1) e(1-3) a(2-4) assms(2,3), of compare fix_point, unfolded num e(2,4)])
qed

text \<open>The file of a party that has the truth values.\<close>

definition comparison_file ::
  "('m, 'si, 'sf, 'd, 'fx) arith_env \<Rightarrow> task_config \<Rightarrow> string \<Rightarrow> string \<Rightarrow> bool list \<Rightarrow> (string \<times> 'd saved_table) list" where
  "comparison_file env task c1 c2 bits =
     [(CompletePath (ae_storage env) (text_param task ''ResFileName''),
       \<lparr>sv_name = ''CMP('' @ c1 @ '','' @ c2 @ '')'', sv_type = SavedBool,
        sv_values = map (\<lambda>b. f_of_i64 (ae_fp env) (if b then 1 else 0)) bits\<rparr>)]"

lemma ready_saves:
  assumes "ready env task fix_point parties c1 c2 o1 o2 num p vals n b" "\<forall>path t. ae_write env path t = 0"
  shows "run_steps [arith_saveModel env] (b\<lparr>ar_cmp_res := bits\<rparr>) = Ret (SUCCESS, b\<lparr>ar_cmp_res := bits, ar_files :=
      (if p \<in> num ` set parties then
         comparison_file env task c1 c2 bits
       else [])\<rparr>)"
proof -
  have "ar_party_id b = p" "ar_parties b = map num parties" "ar_files b = []" "ar_final_double b = []" "ar_final_int64 b = []"
    "ar_expr b = ''CMP('' @ c1 @ '','' @ c2 @ '')''" "ar_res_name b = CompletePath (ae_storage env) (text_param task ''ResFileName'')"
    using assms(1) unfolding ready_def by blast+
  then show ?thesis using assms(2) by (cases b) (simp add: arith_saveModel_def result_table_def comparison_file_def Let_def)
qed

lemma comparing_lengths:
  fixes env :: "('m, 'si, 'sf, 'd, 'fx) arith_env"
  assumes "comparing env c task a cols parties c1 c2 num p vals n"
  shows "0 < n" "n < 2 ^ 31" "(col, owner) \<in> set cols \<Longrightarrow> num owner = p \<Longrightarrow> length (vals col) = n"
proof -
  obtain table :: "'d table" where h: "holds table (map (\<lambda>(col, owner). (col, pid c owner)) cols) p vals n"
    and num: "\<forall>name \<in> snd ` set cols \<union> set parties. pid c name = num name"
    using assms unfolding comparing_def by blast
  show "0 < n" "n < 2 ^ 31" using h by (simp_all add: holds_def)
  assume c: "(col, owner) \<in> set cols" "num owner = p"
  then have "pid c owner = p" using num by force
  then obtain cs where "(col, Int64Chunks cs) \<in> set table" "concat cs = vals col"
    using h c(1) unfolding holds_def by force
  moreover have "col \<in> fst ` set (map (\<lambda>(col, owner). (col, pid c owner)) cols)" using c(1) by force
  ultimately show "length (vals col) = n" using h unfolding holds_def by force
qed

lemma parties_ready:
  assumes "\<forall>p < 3. comparing (env p) (c p) (task p) (as p) cols parties c1 c2 num (of_nat p) vals n"
    "(c1, o1) \<in> set cols" "(c2, o2) \<in> set cols"
  shows "\<exists>bs. jointly (\<lambda>p. run_steps (prepare_steps (arithmetic (env p) (\<lambda>a. Ret (0, a))) (task p)) (as p)) = Ret bs
    \<and> (\<forall>p < 3. fst (bs p) = SUCCESS \<and> ready (env p) (task p) fix_point parties c1 c2 o1 o2 num (of_nat p) vals n (snd (bs p)))"
proof -
  let ?prep = "\<lambda>p. run_steps (prepare_steps (arithmetic (env p) (\<lambda>a. Ret (0, a))) (task p)) (as p)"
  let ?ready = "\<lambda>p. ready (env p) (task p) fix_point parties c1 c2 o1 o2 num (of_nat p) vals n"
  have "\<forall>p. \<exists>b. p < 3 \<longrightarrow> ?prep p = Ret (SUCCESS, b) \<and> ?ready p b"
  proof (intro allI)
    fix p
    have "\<exists>b. ?prep p = Ret (SUCCESS, b) \<and> ?ready p b" if "p < 3"
      by (rule comparing_prepared [OF assms(1) [rule_format, OF that] assms(2,3)])
    then show "\<exists>b. p < 3 \<longrightarrow> ?prep p = Ret (SUCCESS, b) \<and> ?ready p b" by (simp only: ex_simps) iprover
  qed
  from choice [OF this] obtain b where b: "\<And>p. p < 3 \<Longrightarrow> ?prep p = Ret (SUCCESS, b p)" "\<And>p. p < 3 \<Longrightarrow> ?ready p (b p)"
    by iprover
  have "\<forall>p < 3. ?prep p = Ret ((\<lambda>p. (SUCCESS, b p)) p)" by (intro allI impI b(1))
  from jointly_Ret_all [OF this] obtain bs where bs: "jointly ?prep = Ret bs" "\<forall>p < 3. bs p = (SUCCESS, b p)" by iprover
  moreover have "\<forall>p < 3. fst (bs p) = SUCCESS \<and> ?ready p (snd (bs p))" using b(2) bs(2) by simp
  ultimately show ?thesis by iprover
qed

text \<open>The comparison itself, from what the parties hold to the values that each of them has.\<close>

lemma comparison_revealed:
  assumes "msb_laws bin" "k < 3" "\<forall>p < 3. ready (env p) (task p) fix_point parties c1 c2 o1 o2 num (of_nat p) vals n (as p)"
    "num o1 = of_nat (provider_1 k) \<and> num o2 = of_nat (provider_2 k) \<and> low = c1 \<and> high = c2
     \<or> num o2 = of_nat (provider_1 k) \<and> num o1 = of_nat (provider_2 k) \<and> low = c2 \<and> high = c1"
    "length (vals low) = n" "length (vals high) = n" "0 < n" "n < 2 ^ 31"
  shows "\<exists>as' m'. execute_compare bin fresh fix_point as m = Ret (as', m') \<and> (\<forall>p < 3. as' p = (as p)\<lparr>ar_cmp_res :=
      concat (map (\<lambda>_. map2 (\<lambda>x y. (sint x < sint y) = difference_fits x y) (vals low) (vals high))
        (filter (\<lambda>q. num q = of_nat p) parties))\<rparr>)"
proof -
  let ?bits = "map2 (\<lambda>x y. (sint x < sint y) = difference_fits x y) (vals low) (vals high)"
  let ?row = "\<lambda>c. Some \<lparr>m_rows = 1, m_cols = n, m_at = vals c\<rparr>"
  let ?ms = "\<lambda>p. compare_matrix fix_point (as p)"
  have v: "compare_matrix fix_point (as p) = (if num o1 = of_nat p then ?row c1 else if num o2 = of_nat p then ?row c2 else None)"
    "ar_parties (as p) = map num parties" "ar_party_id (as p) = of_nat p" "ar_cmp_res (as p) = []" if "p < 3" for p
    using assms(3) that by (simp_all add: ready_def)
  have ids: "provider_1 k < 3" "provider_2 k < 3" "provider_1 k \<noteq> provider_2 k" "k \<noteq> provider_1 k" "k \<noteq> provider_2 k"
    using assms(2) by (auto simp: provider_1_def provider_2_def)
  have inj: "(of_nat p = (of_nat q :: u32)) = (p = q)" if "p < 3" "q < 3" for p q
    using that by (intro word_unat_eq_iff [THEN trans]) (simp add: unat_of_nat)
  have ms: "?ms k = None" "?ms (provider_1 k) = ?row low" "?ms (provider_2 k) = ?row high"
    using assms(4) ids by (auto simp: v(1) assms(2) inj)
  obtain res ms' m' where run: "MPC_Compare bin fresh ?ms m = Ret (res, ms', m')" "\<forall>m4. fst (bin_reveal bin res m4) = ?bits"
    using compare_run [OF assms(1,2) ms, of fresh m] assms(5-8) by auto
  let ?rev = "reveal_compare bin res (map num parties) as m'"
  have "execute_compare bin fresh fix_point as m = Ret ?rev"
    using run(1) v(2) by (simp add: execute_compare_def)
  moreover have "fst ?rev p = (as p)\<lparr>ar_cmp_res := concat (map (\<lambda>_. ?bits) (filter (\<lambda>q. num q = of_nat p) parties))\<rparr>" if "p < 3" for p
    using v(3,4) [OF that] by (simp add: reveal_compare_bits [OF run(2)] filter_map o_def)
  ultimately show ?thesis by (intro exI [of _ "fst ?rev"] exI [of _ "snd ?rev"]) simp
qed

text \<open>
  C7: a task that compares a column \<open>c1\<close> with a column \<open>c2\<close> of another party runs at the three parties with
  success, and the parties that get the result write a file with one truth value for each row and mention
  of them. The values say where the column of the party with the lower number is below the other, unless
  the difference overflows; the order of \<open>c1\<close> and \<open>c2\<close> in the expression plays no part.
\<close>

theorem compare_task_computes:
  assumes "msb_laws bin" "k < 3"
    "\<forall>p < 3. comparing (env p) (c p) (task p) (as p) cols parties c1 c2 num (of_nat p) vals n"
    "(c1, o1) \<in> set cols" "(c2, o2) \<in> set cols"
    "num o1 = of_nat (provider_1 k) \<and> num o2 = of_nat (provider_2 k) \<and> low = c1 \<and> high = c2
     \<or> num o2 = of_nat (provider_1 k) \<and> num o1 = of_nat (provider_2 k) \<and> low = c2 \<and> high = c1"
  shows "\<exists>out. compare_task bin fresh fix_point env task as m = Ret out
    \<and> (\<forall>p < 3. fst (out p) = SUCCESS \<and> ar_files (snd (out p)) =
        (if of_nat p \<in> num ` set parties then
           comparison_file (env p) (task p) c1 c2
             (concat (map (\<lambda>_. map2 (\<lambda>x y. (sint x < sint y) = difference_fits x y) (vals low) (vals high))
               (filter (\<lambda>q. num q = of_nat p) parties)))
         else []))"
proof -
  let ?bag = "\<lambda>p. concat (map (\<lambda>_. map2 (\<lambda>x y. (sint x < sint y) = difference_fits x y) (vals low) (vals high))
    (filter (\<lambda>q. num q = of_nat p) parties))"
  let ?file = "\<lambda>p. if of_nat p \<in> num ` set parties then comparison_file (env p) (task p) c1 c2 (?bag p) else []"
  let ?ready = "\<lambda>p. ready (env p) (task p) fix_point parties c1 c2 o1 o2 num (of_nat p) vals n"
  from parties_ready [OF assms(3-5), of fix_point] obtain bs where
    bs: "jointly (\<lambda>p. run_steps (prepare_steps (arithmetic (env p) (\<lambda>a. Ret (0, a))) (task p)) (as p)) = Ret bs"
      "\<forall>p < 3. fst (bs p) = SUCCESS \<and> ?ready p (snd (bs p))" by iprover
  have ids: "provider_1 k < 3" "provider_2 k < 3" using assms(2) by (auto simp: provider_1_def provider_2_def)
  have lens: "length (vals low) = n" "length (vals high) = n" "0 < n" "n < 2 ^ 31"
    using assms(3-6) ids comparing_lengths by metis+
  have ready: "\<forall>p < 3. ?ready p (snd (bs p))" using bs(2) by blast
  from comparison_revealed [OF assms(1,2) this assms(6) lens, of fresh m] obtain as' m' where
    ex: "execute_compare bin fresh fix_point (\<lambda>p. snd (bs p)) m = Ret (as', m')"
      "\<forall>p < 3. as' p = (snd (bs p))\<lparr>ar_cmp_res := ?bag p\<rparr>" by iprover
  have "\<forall>p < 3. run_steps [arith_saveModel (env p)] (as' p)
      = Ret ((\<lambda>p. (SUCCESS, (snd (bs p))\<lparr>ar_cmp_res := ?bag p, ar_files := ?file p\<rparr>)) p)"
    using ready_saves [OF ready [rule_format], of _ "?bag _"] assms(3) ex(2) by (simp add: comparing_def)
  from jointly_Ret_all [OF this] obtain out where
    out: "jointly (\<lambda>p. run_steps [arith_saveModel (env p)] (as' p)) = Ret out"
      "\<forall>p < 3. out p = (SUCCESS, (snd (bs p))\<lparr>ar_cmp_res := ?bag p, ar_files := ?file p\<rparr>)" by iprover
  have "\<forall>p \<in> set [0, 1, 2]. fst (bs p) = SUCCESS \<and> ar_is_cmp (snd (bs p))" using bs(2) by (simp add: ready_def)
  then have "compare_task bin fresh fix_point env task as m = Ret out"
    using bs(1) ex(1) out(1) by (simp add: compare_task_def)
  moreover have "\<forall>p < 3. fst (out p) = SUCCESS \<and> ar_files (snd (out p)) = ?file p" using out(2) by simp
  ultimately show ?thesis by iprover
qed

definition demo_comparison :: task_config where
  "demo_comparison = demo_request ''CMP(c,a)'' ''a-A;c-B'' ''a-0;c-0'' ''C''"

lemma demo_comparing:
  assumes "(name, i) \<in> {(''A'', 0), (''B'', 1), (''C'', 2)}" "new_arith (demo_config name i) m = Ret a"
  shows "comparing demo_arith_env (demo_config name i) demo_comparison a [(''a'', ''A''), (''c'', ''B'')] [''C''] ''c'' ''a''
    (\<lambda>p. if p = ''A'' then 0 else if p = ''B'' then 1 else 2) (ucast i) demo_env 2"
proof -
  have "task_dataset name demo_comparison = Some (name, False)"
    using assms(1) by (auto simp: task_dataset_def demo_comparison_def demo_request_def)
  moreover have "column_params (demo_config name i) demo_comparison [(''a'', ''A''), (''c'', ''B'')] [''C'']"
    by (simp add: column_params_def demo_names demo_comparison_def demo_request_def text_param_def param_string_def ExtractProxyNode_def)
  moreover have "holds (demo_tables name) [(''a'', 0), (''c'', 1)] (ucast i) demo_env 2"
    using assms(1) by (auto simp: holds_def demo_tables_def demo_env_def)
  moreover have "text_param demo_comparison ''Expr'' = ''CMP(c,a)''"
    by (simp add: demo_comparison_def demo_request_def text_param_def param_string_def)
  moreover have "ar_party_id a = ucast i"
    using assms(2) by (auto simp: new_arith_def SelfPartyId_def demo_config_def)
  moreover have "pc_party_name (demo_config name i) = name" by (simp add: demo_config_def)
  ultimately show ?thesis
    using assms(2) by (auto simp: comparing_def demo_arith_sel demo_pid)
qed

theorem compare_task_computes_witness:
  "\<exists>as out. (\<forall>p. new_arith (if p = 0 then demo_config ''A'' 0 else if p = 1 then demo_config ''B'' 1 else demo_config ''C'' 2) [] = Ret (as p))
    \<and> compare_task demo_bin (\<lambda>n. replicate n 0) word_of_int (\<lambda>p :: nat. demo_arith_env) (\<lambda>p. demo_comparison) as () = Ret out
    \<and> ar_files (snd (out 2)) = [(''/out/result.csv'', \<lparr>sv_name = ''CMP(c,a)'', sv_type = SavedBool, sv_values = [0, 1]\<rparr>)]"
proof -
  let ?c = "\<lambda>p :: nat. if p = 0 then demo_config ''A'' 0 else if p = 1 then demo_config ''B'' 1 else demo_config ''C'' 2"
  let ?num = "\<lambda>p :: string. if p = ''A'' then (0 :: u32) else if p = ''B'' then 1 else 2"
  have "\<exists>a :: (i64 list list, int, i64 list, unit) arith. new_arith (?c p) [] = Ret a" for p by (simp add: new_arith_def SelfPartyId_def demo_config_def)
  then obtain as :: "nat \<Rightarrow> (i64 list list, int, i64 list, unit) arith" where as: "\<And>p. new_arith (?c p) [] = Ret (as p)"
    by metis
  have "comparing demo_arith_env (?c p) demo_comparison (as p) [(''a'', ''A''), (''c'', ''B'')] [''C''] ''c'' ''a'' ?num (of_nat p) demo_env 2"
    if "p < 3" for p
  proof -
    have "p = 0 \<or> p = 1 \<or> p = 2" using that by auto
    then show ?thesis
      using demo_comparing [of "''A''" 0 "[]" "as 0"] demo_comparing [of "''B''" 1 "[]" "as 1"] demo_comparing [of "''C''" 2 "[]" "as 2"]
        as [of 0] as [of 1] as [of 2] by (elim disjE) simp_all
  qed
  then have c: "\<forall>p < 3. comparing demo_arith_env (?c p) demo_comparison (as p) [(''a'', ''A''), (''c'', ''B'')] [''C''] ''c'' ''a'' ?num (of_nat p) demo_env 2"
    by blast
  have "2 < (3 :: nat)" "(''c'', ''B'') \<in> set [(''a'', ''A''), (''c'', ''B'')]" "(''a'', ''A'') \<in> set [(''a'', ''A''), (''c'', ''B'')]"
    "?num ''B'' = of_nat (provider_1 2) \<and> ?num ''A'' = of_nat (provider_2 2) \<and> ''a'' = ''c'' \<and> ''c'' = ''a''
     \<or> ?num ''A'' = of_nat (provider_1 2) \<and> ?num ''B'' = of_nat (provider_2 2) \<and> ''a'' = ''a'' \<and> ''c'' = ''c''"
    by (simp_all add: provider_1_def provider_2_def)
  from compare_task_computes [OF demo_msb this(1) c this(2-4), of "\<lambda>n. replicate n 0" word_of_int "()"] obtain out where
    out: "compare_task demo_bin (\<lambda>n. replicate n 0) word_of_int (\<lambda>p :: nat. demo_arith_env) (\<lambda>p. demo_comparison) as () = Ret out"
    "\<forall>p < 3. fst (out p) = SUCCESS \<and> ar_files (snd (out p)) =
        (if of_nat p \<in> ?num ` set [''C''] then
           comparison_file demo_arith_env demo_comparison ''c'' ''a''
                (concat (map (\<lambda>_. map2 (\<lambda>x y. (sint x < sint y) = difference_fits x y) (demo_env ''a'') (demo_env ''c''))
                   (filter (\<lambda>q. ?num q = of_nat p) [''C''])))
         else [])" by iprover
  have "text_param demo_comparison ''ResFileName'' = ''result.csv''"
    by (simp add: demo_comparison_def demo_request_def text_param_def param_string_def)
  then have "ar_files (snd (out 2)) = [(''/out/result.csv'', \<lparr>sv_name = ''CMP(c,a)'', sv_type = SavedBool, sv_values = [0, 1]\<rparr>)]"
    using out(2) [rule_format, of 2] by (simp add: demo_arith_sel int_arith_def demo_env_def difference_fits_def CompletePath_def comparison_file_def)
  then show ?thesis by (intro exI conjI allI) (rule as, rule out(1))
qed

section \<open>The ring of channels\<close>

lemma fold_update_lookup:
  "inj_on key (set ps) \<Longrightarrow> x \<in> set ps \<Longrightarrow> map_of (fold (\<lambda>x. AList.update (key x) (val x)) ps m) (key x) = Some (val x)"
proof (induction ps rule: rev_induct)
  case (snoc y ps)
  show ?case
  proof (cases "x = y")
    case False
    with snoc show ?thesis by (auto simp: update_conv' inj_on_def)
  qed (simp add: update_conv')
qed simp

text \<open>The request of three parties, whose map may be gone through in any order.\<close>

definition three_parties :: "(nat \<Rightarrow> string) \<Rightarrow> (nat \<Rightarrow> pb_node) \<Rightarrow> (string \<times> pb_node) list \<Rightarrow> bool" where
  "three_parties name pn parties \<longleftrightarrow> inj_on name {0, 1, 2} \<and> (\<forall>i \<in> {0, 1, 2}. pn_party_id (pn i) = int i)
     \<and> distinct (map fst parties) \<and> set parties = (\<lambda>i. (name i, pn i)) ` {0, 1, 2}"

lemma three_parties_known:
  assumes "three_parties name pn parties" "i < 3"
  shows "map_of parties (name i) = Some (pn i)"
    "party_name_of (new_party_config parties task) (of_nat i) = name i"
    "PartyName2PartyInfo (new_party_config parties task) (name i) = to_node (pn i)"
proof -
  note t = assms(1) [unfolded three_parties_def]
  have i: "i \<in> {0, 1, 2}" using assms(2) by auto
  then have mem: "(name i, pn i) \<in> set parties" using t by blast
  with t show "map_of parties (name i) = Some (pn i)" by (simp add: map_of_is_SomeI)
  let ?id = "\<lambda>x :: string \<times> pb_node. word_of_int (pn_party_id (snd x)) :: u16"
  have "inj_on ?id (set parties)" using t by (auto simp: inj_on_def)
  from fold_update_lookup [OF this mem, of fst "[]"] have
    "map_of (fold (\<lambda>(name, p). AList.update (word_of_int (pn_party_id p)) name) parties []) (?id (name i, pn i)) = Some (name i)"
    by (simp add: case_prod_unfold)
  moreover have "?id (name i, pn i) = of_nat i" using t i by auto
  ultimately show "party_name_of (new_party_config parties task) (of_nat i) = name i"
    by (simp add: party_name_of_def new_party_config_def)
  have "inj_on fst (set parties)" using t by (auto simp: distinct_map)
  from fold_update_lookup [OF this mem, of snd "[]"] show
    "PartyName2PartyInfo (new_party_config parties task) (name i) = to_node (pn i)"
    by (simp add: PartyName2PartyInfo_def new_party_config_def case_prod_unfold)
qed

lemma three_parties_links:
  assumes "three_parties name pn parties" "i < 3" "tk_party_name task = name i"
  shows "initPartyComm (new_party_config parties task) =
    (let link = (\<lambda>j. \<lparr>pl_channel = new_mpc_channel (tc_request_id (tk_info task)) (sub_task_id (tk_info task)) (name i) (name j),
         pl_node = to_node (pn j)\<rparr>)
     in Ret (link ((i + 2) mod 3), link ((i + 1) mod 3)))"
proof -
  let ?c = "new_party_config parties task"
  have id: "pc_party_id ?c = Some (of_nat i)"
  proof -
    have "i \<in> {0, 1, 2}" using assms(2) by auto
    then have "pn_party_id (pn i) = int i" using assms(1) unfolding three_parties_def by blast
    then show ?thesis using three_parties_known(1) [OF assms(1,2)] assms(3) by (simp add: new_party_config_def)
  qed
  have "unat (of_nat i :: u16) = i" using assms(2) by (simp add: unat_of_nat)
  then have "PrevPartyId ?c = Ret (of_nat ((i + 2) mod 3))" "NextPartyId ?c = Ret (of_nat ((i + 1) mod 3))"
    using id by (simp_all add: PrevPartyId_def NextPartyId_def SelfPartyId_def)
  moreover have "pc_info ?c = tk_info task" "pc_party_name ?c = name i" using assms(3) by (simp_all add: new_party_config_def)
  ultimately show ?thesis
    using three_parties_known(2,3) [OF assms(1), of "(i + 2) mod 3" task] three_parties_known(2,3) [OF assms(1), of "(i + 1) mod 3" task]
    by (simp add: initPartyComm_def Let_def)
qed

text \<open>
  C39: the channels that three parties open are a ring. The one to the next party sends to that party's
  node, and what it sends is what the next party's channel to the previous one receives, and the other
  way round, in whatever orders the parties go through the map of the request.
\<close>

theorem ring_channels_match:
  assumes "\<forall>i < 3. three_parties name pn (parties i) \<and> tk_party_name (task i) = name i \<and> tk_info (task i) = info" "i < 3"
    "j = (i + 1) mod 3"
  shows "\<exists>prev_i next_i prev_j next_j.
    initPartyComm (new_party_config (parties i) (task i)) = Ret (prev_i, next_i)
    \<and> initPartyComm (new_party_config (parties j) (task j)) = Ret (prev_j, next_j)
    \<and> pl_node next_i = to_node (pn j) \<and> pl_node prev_j = to_node (pn i)
    \<and> mc_send_key (pl_channel next_i) = mc_recv_key (pl_channel prev_j)
    \<and> mc_send_key (pl_channel prev_j) = mc_recv_key (pl_channel next_i)"
proof -
  have j: "j < 3" "(j + 2) mod 3 = i" using assms(2,3) by (simp, presburger)
  have i: "three_parties name pn (parties i)" "tk_party_name (task i) = name i" "tk_info (task i) = info"
    "three_parties name pn (parties j)" "tk_party_name (task j) = name j" "tk_info (task j) = info"
    using assms(1,2) j(1) by blast+
  show ?thesis
    using three_parties_links [OF i(1) assms(2) i(2), unfolded Let_def i(3) assms(3) [symmetric]]
      three_parties_links [OF i(4) j(1) i(5), unfolded Let_def i(6) j(2)]
    by (simp add: mpc_channel_keys)
qed

theorem ring_channels_match_witness:
  "\<exists>p1 n1 p2 n2 pn :: nat \<Rightarrow> pb_node. \<exists>task :: nat \<Rightarrow> task_config.
    initPartyComm (new_party_config [(''B'', pn 1), (''A'', pn 0), (''C'', pn 2)] (task 2)) = Ret (p1, n1)
    \<and> initPartyComm (new_party_config [(''A'', pn 0), (''C'', pn 2), (''B'', pn 1)] (task 0)) = Ret (p2, n2)
    \<and> mc_send_key (pl_channel n1) = mc_recv_key (pl_channel p2)"
proof -
  let ?pn = "\<lambda>i :: nat. empty_pb\<lparr>pn_party_id := int i\<rparr>"
  let ?name = "\<lambda>i :: nat. if i = 0 then ''A'' else if i = 1 then ''B'' else ''C''"
  let ?task = "\<lambda>i. demo_comparison\<lparr>tk_party_name := ?name i\<rparr>"
  let ?parties = "\<lambda>i :: nat. if i = 0 then [(''A'', ?pn 0), (''C'', ?pn 2), (''B'', ?pn 1)] else [(''B'', ?pn 1), (''A'', ?pn 0), (''C'', ?pn 2)]"
  have "\<forall>i < 3. three_parties ?name ?pn (?parties i) \<and> tk_party_name (?task i) = ?name i
      \<and> tk_info (?task i) = tk_info demo_comparison"
    by (auto simp: three_parties_def inj_on_def)
  from ring_channels_match [OF this, of 2 0] obtain p1 n1 p2 n2 where
    "initPartyComm (new_party_config (?parties 2) (?task 2)) = Ret (p1, n1)"
    "initPartyComm (new_party_config (?parties 0) (?task 0)) = Ret (p2, n2)"
    "mc_send_key (pl_channel n1) = mc_recv_key (pl_channel p2)" by auto
  then show ?thesis by (intro exI [of _ p1] exI [of _ n1] exI [of _ p2] exI [of _ n2] exI [of _ ?pn] exI [of _ ?task]) simp
qed

end
