(* ===== verification/Statistics.thy ===== *)
theory Statistics
  imports Mpc_Task Aby3_Compare
begin

text \<open>
  The executors of statistics (executor/statistics.{h,cc}): each party computes the sum and the count, or the
  least or greatest value, of its columns, and the three parties put them together by shares and
  comparisons. Doubles, their fixed-point form and the aby3 library are parameters. What the three parties
  do together is one step of all of them.
\<close>

section \<open>Numbers\<close>

text \<open>
  The numbers of a double, other than NaN: their order, the limits \<^verbatim>\<open>numeric_limits<double>::min\<close>, which is
  positive, and \<^verbatim>\<open>max\<close>, the product with -1, and the fixed-point form of 16 bits with its converse.
\<close>

record 'd fp_num = "'d fp_arith" +
  f_zero :: 'd
  f_le :: "'d \<Rightarrow> 'd \<Rightarrow> bool"
  f_limit_min :: 'd
  f_limit_max :: 'd
  f_minus :: "'d \<Rightarrow> 'd"
  f_fix :: "'d \<Rightarrow> i64"
  f_unfix :: "i64 \<Rightarrow> 'd"

(* src/src/fediux/common/type.h:18-26 ColumnDtype *)
datatype column_dtype = CD_STRING | CD_INTEGER | CD_DOUBLE | CD_LONG | CD_ENUM | CD_BOOLEAN | CD_UNKNOWN

(* src/src/fediux/common/type.cc:32-56 columnDtypeFromInteger *)
definition columnDtypeFromInteger :: "int \<Rightarrow> column_dtype" where
  "columnDtypeFromInteger val =
     (if val = 0 then CD_STRING else if val = 1 then CD_INTEGER else if val = 2 then CD_DOUBLE
      else if val = 3 then CD_LONG else if val = 4 then CD_ENUM else if val = 5 then CD_BOOLEAN else CD_UNKNOWN)"

(* src/src/fediux/common/type.cc:4-30 columnDtypeToString *)
fun columnDtypeToString :: "column_dtype \<Rightarrow> string" where
  "columnDtypeToString CD_BOOLEAN = ''BOOLEAN''"
| "columnDtypeToString CD_DOUBLE = ''FP64''"
| "columnDtypeToString CD_INTEGER = ''INT64''"
| "columnDtypeToString CD_LONG = ''INT64''"
| "columnDtypeToString CD_ENUM = ''ENUM''"
| "columnDtypeToString CD_STRING = ''STRING''"
| "columnDtypeToString CD_UNKNOWN = ''UNKNOWN TYPE''"

(* src/src/fediux/executor/statistics.h:20-26 MPCStatisticsOperator::MPCStatisticsType *)
datatype statistics_type = ST_AVG | ST_SUM | ST_MAX | ST_MIN | ST_UNKNOWN

(* src/src/fediux/executor/statistics.h:56-78 MPCStatisticsOperator::statisticsTypeToString *)
fun statisticsTypeToString :: "statistics_type \<Rightarrow> string" where
  "statisticsTypeToString ST_AVG = ''AVG''"
| "statisticsTypeToString ST_SUM = ''SUM''"
| "statisticsTypeToString ST_MAX = ''MAX''"
| "statisticsTypeToString ST_MIN = ''MIN''"
| "statisticsTypeToString ST_UNKNOWN = ''UNKNOWN''"

section \<open>Sums and counts of a party\<close>

text \<open>
  The values of a column as doubles, chunk by chunk. The type of the request says how an array is read; one
  of another type than the array's is a cast that is not allowed. \<open>None\<close>: the request's type is not one of
  numbers.
\<close>

(* src/src/fediux/executor/statistics.cc:32-75 MPCSumOrAvg::PlainTextDataCompute *)
definition chunk_values :: "'d fp_num \<Rightarrow> column_dtype \<Rightarrow> 'd chunks \<Rightarrow> 'd list list option cpp" where
  "chunk_values fp ty col =
     (if ty = CD_INTEGER \<or> ty = CD_LONG then
        (case col of
           Int8Chunks cs \<Rightarrow> Ret (Some (map (map (\<lambda>v. f_of_i64 fp (scast v))) cs))
         | Int16Chunks cs \<Rightarrow> Ret (Some (map (map (\<lambda>v. f_of_i64 fp (scast v))) cs))
         | Int32Chunks cs \<Rightarrow> Ret (Some (map (map (\<lambda>v. f_of_i64 fp (scast v))) cs))
         | Int64Chunks cs \<Rightarrow> Ret (Some (map (map (f_of_i64 fp)) cs))
         | _ \<Rightarrow> Undef)
      else if ty = CD_DOUBLE then (case col of DoubleChunks cs \<Rightarrow> Ret (Some cs) | _ \<Rightarrow> Undef)
      else Ret None)"

text \<open>The type is looked up for each chunk, and is not needed when there is none.\<close>

(* src/src/fediux/executor/statistics.cc:19-80 MPCSumOrAvg::PlainTextDataCompute *)
definition column_sum :: "'d fp_num \<Rightarrow> column_dtype option \<Rightarrow> 'd chunks \<Rightarrow> ('d \<times> 'd) option cpp" where
  "column_sum fp ty col =
     (if chunk_lengths col = [] then Ret (Some (f_zero fp, f_zero fp))
      else case ty of None \<Rightarrow> Undef
        | Some t \<Rightarrow> cbind (chunk_values fp t col) (\<lambda>r. case r of
              None \<Rightarrow> Ret None
            | Some vs \<Rightarrow> Ret (Some (fold (\<lambda>v s. f_add fp s v) (concat vs) (f_zero fp),
                fold (\<lambda>c n. f_add fp n (f_of_i64 fp (of_nat (length c)))) vs (f_zero fp)))))"

text \<open>\<open>None\<close>: the computation fails.\<close>

(* src/src/fediux/executor/statistics.cc:7-92 MPCSumOrAvg::PlainTextDataCompute *)
fun sum_PlainTextDataCompute ::
  "'d fp_num \<Rightarrow> 'd table \<Rightarrow> (string \<times> column_dtype) list \<Rightarrow> string list \<Rightarrow> ('d \<times> 'd) list option cpp" where
  "sum_PlainTextDataCompute fp table all_type [] = Ret (Some [])"
| "sum_PlainTextDataCompute fp table all_type (column # columns) =
     (case GetColumnByName table column of
        None \<Rightarrow> Ret None
      | Some col \<Rightarrow> cbind (column_sum fp (map_of all_type column) col) (\<lambda>r. case r of
            None \<Rightarrow> Ret None
          | Some s \<Rightarrow> cbind (sum_PlainTextDataCompute fp table all_type columns) (\<lambda>rs. Ret (map_option (Cons s) rs))))"

section \<open>Sums and averages of the three parties\<close>

(* src/src/fediux/operator/aby3_operator.h:84-90 MPCOperator::createShares *)
definition createShares_double :: "'m aby3_lib \<Rightarrow> 'd fp_num \<Rightarrow> 'd list \<Rightarrow> 'm \<Rightarrow> sharing \<times> 'm" where
  "createShares_double lib fp vals m = lb_share lib (length vals) 1 (map (f_fix fp) vals) m"

(* src/src/fediux/operator/aby3_operator.h:185-195 MPCOperator::reveal *)
definition reveal_double :: "'m aby3_lib \<Rightarrow> 'd fp_num \<Rightarrow> nat \<Rightarrow> sharing \<Rightarrow> 'm \<Rightarrow> 'd list \<times> 'm" where
  "reveal_double lib fp p s m = (let (vals, m) = lb_reveal lib p s m in (map (f_unfix fp) vals, m))"

(* src/src/fediux/operator/aby3_operator.h:164-175 MPCOperator::revealAll *)
definition revealAll_double :: "'m aby3_lib \<Rightarrow> 'd fp_num \<Rightarrow> sharing \<Rightarrow> 'm \<Rightarrow> 'd list \<times> 'm" where
  "revealAll_double lib fp s m = (let (vals, m) = lb_reveal_all lib s m in (map (f_unfix fp) vals, m))"

text \<open>Each party in turn shares its column, and adds the three shares that it holds.\<close>

(* src/src/fediux/executor/statistics.cc:97-106 MPCSumOrAvg::CipherTextDataCompute *)
definition share_in_turn ::
  "'m aby3_lib \<Rightarrow> 'd fp_num \<Rightarrow> (nat \<Rightarrow> 'd list) \<Rightarrow> 'm \<Rightarrow> (sharing \<times> sharing \<times> sharing) \<times> 'm" where
  "share_in_turn lib fp cols m =
     (let (s0, m) = createShares_double lib fp (cols 0) m;
          (s1, m) = createShares_double lib fp (cols 1) m;
          (s2, m) = createShares_double lib fp (cols 2) m
      in ((s0, s1, s2), m))"

(* src/src/fediux/executor/statistics.cc:129-137 MPCSumOrAvg::CipherTextDataCompute *)
definition sum_of_shares :: "'m aby3_lib \<Rightarrow> sharing \<times> sharing \<times> sharing \<Rightarrow> sharing" where
  "sum_of_shares lib = (\<lambda>(s0, s1, s2) p. lb_plus lib (lb_plus lib (s0 p) (s1 p)) (s2 p))"

(* src/src/fediux/executor/statistics.cc:151-156 MPCSumOrAvg::CipherTextDataCompute *)
definition reveal_in_turn :: "'m aby3_lib \<Rightarrow> 'd fp_num \<Rightarrow> sharing \<Rightarrow> 'm \<Rightarrow> (nat \<Rightarrow> 'd list) \<times> 'm" where
  "reveal_in_turn lib fp s m =
     (let (v0, m) = reveal_double lib fp 0 s m;
          (v1, m) = reveal_double lib fp 1 s m;
          (v2, m) = reveal_double lib fp 2 s m
      in (\<lambda>p. if p = 0 then v0 else if p = 1 then v1 else v2, m))"

text \<open>
  The division of shares is never used: nothing sets the flag that asks for it. Parties whose columns differ in
  number wait for each other's messages, which is not told from undefined behaviour.
\<close>

(* src/src/fediux/executor/statistics.cc:94-182 MPCSumOrAvg::CipherTextDataCompute *)
definition sum_CipherTextDataCompute ::
  "'m aby3_lib \<Rightarrow> 'd fp_num \<Rightarrow> bool \<Rightarrow> (nat \<Rightarrow> 'd list) \<Rightarrow> (nat \<Rightarrow> 'd list) \<Rightarrow> 'm \<Rightarrow> ((nat \<Rightarrow> 'd list) \<times> 'm) cpp" where
  "sum_CipherTextDataCompute lib fp avg_result col_sum col_count m =
     (if \<exists>p \<in> set [0, 1, 2]. length (col_sum p) \<noteq> length (col_sum 0) \<or> length (col_count p) \<noteq> length (col_sum 0) then Undef
      else
        (let (sh_sums, m) = share_in_turn lib fp col_sum m;
             (sh_count, m) = share_in_turn lib fp col_count m;
             sh_all_sum = sum_of_shares lib sh_sums;
             sh_all_count = sum_of_shares lib sh_count
         in if avg_result then
              (let (plaintext_sum, m) = reveal_in_turn lib fp sh_all_sum m;
                   (plaintext_count, m) = reveal_in_turn lib fp sh_all_count m
               in Ret (\<lambda>p. map2 (f_div fp) (plaintext_sum p) (plaintext_count p), m))
            else Ret (reveal_in_turn lib fp sh_all_sum m)))"

text \<open>What a step of one party gives, when the three parties go on together or fail together.\<close>

definition all_or_none :: "(nat \<Rightarrow> 'a option) \<Rightarrow> ((nat \<Rightarrow> 'a) \<Rightarrow> 'b option cpp) \<Rightarrow> 'b option cpp" where
  "all_or_none f k =
     (if \<forall>p \<in> set [0, 1, 2]. f p \<noteq> None then k (\<lambda>p. the (f p))
      else if \<forall>p \<in> set [0, 1, 2]. f p = None then Ret None
      else Undef)"

(* src/src/fediux/executor/statistics.cc:184-206 MPCSumOrAvg::run *)
definition sum_run ::
  "'m aby3_lib \<Rightarrow> 'd fp_num \<Rightarrow> bool \<Rightarrow> (nat \<Rightarrow> 'd table) \<Rightarrow> (nat \<Rightarrow> string list)
   \<Rightarrow> (nat \<Rightarrow> (string \<times> column_dtype) list) \<Rightarrow> 'm \<Rightarrow> ((nat \<Rightarrow> 'd list) \<times> 'm) option cpp" where
  "sum_run lib fp avg_result tables columns all_type m =
     cbind (jointly (\<lambda>p. sum_PlainTextDataCompute fp (tables p) (all_type p) (columns p))) (\<lambda>f.
       all_or_none f (\<lambda>sc. cbind (sum_CipherTextDataCompute lib fp avg_result (\<lambda>p. map fst (sc p)) (\<lambda>p. map snd (sc p)) m)
         (\<lambda>r. Ret (Some r))))"

section \<open>Least and greatest values of a party\<close>

(* src/src/fediux/executor/statistics.h:155-168 MPCMinOrMax::minOrMax *)
fun minOrMax :: "('v \<Rightarrow> 'v \<Rightarrow> bool) \<Rightarrow> statistics_type \<Rightarrow> 'v list \<Rightarrow> 'v \<Rightarrow> 'v" where
  "minOrMax le type [] val = val"
| "minOrMax le type (x # xs) val =
     minOrMax le type xs (if type = ST_MAX then (if le val x then x else val) else (if le x val then x else val))"

(* src/src/fediux/executor/statistics.h:170-197 MPCMinOrMax::fillInitValue *)
definition fillInitValue_double :: "'d fp_num \<Rightarrow> statistics_type \<Rightarrow> 'd" where
  "fillInitValue_double fp type = (if type = ST_MAX then f_limit_min fp else f_limit_max fp)"

(* src/src/fediux/executor/statistics.h:170-197 MPCMinOrMax::fillInitValue *)
definition fillInitValue_int :: "statistics_type \<Rightarrow> 'w::len word" where
  "fillInitValue_int type =
     (if type = ST_MAX then word_of_int (- (2 ^ (LENGTH('w) - 1))) else word_of_int (2 ^ (LENGTH('w) - 1) - 1))"

(* src/src/fediux/executor/statistics.h:201-214 MPCMinOrMax::fillChunkResult *)
definition fillChunkResult :: "'d fp_num \<Rightarrow> statistics_type \<Rightarrow> 'd \<Rightarrow> 'd \<Rightarrow> 'd" where
  "fillChunkResult fp type new_val cur_val =
     (if type = ST_MIN then (if \<not> f_le fp cur_val new_val then new_val else cur_val)
      else if type = ST_MAX then (if \<not> f_le fp new_val cur_val then new_val else cur_val)
      else cur_val)"

definition sle :: "'w::len word \<Rightarrow> 'w word \<Rightarrow> bool" where
  "sle x y \<longleftrightarrow> sint x \<le> sint y"

text \<open>The values of the chunks; chunks of arrays other than the two widths of integers are passed over.\<close>

(* src/src/fediux/executor/statistics.cc:412-446 MPCMinOrMax::PlainTextDataCompute *)
definition chunk_extremes :: "'d fp_num \<Rightarrow> statistics_type \<Rightarrow> column_dtype \<Rightarrow> 'd chunks \<Rightarrow> 'd list option cpp" where
  "chunk_extremes fp type ty col =
     (if ty = CD_INTEGER \<or> ty = CD_LONG then
        Ret (Some (case col of
           Int32Chunks cs \<Rightarrow> map (\<lambda>c. f_of_i64 fp (scast (minOrMax sle type c (fillInitValue_int type)))) cs
         | Int64Chunks cs \<Rightarrow> map (\<lambda>c. f_of_i64 fp (minOrMax sle type c (fillInitValue_int type))) cs
         | _ \<Rightarrow> []))
      else if ty = CD_DOUBLE then
        (case col of
           DoubleChunks cs \<Rightarrow> Ret (Some (map (\<lambda>c. minOrMax (f_le fp) type c (fillInitValue_double fp type)) cs))
         | _ \<Rightarrow> Undef)
      else Ret None)"

(* src/src/fediux/executor/statistics.cc:402-456 MPCMinOrMax::PlainTextDataCompute *)
definition column_extreme :: "'d fp_num \<Rightarrow> statistics_type \<Rightarrow> column_dtype option \<Rightarrow> 'd chunks \<Rightarrow> 'd option cpp" where
  "column_extreme fp type ty col =
     (if chunk_lengths col = [] then Ret (Some (fillInitValue_double fp type))
      else case ty of None \<Rightarrow> Undef
        | Some t \<Rightarrow> cbind (chunk_extremes fp type t col) (\<lambda>r.
            Ret (map_option (\<lambda>vs. fold (fillChunkResult fp type) vs (fillInitValue_double fp type)) r)))"

(* src/src/fediux/executor/statistics.cc:388-459 MPCMinOrMax::PlainTextDataCompute *)
fun minmax_PlainTextDataCompute ::
  "'d fp_num \<Rightarrow> statistics_type \<Rightarrow> 'd table \<Rightarrow> (string \<times> column_dtype) list \<Rightarrow> string list \<Rightarrow> 'd list option cpp" where
  "minmax_PlainTextDataCompute fp type table col_types [] = Ret (Some [])"
| "minmax_PlainTextDataCompute fp type table col_types (col_name # columns) =
     (case GetColumnByName table col_name of
        None \<Rightarrow> Ret None
      | Some col \<Rightarrow> cbind (column_extreme fp type (map_of col_types col_name) col) (\<lambda>r. case r of
            None \<Rightarrow> Ret None
          | Some v \<Rightarrow> cbind (minmax_PlainTextDataCompute fp type table col_types columns) (\<lambda>vs. Ret (map_option (Cons v) vs))))"

section \<open>Least and greatest values of the three parties\<close>

text \<open>
  One comparison between the matrices of two parties, whose result is revealed to all; the matrices are those
  that the comparison leaves.
\<close>

(* src/src/fediux/executor/statistics.cc:226-239 MPCMinOrMax::minValueOfAllParty *)
definition compare_pair ::
  "('m, 'b) aby3_bin \<Rightarrow> (nat \<Rightarrow> i64 list) \<Rightarrow> nat \<Rightarrow> nat \<Rightarrow> (nat \<Rightarrow> matrix) \<Rightarrow> 'm \<Rightarrow> (bool \<times> (nat \<Rightarrow> matrix) \<times> 'm) cpp" where
  "compare_pair bin fresh p q ms m =
     cbind (MPC_Compare bin fresh (\<lambda>r. if r = p \<or> r = q then Some (ms r) else None) m) (\<lambda>(sh_result, left, m).
       case bin_reveal bin sh_result m of
         ([], m) \<Rightarrow> Undef
       | (b # _, m) \<Rightarrow> Ret (b, (\<lambda>r. case left r of None \<Rightarrow> ms r | Some mat \<Rightarrow> mat), m))"

text \<open>
  The party with the least value: the first two parties are compared, then the one with the smaller
  value and the third.
\<close>

(* src/src/fediux/executor/statistics.cc:223-287 MPCMinOrMax::minValueOfAllParty *)
definition smallest_party ::
  "('m, 'b) aby3_bin \<Rightarrow> (nat \<Rightarrow> i64 list) \<Rightarrow> (nat \<Rightarrow> matrix) \<Rightarrow> 'm \<Rightarrow> (nat \<times> (nat \<Rightarrow> matrix) \<times> 'm) cpp" where
  "smallest_party bin fresh ms m =
     cbind (compare_pair bin fresh 0 1 ms m) (\<lambda>(cmp_result, ms, m).
       let smaller_party = (if cmp_result then 0 else 1)
       in cbind (compare_pair bin fresh smaller_party 2 ms m) (\<lambda>(cmp_result, ms, m).
            Ret (if cmp_result then smaller_party else 2, ms, m)))"

text \<open>The party shares its value, which is revealed to all.\<close>

(* src/src/fediux/executor/statistics.cc:289-299 MPCMinOrMax::minValueOfAllParty *)
definition share_and_reveal ::
  "'m aby3_lib \<Rightarrow> 'd fp_num \<Rightarrow> matrix \<Rightarrow> 'm \<Rightarrow> ('d \<times> 'm) cpp" where
  "share_and_reveal lib fp mat m =
     (let (sh_m, m) = lb_share lib 1 1 (m_at mat) m
      in case revealAll_double lib fp sh_m m of ([], m) \<Rightarrow> Undef | (v # _, m) \<Rightarrow> Ret (v, m))"

definition one_by_one :: "i64 \<Rightarrow> matrix" where
  "one_by_one v = \<lparr>m_rows = 1, m_cols = 1, m_at = [v]\<rparr>"

(* src/src/fediux/executor/statistics.cc:221-300 MPCMinOrMax::minValueOfAllParty *)
definition minValueOfAllParty ::
  "'m aby3_lib \<Rightarrow> ('m, 'b) aby3_bin \<Rightarrow> (nat \<Rightarrow> i64 list) \<Rightarrow> 'd fp_num \<Rightarrow> (nat \<Rightarrow> 'd) \<Rightarrow> 'm \<Rightarrow> ('d \<times> 'm) cpp" where
  "minValueOfAllParty lib bin fresh fp local_min m =
     cbind (smallest_party bin fresh (\<lambda>p. one_by_one (f_fix fp (local_min p))) m) (\<lambda>(p, ms, m).
       share_and_reveal lib fp (ms p) m)"

text \<open>The negated values are compared, so that the party with the least of them has the greatest value.\<close>

(* src/src/fediux/executor/statistics.cc:301-387 MPCMinOrMax::maxValueOfAllParty *)
definition maxValueOfAllParty ::
  "'m aby3_lib \<Rightarrow> ('m, 'b) aby3_bin \<Rightarrow> (nat \<Rightarrow> i64 list) \<Rightarrow> 'd fp_num \<Rightarrow> (nat \<Rightarrow> 'd) \<Rightarrow> 'm \<Rightarrow> ('d \<times> 'm) cpp" where
  "maxValueOfAllParty lib bin fresh fp local_max m =
     cbind (smallest_party bin fresh (\<lambda>p. one_by_one (f_fix fp (f_minus fp (local_max p)))) m) (\<lambda>(p, ms, m).
       share_and_reveal lib fp (one_by_one (f_fix fp (local_max p))) m)"

(* src/src/fediux/executor/statistics.cc:461-485 MPCMinOrMax::CipherTextDataCompute *)
fun minmax_columns ::
  "('c \<Rightarrow> 'm \<Rightarrow> ('d \<times> 'm) cpp) \<Rightarrow> 'c list \<Rightarrow> 'm \<Rightarrow> ('d list \<times> 'm) cpp" where
  "minmax_columns valueOfAllParty [] m = Ret ([], m)"
| "minmax_columns valueOfAllParty (col_data # cols) m =
     cbind (valueOfAllParty col_data m) (\<lambda>(v, m). cbind (minmax_columns valueOfAllParty cols m) (\<lambda>(vs, m). Ret (v # vs, m)))"

(* src/src/fediux/executor/statistics.cc:461-485 MPCMinOrMax::CipherTextDataCompute *)
definition minmax_CipherTextDataCompute ::
  "'m aby3_lib \<Rightarrow> ('m, 'b) aby3_bin \<Rightarrow> (nat \<Rightarrow> i64 list) \<Rightarrow> 'd fp_num \<Rightarrow> statistics_type \<Rightarrow> (nat \<Rightarrow> 'd list) \<Rightarrow> 'm
   \<Rightarrow> ('d list \<times> 'm) cpp" where
  "minmax_CipherTextDataCompute lib bin fresh fp type col_data m =
     (if \<exists>p \<in> set [0, 1, 2]. length (col_data p) \<noteq> length (col_data 0) then Undef
      else minmax_columns
        (if type = ST_MIN then minValueOfAllParty lib bin fresh fp else maxValueOfAllParty lib bin fresh fp)
        (map (\<lambda>i p. col_data p ! i) [0..<length (col_data 0)]) m)"

(* src/src/fediux/executor/statistics.cc:487-505 MPCMinOrMax::run *)
definition minmax_run ::
  "'m aby3_lib \<Rightarrow> ('m, 'b) aby3_bin \<Rightarrow> (nat \<Rightarrow> i64 list) \<Rightarrow> 'd fp_num \<Rightarrow> statistics_type \<Rightarrow> (nat \<Rightarrow> 'd table)
   \<Rightarrow> (nat \<Rightarrow> string list) \<Rightarrow> (nat \<Rightarrow> (string \<times> column_dtype) list) \<Rightarrow> 'm \<Rightarrow> ((nat \<Rightarrow> 'd list) \<times> 'm) option cpp" where
  "minmax_run lib bin fresh fp type tables columns col_types m =
     cbind (jointly (\<lambda>p. minmax_PlainTextDataCompute fp type (tables p) (col_types p) (columns p))) (\<lambda>f.
       all_or_none f (\<lambda>cols. cbind (minmax_CipherTextDataCompute lib bin fresh fp type cols m)
         (\<lambda>(r, m). Ret (Some (\<lambda>p. r, m)))))"

text \<open>Both executors give their result as it is.\<close>

(* src/src/fediux/executor/statistics.cc:208-219 MPCSumOrAvg::getResult *)
definition getResult :: "'d list \<Rightarrow> 'd list" where
  "getResult result = map (\<lambda>i. result ! i) [0..<length result]"

text \<open>The executor for a type of statistics.\<close>

(* src/src/fediux/algorithm/mpc_statistics.cc:432-455 MPCStatisticsExecutor::InitEngine *)
definition run_statistics ::
  "'m aby3_lib \<Rightarrow> ('m, 'b) aby3_bin \<Rightarrow> (nat \<Rightarrow> i64 list) \<Rightarrow> 'd fp_num \<Rightarrow> statistics_type \<Rightarrow> (nat \<Rightarrow> 'd table)
   \<Rightarrow> (nat \<Rightarrow> string list) \<Rightarrow> (nat \<Rightarrow> (string \<times> column_dtype) list) \<Rightarrow> 'm \<Rightarrow> ((nat \<Rightarrow> 'd list) \<times> 'm) option cpp" where
  "run_statistics lib bin fresh fp type tables columns col_types m =
     (if type = ST_AVG \<or> type = ST_SUM then sum_run lib fp (type = ST_AVG) tables columns col_types m
      else minmax_run lib bin fresh fp type tables columns col_types m)"

end
