(* ===== verification/Statistics_Task.thy ===== *)
theory Statistics_Task
  imports Statistics Arithmetic_Task Dataset_Service
begin

text \<open>
  The task of statistics (algorithm/mpc_statistics.cc): which columns of the party's dataset it is about, by
  two JSON texts of the request, the run of the executor, and the saved result. JSON, the data set, the
  storage path and the writing of a file are parameters. A member asked of a value that is no object, or a
  number of one that is none, is an assertion of the JSON library and undefined here.
\<close>

section \<open>State\<close>

(* src/src/fediux/algorithm/mpc_statistics.h:17-59 MPCStatisticsExecutor *)
record 'd stats =
  st_config :: party_config
  st_party_id :: u16
  st_do_nothing :: bool
  st_result :: "'d list"
  st_columns :: "string list"
  st_input :: "'d table option"
  st_new_id :: string
  st_output :: string
  st_ds_name :: string
  st_dataset_id :: string
  st_detail :: bool
  st_types :: "(string \<times> column_dtype) list"
  st_type :: statistics_type
  st_links :: "(party_link \<times> party_link) option"
  st_files :: "(string \<times> (string \<times> 'd) list) list"
  st_registered :: "(string \<times> string) list"

record 'd stats_env =
  se_json :: json_lib
  se_read :: "string \<Rightarrow> bool \<Rightarrow> 'd table option cpp"
  se_storage :: string
  se_write :: "string \<Rightarrow> (string \<times> 'd) list \<Rightarrow> int"

(* src/src/fediux/algorithm/mpc_statistics.cc:24-31 MPCStatisticsExecutor::MPCStatisticsExecutor *)
definition new_stats :: "party_config \<Rightarrow> 'd stats cpp" where
  "new_stats config = cbind (SelfPartyId config) (\<lambda>i. Ret
     \<lparr>st_config = config, st_party_id = i, st_do_nothing = False, st_result = [], st_columns = [], st_input = None,
      st_new_id = [], st_output = [], st_ds_name = [], st_dataset_id = [], st_detail = False, st_types = [],
      st_type = ST_UNKNOWN, st_links = None, st_files = [], st_registered = []\<rparr>)"

section \<open>The columns\<close>

definition member :: "json \<Rightarrow> string \<Rightarrow> json option cpp" where
  "member j k = (case j of JObj kvs \<Rightarrow> Ret (map_of kvs k) | _ \<Rightarrow> Undef)"

definition quoted :: "string \<Rightarrow> string" where
  "quoted s = CHR 0x27 # s @ [CHR 0x27]"

text \<open>The member of an object that has one.\<close>

definition member_at :: "json \<Rightarrow> string \<Rightarrow> json cpp" where
  "member_at j k = cbind (member j k) (\<lambda>v. case v of None \<Rightarrow> Undef | Some x \<Rightarrow> Ret x)"

(* src/src/fediux/algorithm/mpc_statistics.cc:132-142 MPCStatisticsExecutor::_parseColumnName *)
fun checked_names :: "nat \<Rightarrow> json list \<Rightarrow> string list cpp" where
  "checked_names i [] = Ret []"
| "checked_names i (JStr s # js) = cbind (checked_names (Suc i) js) (\<lambda>ss. Ret (s # ss))"
| "checked_names i (_ # js) =
     Throw (''The '' @ dec_string (i + 1) @ ''th value of array in the value of 'checked' should be a string'')"

text \<open>The features up to the first one of the dataset; \<open>None\<close>: there is none.\<close>

(* src/src/fediux/algorithm/mpc_statistics.cc:97-146 MPCStatisticsExecutor::_parseColumnName *)
fun find_features :: "string \<Rightarrow> json list \<Rightarrow> string list option cpp" where
  "find_features ds_name [] = Ret None"
| "find_features ds_name (item # items) =
     cbind (member item ''resourceId'') (\<lambda>r. case r of
         None \<Rightarrow> Throw ''Can't find 'resourceId' in the value of 'features'in json string.''
       | Some (JStr resource_id) \<Rightarrow>
           if ds_name \<noteq> resource_id then find_features ds_name items
           else cbind (member_at item ''checked'') (\<lambda>checked. case checked of
                 JArr names \<Rightarrow> cbind (checked_names 0 names) (\<lambda>ns. Ret (Some ns))
               | _ \<Rightarrow> Throw ''Value of 'checked' in the value of 'features' should be a array.'')
       | _ \<Rightarrow> Throw ''Type of 'resourceId' should be string.'')"

(* src/src/fediux/algorithm/mpc_statistics.cc:155-170 MPCStatisticsExecutor::_parseColumnName *)
definition parse_type :: "json \<Rightarrow> statistics_type cpp" where
  "parse_type type_object = (case type_object of
       JStr s \<Rightarrow>
         if s = ''1'' then Ret ST_AVG else if s = ''2'' then Ret ST_SUM
         else if s = ''3'' then Ret ST_MAX else if s = ''4'' then Ret ST_MIN
         else Throw (''Unknown statistics type '' @ s @ ''.'')
     | _ \<Rightarrow> Undef)"

(* src/src/fediux/algorithm/mpc_statistics.cc:74-173 MPCStatisticsExecutor::_parseColumnName *)
definition parseColumnName :: "json_lib \<Rightarrow> string \<Rightarrow> 'd stats \<Rightarrow> (retcode \<times> 'd stats) cpp" where
  "parseColumnName js json_str st0 =
     (let st = st0\<lparr>st_do_nothing := False\<rparr>
      in case js_parse js json_str of
           None \<Rightarrow> Throw (''Parse json string failed, json:'' @ json_str @ ''.'')
         | Some json_doc \<Rightarrow> cbind (member json_doc ''features'') (\<lambda>f. case f of
               None \<Rightarrow> Throw ''Json object should have 'features' member but not found now.''
             | Some (JArr items) \<Rightarrow> cbind (find_features (st_ds_name st) items) (\<lambda>found. case found of
                   None \<Rightarrow> Throw (''Can't find content for dataset '' @ st_ds_name st @ '' in the json string.'')
                 | Some [] \<Rightarrow> Ret (FAIL, st\<lparr>st_do_nothing := True\<rparr>)
                 | Some names \<Rightarrow> cbind (member json_doc ''type'') (\<lambda>t. case t of
                       None \<Rightarrow> Throw ''Json object should have 'type' member but not found now.''
                     | Some type_object \<Rightarrow> cbind (parse_type type_object) (\<lambda>ty.
                         Ret (SUCCESS, st\<lparr>st_columns := st_columns st @ names, st_type := ty\<rparr>))))
             | _ \<Rightarrow> Throw ''Value of 'features' in json must be a array.''))"

text \<open>The types of the columns; the first of a name is kept.\<close>

(* src/src/fediux/algorithm/mpc_statistics.cc:220-229 MPCStatisticsExecutor::_parseColumnDtype *)
fun parse_column_types :: "(string \<times> json) list \<Rightarrow> (string \<times> column_dtype) list \<Rightarrow> (string \<times> column_dtype) list cpp" where
  "parse_column_types [] m = Ret m"
| "parse_column_types ((col_name, v) # kvs) m = (case v of
       JInt i \<Rightarrow> parse_column_types kvs (if map_of m col_name = None then m @ [(col_name, columnDtypeFromInteger i)] else m)
     | _ \<Rightarrow> Undef)"

(* src/src/fediux/algorithm/mpc_statistics.cc:175-255 MPCStatisticsExecutor::_parseColumnDtype *)
definition parseColumnDtype :: "json_lib \<Rightarrow> string \<Rightarrow> string \<Rightarrow> 'd stats \<Rightarrow> (retcode \<times> 'd stats) cpp" where
  "parseColumnDtype js storage json_str st =
     (let ds_name = st_ds_name st;
          missing = (\<lambda>k. ''Can't find key '' @ quoted k @ '' in the value of '' @ quoted ds_name @ '' in the json string.'')
      in case js_parse js json_str of
           None \<Rightarrow> Throw (''Parse json string failed, json: '' @ json_str @ ''.'')
         | Some json_doc \<Rightarrow> cbind (member json_doc ds_name) (\<lambda>entry. case entry of
               None \<Rightarrow> Throw (''Can't find key '' @ quoted ds_name @ '' in json string.'')
             | Some map_obj \<Rightarrow>
                 cbind (member map_obj ''columns'') (\<lambda>dtype_obj.
                 cbind (member map_obj ''newDataSetId'') (\<lambda>new_id_obj.
                 cbind (member map_obj ''outputFilePath'') (\<lambda>new_path.
                 case dtype_obj of None \<Rightarrow> Throw (missing ''columns'') | Some dtype_obj \<Rightarrow>
                 case new_id_obj of None \<Rightarrow> Throw (missing ''newDataSetId'') | Some new_id_obj \<Rightarrow>
                 case new_path of None \<Rightarrow> Throw (missing ''outputFilePath'') | Some new_path \<Rightarrow>
                 case dtype_obj of
                   JObj kvs \<Rightarrow> cbind (parse_column_types kvs (st_types st)) (\<lambda>types.
                     case new_id_obj of
                       JStr new_id \<Rightarrow> (case new_path of
                           JStr path \<Rightarrow> Ret (SUCCESS, st\<lparr>st_types := types, st_new_id := new_id,
                             st_output := CompletePath storage path\<rparr>)
                         | _ \<Rightarrow> Throw (''Value of 'outputFilePath' in the value of '' @ quoted ds_name @ '' should be string.''))
                     | _ \<Rightarrow> Throw (''Value of 'newDataSetId' in the value of '' @ quoted ds_name @ '' should be string.''))
                 | _ \<Rightarrow> Throw (''Value of 'columns' in the value of '' @ quoted ds_name @ '' should be object.''))))))"

section \<open>The steps\<close>

(* src/src/fediux/algorithm/mpc_statistics.cc:266-292 MPCStatisticsExecutor::loadParams *)
definition statistics_dataset :: "string \<Rightarrow> task_config \<Rightarrow> (string \<times> string \<times> bool) option" where
  "statistics_dataset party_name task =
     Option.bind (map_of (tk_datasets task) party_name) (\<lambda>pd.
     Option.bind (map_of (pd_data pd) ''Data_File'') (\<lambda>dataset_id.
       if pd_detail pd then map_option (\<lambda>p. (param_string p, dataset_id, True)) (tk_params task ''Data_File'')
       else Some (dataset_id, dataset_id, False)))"

text \<open>Every column of the request has to have a type of numbers.\<close>

(* src/src/fediux/algorithm/mpc_statistics.cc:325-347 MPCStatisticsExecutor::loadParams *)
fun check_types :: "(string \<times> column_dtype) list \<Rightarrow> string list \<Rightarrow> unit cpp" where
  "check_types types [] = Ret ()"
| "check_types types (col_name # cols) = (case map_of types col_name of
       None \<Rightarrow> Throw []
     | Some ty \<Rightarrow>
         if ty \<noteq> CD_LONG \<and> ty \<noteq> CD_INTEGER \<and> ty \<noteq> CD_DOUBLE
         then Throw (''Dtype of column '' @ col_name @ '' is '' @ columnDtypeToString ty @ '', don't support this dtype now.'')
         else check_types types cols)"

(* src/src/fediux/algorithm/mpc_statistics.cc:258-362 MPCStatisticsExecutor::loadParams *)
definition stats_loadParams :: "'d stats_env \<Rightarrow> task_config \<Rightarrow> 'd stats \<Rightarrow> (int \<times> 'd stats) cpp" where
  "stats_loadParams env task st =
     (case ExtractProxyNode task of None \<Rightarrow> Ret (-1, st) | Some _ \<Rightarrow>
      case statistics_dataset (pc_party_name (st_config st)) task of None \<Rightarrow> Ret (-1, st) | Some (ds_name, dataset_id, detail) \<Rightarrow>
        cbind (parseColumnName (se_json env) (text_param task ''TaskDetail'')
            (st\<lparr>st_ds_name := ds_name, st_dataset_id := dataset_id, st_detail := detail\<rparr>)) (\<lambda>(ret, st).
          if ret \<noteq> SUCCESS then (if st_do_nothing st then Ret (0, st) else Ret (-1, st))
          else cbind (parseColumnDtype (se_json env) (se_storage env) (text_param task ''ColumnInfo'') st) (\<lambda>(ret, st).
            if ret \<noteq> SUCCESS then Ret (-1, st)
            else (let st = st\<lparr>st_columns := sort (st_columns st)\<rparr>
              in cbind (check_types (st_types st) (st_columns st)) (\<lambda>_. Ret (0, st))))))"

(* src/src/fediux/algorithm/mpc_statistics.cc:457-480 MPCStatisticsExecutor::loadDataset *)
definition stats_loadDataset :: "'d stats_env \<Rightarrow> 'd stats \<Rightarrow> (int \<times> 'd stats) cpp" where
  "stats_loadDataset env st =
     (if st_do_nothing st then Ret (0, st)
      else cbind (se_read env (st_dataset_id st) (st_detail st)) (\<lambda>ds. case ds of
          None \<Rightarrow> Ret (-1, st) | Some table \<Rightarrow> Ret (0, st\<lparr>st_input := Some table\<rparr>)))"

text \<open>A task that has no type gets that of an empty configuration, which is the first of its enumeration.\<close>

(* src/src/fediux/algorithm/mpc_statistics.cc:406-455 MPCStatisticsExecutor::InitEngine *)
definition stats_InitEngine :: "'d stats \<Rightarrow> 'd stats cpp" where
  "stats_InitEngine st = Ret (if st_type st = ST_UNKNOWN then st\<lparr>st_type := ST_MAX\<rparr> else st)"

(* src/src/fediux/algorithm/mpc_statistics.cc:482-527 MPCStatisticsExecutor::saveModel *)
definition stats_saveModel :: "'d stats_env \<Rightarrow> 'd stats \<Rightarrow> (int \<times> 'd stats) cpp" where
  "stats_saveModel env st =
     (if st_do_nothing st then Ret (0, st)
      else (let table = zip (st_columns st) (st_result st)
        in if se_write env (st_output st) table \<noteq> 0 then Ret (-1, st)
           else Ret (0, st\<lparr>st_files := st_files st @ [(st_output st, table)],
             st_registered := st_registered st @ [(st_new_id st, st_output st)]\<rparr>)))"

definition statistics :: "'d stats_env \<Rightarrow> ('d stats \<Rightarrow> (int \<times> 'd stats) cpp) \<Rightarrow> 'd stats algorithm" where
  "statistics env execute =
     \<lparr>al_loadParams = stats_loadParams env,
      al_loadDataset = stats_loadDataset env,
      al_initPartyComm = (\<lambda>st. cbind (initPartyComm (st_config st)) (\<lambda>ls. Ret (0, st\<lparr>st_links := Some ls\<rparr>))),
      al_InitEngine = stats_InitEngine,
      al_execute = execute,
      al_saveModel = stats_saveModel env\<rparr>"

text \<open>
  The run of the three parties together. A party that has nothing to do does not take part: the others wait for
  it, which is not told from undefined behaviour, and so is a run whose parties ask for different statistics.
\<close>

(* src/src/fediux/algorithm/mpc_statistics.cc:392-404 MPCStatisticsExecutor::execute *)
definition stats_execute ::
  "'m aby3_lib \<Rightarrow> ('m, 'b) aby3_bin \<Rightarrow> (nat \<Rightarrow> i64 list) \<Rightarrow> 'd fp_num \<Rightarrow> (nat \<Rightarrow> 'd stats) \<Rightarrow> 'm
   \<Rightarrow> (nat \<Rightarrow> int \<times> 'd stats) cpp" where
  "stats_execute lib bin fresh fp sts m =
     (if \<forall>p \<in> set [0, 1, 2]. st_do_nothing (sts p) then Ret (\<lambda>p. (0, sts p))
      else if \<forall>p \<in> set [0, 1, 2]. \<not> st_do_nothing (sts p) \<and> st_type (sts p) = st_type (sts 0) \<and> st_input (sts p) \<noteq> None then
        cbind (run_statistics lib bin fresh fp (st_type (sts 0)) (\<lambda>p. the (st_input (sts p))) (\<lambda>p. st_columns (sts p))
            (\<lambda>p. st_types (sts p)) m) (\<lambda>r. case r of
          None \<Rightarrow> Ret (\<lambda>p. (-1, sts p))
        | Some (result, _) \<Rightarrow> Ret (\<lambda>p. (0, (sts p)\<lparr>st_result := getResult (result p)\<rparr>)))
      else Undef)"

definition statistics_task ::
  "'m aby3_lib \<Rightarrow> ('m, 'b) aby3_bin \<Rightarrow> (nat \<Rightarrow> i64 list) \<Rightarrow> 'd fp_num \<Rightarrow> (nat \<Rightarrow> 'd stats_env) \<Rightarrow> (nat \<Rightarrow> task_config)
   \<Rightarrow> (nat \<Rightarrow> 'd stats) \<Rightarrow> 'm \<Rightarrow> (nat \<Rightarrow> retcode \<times> 'd stats) cpp" where
  "statistics_task lib bin fresh fp env task sts m =
     cbind (jointly (\<lambda>p. run_steps (prepare_steps (statistics (env p) (\<lambda>st. Ret (0, st))) (task p)) (sts p))) (\<lambda>views.
       if \<forall>p \<in> set [0, 1, 2]. fst (views p) = SUCCESS then
         cbind (stats_execute lib bin fresh fp (\<lambda>p. snd (views p)) m) (\<lambda>views.
           jointly (\<lambda>p. run_steps [\<lambda>_. Ret (views p), stats_saveModel (env p)] (snd (views p))))
       else Undef)"

section \<open>The auxiliary party\<close>

text \<open>
  A task of two parties with data has a third that only computes: its data is neutral for the statistics, for as
  many columns as the parties say, and it has no rows. \<open>None\<close>: it fails. A vector of 64-bit numbers has
  fewer than \<open>2 ^ 60\<close> of them.
\<close>

(* src/src/fediux/task/semantic/mpc_task.cc:267-300 MPCTask::MakeAuxiliaryComputeData *)
definition MakeAuxiliaryComputeData :: "'d fp_num \<Rightarrow> statistics_type \<Rightarrow> i64 list \<Rightarrow> ('d list \<times> i64 list) option cpp" where
  "MakeAuxiliaryComputeData fp op_type shape = (case shape of
       [_, col_size] \<Rightarrow>
         if 2 ^ 60 \<le> unat col_size then Throw ''vector::reserve''
         else Ret (map_option (\<lambda>x. (replicate (unat col_size) x, replicate (unat col_size) 0))
           (if op_type = ST_MAX then Some (f_limit_min fp)
            else if op_type = ST_MIN then Some (f_limit_max fp)
            else if op_type = ST_AVG \<or> op_type = ST_SUM then Some (f_zero fp)
            else None))
     | _ \<Rightarrow> Ret None)"

end
