(* ===== verification/Missing_Values.thy ===== *)
theory Missing_Values
  imports Statistics_Task Express_Local
begin

text \<open>
  The task that fills missing values (algorithm/missing_val_processing.{h,cc}): entries of a CSV column that are
  missing, or are no numbers, are replaced by the greatest, the least or the average value of the columns of all
  three parties. JSON, the CSV reader, the storage path and the writing of a file are parameters, as are doubles and
  their texts. What the three parties do together is one step of all of them.
\<close>

section \<open>Texts and numbers\<close>

text \<open>
  The parts before each occurrence of the separator, after one was added at the end; \<open>None\<close>: an empty
  separator is found without end.
\<close>

function spilt_loop :: "string \<Rightarrow> string \<Rightarrow> string list" where
  "spilt_loop split strs =
     (if split = [] then [] else case find_sub split strs of
        None \<Rightarrow> []
      | Some pos \<Rightarrow> take pos strs # spilt_loop split (drop (pos + length split) strs))"
  by pat_completeness auto
termination
proof (relation "measure (\<lambda>(split, strs). length strs)")
  fix split strs :: string and pos
  assume p: "split \<noteq> []" and k: "find_sub split strs = Some pos"
  have "strs \<noteq> []" using p k by auto
  with p show "((split, drop (pos + length split) strs), split, strs) \<in> measure (\<lambda>(split, strs). length strs)"
    by (cases strs) auto
qed simp

declare spilt_loop.simps [simp del]

(* src/src/fediux/algorithm/missing_val_processing.cc:44-59 MissingProcess::_spiltStr *)
definition spiltStr :: "string \<Rightarrow> string \<Rightarrow> string list option" where
  "spiltStr str split =
     (if str = [] then Some [] else if split = [] then None else Some (spilt_loop split (str @ split)))"

text \<open>
  \<^verbatim>\<open>std::stoll\<close> and \<^verbatim>\<open>std::stod\<close> give a value and how many characters it was read from, or throw that there is no
  number or that it is out of range.
\<close>

datatype 'v conv = Converted 'v nat | NotANumber | OutOfRange

definition stoll :: "string \<Rightarrow> i64 conv" where
  "stoll str =
     (let s = dropWhile is_space_char str;
          signed = (s \<noteq> [] \<and> (hd s = CHR ''-'' \<or> hd s = CHR ''+''));
          s1 = (if signed then tl s else s);
          ds = takeWhile is_digit s1;
          v = (if signed \<and> hd s = CHR ''-'' then - int (dec_val ds) else int (dec_val ds))
      in if ds = [] then NotANumber
         else if \<not> signed_fits v then OutOfRange
         else Converted (word_of_int v) (length str - length s1 + length ds))"

definition to_string_i64 :: "i64 \<Rightarrow> string" where
  "to_string_i64 v =
     (if sint v < 0 then CHR ''-'' # dec_string (nat (- sint v)) else dec_string (nat (sint v)))"

record 'd double_text =
  dt_stod :: "string \<Rightarrow> 'd conv"
  dt_to_string :: "'d \<Rightarrow> string"

text \<open>The number of a whole text, or the code of the error.\<close>

definition whole_number :: "'v conv \<Rightarrow> string \<Rightarrow> int + 'v" where
  "whole_number c str = (case c of
       Converted v conv_length \<Rightarrow> if conv_length \<noteq> length str then Inl (-1) else Inr v
     | NotANumber \<Rightarrow> Inl (-1)
     | OutOfRange \<Rightarrow> Inl (-2))"

(* src/src/fediux/algorithm/missing_val_processing.cc:61-79 MissingProcess::_strToInt64 *)
definition strToInt64 :: "string \<Rightarrow> int + i64" where
  "strToInt64 str = whole_number (stoll str) str"

(* src/src/fediux/algorithm/missing_val_processing.cc:81-99 MissingProcess::_strToDouble *)
definition strToDouble :: "'d double_text \<Rightarrow> string \<Rightarrow> int + 'd" where
  "strToDouble dt str = whole_number (dt_stod dt str) str"

text \<open>
  What the code for integers and the code for doubles, which have the same form, have each of their own: conversions
  and arithmetic, the values to begin with, and the form in which a value is shared. A double above another is
  the one that is not a NaN and is greater.
\<close>

record 'v number_kind =
  nk_whole :: "string \<Rightarrow> int + 'v"
  nk_parse :: "string \<Rightarrow> 'v conv"
  nk_what :: string
  nk_text :: "'v \<Rightarrow> string"
  nk_above :: "'v \<Rightarrow> 'v \<Rightarrow> bool"
  nk_add :: "'v \<Rightarrow> 'v \<Rightarrow> 'v cpp"
  nk_div :: "'v \<Rightarrow> 'v \<Rightarrow> 'v cpp"
  nk_zero :: 'v
  nk_low :: 'v
  nk_high :: 'v
  nk_count :: "u32 \<Rightarrow> 'v"
  nk_share :: "'v \<Rightarrow> i64"
  nk_open :: "i64 \<Rightarrow> 'v"

definition div_i64 :: "i64 \<Rightarrow> i64 \<Rightarrow> i64 cpp" where
  "div_i64 a b = (if b = 0 then Undef else signed_i64 (sgn (sint a) * sgn (sint b) * (\<bar>sint a\<bar> div \<bar>sint b\<bar>)))"

(* src/src/fediux/algorithm/missing_val_processing.cc:496-513 MissingProcess::execute *)
definition int_kind :: "i64 number_kind" where
  "int_kind = \<lparr>nk_whole = strToInt64, nk_parse = stoll, nk_what = ''stoll'', nk_text = to_string_i64,
     nk_above = (\<lambda>a b. sint b < sint a), nk_add = add_i64, nk_div = div_i64, nk_zero = 0,
     nk_low = word_of_int (- (2 ^ 63)), nk_high = word_of_int (2 ^ 63 - 1),
     nk_count = (\<lambda>n. ucast n), nk_share = id, nk_open = id\<rparr>"

(* src/src/fediux/algorithm/missing_val_processing.cc:493-514 MissingProcess::execute *)
definition double_kind :: "'d fp_num \<Rightarrow> 'd double_text \<Rightarrow> 'd number_kind" where
  "double_kind fp dt = \<lparr>nk_whole = strToDouble dt, nk_parse = dt_stod dt, nk_what = ''stod'', nk_text = dt_to_string dt,
     nk_above = (\<lambda>a b. f_le fp b a \<and> \<not> f_le fp a b), nk_add = (\<lambda>a b. Ret (f_add fp a b)),
     nk_div = (\<lambda>a b. Ret (f_div fp a b)), nk_zero = f_zero fp,
     nk_low = f_limit_min fp, nk_high = f_limit_max fp,
     nk_count = (\<lambda>n. f_of_i64 fp (ucast n)), nk_share = f_fix fp, nk_open = f_unfix fp\<rparr>"

section \<open>Tables\<close>

text \<open>
  The reader gives every column that the request says to be of numbers as texts, with \<open>None\<close> for a missing entry. A
  column that was filled is one chunk of numbers. Of other columns only the lengths of the chunks matter.
\<close>

datatype 'd mcolumn =
    TextColumn "string option list list"
  | IntColumn "i64 list"
  | DoubleColumn "'d list"
  | OtherColumn "nat list"

type_synonym 'd mtable = "(string \<times> 'd mcolumn) list"

fun column_chunks :: "'d mcolumn \<Rightarrow> nat list" where
  "column_chunks (TextColumn cs) = map length cs"
| "column_chunks (IntColumn vs) = [length vs]"
| "column_chunks (DoubleColumn vs) = [length vs]"
| "column_chunks (OtherColumn ns) = ns"

definition num_rows :: "'d mtable \<Rightarrow> nat" where
  "num_rows t = (case t of [] \<Rightarrow> 0 | (_, c) # _ \<Rightarrow> sum_list (column_chunks c))"

text \<open>The index of the first column of a name.\<close>

fun column_index :: "(string \<times> 'c) list \<Rightarrow> string \<Rightarrow> nat option" where
  "column_index [] name = None"
| "column_index ((n, _) # t) name = (if n = name then Some 0 else map_option Suc (column_index t name))"

section \<open>A party's look at its column\<close>

record 'v scan =
  sc_sum :: 'v
  sc_max :: 'v
  sc_min :: 'v
  sc_abnormal :: "nat list list"
  sc_abnormal_num :: nat
  sc_null_num :: nat

text \<open>The entries of a chunk, and the indices of those that are no numbers.\<close>

(* src/src/fediux/algorithm/missing_val_processing.cc:556-578 MissingProcess::execute *)
fun scan_chunk :: "'v number_kind \<Rightarrow> nat \<Rightarrow> string option list \<Rightarrow> nat list \<Rightarrow> 'v scan \<Rightarrow> (nat list \<times> 'v scan) cpp" where
  "scan_chunk nk j [] abnormal s = Ret (abnormal, s)"
| "scan_chunk nk j (None # es) abnormal s = scan_chunk nk (Suc j) es abnormal s"
| "scan_chunk nk j (Some str # es) abnormal s = (case nk_whole nk str of
       Inl ret \<Rightarrow> scan_chunk nk (Suc j) es (abnormal @ [j]) (s\<lparr>sc_abnormal_num := sc_abnormal_num s + 1\<rparr>)
     | Inr v \<Rightarrow> cbind (nk_add nk (sc_sum s) v) (\<lambda>sum. scan_chunk nk (Suc j) es abnormal
         (s\<lparr>sc_max := (if nk_above nk v (sc_max s) then v else sc_max s),
            sc_min := (if nk_above nk (sc_min s) v then v else sc_min s), sc_sum := sum\<rparr>)))"

(* src/src/fediux/algorithm/missing_val_processing.cc:549-584 MissingProcess::execute *)
fun scan_chunks :: "'v number_kind \<Rightarrow> string option list list \<Rightarrow> 'v scan \<Rightarrow> 'v scan cpp" where
  "scan_chunks nk [] s = Ret s"
| "scan_chunks nk (c # cs) s = cbind (scan_chunk nk 0 c [] s) (\<lambda>(abnormal, s). scan_chunks nk cs
     (s\<lparr>sc_abnormal := sc_abnormal s @ [abnormal], sc_null_num := sc_null_num s + length (filter (\<lambda>e. e = None) c)\<rparr>))"

definition new_scan :: "'v number_kind \<Rightarrow> 'v scan" where
  "new_scan nk = \<lparr>sc_sum = nk_zero nk, sc_max = nk_low nk, sc_min = nk_high nk, sc_abnormal = [], sc_abnormal_num = 0,
     sc_null_num = 0\<rparr>"

text \<open>The look at as many chunks as it is told; the column may have more or fewer.\<close>

definition scan_column :: "'v number_kind \<Rightarrow> nat \<Rightarrow> 'd mcolumn \<Rightarrow> 'v scan cpp" where
  "scan_column nk chunk_num col = (case col of
       TextColumn chunks \<Rightarrow> if length chunks < chunk_num then Undef else scan_chunks nk (take chunk_num chunks) (new_scan nk)
     | _ \<Rightarrow> Undef)"

text \<open>For integers the number of chunks is that of the table's first column.\<close>

(* src/src/fediux/algorithm/missing_val_processing.cc:523-586 MissingProcess::execute *)
definition scan_integers :: "'d mtable \<Rightarrow> nat \<Rightarrow> i64 scan cpp" where
  "scan_integers table col_index =
     scan_column int_kind (length (column_chunks (snd (table ! 0)))) (snd (table ! col_index))"

(* src/src/fediux/algorithm/missing_val_processing.cc:588-650 MissingProcess::execute *)
definition scan_doubles :: "'d fp_num \<Rightarrow> 'd double_text \<Rightarrow> 'd mtable \<Rightarrow> nat \<Rightarrow> 'd scan cpp" where
  "scan_doubles fp dt table col_index =
     scan_column (double_kind fp dt) (length (column_chunks (snd (table ! col_index)))) (snd (table ! col_index))"

(* src/src/fediux/algorithm/missing_val_processing.cc:648-648 MissingProcess::execute *)
definition valid_count :: "'d mtable \<Rightarrow> 'v scan \<Rightarrow> u32" where
  "valid_count table s = word_of_int (int (num_rows table) - int (sc_null_num s) - int (sc_abnormal_num s))"

section \<open>A common value\<close>

text \<open>
  The party with the greatest value: the first two parties are compared, then the one that is not smaller
  and the third.
\<close>

(* src/src/fediux/algorithm/missing_val_processing.cc:669-740 MissingProcess::execute *)
definition greatest_party ::
  "('m, 'b) aby3_bin \<Rightarrow> (nat \<Rightarrow> i64 list) \<Rightarrow> (nat \<Rightarrow> matrix) \<Rightarrow> 'm \<Rightarrow> (nat \<times> (nat \<Rightarrow> matrix) \<times> 'm) cpp" where
  "greatest_party bin fresh ms m =
     cbind (compare_pair bin fresh 0 1 ms m) (\<lambda>(mpc_res, ms, m).
       let flag = (if mpc_res then 1 else 0)
       in cbind (compare_pair bin fresh flag 2 ms m) (\<lambda>(mpc_res2, ms, m).
            Ret (if mpc_res2 then 2 else flag, ms, m)))"

text \<open>The party shares its value, which is revealed to all.\<close>

(* src/src/fediux/algorithm/missing_val_processing.cc:725-757 MissingProcess::execute *)
definition open_value :: "'m aby3_lib \<Rightarrow> 'v number_kind \<Rightarrow> matrix \<Rightarrow> 'm \<Rightarrow> ('v \<times> 'm) cpp" where
  "open_value lib nk mat m =
     (let (sh_max, m) = lb_share lib 1 1 (m_at mat) m
      in case lb_reveal_all lib sh_max m of ([], m) \<Rightarrow> Undef | (v # _, m) \<Rightarrow> Ret (nk_open nk v, m))"

(* src/src/fediux/algorithm/missing_val_processing.cc:660-758 MissingProcess::execute *)
definition greatest_value ::
  "'m aby3_lib \<Rightarrow> ('m, 'b) aby3_bin \<Rightarrow> (nat \<Rightarrow> i64 list) \<Rightarrow> 'v number_kind \<Rightarrow> (nat \<Rightarrow> 'v) \<Rightarrow> 'm \<Rightarrow> ('v \<times> 'm) cpp" where
  "greatest_value lib bin fresh nk vals m =
     cbind (greatest_party bin fresh (\<lambda>p. one_by_one (nk_share nk (vals p))) m) (\<lambda>(p, ms, m). open_value lib nk (ms p) m)"

(* src/src/fediux/algorithm/missing_val_processing.cc:869-968 MissingProcess::execute *)
definition least_value ::
  "'m aby3_lib \<Rightarrow> ('m, 'b) aby3_bin \<Rightarrow> (nat \<Rightarrow> i64 list) \<Rightarrow> 'v number_kind \<Rightarrow> (nat \<Rightarrow> 'v) \<Rightarrow> 'm \<Rightarrow> ('v \<times> 'm) cpp" where
  "least_value lib bin fresh nk vals m =
     cbind (smallest_party bin fresh (\<lambda>p. one_by_one (nk_share nk (vals p))) m) (\<lambda>(p, ms, m). open_value lib nk (ms p) m)"

text \<open>Each party in turn shares its sum and its count; the revealed totals are divided.\<close>

(* src/src/fediux/algorithm/missing_val_processing.cc:1079-1117 MissingProcess::execute *)
definition average_value ::
  "'m aby3_lib \<Rightarrow> 'v number_kind \<Rightarrow> (nat \<Rightarrow> 'v) \<Rightarrow> (nat \<Rightarrow> u32) \<Rightarrow> 'm \<Rightarrow> ('v \<times> 'm) cpp" where
  "average_value lib nk totals counts m =
     (let mat = (\<lambda>p. [nk_share nk (totals p), nk_share nk (nk_count nk (counts p))]);
          (s0, m) = lb_share lib 2 1 (mat 0) m;
          (s1, m) = lb_share lib 2 1 (mat 1) m;
          (s2, m) = lb_share lib 2 1 (mat 2) m;
          (plain_sum, m) = lb_reveal_all lib (sum_of_shares lib (s0, s1, s2)) m
      in case plain_sum of
           [s, c] \<Rightarrow> cbind (nk_div nk (nk_open nk s) (nk_open nk c)) (\<lambda>col_avg. Ret (col_avg, m))
         | _ \<Rightarrow> Undef)"

text \<open>\<open>None\<close>: a way of replacing that is not known.\<close>

(* src/src/fediux/algorithm/missing_val_processing.cc:659-664 MissingProcess::execute *)
definition common_value ::
  "'m aby3_lib \<Rightarrow> ('m, 'b) aby3_bin \<Rightarrow> (nat \<Rightarrow> i64 list) \<Rightarrow> 'v number_kind \<Rightarrow> string \<Rightarrow> (nat \<Rightarrow> 'v scan) \<Rightarrow> (nat \<Rightarrow> u32) \<Rightarrow> 'm
   \<Rightarrow> ('v \<times> 'm) cpp option" where
  "common_value lib bin fresh nk replace_type scans counts m =
     (if replace_type = ''MAX'' then Some (greatest_value lib bin fresh nk (\<lambda>p. sc_max (scans p)) m)
      else if replace_type = ''MIN'' then Some (least_value lib bin fresh nk (\<lambda>p. sc_min (scans p)) m)
      else if replace_type = ''AVG'' then Some (average_value lib nk (\<lambda>p. sc_sum (scans p)) counts m)
      else None)"

section \<open>The filled column\<close>

definition replaced_chunk :: "string \<Rightarrow> string option list \<Rightarrow> nat list \<Rightarrow> string list" where
  "replaced_chunk replace entries abnormal =
     fold (\<lambda>index vals. vals[index := replace]) abnormal (map (\<lambda>e. case e of None \<Rightarrow> replace | Some s \<Rightarrow> s) entries)"

(* src/src/fediux/algorithm/missing_val_processing.cc:120-169 MissingProcess::_buildNewColumn *)
definition buildNewColumn :: "'v number_kind \<Rightarrow> string \<Rightarrow> string option list list \<Rightarrow> nat list list \<Rightarrow> 'v list cpp" where
  "buildNewColumn nk replace chunks abnormal_index =
     (if chunks = [] \<or> length abnormal_index < length chunks
         \<or> (\<exists>(c, abnormal) \<in> set (zip chunks abnormal_index). \<exists>i \<in> set abnormal. length c \<le> i) then Undef
      else cmap (\<lambda>s. case nk_parse nk s of Converted v _ \<Rightarrow> Ret v | _ \<Rightarrow> Throw (nk_what nk))
        (concat (map2 (replaced_chunk replace) chunks abnormal_index)))"

text \<open>The text of the exception is without the reason that Arrow gives.\<close>

(* src/src/fediux/algorithm/missing_val_processing.h:65-104 MissingProcess::replaceValue *)
definition replaceValue ::
  "'v number_kind \<Rightarrow> ('v list \<Rightarrow> 'd mcolumn) \<Rightarrow> string \<Rightarrow> 'd mtable \<Rightarrow> nat \<Rightarrow> 'v \<Rightarrow> nat list list \<Rightarrow> 'd mtable cpp" where
  "replaceValue nk mk name table col_index col_value abnormal_index = (case snd (table ! col_index) of
       TextColumn chunks \<Rightarrow>
         cbind (buildNewColumn nk (nk_text nk col_value) chunks abnormal_index) (\<lambda>new_array.
           if length new_array \<noteq> num_rows table
           then Throw (''Replace content of column '' @ name @ '' failed, '')
           else Ret (table[col_index := (name, mk new_array)]))
     | _ \<Rightarrow> Undef)"

section \<open>The columns of the three parties\<close>

definition all_parties :: "(nat \<Rightarrow> bool) \<Rightarrow> bool" where
  "all_parties P \<longleftrightarrow> (\<forall>p \<in> set [0, 1, 2]. P p)"

text \<open>An exception is thrown again with the number of the party.\<close>

(* src/src/fediux/algorithm/missing_val_processing.cc:1168-1173 MissingProcess::execute *)
fun in_party :: "nat \<Rightarrow> 'a cpp \<Rightarrow> 'a cpp" where
  "in_party p (Throw e) = Throw (''In party '' @ dec_string p @ '': '' @ e)"
| "in_party p r = r"

definition each_party :: "(nat \<Rightarrow> 'a cpp) \<Rightarrow> (nat \<Rightarrow> 'a) cpp" where
  "each_party f = jointly (\<lambda>p. in_party p (f p))"

text \<open>
  A party that does not have its column takes no part: when another has it, and something is to be replaced, that
  one waits for messages that do not come, which is not told from undefined behaviour.
\<close>

(* src/src/fediux/algorithm/missing_val_processing.cc:515-522 MissingProcess::execute *)
definition process_column ::
  "'m aby3_lib \<Rightarrow> ('m, 'b) aby3_bin \<Rightarrow> (nat \<Rightarrow> i64 list) \<Rightarrow> 'v number_kind \<Rightarrow> ('v list \<Rightarrow> 'd mcolumn)
   \<Rightarrow> ('d mtable \<Rightarrow> nat \<Rightarrow> 'v scan cpp) \<Rightarrow> string \<Rightarrow> (nat \<Rightarrow> string) \<Rightarrow> (nat \<Rightarrow> 'd mtable) \<Rightarrow> 'm
   \<Rightarrow> ((nat \<Rightarrow> 'd mtable) \<times> 'm) cpp" where
  "process_column lib bin fresh nk mk scan replace_type names tables m =
     (let t = (\<lambda>p. column_index (tables p) (names p))
      in cbind (each_party (\<lambda>p. case t p of None \<Rightarrow> Ret (new_scan nk) | Some col_index \<Rightarrow> scan (tables p) col_index)) (\<lambda>scans.
         case common_value lib bin fresh nk replace_type scans (\<lambda>p. valid_count (tables p) (scans p)) m of
           None \<Rightarrow> Ret (tables, m)
         | Some run \<Rightarrow>
             if all_parties (\<lambda>p. t p = None) then Ret (tables, m)
             else if \<not> all_parties (\<lambda>p. t p \<noteq> None) then Undef
             else cbind run (\<lambda>(v, m).
               cbind (each_party (\<lambda>p. replaceValue nk mk (names p) (tables p) (the (t p)) v (sc_abnormal (scans p)))) (\<lambda>tables.
                 Ret (tables, m)))))"

text \<open>The columns at one place, by their type, which the parties agree on.\<close>

(* src/src/fediux/algorithm/missing_val_processing.cc:761-864 MissingProcess::execute *)
definition process_place ::
  "'m aby3_lib \<Rightarrow> ('m, 'b) aby3_bin \<Rightarrow> (nat \<Rightarrow> i64 list) \<Rightarrow> 'd fp_num \<Rightarrow> 'd double_text \<Rightarrow> string \<Rightarrow> u32 \<Rightarrow> (nat \<Rightarrow> string)
   \<Rightarrow> (nat \<Rightarrow> 'd mtable) \<Rightarrow> 'm \<Rightarrow> ((nat \<Rightarrow> 'd mtable) \<times> 'm) cpp" where
  "process_place lib bin fresh fp dt replace_type dtype names tables m =
     (if dtype = 1 \<or> dtype = 3 then
        process_column lib bin fresh int_kind IntColumn scan_integers replace_type names tables m
      else if dtype = 2 then
        process_column lib bin fresh (double_kind fp dt) DoubleColumn (scan_doubles fp dt) replace_type names tables m
      else Ret (tables, m))"

(* src/src/fediux/algorithm/missing_val_processing.cc:488-492 MissingProcess::execute *)
fun process_places ::
  "'m aby3_lib \<Rightarrow> ('m, 'b) aby3_bin \<Rightarrow> (nat \<Rightarrow> i64 list) \<Rightarrow> 'd fp_num \<Rightarrow> 'd double_text \<Rightarrow> string \<Rightarrow> (u32 \<times> (nat \<Rightarrow> string)) list
   \<Rightarrow> (nat \<Rightarrow> 'd mtable) \<Rightarrow> 'm \<Rightarrow> ((nat \<Rightarrow> 'd mtable) \<times> 'm) cpp" where
  "process_places lib bin fresh fp dt replace_type [] tables m = Ret (tables, m)"
| "process_places lib bin fresh fp dt replace_type ((dtype, names) # places) tables m =
     cbind (process_place lib bin fresh fp dt replace_type dtype names tables m) (\<lambda>(tables, m).
       process_places lib bin fresh fp dt replace_type places tables m)"

text \<open>The parties tell each other the numbers of their columns, and then the types.\<close>

(* src/src/fediux/algorithm/missing_val_processing.cc:426-449 MissingProcess::execute *)
definition same_number_of_columns :: "(nat \<Rightarrow> nat) \<Rightarrow> nat \<Rightarrow> unit cpp" where
  "same_number_of_columns cols party_id =
     (let cols_0 = cols party_id; cols_1 = cols ((party_id + 1) mod 3); cols_2 = cols ((party_id + 2) mod 3)
      in if cols_0 \<noteq> cols_1 \<or> cols_0 \<noteq> cols_2 \<or> cols_1 \<noteq> cols_2
         then Throw ''The target data columns of the three parties are inconsistent!'' else Ret ())"

(* src/src/fediux/algorithm/missing_val_processing.cc:451-486 MissingProcess::execute *)
definition same_types_of_columns :: "(nat \<Rightarrow> u32 list) \<Rightarrow> nat \<Rightarrow> unit cpp" where
  "same_types_of_columns dtypes party_id =
     (let arr_dtype0 = dtypes party_id; arr_dtype1 = dtypes ((party_id + 1) mod 3); arr_dtype2 = dtypes ((party_id + 2) mod 3)
      in if \<exists>i < length arr_dtype0. arr_dtype0 ! i \<noteq> arr_dtype1 ! i \<or> arr_dtype0 ! i \<noteq> arr_dtype2 ! i \<or> arr_dtype1 ! i \<noteq> arr_dtype2 ! i
         then Throw ''The data column types of the three parties are inconsistent!'' else Ret ())"

section \<open>State\<close>

(* src/src/fediux/algorithm/missing_val_processing.h:107-130 MissingProcess *)
record 'd missing =
  mv_config :: party_config
  mv_party_id :: u16
  mv_types :: "(string \<times> u32) list"
  mv_data_path :: string
  mv_dataset_id :: string
  mv_detail :: bool
  mv_replace :: string
  mv_conn_info :: string
  mv_table :: "'d mtable option"
  mv_use_db :: bool
  mv_table_name :: string
  mv_new_id :: string
  mv_new_path :: string
  mv_links :: "(party_link \<times> party_link) option"
  mv_files :: "(string \<times> 'd mtable) list"
  mv_registered :: "(string \<times> string) list"

record 'd missing_env =
  me_json :: json_lib
  me_read_csv :: "string \<Rightarrow> bool \<Rightarrow> string list \<Rightarrow> 'd mtable option cpp"
  me_storage :: string
  me_write :: "string \<Rightarrow> 'd mtable \<Rightarrow> int"

(* src/src/fediux/algorithm/missing_val_processing.cc:250-311 MissingProcess::MissingProcess *)
definition new_missing :: "party_config \<Rightarrow> 'd missing cpp" where
  "new_missing config = cbind (SelfPartyId config) (\<lambda>i. Ret
     \<lparr>mv_config = config, mv_party_id = i, mv_types = [], mv_data_path = [], mv_dataset_id = [], mv_detail = False,
      mv_replace = [], mv_conn_info = [], mv_table = None, mv_use_db = False, mv_table_name = [], mv_new_id = [],
      mv_new_path = [], mv_links = None, mv_files = [], mv_registered = []\<rparr>)"

section \<open>The request\<close>

text \<open>The map of the columns' types is sorted by name and keeps the first type of a name.\<close>

(* src/src/fediux/algorithm/missing_val_processing.cc:377-384 MissingProcess::loadParams *)
fun insert_types :: "(string \<times> json) list \<Rightarrow> (string \<times> u32) list \<Rightarrow> (string \<times> u32) list cpp" where
  "insert_types [] m = Ret m"
| "insert_types ((col_name, v) # kvs) m = (case v of
       JInt i \<Rightarrow>
         if - (2 ^ 31) \<le> i \<and> i < 2 ^ 31
         then insert_types kvs (if map_of m col_name = None then insort_key fst (col_name, word_of_int i) m else m)
         else Undef
     | _ \<Rightarrow> Undef)"

definition json_text :: "json \<Rightarrow> string cpp" where
  "json_text j = (case j of JStr s \<Rightarrow> Ret s | _ \<Rightarrow> Undef)"

text \<open>A data path that begins with \<open>sqlite\<close> names a database and its table.\<close>

(* src/src/fediux/algorithm/missing_val_processing.cc:354-362 MissingProcess::loadParams *)
definition parse_source :: "string \<Rightarrow> 'd missing \<Rightarrow> 'd missing cpp" where
  "parse_source path st0 =
     (let st = st0\<lparr>mv_use_db := False, mv_data_path := path\<rparr>
      in if \<not> prefix ''sqlite'' path then Ret st
         else (case spiltStr path ''#'' of
             Some (_ # data_file_path # table_name # _) \<Rightarrow>
               Ret (st\<lparr>mv_use_db := True, mv_conn_info := path, mv_data_path := data_file_path, mv_table_name := table_name\<rparr>)
           | _ \<Rightarrow> Undef))"

(* src/src/fediux/algorithm/missing_val_processing.cc:363-393 MissingProcess::loadParams *)
definition parse_column_info :: "json_lib \<Rightarrow> string \<Rightarrow> string \<Rightarrow> 'd missing \<Rightarrow> 'd missing cpp" where
  "parse_column_info js storage json_str st =
     (case js_parse js json_str of None \<Rightarrow> Undef | Some doc \<Rightarrow>
      cbind (member_at doc (mv_data_path st)) (\<lambda>doc_ds.
      cbind (member_at doc_ds ''columns'') (\<lambda>vals.
      cbind (case vals of JObj kvs \<Rightarrow> insert_types kvs (mv_types st) | _ \<Rightarrow> Undef) (\<lambda>types.
      cbind (cbind (member_at doc_ds ''newDataSetId'') json_text) (\<lambda>new_id.
      cbind (member doc_ds ''outputFilePath'') (\<lambda>out.
        let new_path = (case out of Some (JStr path) \<Rightarrow> path | _ \<Rightarrow> ''./'' @ new_id @ ''.csv'')
        in Ret (st\<lparr>mv_types := types, mv_new_id := new_id, mv_new_path := CompletePath storage new_path\<rparr>)))))))"

(* src/src/fediux/algorithm/missing_val_processing.cc:313-398 MissingProcess::loadParams *)
definition missing_loadParams :: "'d missing_env \<Rightarrow> task_config \<Rightarrow> 'd missing \<Rightarrow> (int \<times> 'd missing) cpp" where
  "missing_loadParams env task st =
     (case ExtractProxyNode task of None \<Rightarrow> Ret (-1, st) | Some _ \<Rightarrow>
      case statistics_dataset (pc_party_name (mv_config st)) task of None \<Rightarrow> Ret (-1, st) | Some (path, dataset_id, detail) \<Rightarrow>
        let replace_type = text_param task ''Replace_Type''
        in cbind (parse_source path (st\<lparr>mv_detail := detail, mv_dataset_id := dataset_id,
               mv_replace := (if replace_type = [] then ''MAX'' else replace_type)\<rparr>)) (\<lambda>st.
           cbind (parse_column_info (me_json env) (me_storage env) (text_param task ''ColumnInfo'') st) (\<lambda>st. Ret (0, st))))"

section \<open>The steps\<close>

text \<open>
  The reader of CSV files makes texts of the columns of numbers. All columns have to have as many entries as the last
  one. The values that are read meanwhile are not used, and left out.
\<close>

(* src/src/fediux/algorithm/missing_val_processing.cc:1220-1317 MissingProcess::_LoadDatasetFromCSV *)
definition missing_LoadDatasetFromCSV :: "'d missing_env \<Rightarrow> 'd missing \<Rightarrow> (int \<times> 'd missing) cpp" where
  "missing_LoadDatasetFromCSV env st =
     (let target_column = map fst (filter (\<lambda>(_, dtype). dtype = 1 \<or> dtype = 2 \<or> dtype = 3) (mv_types st))
      in cbind (me_read_csv env (mv_dataset_id st) (mv_detail st) target_column) (\<lambda>r. case r of
           None \<Rightarrow> Ret (-1, st)
         | Some table \<Rightarrow>
             if table = [] then Undef
             else (let array_len = sum_list (column_chunks (snd (last table))); st = st\<lparr>mv_table := Some table\<rparr>
               in if \<exists>(_, c) \<in> set table. sum_list (column_chunks c) \<noteq> array_len then Ret (-1, st)
                  else Ret (int array_len, st))))"

text \<open>The database's driver has no cursor for a text that names the source, so that nothing is read.\<close>

(* src/src/fediux/data_store/sqlite/sqlite_driver.cc:482-485 SQLiteDriver::read *)
definition sqlite_read :: "string \<Rightarrow> unit option" where
  "sqlite_read conn_str = None"

(* src/src/fediux/algorithm/missing_val_processing.cc:1319-1333 MissingProcess::_LoadDatasetFromDB *)
definition LoadDatasetFromDB :: "'d missing \<Rightarrow> (int \<times> 'd missing) cpp" where
  "LoadDatasetFromDB st = (case sqlite_read (mv_conn_info st) of None \<Rightarrow> Ret (-1, st) | Some _ \<Rightarrow> Undef)"

(* src/src/fediux/algorithm/missing_val_processing.cc:400-413 MissingProcess::loadDataset *)
definition missing_loadDataset :: "'d missing_env \<Rightarrow> 'd missing \<Rightarrow> (int \<times> 'd missing) cpp" where
  "missing_loadDataset env st =
     cbind (if mv_use_db st then LoadDatasetFromDB st else missing_LoadDatasetFromCSV env st) (\<lambda>(ret, st).
       if ret \<le> 0 then Ret (-1, st) else Ret (0, st))"

text \<open>A run whose parties ask for different ways of replacing is not told from undefined behaviour.\<close>

(* src/src/fediux/algorithm/missing_val_processing.cc:424-494 MissingProcess::execute *)
definition missing_execute ::
  "'m aby3_lib \<Rightarrow> ('m, 'b) aby3_bin \<Rightarrow> (nat \<Rightarrow> i64 list) \<Rightarrow> 'd fp_num \<Rightarrow> 'd double_text \<Rightarrow> (nat \<Rightarrow> 'd missing) \<Rightarrow> 'm
   \<Rightarrow> (nat \<Rightarrow> int \<times> 'd missing) cpp" where
  "missing_execute lib bin fresh fp dt sts m =
     (let types = (\<lambda>p. mv_types (sts p))
      in cbind (each_party (same_number_of_columns (\<lambda>p. length (types p)))) (\<lambda>_.
         cbind (each_party (same_types_of_columns (\<lambda>p. map snd (types p)))) (\<lambda>_.
           if \<not> all_parties (\<lambda>p. mv_replace (sts p) = mv_replace (sts 0) \<and> mv_table (sts p) \<noteq> None) then Undef
           else cbind (process_places lib bin fresh fp dt (mv_replace (sts 0))
               (map (\<lambda>i. (snd (types 0 ! i), \<lambda>p. fst (types p ! i))) [0..<length (types 0)])
               (\<lambda>p. the (mv_table (sts p))) m) (\<lambda>(tables, m).
             Ret (\<lambda>p. (0, (sts p)\<lparr>mv_table := Some (tables p)\<rparr>))))))"

(* src/src/fediux/algorithm/missing_val_processing.cc:1190-1218 MissingProcess::saveModel *)
definition missing_saveModel :: "'d missing_env \<Rightarrow> 'd missing \<Rightarrow> (int \<times> 'd missing) cpp" where
  "missing_saveModel env st = (case mv_table st of None \<Rightarrow> Undef | Some table \<Rightarrow>
     if me_write env (mv_new_path st) table \<noteq> 0 then Ret (-1, st)
     else Ret (0, st\<lparr>mv_files := mv_files st @ [(mv_new_path st, table)],
       mv_registered := mv_registered st @ [(mv_new_id st, mv_new_path st)]\<rparr>))"

(* src/src/fediux/algorithm/missing_val_processing.cc:415-422 MissingProcess::InitEngine *)
definition missing :: "'d missing_env \<Rightarrow> ('d missing \<Rightarrow> (int \<times> 'd missing) cpp) \<Rightarrow> 'd missing algorithm" where
  "missing env execute =
     \<lparr>al_loadParams = missing_loadParams env,
      al_loadDataset = missing_loadDataset env,
      al_initPartyComm = (\<lambda>st. cbind (initPartyComm (mv_config st)) (\<lambda>ls. Ret (0, st\<lparr>mv_links := Some ls\<rparr>))),
      al_InitEngine = Ret,
      al_execute = execute,
      al_saveModel = missing_saveModel env\<rparr>"

text \<open>The tasks of the three parties; one that does not get ready leaves the others waiting.\<close>

definition missing_task ::
  "'m aby3_lib \<Rightarrow> ('m, 'b) aby3_bin \<Rightarrow> (nat \<Rightarrow> i64 list) \<Rightarrow> 'd fp_num \<Rightarrow> 'd double_text \<Rightarrow> (nat \<Rightarrow> 'd missing_env)
   \<Rightarrow> (nat \<Rightarrow> task_config) \<Rightarrow> (nat \<Rightarrow> 'd missing) \<Rightarrow> 'm \<Rightarrow> (nat \<Rightarrow> retcode \<times> 'd missing) cpp" where
  "missing_task lib bin fresh fp dt env task sts m =
     cbind (jointly (\<lambda>p. run_steps (prepare_steps (missing (env p) (\<lambda>st. Ret (0, st))) (task p)) (sts p))) (\<lambda>views.
       if all_parties (\<lambda>p. fst (views p) = SUCCESS) then
         cbind (missing_execute lib bin fresh fp dt (\<lambda>p. snd (views p)) m) (\<lambda>views.
           jointly (\<lambda>p. run_steps [\<lambda>_. Ret (views p), missing_saveModel (env p)] (snd (views p))))
       else if all_parties (\<lambda>p. fst (views p) \<noteq> SUCCESS) then Ret views
       else Undef)"

end
