(* ===== verification/Statistics_Correct.thy ===== *)
theory Statistics_Correct
  imports Statistics
begin

text \<open>
  What the executors of statistics give: the totals and averages of the columns of all three parties, and
  their least values; the greatest values only when one of them is positive.
\<close>

section \<open>What is assumed of shares and numbers\<close>

definition share_laws :: "'m aby3_lib \<Rightarrow> bool" where
  "share_laws lib \<longleftrightarrow> aby3_local lib
     \<and> (\<forall>r c v m. length v = r * c \<longrightarrow> hides r c v (fst (lb_share lib r c v m)))
     \<and> (\<forall>r c v A p m. hides r c v A \<longrightarrow> fst (lb_reveal lib p A m) = v \<and> fst (lb_reveal_all lib A m) = v)"

text \<open>Sums of integers below \<open>2 ^ 47\<close> are exact, and fit the fixed-point form.\<close>

definition count_laws :: "'d fp_num \<Rightarrow> bool" where
  "count_laws fp \<longleftrightarrow> f_zero fp = f_of_i64 fp 0
     \<and> (\<forall>a b. a + b < 2 ^ 47 \<longrightarrow> f_add fp (f_of_i64 fp (of_nat a)) (f_of_i64 fp (of_nat b)) = f_of_i64 fp (of_nat (a + b)))
     \<and> (\<forall>a < 2 ^ 47. f_fix fp (f_of_i64 fp (of_nat a)) = of_nat (a * 2 ^ 16))
     \<and> (\<forall>a < 2 ^ 47. f_unfix fp (of_nat (a * 2 ^ 16)) = f_of_i64 fp (of_nat a))"

text \<open>Numbers that are not above \<open>2 ^ 45\<close> in magnitude, and what their order has to do with the fixed-point form.\<close>

definition small :: "'d fp_num \<Rightarrow> 'd \<Rightarrow> bool" where
  "small fp x \<longleftrightarrow> f_le fp (f_of_i64 fp (- (2 ^ 45))) x \<and> f_le fp x (f_of_i64 fp (2 ^ 45))"

definition order_laws :: "'d fp_num \<Rightarrow> bool" where
  "order_laws fp \<longleftrightarrow>
     (\<forall>x y z. f_le fp x y \<and> f_le fp y z \<longrightarrow> f_le fp x z) \<and> (\<forall>x y. f_le fp x y \<or> f_le fp y x)
     \<and> (\<forall>x. small fp x \<longrightarrow> f_le fp x (f_limit_max fp))
     \<and> (\<forall>i j. sint i \<le> sint j \<longrightarrow> f_le fp (f_of_i64 fp i) (f_of_i64 fp j))
     \<and> (\<forall>x y. small fp x \<and> small fp y \<and> f_le fp x y \<longrightarrow> sint (f_fix fp x) \<le> sint (f_fix fp y))
     \<and> (\<forall>x. small fp x \<longrightarrow> \<bar>sint (f_fix fp x)\<bar> \<le> 2 ^ 61 \<and> f_fix fp (f_minus fp x) = - f_fix fp x)
     \<and> small fp (f_limit_min fp)"

text \<open>The values of the columns of a party; no array is empty.\<close>

definition numeric_columns ::
  "'d fp_num \<Rightarrow> 'd table \<Rightarrow> (string \<times> column_dtype) list \<Rightarrow> string list \<Rightarrow> (string \<Rightarrow> 'd list) \<Rightarrow> bool" where
  "numeric_columns fp table types columns vals \<longleftrightarrow>
     (\<forall>c \<in> set columns. \<exists>col ty vs. GetColumnByName table c = Some col \<and> map_of types c = Some ty
        \<and> chunk_values fp ty col = Ret (Some vs) \<and> concat vs = vals c \<and> vals c \<noteq> [] \<and> [] \<notin> set vs)"

section \<open>Totals\<close>

lemma chunk_values_shape:
  "chunk_values fp ty col = Ret (Some vs) \<Longrightarrow> map length vs = chunk_lengths col"
  by (cases col) (auto simp: chunk_values_def split: if_splits)

lemma fold_counts:
  assumes "count_laws fp" "a + length (concat vs) < 2 ^ 47"
  shows "fold (\<lambda>c n. f_add fp n (f_of_i64 fp (of_nat (length c)))) vs (f_of_i64 fp (of_nat a))
    = f_of_i64 fp (of_nat (a + length (concat vs)))"
  using assms(2)
proof (induction vs arbitrary: a)
  case (Cons c vs)
  have "f_add fp (f_of_i64 fp (of_nat a)) (f_of_i64 fp (of_nat (length c))) = f_of_i64 fp (of_nat (a + length c))"
    using assms(1) Cons.prems unfolding count_laws_def by auto
  with Cons.IH [of "a + length c"] Cons.prems show ?case by (simp add: add.assoc)
qed simp

definition column_total :: "'d fp_num \<Rightarrow> 'd list \<Rightarrow> 'd" where
  "column_total fp vs = fold (\<lambda>v s. f_add fp s v) vs (f_zero fp)"

lemma plain_sums:
  assumes "count_laws fp" "numeric_columns fp table types columns vals" "\<forall>c \<in> set columns. length (vals c) < 2 ^ 47"
  shows "sum_PlainTextDataCompute fp table types columns
    = Ret (Some (map (\<lambda>c. (column_total fp (vals c), f_of_i64 fp (of_nat (length (vals c))))) columns))"
  using assms(2,3)
proof (induction columns)
  case (Cons c columns)
  obtain col ty vs where c: "GetColumnByName table c = Some col" "map_of types c = Some ty"
    "chunk_values fp ty col = Ret (Some vs)" "concat vs = vals c" "vals c \<noteq> []"
    using Cons.prems(1) unfolding numeric_columns_def by auto
  have "chunk_lengths col \<noteq> []" using chunk_values_shape [OF c(3)] c(4,5) by auto
  moreover have "f_zero fp = f_of_i64 fp (of_nat 0)" using assms(1) by (simp add: count_laws_def)
  ultimately have "column_sum fp (Some ty) col = Ret (Some (column_total fp (vals c), f_of_i64 fp (of_nat (length (vals c)))))"
    using fold_counts [OF assms(1), of 0 vs] Cons.prems(2) c(3,4) by (simp add: column_sum_def column_total_def)
  moreover have "sum_PlainTextDataCompute fp table types columns
    = Ret (Some (map (\<lambda>c. (column_total fp (vals c), f_of_i64 fp (of_nat (length (vals c))))) columns))"
    using Cons.prems by (intro Cons.IH) (simp_all add: numeric_columns_def)
  ultimately show ?case using c(1,2) by simp
qed simp

lemma revealed_total:
  assumes "share_laws lib" "\<forall>p < 3. length (cols p) = n"
  shows "fst (reveal_in_turn lib fp (sum_of_shares lib (fst (share_in_turn lib fp cols m))) m')
    = (\<lambda>p. map (\<lambda>i. f_unfix fp (f_fix fp (cols 0 ! i) + f_fix fp (cols 1 ! i) + f_fix fp (cols 2 ! i))) [0..<n])"
proof -
  let ?v = "\<lambda>p. map (f_fix fp) (cols p)"
  have share: "hides n 1 (?v p) (fst (createShares_double lib fp (cols p) k))" if "p < 3" for p k
    using assms that unfolding share_laws_def createShares_double_def by auto
  let ?s = "fst (share_in_turn lib fp cols m)"
  obtain s0 s1 s2 where s: "?s = (s0, s1, s2)" "hides n 1 (?v 0) s0" "hides n 1 (?v 1) s1" "hides n 1 (?v 2) s2"
    unfolding share_in_turn_def Let_def using share [of 0] share [of 1] share [of 2]
    by (auto simp: case_prod_unfold)
  have "hides n 1 (map2 (+) (map2 (+) (?v 0) (?v 1)) (?v 2)) (sum_of_shares lib ?s)"
    using assms(1) s by (simp add: sum_of_shares_def share_laws_def local_plus)
  then have "fst (lb_reveal lib p (sum_of_shares lib ?s) k) = map2 (+) (map2 (+) (?v 0) (?v 1)) (?v 2)" for p k
    using assms(1) unfolding share_laws_def by blast
  moreover have "map2 (+) (map2 (+) (?v 0) (?v 1)) (?v 2)
      = map (\<lambda>i. f_fix fp (cols 0 ! i) + f_fix fp (cols 1 ! i) + f_fix fp (cols 2 ! i)) [0..<n]"
    using assms(2) by (intro nth_equalityI) simp_all
  ultimately show ?thesis
    by (simp add: reveal_in_turn_def reveal_double_def case_prod_unfold Let_def fun_eq_iff)
qed

lemma counted_rows:
  assumes "count_laws fp" "a + b + c < 2 ^ 47"
  shows "f_unfix fp (f_fix fp (f_of_i64 fp (of_nat a)) + f_fix fp (f_of_i64 fp (of_nat b)) + f_fix fp (f_of_i64 fp (of_nat c)))
    = f_of_i64 fp (of_nat (a + b + c))"
proof -
  have "a < 2 ^ 47" "b < 2 ^ 47" "c < 2 ^ 47" using assms(2) by linarith+
  then have "f_fix fp (f_of_i64 fp (of_nat a)) + f_fix fp (f_of_i64 fp (of_nat b)) + f_fix fp (f_of_i64 fp (of_nat c))
      = of_nat (a * 2 ^ 16) + of_nat (b * 2 ^ 16) + of_nat (c * 2 ^ 16)"
    using assms(1) unfolding count_laws_def by metis
  also have "\<dots> = of_nat ((a + b + c) * 2 ^ 16)" by (simp add: algebra_simps)
  finally show ?thesis using assms unfolding count_laws_def by metis
qed

lemma sums_revealed:
  assumes "share_laws lib" "\<forall>p < 3. length (col_sum p) = n" "\<forall>p < 3. length (col_count p) = n"
  shows "\<exists>r m'. sum_CipherTextDataCompute lib fp average col_sum col_count m = Ret (r, m')
    \<and> (\<forall>p. r p = (let s = map (\<lambda>i. f_unfix fp (f_fix fp (col_sum 0 ! i) + f_fix fp (col_sum 1 ! i) + f_fix fp (col_sum 2 ! i))) [0..<n];
             c = map (\<lambda>i. f_unfix fp (f_fix fp (col_count 0 ! i) + f_fix fp (col_count 1 ! i) + f_fix fp (col_count 2 ! i))) [0..<n]
           in if average then map2 (f_div fp) s c else s))"
proof -
  have "\<not> (\<exists>p \<in> set [0, 1, 2]. length (col_sum p) \<noteq> length (col_sum 0) \<or> length (col_count p) \<noteq> length (col_sum 0))"
    using assms(2,3) by simp
  then have eq: "sum_CipherTextDataCompute lib fp average col_sum col_count m =
      (let s1 = share_in_turn lib fp col_sum m; s2 = share_in_turn lib fp col_count (snd s1);
           v1 = reveal_in_turn lib fp (sum_of_shares lib (fst s1)) (snd s2)
       in if average then
            (let v2 = reveal_in_turn lib fp (sum_of_shares lib (fst s2)) (snd v1)
             in Ret (\<lambda>p. map2 (f_div fp) (fst v1 p) (fst v2 p), snd v2))
          else Ret (fst v1, snd v1))"
    by (simp add: sum_CipherTextDataCompute_def case_prod_unfold Let_def)
  show ?thesis
    unfolding eq Let_def revealed_total [OF assms(1,2)] revealed_total [OF assms(1,3)]
    by (cases average) auto
qed

text \<open>The columns of the three parties that stand at one place, after each other.\<close>

definition rows_at_place :: "(nat \<Rightarrow> string \<Rightarrow> 'd list) \<Rightarrow> (nat \<Rightarrow> string list) \<Rightarrow> nat \<Rightarrow> nat" where
  "rows_at_place vals columns i = length (vals 0 (columns 0 ! i)) + length (vals 1 (columns 1 ! i)) + length (vals 2 (columns 2 ! i))"

text \<open>
  The three parties, with as many columns each, are all given the same totals: for the columns at one
  place the sum of the parties' sums, each rounded to the fixed-point form and added with wrap-around,
  and for an average this sum divided by the number of rows of all three.
\<close>

theorem totals_revealed:
  fixes fp :: "'d fp_num"
  assumes "share_laws lib" "count_laws fp"
    "\<forall>p < 3. length (columns p) = n \<and> numeric_columns fp (tables p) (types p) (columns p) (vals p)"
    "\<forall>p < 3. \<forall>c \<in> set (columns p). length (vals p c) < 2 ^ 47" "\<forall>i < n. rows_at_place vals columns i < 2 ^ 47"
  shows "\<exists>r m'. run_statistics lib bin fresh fp (if average then ST_AVG else ST_SUM) tables columns types m = Ret (Some (r, m'))
    \<and> (\<forall>p < 3. r p = map (\<lambda>i.
         let s = f_unfix fp (f_fix fp (column_total fp (vals 0 (columns 0 ! i))) + f_fix fp (column_total fp (vals 1 (columns 1 ! i)))
                   + f_fix fp (column_total fp (vals 2 (columns 2 ! i))))
         in if average then f_div fp s (f_of_i64 fp (of_nat (rows_at_place vals columns i))) else s) [0..<n])"
proof -
  let ?sc = "\<lambda>p. map (\<lambda>c. (column_total fp (vals p c), f_of_i64 fp (of_nat (length (vals p c))))) (columns p)"
  have "\<forall>p < 3. sum_PlainTextDataCompute fp (tables p) (types p) (columns p) = Ret ((\<lambda>p. Some (?sc p)) p)"
  proof (intro allI impI)
    fix p :: nat
    assume p: "p < 3"
    show "sum_PlainTextDataCompute fp (tables p) (types p) (columns p) = Ret (Some (?sc p))"
      by (rule plain_sums [OF assms(2)]) (use p assms(3,4) in blast)+
  qed
  from jointly_Ret_all [OF this] obtain h where
    plain: "jointly (\<lambda>p. sum_PlainTextDataCompute fp (tables p) (types p) (columns p)) = Ret h"
      "\<forall>p < 3. h p = Some (?sc p)" by blast
  let ?ss = "\<lambda>p. map fst (the (h p))" and ?cc = "\<lambda>p. map snd (the (h p))"
  have at: "?ss p ! i = column_total fp (vals p (columns p ! i))" "?cc p ! i = f_of_i64 fp (of_nat (length (vals p (columns p ! i))))"
    if "p < 3" "i < n" for p i
    using that plain(2) assms(3) by simp_all
  have lens: "\<forall>p < 3. length (?ss p) = n" "\<forall>p < 3. length (?cc p) = n" using plain(2) assms(3) by simp_all
  from sums_revealed [OF assms(1) this, of fp average m] obtain r m' where
    r: "sum_CipherTextDataCompute lib fp average ?ss ?cc m = Ret (r, m')"
      "\<forall>p. r p = (let s = map (\<lambda>i. f_unfix fp (f_fix fp (?ss 0 ! i) + f_fix fp (?ss 1 ! i) + f_fix fp (?ss 2 ! i))) [0..<n];
             c = map (\<lambda>i. f_unfix fp (f_fix fp (?cc 0 ! i) + f_fix fp (?cc 1 ! i) + f_fix fp (?cc 2 ! i))) [0..<n]
           in if average then map2 (f_div fp) s c else s)" by blast
  have "r p = map (\<lambda>i.
         let s = f_unfix fp (f_fix fp (column_total fp (vals 0 (columns 0 ! i))) + f_fix fp (column_total fp (vals 1 (columns 1 ! i)))
                   + f_fix fp (column_total fp (vals 2 (columns 2 ! i))))
         in if average then f_div fp s (f_of_i64 fp (of_nat (rows_at_place vals columns i))) else s) [0..<n]" for p
  proof -
    have m2: "map2 g (map a xs) (map b xs) = map (\<lambda>x. g (a x) (b x)) xs" for g :: "'d \<Rightarrow> 'd \<Rightarrow> 'd" and a b :: "nat \<Rightarrow> 'd" and xs
      by (induction xs) simp_all
    show ?thesis
      using counted_rows [OF assms(2)] assms(5) at [of 0] at [of 1] at [of 2]
      unfolding r(2) [rule_format] Let_def m2
      by (cases average) (simp_all add: rows_at_place_def del: One_nat_def)
  qed
  moreover have "run_statistics lib bin fresh fp (if average then ST_AVG else ST_SUM) tables columns types m = Ret (Some (r, m'))"
    using plain r(1) by (cases average) (simp_all add: run_statistics_def sum_run_def all_or_none_def)
  ultimately show ?thesis by blast
qed

section \<open>Least and greatest values of a column\<close>

text \<open>An element that is first in the order \<open>R\<close>, up to equivalence, of a set.\<close>

definition best :: "('v \<Rightarrow> 'v \<Rightarrow> bool) \<Rightarrow> 'v set \<Rightarrow> 'v \<Rightarrow> bool" where
  "best R S e \<longleftrightarrow> (\<forall>y \<in> S. R e y) \<and> (\<exists>y \<in> S. R y e)"

definition preference :: "('v \<Rightarrow> 'v \<Rightarrow> bool) \<Rightarrow> bool" where
  "preference R \<longleftrightarrow> (\<forall>x y z. R x y \<and> R y z \<longrightarrow> R x z) \<and> (\<forall>x y. R x y \<or> R y x)"

lemma best_insert:
  assumes "preference R" "best R S e"
  shows "best R (insert x S) (if R x e then x else e)"
  using assms unfolding best_def preference_def by (smt (verit) insert_iff)

lemma best_Un:
  assumes "preference R" "best R S e" "best R T x"
  shows "best R (S \<union> T) (if R x e then x else e)"
  using assms unfolding best_def preference_def by (smt (verit) Un_iff)

lemma best_drop:
  assumes "preference R" "best R (insert i S) e" "S \<noteq> {}" "\<forall>y \<in> S. R y i"
  shows "best R S e"
proof -
  note t = assms(1) [unfolded preference_def]
  have a: "R e y" if "y \<in> S" for y using assms(2) that unfolding best_def by blast
  obtain y where y: "y \<in> insert i S" "R y e" using assms(2) unfolding best_def by blast
  obtain z where z: "z \<in> S" using assms(3) by blast
  have "\<exists>y \<in> S. R y e"
  proof (cases "y = i")
    case True
    with y(2) z assms(4) t show ?thesis by blast
  qed (use y in blast)
  with a show ?thesis unfolding best_def by blast
qed

lemma best_image:
  assumes "best R S e" "\<forall>x y. R x y \<longrightarrow> Q (f x) (f y)"
  shows "best Q (f ` S) (f e)"
  using assms unfolding best_def by blast

text \<open>The order that goes with a type of statistics.\<close>

definition order_of :: "('v \<Rightarrow> 'v \<Rightarrow> bool) \<Rightarrow> statistics_type \<Rightarrow> 'v \<Rightarrow> 'v \<Rightarrow> bool" where
  "order_of le type = (if type = ST_MAX then (\<lambda>x y. le y x) else le)"

lemma preference_order_of: "preference le \<Longrightarrow> preference (order_of le type)"
proof -
  assume p: "preference le"
  have "preference (\<lambda>x y. le y x)"
    unfolding preference_def
  proof (intro conjI allI impI)
    show "le z x" if "le y x \<and> le z y" for x y z using p that unfolding preference_def by blast
    show "le y x \<or> le x y" for x y using p unfolding preference_def by blast
  qed
  with p show ?thesis by (simp add: order_of_def)
qed

lemma minOrMax_best:
  assumes "preference le"
  shows "best (order_of le type) (insert v (set xs)) (minOrMax le type xs v)"
proof -
  let ?R = "order_of le type"
  note p = preference_order_of [OF assms, of type]
  have "best ?R (S \<union> set xs) (minOrMax le type xs e)" if "best ?R S e" for S e
    using that
  proof (induction xs arbitrary: S e)
    case (Cons x xs)
    have "best ?R (insert x S) (if type = ST_MAX then if le e x then x else e else if le x e then x else e)"
      using best_insert [OF p Cons.prems, of x] by (cases "type = ST_MAX") (simp_all add: order_of_def)
    from Cons.IH [OF this] show ?case by simp
  qed simp
  moreover have "best ?R {v} v"
  proof -
    have "?R v v" using p unfolding preference_def by blast
    then show ?thesis by (simp add: best_def)
  qed
  ultimately show ?thesis by (metis insert_is_Un)
qed

lemma fillChunkResult_best:
  assumes "preference (f_le fp)" "type = ST_MIN \<or> type = ST_MAX" "best (order_of (f_le fp) type) S e"
    "list_all2 (\<lambda>v T. best (order_of (f_le fp) type) T v) vs Ts"
  shows "best (order_of (f_le fp) type) (S \<union> \<Union> (set Ts)) (fold (fillChunkResult fp type) vs e)"
  using assms(4,3)
proof (induction arbitrary: S e)
  case (Cons v vs T Ts)
  let ?R = "order_of (f_le fp) type"
  note p = preference_order_of [OF assms(1), of type]
  have "best ?R (S \<union> T) (if ?R e v then e else v)"
    using best_Un [OF p Cons(1) Cons.prems] by (simp add: Un_commute)
  moreover have "fillChunkResult fp type v e = (if ?R e v then e else v)"
    using assms(2) by (auto simp: fillChunkResult_def order_of_def)
  ultimately have "best ?R (S \<union> T) (fillChunkResult fp type v e)" by simp
  from Cons.IH [OF this] show ?case by (simp add: Un_assoc)
qed simp

lemma sle_preference: "preference sle"
  unfolding preference_def sle_def by auto

lemma int_extreme:
  assumes "c \<noteq> []" "0 < LENGTH('w :: len)"
  shows "best (order_of sle type) (set c) (minOrMax sle type (c :: 'w word list) (fillInitValue_int type))"
proof (rule best_drop [OF preference_order_of [OF sle_preference] minOrMax_best [OF sle_preference]])
  have k: "sint (word_of_int k :: 'w word) = k" if "- (2 ^ (LENGTH('w) - 1)) \<le> k" "k < 2 ^ (LENGTH('w) - 1)" for k
    using that by (simp only: sint_sbintrunc' signed_take_bit_int_eq_self_iff)
  have "sint (word_of_int (- (2 ^ (LENGTH('w) - 1))) :: 'w word) = - (2 ^ (LENGTH('w) - 1))"
    "sint (word_of_int (2 ^ (LENGTH('w) - 1) - 1) :: 'w word) = 2 ^ (LENGTH('w) - 1) - 1"
    by (rule k; simp)+
  moreover have "- (2 ^ (LENGTH('w) - 1)) \<le> sint (y :: 'w word) \<and> sint y \<le> 2 ^ (LENGTH('w) - 1) - 1" for y
    using sint_ge [of y] sint_lt [of y] by simp
  ultimately show "\<forall>y \<in> set c. order_of sle type y (fillInitValue_int type)"
    by (simp only: order_of_def fillInitValue_int_def) (simp add: sle_def)
qed (use assms(1) in simp)

lemma order_lawsD:
  assumes "order_laws fp"
  shows "preference (f_le fp)" "small fp x \<Longrightarrow> f_le fp x (f_limit_max fp)" "sint i \<le> sint j \<Longrightarrow> f_le fp (f_of_i64 fp i) (f_of_i64 fp j)"
    "small fp x \<Longrightarrow> small fp y \<Longrightarrow> f_le fp x y \<Longrightarrow> sint (f_fix fp x) \<le> sint (f_fix fp y)"
    "small fp x \<Longrightarrow> \<bar>sint (f_fix fp x)\<bar> \<le> 2 ^ 61" "small fp x \<Longrightarrow> f_fix fp (f_minus fp x) = - f_fix fp x"
    "small fp (f_limit_min fp)"
  using assms unfolding order_laws_def preference_def by blast+

lemma order_of_image:
  "(\<And>x y. le x y \<Longrightarrow> le' (f x) (f y)) \<Longrightarrow> \<forall>x y. order_of le type x y \<longrightarrow> order_of le' type (f x) (f y)"
  by (cases "type = ST_MAX") (auto simp: order_of_def)

text \<open>The arrays of integers of 8 and 16 bits are the ones that are passed over.\<close>

fun wide :: "'d chunks \<Rightarrow> bool" where
  "wide (Int8Chunks _) = False"
| "wide (Int16Chunks _) = False"
| "wide _ = True"

lemma int_extremes:
  assumes "order_laws fp" "0 < LENGTH('w :: len)" "[] \<notin> set cs"
    "\<And>x y :: 'w word. sint x \<le> sint y \<Longrightarrow> f_le fp (g x) (g y)"
  shows "list_all2 (\<lambda>v T. best (order_of (f_le fp) type) T v)
    (map (\<lambda>c. g (minOrMax sle type c (fillInitValue_int type))) cs) (map (\<lambda>c. g ` set (c :: 'w word list)) cs)"
  using assms(3)
proof (induction cs)
  case (Cons c cs)
  have "best (order_of (f_le fp) type) (g ` set c) (g (minOrMax sle type c (fillInitValue_int type)))"
  proof (rule best_image)
    show "best (order_of sle type) (set c) (minOrMax sle type c (fillInitValue_int type))"
      using Cons.prems by (intro int_extreme) auto
    show "\<forall>x y. order_of sle type x y \<longrightarrow> order_of (f_le fp) type (g x) (g y)"
      by (rule order_of_image) (simp add: assms(4) sle_def)
  qed
  with Cons show ?case by simp
qed simp

lemma column_extreme_best:
  assumes "order_laws fp" "type = ST_MIN \<or> type = ST_MAX" "chunk_values fp ty col = Ret (Some vs)" "wide col"
    "[] \<notin> set vs" "vs \<noteq> []"
  shows "\<exists>e. column_extreme fp type (Some ty) col = Ret (Some e)
    \<and> best (order_of (f_le fp) type) (insert (fillInitValue_double fp type) (set (concat vs))) e"
proof -
  let ?R = "order_of (f_le fp) type" and ?i = "fillInitValue_double fp type"
  note p = order_lawsD(1) [OF assms(1)]
  have i: "best ?R {?i} ?i"
    using preference_order_of [OF p, of type] unfolding preference_def best_def by blast
  obtain es Ts where es: "chunk_extremes fp type ty col = Ret (Some es)" "list_all2 (\<lambda>v T. best ?R T v) es Ts"
    "insert ?i (\<Union> (set Ts)) = insert ?i (set (concat vs))"
  proof (cases col)
    case (Int64Chunks cs)
    then have vs: "vs = map (map (f_of_i64 fp)) cs" "[] \<notin> set cs" "ty = CD_INTEGER \<or> ty = CD_LONG"
      using assms(3,5) by (auto simp: chunk_values_def split: if_splits)
    show ?thesis
      by (rule that [OF _ int_extremes [OF assms(1) _ vs(2), of "f_of_i64 fp" type]])
        (use vs order_lawsD(3) [OF assms(1)] Int64Chunks in \<open>auto simp: chunk_extremes_def\<close>)
  next
    case (Int32Chunks cs)
    let ?g = "\<lambda>v :: u32. f_of_i64 fp (scast v)"
    have vs: "vs = map (map ?g) cs" "[] \<notin> set cs" "ty = CD_INTEGER \<or> ty = CD_LONG"
      using assms(3,5) Int32Chunks by (auto simp: chunk_values_def split: if_splits)
    have s: "sint (scast v :: i64) = sint v" for v :: u32 by (simp add: sint_up_scast is_up)
    show ?thesis
      by (rule that [OF _ int_extremes [OF assms(1) _ vs(2), of ?g type]])
        (use vs order_lawsD(3) [OF assms(1)] Int32Chunks s in \<open>auto simp: chunk_extremes_def\<close>)
  next
    case (DoubleChunks cs)
    then have vs: "vs = cs" "ty = CD_DOUBLE" using assms(3) by (auto simp: chunk_values_def split: if_splits)
    have "list_all2 (\<lambda>v T. best ?R T v) (map (\<lambda>c. minOrMax (f_le fp) type c ?i) cs) (map (\<lambda>c. insert ?i (set c)) cs)"
      by (simp add: list_all2_conv_all_nth minOrMax_best [OF p])
    then show ?thesis by (rule that [rotated]) (use vs DoubleChunks in \<open>auto simp: chunk_extremes_def\<close>)
  qed (use assms(3,4) in \<open>auto simp: chunk_values_def split: if_splits\<close>)
  have "chunk_lengths col \<noteq> []" using chunk_values_shape [OF assms(3)] assms(6) by auto
  then have "column_extreme fp type (Some ty) col = Ret (Some (fold (fillChunkResult fp type) es ?i))"
    using es(1) by (simp add: column_extreme_def)
  moreover have "best ?R ({?i} \<union> \<Union> (set Ts)) (fold (fillChunkResult fp type) es ?i)"
    by (rule fillChunkResult_best [OF p assms(2) i es(2)])
  ultimately show ?thesis using es(3) by simp
qed

lemma minmax_plain:
  assumes "order_laws fp" "type = ST_MIN \<or> type = ST_MAX" "numeric_columns fp table types columns vals"
    "\<forall>c \<in> set columns. \<forall>col. GetColumnByName table c = Some col \<longrightarrow> wide col"
  shows "\<exists>es. minmax_PlainTextDataCompute fp type table types columns = Ret (Some es)
    \<and> list_all2 (\<lambda>c e. best (order_of (f_le fp) type) (insert (fillInitValue_double fp type) (set (vals c))) e) columns es"
  using assms(3,4)
proof (induction columns)
  case (Cons c columns)
  obtain col ty vs where c: "GetColumnByName table c = Some col" "map_of types c = Some ty"
    "chunk_values fp ty col = Ret (Some vs)" "concat vs = vals c" "vals c \<noteq> []" "[] \<notin> set vs"
    using Cons.prems(1) unfolding numeric_columns_def by auto
  have "vs \<noteq> []" using c(4,5) by auto
  from column_extreme_best [OF assms(1,2) c(3) _ c(6) this] Cons.prems(2) c(1) obtain e where
    e: "column_extreme fp type (Some ty) col = Ret (Some e)"
      "best (order_of (f_le fp) type) (insert (fillInitValue_double fp type) (set (vals c))) e"
    using c(4) by auto
  from Cons obtain es where "minmax_PlainTextDataCompute fp type table types columns = Ret (Some es)"
    "list_all2 (\<lambda>c e. best (order_of (f_le fp) type) (insert (fillInitValue_double fp type) (set (vals c))) e) columns es"
    by (auto simp: numeric_columns_def)
  with e c(1,2) show ?case by auto
qed simp

section \<open>Least and greatest values of the three parties\<close>

lemma compare_pair_any:
  assumes "msb_laws bin" "k < 3" "ms (provider_1 k) = one_by_one a" "ms (provider_2 k) = one_by_one b"
  shows "\<exists>ms' m'. compare_pair bin fresh (provider_1 k) (provider_2 k) ms m = Ret ((sint a < sint b) = difference_fits a b, ms', m')
    \<and> (\<forall>r < 3. ms' r = ms r)"
proof -
  let ?bit = "(sint a < sint b) = difference_fits a b"
  let ?ms = "\<lambda>r. if r = provider_1 k \<or> r = provider_2 k then Some (ms r) else None"
  have k: "k = 0 \<or> k = 1 \<or> k = 2" using assms(2) by auto
  have "?ms k = None" "?ms (provider_1 k) = Some (one_by_one a)" "?ms (provider_2 k) = Some (one_by_one b)"
    using assms(3,4) k by (auto simp: provider_1_def provider_2_def)
  from compare_run [OF assms(1,2) this, of fresh m] obtain res left m1 where
    run: "MPC_Compare bin fresh ?ms m = Ret (res, left, m1)" "\<forall>m4. fst (bin_reveal bin res m4) = [?bit]"
      "left (provider_1 k) = Some (one_by_one a)" "left (provider_2 k) = Some (one_by_one b)" "left k = None"
    by (auto simp: one_by_one_def)
  obtain m2 where "bin_reveal bin res m1 = ([?bit], m2)" using run(2) by (metis prod.collapse)
  with run(1) have "compare_pair bin fresh (provider_1 k) (provider_2 k) ms m
      = Ret (?bit, \<lambda>r. case left r of None \<Rightarrow> ms r | Some mat \<Rightarrow> mat, m2)"
    by (simp add: compare_pair_def)
  moreover have "r = provider_1 k \<or> r = provider_2 k \<or> r = k" if "r < 3" for r
    using that k by (auto simp: provider_1_def provider_2_def)
  then have "\<forall>r < 3. (case left r of None \<Rightarrow> ms r | Some mat \<Rightarrow> mat) = ms r" using run(3-5) assms(3,4) by fastforce
  ultimately show ?thesis by blast
qed

lemma compare_pair_run:
  assumes "msb_laws bin" "k < 3" "ms (provider_1 k) = one_by_one a" "ms (provider_2 k) = one_by_one b" "difference_fits a b"
  shows "\<exists>ms' m'. compare_pair bin fresh (provider_1 k) (provider_2 k) ms m = Ret (sint a < sint b, ms', m')
    \<and> (\<forall>r < 3. ms' r = ms r)"
  using compare_pair_any [of bin k ms a b fresh m] assms by simp

lemma smallest_party_fits:
  assumes "msb_laws bin" "\<And>p. p < 3 \<Longrightarrow> ms p = one_by_one (v p)" "\<And>p q. p < 3 \<Longrightarrow> q < 3 \<Longrightarrow> difference_fits (v p) (v q)"
  shows "\<exists>p ms' m'. smallest_party bin fresh ms m = Ret (p, ms', m') \<and> p < 3 \<and> ms' p = one_by_one (v p)
    \<and> (\<forall>q < 3. sint (v p) \<le> sint (v q))"
proof -
  note fits = assms(3)
  obtain ms1 m1 where 1: "compare_pair bin fresh 0 1 ms m = Ret (sint (v 0) < sint (v 1), ms1, m1)" "\<forall>r < 3. ms1 r = ms r"
    using compare_pair_run [OF assms(1), of 2 ms "v 0" "v 1" fresh m] assms(2) fits by (auto simp: provider_1_def provider_2_def)
  define s where "s = (if sint (v 0) < sint (v 1) then 0 else 1 :: nat)"
  have s: "s < 3" "\<forall>q < 2. sint (v s) \<le> sint (v q)" by (auto simp: s_def less_2_cases_iff)
  have ms1: "ms1 p = one_by_one (v p)" if "p < 3" for p using 1(2) assms(2) that by simp
  have "\<exists>ms2 m2. compare_pair bin fresh s 2 ms1 m1 = Ret (sint (v s) < sint (v 2), ms2, m2) \<and> (\<forall>r < 3. ms2 r = ms1 r)"
    using compare_pair_run [OF assms(1), of "1 - s" ms1 "v s" "v 2" fresh m1] ms1 fits [of s 2] s(1)
    by (auto simp: provider_1_def provider_2_def s_def split: if_splits)
  then obtain ms2 m2 where 2: "compare_pair bin fresh s 2 ms1 m1 = Ret (sint (v s) < sint (v 2), ms2, m2)" "\<forall>r < 3. ms2 r = ms1 r"
    by blast
  let ?p = "if sint (v s) < sint (v 2) then s else 2"
  have "smallest_party bin fresh ms m = Ret (?p, ms2, m2)"
    using 1(1) 2(1) unfolding smallest_party_def s_def by (cases "sint (v 0) < sint (v 1)") simp_all
  moreover have "?p < 3" "ms2 ?p = one_by_one (v ?p)" using s(1) 2(2) ms1 by auto
  moreover have "sint (v ?p) \<le> sint (v q)" if "q < 3" for q
  proof -
    have "q < 2 \<or> q = 2" using that by auto
    then show ?thesis using s(2) by force
  qed
  ultimately show ?thesis by blast
qed

lemma smallest_party_run:
  assumes "msb_laws bin" "\<And>p. p < 3 \<Longrightarrow> ms p = one_by_one (v p)" "\<And>p. p < 3 \<Longrightarrow> \<bar>sint (v p)\<bar> \<le> 2 ^ 61"
  shows "\<exists>p ms' m'. smallest_party bin fresh ms m = Ret (p, ms', m') \<and> p < 3 \<and> ms' p = one_by_one (v p)
    \<and> (\<forall>q < 3. sint (v p) \<le> sint (v q))"
proof -
  have "difference_fits (v p) (v q)" if "p < 3" "q < 3" for p q
    using assms(3) [OF that(1)] assms(3) [OF that(2)] unfolding difference_fits_def abs_le_iff by simp
  with assms(1,2) show ?thesis by (rule smallest_party_fits)
qed

lemma share_and_reveal_run:
  assumes "share_laws lib"
  shows "\<exists>m'. share_and_reveal lib fp (one_by_one v) m = Ret (f_unfix fp v, m')"
proof -
  obtain sh m1 where sh: "lb_share lib 1 1 [v] m = (sh, m1)" by fastforce
  have "\<forall>r c v m. length v = r * c \<longrightarrow> hides r c v (fst (lb_share lib r c v m))"
    using assms unfolding share_laws_def by blast
  from this [rule_format, of "[v]" 1 1 m] have "hides 1 1 [v] sh" by (simp add: sh del: One_nat_def)
  then have "fst (lb_reveal_all lib sh m1) = [v]" using assms unfolding share_laws_def by blast
  then obtain m2 where "lb_reveal_all lib sh m1 = ([v], m2)" by (metis prod.collapse)
  then show ?thesis using sh by (simp add: share_and_reveal_def one_by_one_def revealAll_double_def)
qed

text \<open>For each type, the value of one of the parties that is best in the fixed-point form.\<close>

lemma sint_uminus: "sint x \<noteq> - (2 ^ 63) \<Longrightarrow> sint (- x :: i64) = - sint x"
proof -
  assume x: "sint x \<noteq> - (2 ^ 63)"
  have "- (2 ^ 63) \<le> sint x" "sint x < 2 ^ 63" using sint_ge [of x] sint_lt [of x] by simp_all
  with x have "- (2 ^ (LENGTH(64) - 1)) \<le> - sint x" "- sint x < 2 ^ (LENGTH(64) - 1)" by simp_all
  then have "sint (word_of_int (- sint x) :: i64) = - sint x"
    by (simp only: sint_sbintrunc' signed_take_bit_int_eq_self_iff)
  then show ?thesis by simp
qed

lemma extreme_of_parties:
  assumes "share_laws lib" "msb_laws bin" "order_laws fp" "\<forall>p < 3. small fp (x p)"
  shows "\<exists>p m'. p < 3 \<and> (\<forall>q < 3. sint (f_fix fp (x p)) \<le> sint (f_fix fp (x q)))
      \<and> minValueOfAllParty lib bin fresh fp x m = Ret (f_unfix fp (f_fix fp (x p)), m')"
    "\<exists>p m'. p < 3 \<and> (\<forall>q < 3. sint (f_fix fp (x q)) \<le> sint (f_fix fp (x p)))
      \<and> maxValueOfAllParty lib bin fresh fp x m = Ret (f_unfix fp (f_fix fp (x p)), m')"
proof -
  note o = order_lawsD [OF assms(3)]
  let ?v = "\<lambda>p. f_fix fp (x p)" and ?w = "\<lambda>p. f_fix fp (f_minus fp (x p))"
  have b: "\<bar>sint (?v p)\<bar> \<le> 2 ^ 61" if "p < 3" for p using o(5) assms(4) that by blast
  have neg: "sint (?w p) = - sint (?v p)" if "p < 3" for p
  proof -
    have "sint (?v p) \<noteq> - (2 ^ 63)" using b [OF that] by (auto simp: abs_if)
    then have "sint (- ?v p) = - sint (?v p)" by (rule sint_uminus)
    then show ?thesis using o(6) assms(4) that by simp
  qed
  from smallest_party_run [OF assms(2), of "\<lambda>p. one_by_one (?v p)" ?v fresh m] b obtain p ms' m1 where
    p: "smallest_party bin fresh (\<lambda>p. one_by_one (?v p)) m = Ret (p, ms', m1)" "p < 3" "ms' p = one_by_one (?v p)"
      "\<forall>q < 3. sint (?v p) \<le> sint (?v q)" by blast
  then show "\<exists>p m'. p < 3 \<and> (\<forall>q < 3. sint (?v p) \<le> sint (?v q))
      \<and> minValueOfAllParty lib bin fresh fp x m = Ret (f_unfix fp (?v p), m')"
    using share_and_reveal_run [OF assms(1), of fp "?v p" m1] by (auto simp: minValueOfAllParty_def)
  have "\<bar>sint (?w p)\<bar> \<le> 2 ^ 61" if "p < 3" for p using neg [OF that] b [OF that] by simp
  with smallest_party_run [OF assms(2), of "\<lambda>p. one_by_one (?w p)" ?w fresh m] obtain q ms' m1 where
    q: "smallest_party bin fresh (\<lambda>p. one_by_one (?w p)) m = Ret (q, ms', m1)" "q < 3"
      "\<forall>r < 3. sint (?w q) \<le> sint (?w r)" by blast
  then have "\<forall>r < 3. sint (?v r) \<le> sint (?v q)" using neg by fastforce
  then show "\<exists>p m'. p < 3 \<and> (\<forall>q < 3. sint (?v q) \<le> sint (?v p))
      \<and> maxValueOfAllParty lib bin fresh fp x m = Ret (f_unfix fp (?v p), m')"
    using q share_and_reveal_run [OF assms(1), of fp "?v q" m1] by (auto simp: maxValueOfAllParty_def)
qed

lemma local_extreme:
  assumes "order_laws fp" "best (order_of (f_le fp) type) T e" "\<forall>v \<in> T. small fp v"
  shows "small fp e" "\<exists>v \<in> T. f_fix fp e = f_fix fp v"
    "w \<in> T \<Longrightarrow> (if type = ST_MAX then sint (f_fix fp w) \<le> sint (f_fix fp e) else sint (f_fix fp e) \<le> sint (f_fix fp w))"
proof -
  note o = order_lawsD [OF assms(1)]
  have trans: "f_le fp x y \<Longrightarrow> f_le fp y z \<Longrightarrow> f_le fp x z" for x y z using o(1) unfolding preference_def by blast
  have "\<exists>y \<in> T. order_of (f_le fp) type y e" "\<forall>y \<in> T. order_of (f_le fp) type e y"
    using assms(2) unfolding best_def by blast+
  then obtain y where y: "y \<in> T" "f_le fp y e" "f_le fp e y"
    by (cases "type = ST_MAX") (auto simp: order_of_def)
  have sy: "small fp y" using y(1) assms(3) by blast
  then show se: "small fp e" using trans y(2,3) unfolding small_def by blast
  have "sint (f_fix fp e) = sint (f_fix fp y)" using o(4) [OF se sy y(3)] o(4) [OF sy se y(2)] by simp
  then show "\<exists>v \<in> T. f_fix fp e = f_fix fp v" using y(1) by (meson signed_word_eqI)
  assume w: "w \<in> T"
  then have "order_of (f_le fp) type e w" "small fp w" using assms(2,3) unfolding best_def by blast+
  then show "if type = ST_MAX then sint (f_fix fp w) \<le> sint (f_fix fp e) else sint (f_fix fp e) \<le> sint (f_fix fp w)"
    using o(4) se by (cases "type = ST_MAX") (auto simp: order_of_def)
qed

lemma minmax_columns_all:
  assumes "\<And>i m. i < length xs \<Longrightarrow> \<exists>v m'. f (xs ! i) m = Ret (v, m') \<and> P i v"
  shows "\<exists>vs m'. minmax_columns f xs m = Ret (vs, m') \<and> length vs = length xs \<and> (\<forall>i < length xs. P i (vs ! i))"
  using assms
proof (induction xs arbitrary: m P)
  case (Cons x xs)
  obtain v m1 where v: "f x m = Ret (v, m1)" "P 0 v" using Cons.prems [of 0 m] by auto
  have "\<exists>v m'. f (xs ! i) m = Ret (v, m') \<and> P (Suc i) v" if "i < length xs" for i m
    using Cons.prems [of "Suc i" m] that by simp
  from Cons.IH [of "\<lambda>i. P (Suc i)" m1, OF this] obtain vs m2 where
    "minmax_columns f xs m1 = Ret (vs, m2)" "length vs = length xs" "\<forall>i < length xs. P (Suc i) (vs ! i)" by blast
  with v show ?case by (auto simp: nth_Cons split: nat.splits)
qed simp

text \<open>The values from which the result of a column comes: for a greatest value, also the least positive number.\<close>

definition candidates ::
  "'d fp_num \<Rightarrow> statistics_type \<Rightarrow> (nat \<Rightarrow> string \<Rightarrow> 'd list) \<Rightarrow> (nat \<Rightarrow> string list) \<Rightarrow> nat \<Rightarrow> nat \<Rightarrow> 'd set" where
  "candidates fp type vals columns i p =
     (if type = ST_MAX then insert (f_limit_min fp) (set (vals p (columns p ! i))) else set (vals p (columns p ! i)))"

definition extreme_of :: "'d fp_num \<Rightarrow> statistics_type \<Rightarrow> 'd set \<Rightarrow> 'd \<Rightarrow> bool" where
  "extreme_of fp type T r \<longleftrightarrow> (\<exists>v \<in> T. r = f_unfix fp (f_fix fp v) \<and> (\<forall>w \<in> T.
     if type = ST_MAX then sint (f_fix fp w) \<le> sint (f_fix fp v) else sint (f_fix fp v) \<le> sint (f_fix fp w)))"

lemma extreme_of_all:
  assumes "share_laws lib" "msb_laws bin" "order_laws fp" "type = ST_MIN \<or> type = ST_MAX"
    "\<And>p. p < 3 \<Longrightarrow> best (order_of (f_le fp) type) (T p) (x p) \<and> (\<forall>v \<in> T p. small fp v)"
  shows "\<exists>r m'. (if type = ST_MIN then minValueOfAllParty lib bin fresh fp else maxValueOfAllParty lib bin fresh fp) x m = Ret (r, m')
    \<and> extreme_of fp type (\<Union>p \<in> {..<3}. T p) r"
proof -
  have l: "small fp (x p)" "\<exists>v \<in> T p. f_fix fp (x p) = f_fix fp v"
    "\<forall>w \<in> T p. if type = ST_MAX then sint (f_fix fp w) \<le> sint (f_fix fp (x p)) else sint (f_fix fp (x p)) \<le> sint (f_fix fp w)"
    if "p < 3" for p
    using local_extreme [OF assms(3), of type "T p" "x p"] assms(5) [OF that] by blast+
  have "\<exists>p m'. p < 3 \<and> (\<forall>q < 3. if type = ST_MAX then sint (f_fix fp (x q)) \<le> sint (f_fix fp (x p))
        else sint (f_fix fp (x p)) \<le> sint (f_fix fp (x q)))
      \<and> (if type = ST_MIN then minValueOfAllParty lib bin fresh fp else maxValueOfAllParty lib bin fresh fp) x m
          = Ret (f_unfix fp (f_fix fp (x p)), m')"
    using extreme_of_parties [OF assms(1-3), of x fresh m] l(1) assms(4) by (cases "type = ST_MAX") auto
  then obtain p m' where p: "p < 3" "\<forall>q < 3. if type = ST_MAX then sint (f_fix fp (x q)) \<le> sint (f_fix fp (x p))
        else sint (f_fix fp (x p)) \<le> sint (f_fix fp (x q))"
    "(if type = ST_MIN then minValueOfAllParty lib bin fresh fp else maxValueOfAllParty lib bin fresh fp) x m
          = Ret (f_unfix fp (f_fix fp (x p)), m')" by blast
  obtain v where v: "v \<in> T p" "f_fix fp (x p) = f_fix fp v" using l(2) [OF p(1)] by blast
  have "if type = ST_MAX then sint (f_fix fp w) \<le> sint (f_fix fp v) else sint (f_fix fp v) \<le> sint (f_fix fp w)"
    if "q < 3" "w \<in> T q" for q w
  proof (cases "type = ST_MAX")
    case True
    then show ?thesis using l(3) [OF that(1)] that(2) p(2) [rule_format, OF that(1)] v(2) by fastforce
  next
    case False
    then show ?thesis using l(3) [OF that(1)] that(2) p(2) [rule_format, OF that(1)] v(2) by fastforce
  qed
  moreover have "v \<in> (\<Union>p \<in> {..<3}. T p)" using p(1) v(1) by blast
  ultimately have "extreme_of fp type (\<Union>p \<in> {..<3}. T p) (f_unfix fp (f_fix fp (x p)))"
    unfolding extreme_of_def v(2) by (intro bexI [of _ v] conjI refl ballI) auto
  with p(3) show ?thesis by blast
qed

text \<open>
  The least of a column's values at all three parties, in their fixed-point form, is what every party is
  given; of the greatest, the same is true of the values and the least positive number together. So the
  greatest of values below zero is not found.
\<close>

theorem extremes_revealed:
  assumes "share_laws lib" "msb_laws bin" "order_laws fp" "type = ST_MIN \<or> type = ST_MAX"
    "\<forall>p < 3. length (columns p) = n \<and> numeric_columns fp (tables p) (types p) (columns p) (vals p)"
    "\<forall>p < 3. \<forall>c \<in> set (columns p). (\<forall>v \<in> set (vals p c). small fp v)
       \<and> (\<forall>col. GetColumnByName (tables p) c = Some col \<longrightarrow> wide col)"
  shows "\<exists>r m'. run_statistics lib bin fresh fp type tables columns types m = Ret (Some (r, m')) \<and> (\<forall>p < 3. length (r p) = n
    \<and> (\<forall>i < n. extreme_of fp type (\<Union>q \<in> {..<3}. candidates fp type vals columns i q) (r p ! i)))"
proof -
  let ?R = "order_of (f_le fp) type"
  let ?f = "if type = ST_MIN then minValueOfAllParty lib bin fresh fp else maxValueOfAllParty lib bin fresh fp"
  let ?ok = "\<lambda>p es. list_all2 (\<lambda>c e. best ?R (insert (fillInitValue_double fp type) (set (vals p c))) e) (columns p) es"
  have "\<forall>p. \<exists>es. p < 3 \<longrightarrow> minmax_PlainTextDataCompute fp type (tables p) (types p) (columns p) = Ret (Some es) \<and> ?ok p es"
    using minmax_plain [OF assms(3,4)] assms(5,6) by blast
  from choice [OF this] obtain es where es: "\<forall>p < 3. minmax_PlainTextDataCompute fp type (tables p) (types p) (columns p)
      = Ret ((\<lambda>p. Some (es p)) p)" "\<forall>p < 3. ?ok p (es p)" by blast
  from jointly_Ret_all [OF es(1)] obtain h where
    h: "jointly (\<lambda>p. minmax_PlainTextDataCompute fp type (tables p) (types p) (columns p)) = Ret h" "\<forall>p < 3. h p = Some (es p)"
    by blast
  have len: "length (es p) = n" if "p < 3" for p using es(2) assms(5) that list_all2_lengthD by fastforce
  have best: "best ?R (candidates fp type vals columns i p) (es p ! i) \<and> (\<forall>v \<in> candidates fp type vals columns i p. small fp v)"
    if "p < 3" "i < n" for p i
  proof -
    let ?c = "columns p ! i"
    have c: "?c \<in> set (columns p)" using assms(5) that by simp
    have ne: "vals p ?c \<noteq> []" using assms(5) that(1) c unfolding numeric_columns_def by blast
    have "best ?R (insert (fillInitValue_double fp type) (set (vals p ?c))) (es p ! i)"
      using es(2) that assms(5) by (auto dest: list_all2_nthD)
    moreover have "best ?R (set (vals p ?c)) e" if "best ?R (insert (f_limit_max fp) (set (vals p ?c))) e" "type = ST_MIN" for e
      by (rule best_drop [OF preference_order_of [OF order_lawsD(1) [OF assms(3)]] that(1)])
        (use ne that(2) order_lawsD(2) [OF assms(3)] assms(6) \<open>p < 3\<close> c in \<open>simp_all add: order_of_def\<close>)
    ultimately show ?thesis
      using assms(4,6) c that(1) order_lawsD(7) [OF assms(3)]
      by (auto simp: candidates_def fillInitValue_double_def)
  qed
  let ?xs = "map (\<lambda>i p. the (h p) ! i) [0..<n]"
  have "\<exists>v m'. ?f (?xs ! i) k = Ret (v, m') \<and> extreme_of fp type (\<Union>q \<in> {..<3}. candidates fp type vals columns i q) v"
    if "i < length ?xs" for i k
    using that best h(2) by (intro extreme_of_all [OF assms(1-4)]) simp_all
  from minmax_columns_all [of ?xs ?f _ m, OF this] obtain vs m' where
    vs: "minmax_columns ?f ?xs m = Ret (vs, m')" "length vs = n"
      "\<forall>i < n. extreme_of fp type (\<Union>q \<in> {..<3}. candidates fp type vals columns i q) (vs ! i)" by auto
  have "minmax_CipherTextDataCompute lib bin fresh fp type (\<lambda>p. the (h p)) m = Ret (vs, m')"
    using vs(1) h(2) len by (simp add: minmax_CipherTextDataCompute_def)
  then have "run_statistics lib bin fresh fp type tables columns types m = Ret (Some (\<lambda>p. vs, m'))"
    using h assms(4) by (auto simp: run_statistics_def minmax_run_def all_or_none_def)
  with vs(2,3) show ?thesis by blast
qed

section \<open>Instances\<close>

text \<open>Doubles that are integers, and three tables.\<close>

definition int_num :: "int fp_num" where
  "int_num = \<lparr>f_add = (+), f_sub = (-), f_mul = (*), f_div = (div), f_one = 1, f_of_i64 = sint, f_stod = (\<lambda>_. Ret 0),
     f_zero = 0, f_le = (\<le>), f_limit_min = 1, f_limit_max = 2 ^ 1023, f_minus = uminus,
     f_fix = (\<lambda>x. word_of_int (x * 2 ^ 16)), f_unfix = (\<lambda>w. sint w div 2 ^ 16)\<rparr>"

lemma int_num_sel: "f_add int_num = (+)" "f_div int_num = (div)" "f_of_i64 int_num = sint" "f_zero int_num = 0" "f_le int_num = (\<le>)"
  "f_limit_min int_num = 1" "f_limit_max int_num = 2 ^ 1023" "f_minus int_num = uminus"
  "f_fix int_num x = word_of_int (x * 2 ^ 16)" "f_unfix int_num w = sint w div 2 ^ 16"
  by (simp_all add: int_num_def)

lemma sint_i64: "- (2 ^ 63) \<le> k \<Longrightarrow> k < 2 ^ 63 \<Longrightarrow> sint (word_of_int k :: i64) = k"
proof -
  assume "- (2 ^ 63) \<le> k" "k < 2 ^ 63"
  then have "- (2 ^ (LENGTH(64) - 1)) \<le> k" "k < 2 ^ (LENGTH(64) - 1)" by simp_all
  then show ?thesis by (simp only: sint_sbintrunc' signed_take_bit_int_eq_self_iff)
qed

lemma int_num_count: "count_laws int_num"
proof -
  have n: "sint (of_nat a :: i64) = int a" if "a < 2 ^ 63" for a
    using sint_i64 [of "int a"] that by simp
  have a: "sint (of_nat a :: i64) + sint (of_nat b :: i64) = sint (of_nat (a + b) :: i64)" if "a + b < 2 ^ 47" for a b
  proof -
    have "a < 2 ^ 63" "b < 2 ^ 63" "a + b < 2 ^ 63" using that by simp_all
    then show ?thesis using n by (metis of_nat_add)
  qed
  have f: "word_of_int (sint (of_nat a :: i64) * 2 ^ 16) = (of_nat (a * 2 ^ 16) :: i64)" if "a < 2 ^ 47" for a
    using that n [of a] by simp
  have u: "sint (of_nat (a * 2 ^ 16) :: i64) div 2 ^ 16 = sint (of_nat a :: i64)" if "a < 2 ^ 47" for a
  proof -
    have "a < 2 ^ 63" "a * 2 ^ 16 < 2 ^ 63" using that by simp_all
    then show ?thesis using n by (metis nonzero_mult_div_cancel_right of_nat_mult of_nat_numeral of_nat_power power_not_zero zero_neq_numeral)
  qed
  show ?thesis
    unfolding count_laws_def int_num_sel
    by (intro conjI allI impI) (simp, (rule a, assumption), (rule f, assumption), (rule u, assumption))
qed

lemma int_num_order: "order_laws int_num"
proof -
  have s: "small int_num x \<longleftrightarrow> - (2 ^ 45) \<le> x \<and> x \<le> 2 ^ 45" for x by (simp add: small_def int_num_sel)
  have f: "sint (word_of_int (x * 2 ^ 16) :: i64) = x * 2 ^ 16" if "- (2 ^ 45) \<le> x" "x \<le> 2 ^ 45" for x
    using that by (intro sint_i64) simp_all
  show ?thesis
    unfolding order_laws_def s int_num_sel
  proof (intro conjI allI impI)
    show "sint (word_of_int (x * 2 ^ 16) :: i64) \<le> sint (word_of_int (y * 2 ^ 16) :: i64)"
      if "(- (2 ^ 45) \<le> x \<and> x \<le> 2 ^ 45) \<and> (- (2 ^ 45) \<le> y \<and> y \<le> 2 ^ 45) \<and> x \<le> y" for x y
      using that f by simp
    show "\<bar>sint (word_of_int (x * 2 ^ 16) :: i64)\<bar> \<le> 2 ^ 61" if "- (2 ^ 45) \<le> x \<and> x \<le> 2 ^ 45" for x
      using that f by (simp add: abs_le_iff)
  qed auto
qed

definition demo_rows :: "nat \<Rightarrow> int table" where
  "demo_rows p = [(''x'', Int64Chunks [[of_int (10 * int p - 7), 3], [5]]), (''y'', DoubleChunks [[- 4 - int p]])]"

definition demo_values :: "nat \<Rightarrow> string \<Rightarrow> int list" where
  "demo_values p c = (if c = ''x'' then [10 * int p - 7, 3, 5] else [- 4 - int p])"

lemma demo_numeric: "p < 3 \<Longrightarrow> numeric_columns int_num (demo_rows p) [(''x'', CD_LONG), (''y'', CD_DOUBLE)] [''x'', ''y''] (demo_values p)"
  by (auto simp: numeric_columns_def demo_rows_def GetColumnByName_def chunk_values_def int_num_sel demo_values_def
      less_Suc_eq numeral_3_eq_3)

lemma demo_share_laws: "share_laws demo_aby3"
  unfolding share_laws_def
proof (intro conjI allI impI)
  show "hides r c v (fst (lb_share demo_aby3 r c v m))" if "length v = r * c" for r c v m
    using hides_demo_share [OF that] by (simp add: demo_aby3_def)
qed (simp_all add: demo_local, auto simp: demo_aby3_def hides_def)

lemma demo_bin_msb: "msb_laws (demo_bin :: ('m, i64 list) aby3_bin)"
  by (auto simp: msb_laws_def demo_bin_def intro!: nth_equalityI)

theorem totals_revealed_witness:
  "\<exists>r m'. run_statistics demo_aby3 demo_bin (\<lambda>n. []) int_num ST_AVG demo_rows (\<lambda>p. [''x'', ''y''])
      (\<lambda>p. [(''x'', CD_LONG), (''y'', CD_DOUBLE)]) [] = Ret (Some (r, m')) \<and> (\<forall>p < 3. r p = [3, - 5])"
proof -
  have c: "\<forall>p < 3. length [''x'', ''y''] = 2 \<and> numeric_columns int_num (demo_rows p) [(''x'', CD_LONG), (''y'', CD_DOUBLE)] [''x'', ''y''] (demo_values p)"
    using demo_numeric by simp
  have l: "\<forall>p < 3. \<forall>c \<in> set [''x'', ''y'']. length (demo_values p c) < 2 ^ 47" by (simp add: demo_values_def)
  have n: "\<forall>i < 2. rows_at_place demo_values (\<lambda>p. [''x'', ''y'']) i < 2 ^ 47"
    by (auto simp: rows_at_place_def demo_values_def less_2_cases_iff)
  have v: "[0..<2] = [0, 1 :: nat]" by (simp add: upt_rec)
  show ?thesis
    using totals_revealed [OF demo_share_laws int_num_count c l n, of demo_bin "\<lambda>n. []" True "[]"]
    by (simp add: v rows_at_place_def column_total_def demo_values_def int_num_sel)
qed

theorem extremes_revealed_witness:
  "\<exists>r m'. run_statistics demo_aby3 demo_bin (\<lambda>n. []) int_num ST_MAX demo_rows (\<lambda>p. [''x'', ''y''])
      (\<lambda>p. [(''x'', CD_LONG), (''y'', CD_DOUBLE)]) [] = Ret (Some (r, m')) \<and> r 0 ! 1 = 1"
proof -
  have c: "\<forall>p < 3. length [''x'', ''y''] = 2 \<and> numeric_columns int_num (demo_rows p) [(''x'', CD_LONG), (''y'', CD_DOUBLE)] [''x'', ''y''] (demo_values p)"
    using demo_numeric by simp
  have s: "\<forall>p < 3. \<forall>c \<in> set [''x'', ''y'']. (\<forall>v \<in> set (demo_values p c). small int_num v)
       \<and> (\<forall>col. GetColumnByName (demo_rows p) c = Some col \<longrightarrow> wide col)"
    by (auto simp: demo_values_def small_def int_num_sel GetColumnByName_def demo_rows_def)
  from extremes_revealed [OF demo_share_laws demo_bin_msb int_num_order _ c s, of ST_MAX "\<lambda>n. []" "[]"] obtain r m' where
    r: "run_statistics demo_aby3 demo_bin (\<lambda>n. []) int_num ST_MAX demo_rows (\<lambda>p. [''x'', ''y''])
      (\<lambda>p. [(''x'', CD_LONG), (''y'', CD_DOUBLE)]) [] = Ret (Some (r, m'))"
    "extreme_of int_num ST_MAX (\<Union>q \<in> {..<3}. candidates int_num ST_MAX demo_values (\<lambda>p. [''x'', ''y'']) 1 q) (r 0 ! 1)" by fastforce
  have cs: "(\<Union>q \<in> {..<3}. candidates int_num ST_MAX demo_values (\<lambda>p. [''x'', ''y'']) 1 q) = {1, - 4, - 5, - 6}"
    by (auto simp: candidates_def demo_values_def int_num_sel lessThan_Suc numeral_3_eq_3)
  have "r 0 ! 1 = 1" using r(2) unfolding cs by (auto simp: extreme_of_def int_num_sel)
  with r(1) show ?thesis by blast
qed

end
