(* ===== verification/Missing_Correct.thy ===== *)
theory Missing_Correct
  imports Missing_Values Statistics_Correct
begin

text \<open>
  What the task that fills missing values does to columns of integers: valid entries are kept, the others
  become the common value of all three parties. And where it does not: no valid entry at one party,
  more than one chunk, a database.
\<close>

section \<open>Texts\<close>

lemma spilt_loop_words:
  "ws \<noteq> [] \<Longrightarrow> \<forall>w \<in> set ws. h \<notin> set w \<Longrightarrow> spilt_loop [h] (join_with [h] ws @ [h]) = ws"
proof (induction ws)
  case (Cons w ws)
  have e: "spilt_loop [h] [] = []" by (simp add: spilt_loop.simps)
  have step: "spilt_loop [h] (w @ [h] @ s) = w # spilt_loop [h] s" for s
    using Cons.prems(2) find_sub_first [of h w "[h]" s] by (subst spilt_loop.simps) simp
  show ?case
  proof (cases "ws = []")
    case True
    then show ?thesis using step [of "[]"] e by simp
  next
    case False
    then show ?thesis using step [of "join_with [h] ws @ [h]"] Cons by (simp add: join_with_Cons)
  qed
qed simp

text \<open>Splitting gives back the parts of a text, the last one too when it is empty.\<close>

lemma spiltStr_join:
  "ws \<noteq> [] \<Longrightarrow> \<forall>w \<in> set ws. h \<notin> set w \<Longrightarrow> join_with [h] ws \<noteq> [] \<Longrightarrow> spiltStr (join_with [h] ws) [h] = Some ws"
  by (simp add: spiltStr_def spilt_loop_words)

lemma signed_fits_sint: "signed_fits (sint (v :: i64))"
  using sint_ge [of v] sint_lt [of v] by (simp add: signed_fits_def)

lemma stoll_digits:
  assumes "signed_fits (if neg then - int n else int n)"
  shows "stoll ((if neg then [CHR ''-''] else []) @ dec_string n)
    = Converted (word_of_int (if neg then - int n else int n)) (length ((if neg then [CHR ''-''] else []) @ dec_string n))"
proof -
  obtain c cs where ds: "dec_string n = c # cs" by (cases "dec_string n") auto
  have dig: "\<forall>x \<in> set (c # cs). is_digit x" using dec_string_digits ds by metis
  then have c: "is_digit c" "c \<noteq> CHR ''-''" "c \<noteq> CHR ''+''" "\<not> is_space_char c" using digit_not_special by auto
  have tw: "takeWhile is_digit cs = cs" using dig by (simp add: takeWhile_eq_all_conv)
  have "dec_val (c # cs) = n" using ds dec_val_dec_string by metis
  moreover have "\<not> is_space_char CHR ''-''" by (simp add: is_space_char_def)
  ultimately show ?thesis using c assms by (cases neg) (simp_all add: stoll_def ds Let_def tw)
qed

lemma stoll_to_string: "stoll (to_string_i64 v) = Converted v (length (to_string_i64 v))"
proof -
  have "(if sint v < 0 then - int (nat (- sint v)) else int (nat (sint v))) = sint v" by simp
  moreover have "to_string_i64 v = (if sint v < 0 then [CHR ''-''] else []) @ dec_string (if sint v < 0 then nat (- sint v) else nat (sint v))"
    by (simp add: to_string_i64_def)
  ultimately show ?thesis
    using stoll_digits [of "sint v < 0" "if sint v < 0 then nat (- sint v) else nat (sint v)"] signed_fits_sint [of v]
    by (cases "sint v < 0") simp_all
qed

section \<open>One column of a party\<close>

definition entry_value :: "'v number_kind \<Rightarrow> string option \<Rightarrow> 'v option" where
  "entry_value nk e = (case e of None \<Rightarrow> None | Some s \<Rightarrow> (case nk_whole nk s of Inl _ \<Rightarrow> None | Inr v \<Rightarrow> Some v))"

definition valid_values :: "'v number_kind \<Rightarrow> string option list \<Rightarrow> 'v list" where
  "valid_values nk es = List.map_filter (entry_value nk) es"

definition value_or :: "'v number_kind \<Rightarrow> 'v \<Rightarrow> string option \<Rightarrow> 'v" where
  "value_or nk x e = (case entry_value nk e of None \<Rightarrow> x | Some v \<Rightarrow> v)"

fun bad_from :: "'v number_kind \<Rightarrow> nat \<Rightarrow> string option list \<Rightarrow> nat list" where
  "bad_from nk j [] = []"
| "bad_from nk j (e # es) = (if e \<noteq> None \<and> entry_value nk e = None then [j] else []) @ bad_from nk (Suc j) es"

fun sum_up :: "'v number_kind \<Rightarrow> 'v \<Rightarrow> 'v list \<Rightarrow> 'v cpp" where
  "sum_up nk a [] = Ret a"
| "sum_up nk a (v # vs) = cbind (nk_add nk a v) (\<lambda>a. sum_up nk a vs)"

lemma valid_values_simps [simp]:
  "valid_values nk [] = []"
  "valid_values nk (None # es) = valid_values nk es"
  "valid_values nk (Some s # es) = (case nk_whole nk s of Inl _ \<Rightarrow> [] | Inr v \<Rightarrow> [v]) @ valid_values nk es"
  by (simp_all add: valid_values_def map_filter_simps entry_value_def split: sum.splits)

lemma scan_chunk_form:
  "scan_chunk nk j es ab s = cbind (sum_up nk (sc_sum s) (valid_values nk es)) (\<lambda>t. Ret (ab @ bad_from nk j es,
     s\<lparr>sc_max := fold (\<lambda>v a. if nk_above nk v a then v else a) (valid_values nk es) (sc_max s),
       sc_min := fold (\<lambda>v a. if nk_above nk a v then v else a) (valid_values nk es) (sc_min s), sc_sum := t,
       sc_abnormal_num := sc_abnormal_num s + length (bad_from nk j es)\<rparr>))"
proof (induction nk j es ab s rule: scan_chunk.induct)
  case (1 nk j ab s)
  show ?case by simp
next
  case (2 nk j es ab s)
  then show ?case by (simp add: entry_value_def)
next
  case (3 nk j str es ab s)
  show ?case
  proof (cases "nk_whole nk str")
    case (Inl r)
    with "3.IH"(1) [OF this] show ?thesis by (simp add: entry_value_def)
  next
    case (Inr v)
    then show ?thesis
      using "3.IH"(2) [OF Inr] by (cases "nk_add nk (sc_sum s) v") (simp_all add: entry_value_def)
  qed
qed

lemma scan_one_chunk:
  "scan_column nk 1 (TextColumn [es]) = cbind (sum_up nk (nk_zero nk) (valid_values nk es)) (\<lambda>t. Ret
     \<lparr>sc_sum = t, sc_max = fold (\<lambda>v a. if nk_above nk v a then v else a) (valid_values nk es) (nk_low nk),
      sc_min = fold (\<lambda>v a. if nk_above nk a v then v else a) (valid_values nk es) (nk_high nk),
      sc_abnormal = [bad_from nk 0 es], sc_abnormal_num = length (bad_from nk 0 es),
      sc_null_num = length (filter (\<lambda>e. e = None) es)\<rparr>)"
  by (simp add: scan_column_def scan_chunk_form new_scan_def cbind_assoc)

lemma counted_entries:
  "length (valid_values nk es) + length (bad_from nk j es) + length (filter (\<lambda>e. e = None) es) = length es"
proof (induction es arbitrary: j)
  case (Cons e es)
  from Cons [of "Suc j"] show ?case by (cases e) (auto simp: entry_value_def split: sum.splits)
qed simp

lemma bad_from_range: "i \<in> set (bad_from nk j es) \<Longrightarrow> j \<le> i \<and> i < j + length es"
  by (induction es arbitrary: j) (auto split: if_splits, fastforce+)

section \<open>The filled column\<close>

lemma replaced_chunk_form:
  "fold (\<lambda>i vals. vals[i := r]) (bad_from nk (length pre) es) (pre @ map (\<lambda>e. case e of None \<Rightarrow> r | Some s \<Rightarrow> s) es)
    = pre @ map (\<lambda>e. case e of None \<Rightarrow> r | Some s \<Rightarrow> if entry_value nk e = None then r else s) es"
proof (induction es arbitrary: pre)
  case (Cons e es)
  let ?x = "case e of None \<Rightarrow> r | Some s \<Rightarrow> if entry_value nk e = None then r else s"
  from Cons [of "pre @ [?x]"] show ?case by (cases e) (auto simp: entry_value_def split: sum.splits)
qed simp

lemma cmap_map_Ret: "\<forall>e \<in> set es. f (g e) = Ret (h e) \<Longrightarrow> cmap f (map g es) = Ret (map h es)"
  by (induction es) simp_all

text \<open>The value that takes the place of the others is what its text reads as.\<close>

lemma buildNewColumn_fills:
  assumes "\<And>s. nk_whole nk s = whole_number (nk_parse nk s) s" "nk_parse nk (nk_text nk x) = Converted y n"
  shows "buildNewColumn nk (nk_text nk x) [es] [bad_from nk 0 es] = Ret (map (value_or nk y) es)"
proof -
  have "replaced_chunk (nk_text nk x) es (bad_from nk 0 es)
      = map (\<lambda>e. case e of None \<Rightarrow> nk_text nk x | Some s \<Rightarrow> if entry_value nk e = None then nk_text nk x else s) es"
    using replaced_chunk_form [of "nk_text nk x" nk "[]" es] by (simp add: replaced_chunk_def)
  moreover have "\<forall>i \<in> set (bad_from nk 0 es). i < length es" using bad_from_range [of _ nk 0 es] by fastforce
  moreover have "cmap (\<lambda>s. case nk_parse nk s of Converted v _ \<Rightarrow> Ret v | _ \<Rightarrow> Throw (nk_what nk))
      (map (\<lambda>e. case e of None \<Rightarrow> nk_text nk x | Some s \<Rightarrow> if entry_value nk e = None then nk_text nk x else s) es)
    = Ret (map (value_or nk y) es)"
    by (intro cmap_map_Ret ballI)
      (auto simp: value_or_def entry_value_def assms whole_number_def split: option.splits sum.splits conv.splits if_splits)
  ultimately show ?thesis by (auto simp: buildNewColumn_def not_le)
qed

section \<open>Columns of integers\<close>

abbreviation int_values :: "string option list \<Rightarrow> i64 list" where
  "int_values es \<equiv> valid_values int_kind es"

definition magnitude :: "i64 list \<Rightarrow> int" where
  "magnitude vs = sum_list (map (\<lambda>v. \<bar>sint v\<bar>) vs)"

lemma int_kind_sel:
  "nk_whole int_kind = strToInt64" "nk_parse int_kind = stoll" "nk_text int_kind = to_string_i64"
  "nk_above int_kind a b = (sint b < sint a)" "nk_add int_kind = add_i64" "nk_div int_kind = div_i64" "nk_zero int_kind = 0"
  "nk_count int_kind n = ucast n" "nk_share int_kind = id" "nk_open int_kind = id"
  by (simp_all add: int_kind_def)

lemma magnitude_simps [simp]: "magnitude [] = 0" "magnitude (v # vs) = \<bar>sint v\<bar> + magnitude vs"
  by (simp_all add: magnitude_def)

lemma magnitude_nonneg: "0 \<le> magnitude vs" by (induction vs) simp_all

lemma magnitude_at: "v \<in> set vs \<Longrightarrow> \<bar>sint v\<bar> \<le> magnitude vs"
proof (induction vs)
  case (Cons x vs)
  then show ?case using magnitude_nonneg [of vs] by auto
qed simp

lemma sum_up_int:
  "\<bar>sint a\<bar> + magnitude vs < 2 ^ 63 \<Longrightarrow>
   \<exists>t. sum_up int_kind a vs = Ret t \<and> sint t = sint a + sum_list (map sint vs)"
proof (induction vs arbitrary: a)
  case (Cons v vs)
  have b: "\<bar>sint a\<bar> + \<bar>sint v\<bar> + magnitude vs < 2 ^ 63" "0 \<le> magnitude vs" using Cons.prems magnitude_nonneg by simp_all
  then have f: "signed_fits (sint a + sint v)" unfolding signed_fits_def by linarith
  then have s: "sint (word_of_int (sint a + sint v) :: i64) = sint a + sint v"
    by (simp only: sint_sbintrunc' signed_take_bit_int_eq_self_iff) (simp add: signed_fits_def)
  have "\<bar>sint (word_of_int (sint a + sint v) :: i64)\<bar> + magnitude vs < 2 ^ 63"
    unfolding s using b abs_triangle_ineq [of "sint a" "sint v"] by linarith
  from Cons.IH [OF this] obtain t where
    "sum_up int_kind (word_of_int (sint a + sint v)) vs = Ret t" "sint t = sint a + sint v + sum_list (map sint vs)"
    unfolding s by blast
  with f show ?case by (simp add: int_kind_sel add_i64_def signed_i64_def)
qed simp

lemma fold_greatest:
  "fold (\<lambda>v a. if sint a < sint v then v else a) vs (a :: i64) \<in> insert a (set vs)
    \<and> (\<forall>y \<in> insert a (set vs). sint y \<le> sint (fold (\<lambda>v a. if sint a < sint v then v else a) vs a))"
  by (induction vs arbitrary: a) (simp, force)

lemma fold_least:
  "fold (\<lambda>v a. if sint v < sint a then v else a) vs (a :: i64) \<in> insert a (set vs)
    \<and> (\<forall>y \<in> insert a (set vs). sint (fold (\<lambda>v a. if sint v < sint a then v else a) vs a) \<le> sint y)"
  by (induction vs arbitrary: a) (simp, force)

text \<open>The values to begin with are the limits of the type: they do not count when there is a valid entry.\<close>

lemma limits: "sint (word_of_int (- (2 ^ 63)) :: i64) = - (2 ^ 63)" "sint (word_of_int (2 ^ 63 - 1) :: i64) = 2 ^ 63 - 1"
  by (simp_all only: sint_sbintrunc' signed_take_bit_int_eq_self_iff) simp_all

lemma column_greatest:
  assumes "vs \<noteq> []"
  shows "fold (\<lambda>v a. if nk_above int_kind v a then v else a) vs (nk_low int_kind) \<in> set vs"
    "\<forall>y \<in> set vs. sint y \<le> sint (fold (\<lambda>v a. if nk_above int_kind v a then v else a) vs (nk_low int_kind))"
proof -
  let ?a = "word_of_int (- (2 ^ 63)) :: i64"
  let ?r = "fold (\<lambda>v a. if sint a < sint v then v else a) vs ?a"
  note g = fold_greatest [of vs ?a]
  have "?r \<in> set vs"
  proof (cases "?r = ?a")
    case True
    obtain y where y: "y \<in> set vs" using assms by (cases vs) auto
    have "sint y \<le> sint ?r" using g y by blast
    then have "sint y \<le> - (2 ^ 63)" by (simp only: True limits(1))
    moreover have "- (2 ^ 63) \<le> sint y" using sint_ge [of y] by simp
    ultimately have "sint y = sint ?a" using limits(1) by linarith
    then have "y = ?a" by (rule signed_word_eqI)
    with y True show ?thesis by metis
  qed (use g in blast)
  with g show "fold (\<lambda>v a. if nk_above int_kind v a then v else a) vs (nk_low int_kind) \<in> set vs"
    "\<forall>y \<in> set vs. sint y \<le> sint (fold (\<lambda>v a. if nk_above int_kind v a then v else a) vs (nk_low int_kind))"
    by (simp_all only: int_kind_def number_kind.simps) blast+
qed

lemma column_least:
  assumes "vs \<noteq> []"
  shows "fold (\<lambda>v a. if nk_above int_kind a v then v else a) vs (nk_high int_kind) \<in> set vs"
    "\<forall>y \<in> set vs. sint (fold (\<lambda>v a. if nk_above int_kind a v then v else a) vs (nk_high int_kind)) \<le> sint y"
proof -
  let ?a = "word_of_int (2 ^ 63 - 1) :: i64"
  let ?r = "fold (\<lambda>v a. if sint v < sint a then v else a) vs ?a"
  note g = fold_least [of vs ?a]
  have "?r \<in> set vs"
  proof (cases "?r = ?a")
    case True
    obtain y where y: "y \<in> set vs" using assms by (cases vs) auto
    have "sint ?r \<le> sint y" using g y by blast
    then have "2 ^ 63 - 1 \<le> sint y" by (simp only: True limits(2))
    moreover have "sint y < 2 ^ 63" using sint_lt [of y] by simp
    ultimately have "sint y = sint ?a" using limits(2) by linarith
    then have "y = ?a" by (rule signed_word_eqI)
    with y True show ?thesis by metis
  qed (use g in blast)
  with g show "fold (\<lambda>v a. if nk_above int_kind a v then v else a) vs (nk_high int_kind) \<in> set vs"
    "\<forall>y \<in> set vs. sint (fold (\<lambda>v a. if nk_above int_kind a v then v else a) vs (nk_high int_kind)) \<le> sint y"
    by (simp_all only: int_kind_def number_kind.simps) blast+
qed

section \<open>The value that the parties have in common\<close>

lemma greatest_party_run:
  assumes "msb_laws bin" "\<And>p. p < 3 \<Longrightarrow> ms p = one_by_one (v p)" "\<And>p q. p < 3 \<Longrightarrow> q < 3 \<Longrightarrow> difference_fits (v p) (v q)"
  shows "\<exists>p ms' m'. greatest_party bin fresh ms m = Ret (p, ms', m') \<and> p < 3 \<and> ms' p = one_by_one (v p)
    \<and> (\<forall>q < 3. sint (v q) \<le> sint (v p))"
proof -
  obtain ms1 m1 where 1: "compare_pair bin fresh 0 1 ms m = Ret (sint (v 0) < sint (v 1), ms1, m1)" "\<forall>r < 3. ms1 r = ms r"
    using compare_pair_run [OF assms(1), of 2 ms "v 0" "v 1" fresh m] assms(2,3) by (auto simp: provider_1_def provider_2_def)
  define s where "s = (if sint (v 0) < sint (v 1) then 1 else 0 :: nat)"
  have s: "s < 3" "\<forall>q < 2. sint (v q) \<le> sint (v s)" by (auto simp: s_def less_2_cases_iff)
  have ms1: "ms1 p = one_by_one (v p)" if "p < 3" for p using 1(2) assms(2) that by simp
  have "\<exists>ms2 m2. compare_pair bin fresh s 2 ms1 m1 = Ret (sint (v s) < sint (v 2), ms2, m2) \<and> (\<forall>r < 3. ms2 r = ms1 r)"
    using compare_pair_run [OF assms(1), of "1 - s" ms1 "v s" "v 2" fresh m1] ms1 assms(3) [of s 2] s(1)
    by (auto simp: provider_1_def provider_2_def s_def split: if_splits)
  then obtain ms2 m2 where 2: "compare_pair bin fresh s 2 ms1 m1 = Ret (sint (v s) < sint (v 2), ms2, m2)" "\<forall>r < 3. ms2 r = ms1 r"
    by blast
  let ?p = "if sint (v s) < sint (v 2) then 2 else s"
  have "greatest_party bin fresh ms m = Ret (?p, ms2, m2)"
    using 1(1) 2(1) unfolding greatest_party_def s_def by (cases "sint (v 0) < sint (v 1)") simp_all
  moreover have "?p < 3" "ms2 ?p = one_by_one (v ?p)" using s(1) 2(2) ms1 by auto
  moreover have "sint (v q) \<le> sint (v ?p)" if "q < 3" for q
  proof -
    have "q < 2 \<or> q = 2" using that by auto
    then show ?thesis using s(2) by force
  qed
  ultimately show ?thesis by blast
qed

lemma open_value_run:
  assumes "share_laws lib"
  shows "\<exists>m'. open_value lib nk (one_by_one v) m = Ret (nk_open nk v, m')"
proof -
  obtain sh m1 where sh: "lb_share lib 1 1 [v] m = (sh, m1)" by fastforce
  have "\<forall>r c v m. length v = r * c \<longrightarrow> hides r c v (fst (lb_share lib r c v m))"
    using assms unfolding share_laws_def by blast
  from this [rule_format, of "[v]" 1 1 m] have "hides 1 1 [v] sh" by (simp add: sh del: One_nat_def)
  then have "fst (lb_reveal_all lib sh m1) = [v]" using assms unfolding share_laws_def by blast
  then obtain m2 where "lb_reveal_all lib sh m1 = ([v], m2)" by (metis prod.collapse)
  then show ?thesis using sh by (simp add: open_value_def one_by_one_def)
qed

lemma totals_opened:
  assumes "share_laws lib"
  shows "\<exists>m'. average_value lib nk ts cs m = cbind
    (nk_div nk (nk_open nk (nk_share nk (ts 0) + nk_share nk (ts 1) + nk_share nk (ts 2)))
       (nk_open nk (nk_share nk (nk_count nk (cs 0)) + nk_share nk (nk_count nk (cs 1)) + nk_share nk (nk_count nk (cs 2)))))
    (\<lambda>v. Ret (v, m'))"
proof -
  let ?v = "\<lambda>p. [nk_share nk (ts p), nk_share nk (nk_count nk (cs p))]"
  have share: "hides 2 1 (?v p) (fst (lb_share lib 2 1 (?v p) k))" for p k
    using assms unfolding share_laws_def by auto
  obtain s0 m0 where s0: "lb_share lib 2 1 (?v 0) m = (s0, m0)" by fastforce
  obtain s1 m1 where s1: "lb_share lib 2 1 (?v 1) m0 = (s1, m1)" by fastforce
  obtain s2 m2 where s2: "lb_share lib 2 1 (?v 2) m1 = (s2, m2)" by fastforce
  have h: "hides 2 1 (?v 0) s0" "hides 2 1 (?v 1) s1" "hides 2 1 (?v 2) s2"
    using share [of 0 m] share [of 1 m0] share [of 2 m1] s0 s1 s2 by simp_all
  then have "hides 2 1 (map2 (+) (map2 (+) (?v 0) (?v 1)) (?v 2)) (sum_of_shares lib (s0, s1, s2))"
    using assms by (simp add: sum_of_shares_def share_laws_def local_plus del: list.map zip_Cons_Cons)
  then have "fst (lb_reveal_all lib (sum_of_shares lib (s0, s1, s2)) m2) = map2 (+) (map2 (+) (?v 0) (?v 1)) (?v 2)"
    using assms unfolding share_laws_def by blast
  then have r: "lb_reveal_all lib (sum_of_shares lib (s0, s1, s2)) m2
      = ([nk_share nk (ts 0) + nk_share nk (ts 1) + nk_share nk (ts 2),
          nk_share nk (nk_count nk (cs 0)) + nk_share nk (nk_count nk (cs 1)) + nk_share nk (nk_count nk (cs 2))],
         snd (lb_reveal_all lib (sum_of_shares lib (s0, s1, s2)) m2))"
    by (intro prod_eqI) simp_all
  have "average_value lib nk ts cs m = (case lb_reveal_all lib (sum_of_shares lib (s0, s1, s2)) m2 of
      ([s, c], m) \<Rightarrow> cbind (nk_div nk (nk_open nk s) (nk_open nk c)) (\<lambda>col_avg. Ret (col_avg, m)) | _ \<Rightarrow> Undef)"
    using s0 s1 s2 by (simp add: average_value_def split: prod.splits list.splits)
  then show ?thesis by (subst (asm) r) (rule exI, simp)
qed

text \<open>
  The greatest or the least of all valid entries of the three parties, or their average, rounded towards zero.
\<close>

definition everything :: "(nat \<Rightarrow> i64 list) \<Rightarrow> i64 list" where
  "everything vals = vals 0 @ vals 1 @ vals 2"

definition common_of :: "string \<Rightarrow> (nat \<Rightarrow> i64 list) \<Rightarrow> i64 \<Rightarrow> bool" where
  "common_of replace_type vals x \<longleftrightarrow>
     (if replace_type = ''AVG'' then
        (let s = sum_list (map sint (everything vals))
         in sint x = sgn s * (\<bar>s\<bar> div int (length (everything vals))))
      else x \<in> set (everything vals)
        \<and> (\<forall>y \<in> set (everything vals). if replace_type = ''MAX'' then sint y \<le> sint x else sint x \<le> sint y))"

text \<open>What a party knows of its valid entries.\<close>

definition scan_of :: "i64 list \<Rightarrow> i64 scan \<Rightarrow> bool" where
  "scan_of vs s \<longleftrightarrow> sint (sc_sum s) = sum_list (map sint vs)
     \<and> (vs \<noteq> [] \<longrightarrow> sc_max s \<in> set vs \<and> (\<forall>y \<in> set vs. sint y \<le> sint (sc_max s))
          \<and> sc_min s \<in> set vs \<and> (\<forall>y \<in> set vs. sint (sc_min s) \<le> sint y))
     \<and> (vs = [] \<longrightarrow> sc_max s = nk_low int_kind)"

lemma scan_integer_column:
  assumes "magnitude (int_values es) < 2 ^ 63"
  shows "\<exists>s. scan_column int_kind 1 (TextColumn [es]) = Ret s \<and> scan_of (int_values es) s
    \<and> sc_abnormal s = [bad_from int_kind 0 es] \<and> sc_abnormal_num s = length (bad_from int_kind 0 es)
    \<and> sc_null_num s = length (filter (\<lambda>e. e = None) es)"
proof -
  obtain t where t: "sum_up int_kind 0 (int_values es) = Ret t" "sint t = sum_list (map sint (int_values es))"
    using sum_up_int [of 0 "int_values es"] assms by auto
  show ?thesis
    using t column_greatest [of "int_values es"] column_least [of "int_values es"]
    unfolding scan_one_chunk int_kind_sel(7) t(1) scan_of_def by (cases "int_values es = []") simp_all
qed

lemma magnitude_append: "magnitude (xs @ ys) = magnitude xs + magnitude ys"
  by (simp add: magnitude_def)

lemma sum_within: "\<bar>sum_list (map sint vs)\<bar> \<le> magnitude vs"
  by (induction vs) auto

lemma all_below_3: "(\<forall>p < 3. P p) \<longleftrightarrow> P 0 \<and> P 1 \<and> P (2 :: nat)"
  by (simp add: numeral_3_eq_3 numeral_2_eq_2 less_Suc_eq) blast

lemma below_3: "p < 3 \<Longrightarrow> (P 0 \<Longrightarrow> P 1 \<Longrightarrow> P 2 \<Longrightarrow> P (p :: nat))"
  using all_below_3 [of P] by blast

lemma everything_party: "p < 3 \<Longrightarrow> set (vals p) \<subseteq> set (everything vals)"
  by (erule below_3) (auto simp: everything_def)

lemma everything_of_party: "y \<in> set (everything vals) \<Longrightarrow> \<exists>p < 3. y \<in> set (vals p)"
  by (auto simp: everything_def intro: exI [of _ 0] exI [of _ "Suc 0"] exI [of _ 2])

lemma div_i64_whole:
  assumes "\<bar>s\<bar> < 2 ^ 62" "0 < n" "n < 2 ^ 62"
  shows "\<exists>x. div_i64 (word_of_int s) (word_of_int n) = Ret x \<and> sint x = sgn s * (\<bar>s\<bar> div n)"
proof -
  have r: "sint (word_of_int z :: i64) = z" if "\<bar>z\<bar> < 2 ^ 62" for z
    using that by (simp only: sint_sbintrunc' signed_take_bit_int_eq_self_iff) auto
  have n: "\<bar>n\<bar> < 2 ^ 62" using assms by simp
  have "(word_of_int n :: i64) \<noteq> 0" using r [OF n] assms(2) by auto
  moreover have q: "\<bar>sgn s * (\<bar>s\<bar> div n)\<bar> < 2 ^ 62"
  proof -
    have d: "0 \<le> \<bar>s\<bar> div n" "\<bar>s\<bar> div n \<le> \<bar>s\<bar>"
      using assms(2) zdiv_mono2 [of "\<bar>s\<bar>" 1 n] by (simp_all add: pos_imp_zdiv_nonneg_iff)
    then have "\<bar>sgn s * (\<bar>s\<bar> div n)\<bar> \<le> \<bar>s\<bar>" by (cases s "0 :: int" rule: linorder_cases) simp_all
    with assms(1) show ?thesis by linarith
  qed
  have "signed_fits z" if "\<bar>z\<bar> < 2 ^ 62" for z using that by (auto simp: signed_fits_def)
  from this [OF q] have "signed_fits (sgn s * (\<bar>s\<bar> div n))" .
  ultimately show ?thesis
    using r [OF n] r [OF assms(1)] r [OF q] assms(2) by (simp add: div_i64_def signed_i64_def del: of_int_mult)
qed

lemma common_value_int:
  assumes "share_laws lib" "msb_laws bin" "replace_type \<in> {''MAX'', ''MIN'', ''AVG''}"
    "\<forall>p < 3. scan_of (vals p) (scans p) \<and> vals p \<noteq> [] \<and> length (vals p) < 2 ^ 31 \<and> counts p = of_nat (length (vals p))"
    "magnitude (everything vals) < 2 ^ 62"
  shows "\<exists>x m'. common_value lib bin fresh int_kind replace_type scans counts m = Some (Ret (x, m')) \<and> common_of replace_type vals x"
proof -
  have part: "magnitude (vals p) < 2 ^ 62" if "p < 3" for p
    using that assms(5) magnitude_nonneg [of "vals 0"] magnitude_nonneg [of "vals 1"] magnitude_nonneg [of "vals 2"]
    by (elim below_3) (simp_all add: everything_def magnitude_append)
  have fits: "difference_fits a b" if "a \<in> set (vals p)" "b \<in> set (vals q)" "p < 3" "q < 3" for a b p q
    using magnitude_at [OF that(1)] magnitude_at [OF that(2)] part [OF that(3)] part [OF that(4)]
    unfolding difference_fits_def abs_le_iff by auto
  have sc: "scan_of (vals p) (scans p)" "vals p \<noteq> []" if "p < 3" for p using assms(4) that by blast+
  consider "replace_type = ''MAX''" | "replace_type = ''MIN''" | "replace_type = ''AVG''" using assms(3) by blast
  then show ?thesis
  proof cases
    case 1
    let ?v = "\<lambda>p. sc_max (scans p)"
    have v: "?v p \<in> set (vals p)" "\<forall>y \<in> set (vals p). sint y \<le> sint (?v p)" if "p < 3" for p
      using sc [OF that] unfolding scan_of_def by blast+
    have fits': "difference_fits (?v p) (?v q)" if "p < 3" "q < 3" for p q using fits v(1) that by blast
    obtain p ms' m1 where p: "greatest_party bin fresh (\<lambda>p. one_by_one (nk_share int_kind (?v p))) m = Ret (p, ms', m1)"
      "p < 3" "ms' p = one_by_one (?v p)" "\<forall>q < 3. sint (?v q) \<le> sint (?v p)"
      using greatest_party_run [OF assms(2), where ms = "\<lambda>p. one_by_one (nk_share int_kind (?v p))" and v = ?v and fresh = fresh and m = m, OF _ fits']
      by (auto simp: int_kind_sel)
    obtain m2 where "open_value lib int_kind (one_by_one (?v p)) m1 = Ret (?v p, m2)"
      using open_value_run [OF assms(1), of int_kind "?v p" m1] by (auto simp: int_kind_sel)
    then have "common_value lib bin fresh int_kind replace_type scans counts m = Some (Ret (?v p, m2))"
      using p(1,3) 1 by (simp add: common_value_def greatest_value_def)
    moreover have "?v p \<in> set (everything vals)" using v(1) [OF p(2)] everything_party [OF p(2), of vals] by blast
    moreover have "sint y \<le> sint (?v p)" if "y \<in> set (everything vals)" for y
    proof -
      obtain q where q: "q < 3" "y \<in> set (vals q)" using everything_of_party [OF \<open>y \<in> set (everything vals)\<close>] by blast
      with v(2) [OF q(1)] p(4) show ?thesis by (meson order_trans)
    qed
    ultimately have "common_value lib bin fresh int_kind replace_type scans counts m = Some (Ret (?v p, m2))"
      "common_of replace_type vals (?v p)"
      using 1 by (simp_all add: common_of_def)
    then show ?thesis by blast
  next
    case 2
    let ?v = "\<lambda>p. sc_min (scans p)"
    have v: "?v p \<in> set (vals p)" "\<forall>y \<in> set (vals p). sint (?v p) \<le> sint y" if "p < 3" for p
      using sc [OF that] unfolding scan_of_def by blast+
    have fits': "difference_fits (?v p) (?v q)" if "p < 3" "q < 3" for p q using fits v(1) that by blast
    obtain p ms' m1 where p: "smallest_party bin fresh (\<lambda>p. one_by_one (nk_share int_kind (?v p))) m = Ret (p, ms', m1)"
      "p < 3" "ms' p = one_by_one (?v p)" "\<forall>q < 3. sint (?v p) \<le> sint (?v q)"
      using smallest_party_fits [OF assms(2), where ms = "\<lambda>p. one_by_one (nk_share int_kind (?v p))" and v = ?v and fresh = fresh and m = m, OF _ fits']
      by (auto simp: int_kind_sel)
    obtain m2 where "open_value lib int_kind (one_by_one (?v p)) m1 = Ret (?v p, m2)"
      using open_value_run [OF assms(1), of int_kind "?v p" m1] by (auto simp: int_kind_sel)
    then have "common_value lib bin fresh int_kind replace_type scans counts m = Some (Ret (?v p, m2))"
      using p(1,3) 2 by (simp add: common_value_def least_value_def)
    moreover have "?v p \<in> set (everything vals)" using v(1) [OF p(2)] everything_party [OF p(2), of vals] by blast
    moreover have "sint (?v p) \<le> sint y" if "y \<in> set (everything vals)" for y
    proof -
      obtain q where q: "q < 3" "y \<in> set (vals q)" using everything_of_party [OF \<open>y \<in> set (everything vals)\<close>] by blast
      with v(2) [OF q(1)] p(4) show ?thesis by (meson order_trans)
    qed
    ultimately have "common_value lib bin fresh int_kind replace_type scans counts m = Some (Ret (?v p, m2))"
      "common_of replace_type vals (?v p)"
      using 2 by (simp_all add: common_of_def)
    then show ?thesis by blast
  next
    case 3
    let ?s = "sum_list (map sint (everything vals))" and ?n = "int (length (everything vals))"
    have s: "sc_sum (scans 0) + sc_sum (scans 1) + sc_sum (scans 2) = word_of_int ?s"
    proof -
      have "sc_sum (scans p) = word_of_int (sum_list (map sint (vals p)))" if "p < 3" for p
      proof -
        have e: "sint (sc_sum (scans p)) = sum_list (map sint (vals p))" using sc(1) [OF that] unfolding scan_of_def by blast
        show ?thesis unfolding e [symmetric] by simp
      qed
      then show ?thesis by (simp add: everything_def)
    qed
    have c: "ucast (counts p) = (word_of_int (int (length (vals p))) :: i64)" if "p < 3" for p
    proof -
      have "length (vals p) < 2 ^ 31" "counts p = of_nat (length (vals p))" using assms(4) that by blast+
      then have "unat (counts p) = length (vals p)" by (simp add: unat_of_nat)
      moreover have "ucast (counts p) = (of_nat (unat (counts p)) :: i64)" by simp
      ultimately show ?thesis by (simp only: of_int_of_nat_eq)
    qed
    have "?n < 2 ^ 62"
      using assms(4) by (simp add: everything_def all_below_3 del: One_nat_def)
    moreover have "everything vals \<noteq> []" using sc(2) [of 0] by (simp add: everything_def)
    then have "0 < ?n" by simp
    moreover have "\<bar>?s\<bar> < 2 ^ 62" using sum_within [of "everything vals"] assms(5) by linarith
    ultimately obtain x where x: "div_i64 (word_of_int ?s) (word_of_int ?n) = Ret x" "sint x = sgn ?s * (\<bar>?s\<bar> div ?n)"
      using div_i64_whole by blast
    have "ucast (counts 0) + ucast (counts 1) + ucast (counts 2) = (word_of_int ?n :: i64)"
      by (simp add: c everything_def del: One_nat_def)
    with totals_opened [OF assms(1), of int_kind "\<lambda>p. sc_sum (scans p)" counts m] obtain m' where
      "average_value lib int_kind (\<lambda>p. sc_sum (scans p)) counts m = Ret (x, m')"
      using x(1) s by (auto simp: int_kind_sel)
    then show ?thesis using 3 x(2) by (simp add: common_value_def common_of_def)
  qed
qed

section \<open>The columns of the three parties\<close>

text \<open>
  The columns \<open>names\<close> of a table are texts in one chunk, with the entries \<open>es\<close>, one of which at least is valid.
\<close>

definition text_columns :: "'d mtable \<Rightarrow> string list \<Rightarrow> (string \<Rightarrow> string option list) \<Rightarrow> bool" where
  "text_columns table names es \<longleftrightarrow> distinct (map fst table) \<and> num_rows table < 2 ^ 31
     \<and> (\<forall>(_, c) \<in> set table. column_chunks c = [num_rows table])
     \<and> (\<forall>n \<in> set names. (n, TextColumn [es n]) \<in> set table)"

text \<open>A table with some of its columns filled with the values given for them.\<close>

fun filled :: "(string \<times> i64) list \<Rightarrow> string \<times> 'd mcolumn \<Rightarrow> string \<times> 'd mcolumn" where
  "filled xs (n, TextColumn cs) = (n, case map_of xs n of None \<Rightarrow> TextColumn cs
     | Some x \<Rightarrow> IntColumn (map (value_or int_kind x) (concat cs)))"
| "filled xs (n, c) = (n, c)"

lemma filled_name [simp]: "fst (filled xs c) = fst c"
  by (cases "(xs, c)" rule: filled.cases) simp_all

lemma filled_nil [simp]: "filled [] c = c"
  by (cases "([] :: (string \<times> i64) list, c)" rule: filled.cases) simp_all

lemma filled_once: "n \<notin> set (map fst xs) \<Longrightarrow> filled xs (filled [(n, x)] c) = filled ((n, x) # xs) c"
  by (cases "(xs, c)" rule: filled.cases) (auto simp: map_of_eq_None_iff)

lemma column_index_at:
  "distinct (map fst t) \<Longrightarrow> (n, c) \<in> set t \<Longrightarrow> \<exists>i < length t. column_index t n = Some i \<and> t ! i = (n, c)"
proof (induction t)
  case (Cons a t)
  obtain k d where a: "a = (k, d)" by (cases a)
  show ?case
  proof (cases "k = n")
    case True
    then have "d = c" using Cons.prems a by (force simp: image_iff)
    with a True show ?thesis by auto
  next
    case False
    with Cons a obtain i where "i < length t" "column_index t n = Some i" "t ! i = (n, c)" by auto
    with a False show ?thesis by (intro exI [of _ "Suc i"]) simp
  qed
qed simp

lemma filled_update:
  assumes "distinct (map fst t)" "i < length t" "t ! i = (n, TextColumn [es])"
  shows "t[i := (n, IntColumn (map (value_or int_kind x) es))] = map (filled [(n, x)]) t"
proof (rule nth_equalityI)
  fix j
  assume "j < length (t[i := (n, IntColumn (map (value_or int_kind x) es))])"
  then have j: "j < length t" by simp
  obtain k c where k: "t ! j = (k, c)" by (cases "t ! j")
  show "t[i := (n, IntColumn (map (value_or int_kind x) es))] ! j = map (filled [(n, x)]) t ! j"
  proof (cases "j = i")
    case False
    then have "k \<noteq> n" using assms j k by (metis distinct_conv_nth fst_conv length_map nth_map)
    then show ?thesis using False j k by (cases c) simp_all
  qed (use assms j in simp)
qed simp

lemma text_columns_filled:
  assumes "text_columns t (n # ns) es" "n \<notin> set ns"
  shows "text_columns (map (filled [(n, x)]) t) ns es"
proof -
  have f: "column_chunks (snd (filled [(n, x)] a)) = [num_rows t]" if "a \<in> set t" for a
  proof -
    have "column_chunks (snd a) = [num_rows t]" using assms(1) that by (auto simp: text_columns_def)
    then show ?thesis by (cases "([(n, x)], a)" rule: filled.cases) (auto simp: length_concat)
  qed
  have "num_rows (map (filled [(n, x)]) t) = num_rows t"
  proof (cases t)
    case (Cons a t')
    from f [of a] show ?thesis by (simp add: Cons num_rows_def case_prod_unfold)
  qed (simp add: num_rows_def)
  moreover have "(m, TextColumn [es m]) \<in> set (map (filled [(n, x)]) t)" if "m \<in> set ns" for m
  proof -
    have "(m, TextColumn [es m]) \<in> set t" "m \<noteq> n" using assms that by (auto simp: text_columns_def)
    then show ?thesis by (force simp: image_iff)
  qed
  moreover have "\<forall>(_, c) \<in> set (map (filled [(n, x)]) t). column_chunks c = [num_rows t]"
    using f by (auto simp: case_prod_unfold)
  moreover have "distinct (map fst (map (filled [(n, x)]) t))" "num_rows t < 2 ^ 31"
    using assms(1) by (simp_all add: text_columns_def o_def)
  ultimately show ?thesis by (simp add: text_columns_def)
qed

text \<open>How one party's column is filled, once the common value is there.\<close>

lemma party_column:
  assumes "text_columns table (n # ns) es" "magnitude (int_values (es n)) < 2 ^ 63"
  shows "\<exists>i s. column_index table n = Some i \<and> scan_integers table i = Ret s \<and> scan_of (int_values (es n)) s
    \<and> valid_count table s = of_nat (length (int_values (es n)))
    \<and> (\<forall>x. replaceValue int_kind IntColumn n table i x (sc_abnormal s) = Ret (map (filled [(n, x)]) table))"
proof -
  have t: "distinct (map fst table)" "(n, TextColumn [es n]) \<in> set table"
    and rows: "\<forall>(_, c) \<in> set table. column_chunks c = [num_rows table]" using assms(1) by (simp_all add: text_columns_def)
  obtain i where i: "i < length table" "column_index table n = Some i" "table ! i = (n, TextColumn [es n])"
    using column_index_at [OF t] by blast
  have len: "length (es n) = num_rows table" using rows t(2) by fastforce
  have "table ! 0 \<in> set table" using i(1) by (metis gr_zeroI nth_mem not_less_zero)
  then have "length (column_chunks (snd (table ! 0))) = 1" using rows by (auto simp: case_prod_unfold)
  then obtain s where s: "scan_integers table i = Ret s" "scan_of (int_values (es n)) s" "sc_abnormal s = [bad_from int_kind 0 (es n)]"
    "sc_abnormal_num s = length (bad_from int_kind 0 (es n))" "sc_null_num s = length (filter (\<lambda>e. e = None) (es n))"
    using scan_integer_column [OF assms(2)] i(3) by (auto simp: scan_integers_def)
  have "int (num_rows table) - int (sc_null_num s) - int (sc_abnormal_num s) = int (length (int_values (es n)))"
    using counted_entries [of int_kind "es n" 0] len s(4,5) by linarith
  then have "valid_count table s = of_nat (length (int_values (es n)))" by (simp add: valid_count_def)
  moreover have "replaceValue int_kind IntColumn n table i x (sc_abnormal s) = Ret (map (filled [(n, x)]) table)" for x
    using buildNewColumn_fills [of int_kind x x "length (to_string_i64 x)" "es n"] i(1,3) len filled_update [OF t(1) i(1,3)] s(3)
    by (simp add: replaceValue_def int_kind_sel strToInt64_def stoll_to_string)
  ultimately show ?thesis using i(2) s(1,2) by blast
qed

text \<open>The common value is what the three parties compute from what they know of their columns.\<close>

lemma process_column_fills:
  assumes "\<forall>p < 3. text_columns (tables p) (names p # ns p) (es p) \<and> magnitude (int_values (es p (names p))) < 2 ^ 63"
    "\<And>scans counts. \<forall>p < 3. scan_of (int_values (es p (names p))) (scans p) \<and> counts p = of_nat (length (int_values (es p (names p))))
       \<Longrightarrow> \<exists>x m'. common_value lib bin fresh int_kind replace_type scans counts m = Some (Ret (x, m')) \<and> P x"
  shows "\<exists>x tables' m'. process_column lib bin fresh int_kind IntColumn scan_integers replace_type names tables m = Ret (tables', m')
    \<and> P x \<and> (\<forall>p < 3. tables' p = map (filled [(names p, x)]) (tables p))"
proof -
  have "\<exists>i s. column_index (tables p) (names p) = Some i \<and> scan_integers (tables p) i = Ret s
      \<and> scan_of (int_values (es p (names p))) s \<and> valid_count (tables p) s = of_nat (length (int_values (es p (names p))))
      \<and> (\<forall>x. replaceValue int_kind IntColumn (names p) (tables p) i x (sc_abnormal s) = Ret (map (filled [(names p, x)]) (tables p)))"
    if "p < 3" for p
    using party_column [of "tables p" "names p" "ns p" "es p"] assms(1) that by blast
  then obtain i s where i: "p < 3 \<Longrightarrow> column_index (tables p) (names p) = Some (i p)" "p < 3 \<Longrightarrow> scan_integers (tables p) (i p) = Ret (s p)"
    "p < 3 \<Longrightarrow> scan_of (int_values (es p (names p))) (s p)"
    "p < 3 \<Longrightarrow> valid_count (tables p) (s p) = of_nat (length (int_values (es p (names p))))"
    "p < 3 \<Longrightarrow> replaceValue int_kind IntColumn (names p) (tables p) (i p) x (sc_abnormal (s p)) = Ret (map (filled [(names p, x)]) (tables p))"
    for p x by metis
  have "\<forall>p < 3. in_party p (case column_index (tables p) (names p) of None \<Rightarrow> Ret (new_scan int_kind)
      | Some col_index \<Rightarrow> scan_integers (tables p) col_index) = Ret (s p)" using i(1,2) by simp
  from jointly_Ret_all [OF this] obtain h where h:
    "each_party (\<lambda>p. case column_index (tables p) (names p) of None \<Rightarrow> Ret (new_scan int_kind)
      | Some col_index \<Rightarrow> scan_integers (tables p) col_index) = Ret h" "\<forall>p < 3. h p = s p" unfolding each_party_def by blast
  have "\<forall>p < 3. scan_of (int_values (es p (names p))) (h p) \<and> valid_count (tables p) (h p) = of_nat (length (int_values (es p (names p))))"
    using i(3,4) h(2) by simp
  from assms(2) [of h "\<lambda>p. valid_count (tables p) (h p)", OF this] obtain x m' where
    x: "common_value lib bin fresh int_kind replace_type h (\<lambda>p. valid_count (tables p) (h p)) m = Some (Ret (x, m'))" "P x" by blast
  have "\<forall>p < 3. in_party p (replaceValue int_kind IntColumn (names p) (tables p) (the (column_index (tables p) (names p))) x (sc_abnormal (h p)))
      = Ret (map (filled [(names p, x)]) (tables p))" using i(1,5) h(2) by simp
  from jointly_Ret_all [OF this] obtain t' where t':
    "each_party (\<lambda>p. replaceValue int_kind IntColumn (names p) (tables p) (the (column_index (tables p) (names p))) x (sc_abnormal (h p))) = Ret t'"
    "\<forall>p < 3. t' p = map (filled [(names p, x)]) (tables p)" unfolding each_party_def by blast
  have "all_parties (\<lambda>p. column_index (tables p) (names p) \<noteq> None)" "\<not> all_parties (\<lambda>p. column_index (tables p) (names p) = None)"
    using i(1) [of 0] i(1) [of 1] i(1) [of 2] by (simp_all add: all_parties_def)
  with h(1) x t' show ?thesis by (intro exI [of _ x] exI [of _ t'] exI [of _ m']) (simp add: process_column_def)
qed

end
