(* ===== verification/Statistics_Run.thy ===== *)
theory Statistics_Run
  imports Statistics_Task Statistics_Correct
begin

text \<open>
  The task of statistics from its request to the written file.
\<close>

section \<open>What a party is asked\<close>

text \<open>
  A request about the columns \<open>names\<close> of the party's dataset, whose types are given by numbers, and the kind of
  statistics.
\<close>

definition stat_request ::
  "'d stats_env \<Rightarrow> party_config \<Rightarrow> task_config \<Rightarrow> string list \<Rightarrow> (string \<times> int) list \<Rightarrow> string \<Rightarrow> 'd table \<Rightarrow> string \<Rightarrow> bool" where
  "stat_request env c task names dts code table path \<longleftrightarrow>
     ExtractProxyNode task \<noteq> None \<and> names \<noteq> [] \<and> distinct (map fst dts) \<and> set names \<subseteq> fst ` {d \<in> set dts. snd d \<in> {1, 2, 3}}
     \<and> (\<exists>ds_name ds detail d feats info ci newid pth.
          statistics_dataset (pc_party_name c) task = Some (ds_name, ds, detail) \<and> se_read env ds detail = Ret (Some table)
          \<and> js_parse (se_json env) (text_param task ''TaskDetail'') = Some (JObj d)
          \<and> map_of d ''features'' = Some (JArr (map (\<lambda>(n, cs). JObj [(''resourceId'', JStr n), (''checked'', JArr (map JStr cs))]) feats))
          \<and> map_of feats ds_name = Some names \<and> map_of d ''type'' = Some (JStr code)
          \<and> js_parse (se_json env) (text_param task ''ColumnInfo'') = Some (JObj info) \<and> map_of info ds_name = Some (JObj ci)
          \<and> map_of ci ''columns'' = Some (JObj (map (\<lambda>(c, i). (c, JInt i)) dts))
          \<and> map_of ci ''newDataSetId'' = Some (JStr newid) \<and> map_of ci ''outputFilePath'' = Some (JStr pth)
          \<and> path = CompletePath (se_storage env) pth)"

definition types_of :: "(string \<times> int) list \<Rightarrow> (string \<times> column_dtype) list" where
  "types_of dts = map (\<lambda>(c, i). (c, columnDtypeFromInteger i)) dts"

lemma checked_names_all: "checked_names i (map JStr cs) = Ret cs"
  by (induction cs arbitrary: i) simp_all

lemma find_features_first:
  "map_of feats ds = Some names \<Longrightarrow>
   find_features ds (map (\<lambda>(n, cs). JObj [(''resourceId'', JStr n), (''checked'', JArr (map JStr cs))]) feats) = Ret (Some names)"
  by (induction feats) (auto simp: member_def member_at_def checked_names_all split: if_splits)

lemma parse_types_all:
  "distinct (map fst dts) \<Longrightarrow> fst ` set dts \<inter> fst ` set m = {} \<Longrightarrow>
   parse_column_types (map (\<lambda>(c, i). (c, JInt i)) dts) m = Ret (m @ types_of dts)"
proof (induction dts arbitrary: m)
  case (Cons d dts)
  obtain c i where d: "d = (c, i)" by (cases d)
  have "map_of m c = None" using Cons.prems(2) d by (simp add: map_of_eq_None_iff)
  moreover have "parse_column_types (map (\<lambda>(c, i). (c, JInt i)) dts) (m @ [(c, columnDtypeFromInteger i)])
      = Ret ((m @ [(c, columnDtypeFromInteger i)]) @ types_of dts)"
    by (rule Cons.IH) (use Cons.prems d in auto)
  ultimately show ?case by (simp add: d types_of_def)
qed (simp add: types_of_def)

lemma check_types_numbers:
  "distinct (map fst dts) \<Longrightarrow> set names \<subseteq> fst ` {d \<in> set dts. snd d \<in> {1, 2, 3}} \<Longrightarrow> check_types (types_of dts) names = Ret ()"
proof (induction names)
  case (Cons n names)
  then obtain i where "(n, i) \<in> set dts" "i \<in> {1, 2, 3}" by force
  then have "map_of (types_of dts) n = Some (columnDtypeFromInteger i)" "columnDtypeFromInteger i \<in> {CD_INTEGER, CD_DOUBLE, CD_LONG}"
    using Cons.prems(1) by (auto simp: types_of_def columnDtypeFromInteger_def case_prod_unfold o_def intro!: map_of_is_SomeI)
      (force intro!: map_of_is_SomeI)+
  with Cons show ?case by auto
qed simp

lemma statistics_prepared:
  assumes "new_stats c = Ret st" "stat_request env c task names dts code table path" "parse_type (JStr code) = Ret ty" "ty \<noteq> ST_UNKNOWN"
  shows "\<exists>st'. run_steps (prepare_steps (statistics env execute) task) st = Ret (SUCCESS, st') \<and> \<not> st_do_nothing st'
    \<and> st_columns st' = sort names \<and> st_types st' = types_of dts \<and> st_type st' = ty \<and> st_input st' = Some table
    \<and> st_output st' = path \<and> st_files st' = []"
proof -
  obtain i where i: "SelfPartyId c = Ret i" "st = \<lparr>st_config = c, st_party_id = i, st_do_nothing = False, st_result = [], st_columns = [],
      st_input = None, st_new_id = [], st_output = [], st_ds_name = [], st_dataset_id = [], st_detail = False, st_types = [],
      st_type = ST_UNKNOWN, st_links = None, st_files = [], st_registered = []\<rparr>"
    using assms(1) by (auto simp: new_stats_def cbind_Ret_iff)
  obtain ds_name ds detail d feats info ci newid pth where r:
    "statistics_dataset (pc_party_name c) task = Some (ds_name, ds, detail)" "se_read env ds detail = Ret (Some table)"
    "js_parse (se_json env) (text_param task ''TaskDetail'') = Some (JObj d)"
    "map_of d ''features'' = Some (JArr (map (\<lambda>(n, cs). JObj [(''resourceId'', JStr n), (''checked'', JArr (map JStr cs))]) feats))"
    "map_of feats ds_name = Some names" "map_of d ''type'' = Some (JStr code)"
    "js_parse (se_json env) (text_param task ''ColumnInfo'') = Some (JObj info)" "map_of info ds_name = Some (JObj ci)"
    "map_of ci ''columns'' = Some (JObj (map (\<lambda>(c, i). (c, JInt i)) dts))"
    "map_of ci ''newDataSetId'' = Some (JStr newid)" "map_of ci ''outputFilePath'' = Some (JStr pth)"
    "path = CompletePath (se_storage env) pth"
    using assms(2) unfolding stat_request_def by blast
  obtain proxy where p: "ExtractProxyNode task = Some proxy" using assms(2) by (auto simp: stat_request_def)
  have n: "names \<noteq> []" "distinct (map fst dts)" "set names \<subseteq> fst ` {d \<in> set dts. snd d \<in> {1, 2, 3}}"
    using assms(2) by (simp_all add: stat_request_def)
  obtain m ms where names: "names = m # ms" using n(1) by (cases names) auto
  define st1 where "st1 = st\<lparr>st_ds_name := ds_name, st_dataset_id := ds, st_detail := detail\<rparr>"
  have s1: "parseColumnName (se_json env) (text_param task ''TaskDetail'') st1 = Ret (SUCCESS, st1\<lparr>st_columns := names, st_type := ty\<rparr>)"
    using r(3-6) find_features_first [OF r(5)] assms(3)
    by (simp add: parseColumnName_def member_def st1_def i(2) Let_def names)
  let ?st2 = "st1\<lparr>st_columns := names, st_type := ty, st_types := types_of dts, st_new_id := newid, st_output := path\<rparr>"
  have s2: "parseColumnDtype (se_json env) (se_storage env) (text_param task ''ColumnInfo'') (st1\<lparr>st_columns := names, st_type := ty\<rparr>)
      = Ret (SUCCESS, ?st2)"
    using r(7-12) parse_types_all [OF n(2), of "[]"] by (simp add: parseColumnDtype_def member_def st1_def i(2) Let_def)
  have c: "check_types (types_of dts) (sort names) = Ret ()"
    by (rule check_types_numbers [OF n(2)]) (use n(3) in simp)
  have l: "stats_loadParams env task st = Ret (0, ?st2\<lparr>st_columns := sort names\<rparr>)"
    using p r(1) s1 s2 c by (simp add: stats_loadParams_def i(2) Let_def flip: st1_def) (simp add: st1_def i(2))
  obtain ls where ls: "initPartyComm c = Ret ls"
    using i(1) by (auto simp: initPartyComm_def NextPartyId_def PrevPartyId_def Let_def)
  show ?thesis
    using l ls r(2) assms(4) by (simp add: prepare_steps_def statistics_def stats_loadDataset_def stats_InitEngine_def st1_def i(2))
qed

section \<open>The three parties\<close>

text \<open>The three parties before a task: their requests, the values of their columns, and where they save the result.\<close>

definition stat_parties ::
  "'d fp_num \<Rightarrow> (nat \<Rightarrow> 'd stats_env) \<Rightarrow> (nat \<Rightarrow> task_config) \<Rightarrow> (nat \<Rightarrow> 'd stats) \<Rightarrow> (nat \<Rightarrow> string list) \<Rightarrow> (nat \<Rightarrow> 'd table)
   \<Rightarrow> (nat \<Rightarrow> (string \<times> int) list) \<Rightarrow> string \<Rightarrow> (nat \<Rightarrow> string) \<Rightarrow> (nat \<Rightarrow> string \<Rightarrow> 'd list) \<Rightarrow> nat \<Rightarrow> bool" where
  "stat_parties fp env task sts names tables dts code path vals n \<longleftrightarrow> (\<forall>p < 3.
     (\<exists>c. new_stats c = Ret (sts p) \<and> stat_request (env p) c (task p) (names p) (dts p) code (tables p) (path p))
     \<and> (\<forall>f t. se_write (env p) f t = 0) \<and> length (names p) = n
     \<and> numeric_columns fp (tables p) (types_of (dts p)) (names p) (vals p))"

lemma task_saves:
  assumes "stat_parties fp env task sts names tables dts code path vals n" "parse_type (JStr code) = Ret ty" "ty \<noteq> ST_UNKNOWN"
    "\<And>tables' columns types. (\<forall>p < 3. tables' p = tables p \<and> columns p = sort (names p) \<and> types p = types_of (dts p)) \<Longrightarrow>
       \<exists>r m'. run_statistics lib bin fresh fp ty tables' columns types m = Ret (Some (r, m')) \<and> (\<forall>p < 3. P p (r p))"
  shows "\<exists>out r. statistics_task lib bin fresh fp env task sts m = Ret out \<and> (\<forall>p < 3. P p (r p)
    \<and> fst (out p) = SUCCESS \<and> st_files (snd (out p)) = [(path p, zip (sort (names p)) (r p))])"
proof -
  let ?prep = "\<lambda>p. run_steps (prepare_steps (statistics (env p) (\<lambda>st. Ret (0, st))) (task p)) (sts p)"
  let ?ready = "\<lambda>p st'. \<not> st_do_nothing st' \<and> st_columns st' = sort (names p) \<and> st_types st' = types_of (dts p)
    \<and> st_type st' = ty \<and> st_input st' = Some (tables p) \<and> st_output st' = path p \<and> st_files st' = []"
  have "\<forall>p. \<exists>b. p < 3 \<longrightarrow> ?prep p = Ret (SUCCESS, b) \<and> ?ready p b"
  proof (intro allI)
    fix p
    have "\<exists>b. ?prep p = Ret (SUCCESS, b) \<and> ?ready p b" if p: "p < 3"
    proof -
      obtain c where "new_stats c = Ret (sts p)" "stat_request (env p) c (task p) (names p) (dts p) code (tables p) (path p)"
        using assms(1) p unfolding stat_parties_def by blast
      from statistics_prepared [OF this assms(2,3)] show ?thesis by blast
    qed
    then show "\<exists>b. p < 3 \<longrightarrow> ?prep p = Ret (SUCCESS, b) \<and> ?ready p b" by blast
  qed
  from choice [OF this] obtain b where b: "\<And>p. p < 3 \<Longrightarrow> ?prep p = Ret (SUCCESS, b p)" "\<And>p. p < 3 \<Longrightarrow> ?ready p (b p)"
    by blast
  have "\<forall>p < 3. ?prep p = Ret ((\<lambda>p. (SUCCESS, b p)) p)" by (intro allI impI b(1))
  from jointly_Ret_all [OF this] obtain bs where bs: "jointly ?prep = Ret bs" "\<forall>p < 3. bs p = (SUCCESS, b p)" by blast
  have ready: "?ready p (snd (bs p))" if "p < 3" for p using b(2) bs(2) that by simp
  let ?sts = "\<lambda>p. snd (bs p)"
  have "\<forall>p < 3. the (st_input (?sts p)) = tables p \<and> st_columns (?sts p) = sort (names p) \<and> st_types (?sts p) = types_of (dts p)"
    using ready by simp
  from assms(4) [OF this] obtain r m' where
    r: "run_statistics lib bin fresh fp ty (\<lambda>p. the (st_input (?sts p))) (\<lambda>p. st_columns (?sts p)) (\<lambda>p. st_types (?sts p)) m
        = Ret (Some (r, m'))" "\<forall>p < 3. P p (r p)" by blast
  have ex: "stats_execute lib bin fresh fp ?sts m = Ret (\<lambda>p. (0, (?sts p)\<lparr>st_result := getResult (r p)\<rparr>))"
    using ready [of 0] ready [of 1] ready [of 2] r(1) by (simp add: stats_execute_def del: One_nat_def)
  have g: "getResult xs = xs" for xs :: "'a list" by (simp add: getResult_def map_nth)
  have "\<forall>p < 3. run_steps [\<lambda>_. Ret (0, (?sts p)\<lparr>st_result := r p\<rparr>), stats_saveModel (env p)] ((?sts p)\<lparr>st_result := r p\<rparr>)
      = Ret ((\<lambda>p. (SUCCESS, (?sts p)\<lparr>st_result := r p, st_files := [(path p, zip (sort (names p)) (r p))],
          st_registered := st_registered (?sts p) @ [(st_new_id (?sts p), path p)]\<rparr>)) p)"
  proof (intro allI impI)
    fix p :: nat
    assume p: "p < 3"
    then have "se_write (env p) f t = 0" for f t using assms(1) unfolding stat_parties_def by blast
    with ready [OF p] show "run_steps [\<lambda>_. Ret (0, (?sts p)\<lparr>st_result := r p\<rparr>), stats_saveModel (env p)] ((?sts p)\<lparr>st_result := r p\<rparr>)
      = Ret ((\<lambda>p. (SUCCESS, (?sts p)\<lparr>st_result := r p, st_files := [(path p, zip (sort (names p)) (r p))],
          st_registered := st_registered (?sts p) @ [(st_new_id (?sts p), path p)]\<rparr>)) p)"
      by (cases "?sts p") (simp add: stats_saveModel_def)
  qed
  from jointly_Ret_all [OF this] obtain out where
    out: "jointly (\<lambda>p. run_steps [\<lambda>_. Ret (0, (?sts p)\<lparr>st_result := r p\<rparr>), stats_saveModel (env p)] ((?sts p)\<lparr>st_result := r p\<rparr>)) = Ret out"
      "\<forall>p < 3. out p = (SUCCESS, (?sts p)\<lparr>st_result := r p, st_files := [(path p, zip (sort (names p)) (r p))],
          st_registered := st_registered (?sts p) @ [(st_new_id (?sts p), path p)]\<rparr>)" by blast
  have "\<forall>p \<in> set [0, 1, 2]. fst (bs p) = SUCCESS" using bs(2) by simp
  then have "statistics_task lib bin fresh fp env task sts m = Ret out"
    using bs(1) ex out(1) by (simp add: statistics_task_def g)
  with out(2) r(2) show ?thesis by (intro exI [of _ out] exI [of _ r]) simp
qed

lemma stat_parties_columns:
  assumes "stat_parties fp env task sts names tables dts code path vals n"
    "\<forall>p < 3. tables' p = tables p \<and> columns p = sort (names p) \<and> types p = types_of (dts p)"
  shows "\<forall>p < 3. length (columns p) = n \<and> numeric_columns fp (tables' p) (types p) (columns p) (vals p)"
  using assms unfolding stat_parties_def numeric_columns_def by simp

text \<open>The total of the columns at one place, or its quotient by the number of their rows.\<close>

definition totals ::
  "'d fp_num \<Rightarrow> bool \<Rightarrow> (nat \<Rightarrow> string \<Rightarrow> 'd list) \<Rightarrow> (nat \<Rightarrow> string list) \<Rightarrow> nat \<Rightarrow> 'd" where
  "totals fp average vals columns i =
     (let s = f_unfix fp (f_fix fp (column_total fp (vals 0 (columns 0 ! i))) + f_fix fp (column_total fp (vals 1 (columns 1 ! i)))
                + f_fix fp (column_total fp (vals 2 (columns 2 ! i))))
      in if average then f_div fp s (f_of_i64 fp (of_nat (rows_at_place vals columns i))) else s)"

text \<open>
  C8: a task that asks for averages or sums ends with success at all three parties. Each writes one row: under
  its own names, in their order, what the columns of all three at that place give together.
\<close>

theorem statistics_task_totals:
  assumes "share_laws lib" "count_laws fp"
    "stat_parties fp env task sts names tables dts (if average then ''1'' else ''2'') path vals n"
    "\<forall>i < n. rows_at_place vals (\<lambda>p. sort (names p)) i < 2 ^ 47"
  shows "\<exists>out. statistics_task lib bin fresh fp env task sts m = Ret out \<and> (\<forall>p < 3. fst (out p) = SUCCESS
    \<and> st_files (snd (out p)) = [(path p, zip (sort (names p)) (map (totals fp average vals (\<lambda>p. sort (names p))) [0..<n]))])"
proof -
  let ?cols = "\<lambda>p. sort (names p)"
  have ty: "parse_type (JStr (if average then ''1'' else ''2'')) = Ret (if average then ST_AVG else ST_SUM)"
    "(if average then ST_AVG else ST_SUM) \<noteq> ST_UNKNOWN" by (simp_all add: parse_type_def)
  have short: "length (vals p c) < 2 ^ 47" if p: "p < 3" and c: "c \<in> set (names p)" for p c
  proof -
    obtain i where i: "i < n" "?cols p ! i = c"
      using c assms(3) p unfolding stat_parties_def by (metis in_set_conv_nth length_sort set_sort)
    have "length (vals p (?cols p ! i)) \<le> rows_at_place vals ?cols i"
      using p by (auto simp: rows_at_place_def less_Suc_eq numeral_3_eq_3 numeral_2_eq_2)
    then show ?thesis using assms(4) i by fastforce
  qed
  have "\<exists>r m'. run_statistics lib bin fresh fp (if average then ST_AVG else ST_SUM) tables' columns types m = Ret (Some (r, m'))
      \<and> (\<forall>p < 3. r p = map (totals fp average vals ?cols) [0..<n])"
    if "\<forall>p < 3. tables' p = tables p \<and> columns p = sort (names p) \<and> types p = types_of (dts p)" for tables' columns types
  proof -
    have c: "columns 0 = ?cols 0" "columns 1 = ?cols 1" "columns 2 = ?cols 2" using that by simp_all
    have "rows_at_place vals columns = rows_at_place vals ?cols" by (simp add: rows_at_place_def c fun_eq_iff del: One_nat_def)
    moreover from this have "totals fp average vals columns = totals fp average vals ?cols"
      by (simp add: totals_def c fun_eq_iff Let_def del: One_nat_def)
    moreover have "\<forall>p < 3. \<forall>c \<in> set (columns p). length (vals p c) < 2 ^ 47" using that short by simp
    ultimately show ?thesis
      using totals_revealed [OF assms(1,2) stat_parties_columns [OF assms(3) that], of bin fresh average m] assms(4)
      by (simp add: totals_def [abs_def])
  qed
  from task_saves [OF assms(3) ty, of lib bin fresh m "\<lambda>p r. r = map (totals fp average vals ?cols) [0..<n]", OF this]
  obtain out r where "statistics_task lib bin fresh fp env task sts m = Ret out"
    "\<forall>p < 3. r p = map (totals fp average vals ?cols) [0..<n] \<and> fst (out p) = SUCCESS
       \<and> st_files (snd (out p)) = [(path p, zip (sort (names p)) (r p))]" by blast
  then show ?thesis by (intro exI [of _ out]) simp
qed

text \<open>
  C9: a task that asks for the least or the greatest values ends with success, and each party writes for each of
  its columns the extreme of the columns of all three at that place. For the greatest values the least
  positive number takes part, so that the greatest of numbers below zero is not found.
\<close>

theorem statistics_task_extremes:
  assumes "share_laws lib" "msb_laws bin" "order_laws fp" "code = (if type = ST_MAX then ''3'' else ''4'')" "type = ST_MIN \<or> type = ST_MAX"
    "stat_parties fp env task sts names tables dts code path vals n"
    "\<forall>p < 3. \<forall>c \<in> set (names p). (\<forall>v \<in> set (vals p c). small fp v)
       \<and> (\<forall>col. GetColumnByName (tables p) c = Some col \<longrightarrow> wide col)"
  shows "\<exists>out r. statistics_task lib bin fresh fp env task sts m = Ret out \<and> (\<forall>p < 3. fst (out p) = SUCCESS
    \<and> st_files (snd (out p)) = [(path p, zip (sort (names p)) (r p))] \<and> length (r p) = n
    \<and> (\<forall>i < n. extreme_of fp type (\<Union>q \<in> {..<3}. candidates fp type vals (\<lambda>p. sort (names p)) i q) (r p ! i)))"
proof -
  let ?cols = "\<lambda>p. sort (names p)"
  let ?P = "\<lambda>p :: nat. \<lambda>r. length r = n \<and> (\<forall>i < n. extreme_of fp type (\<Union>q \<in> {..<3}. candidates fp type vals ?cols i q) (r ! i))"
  have ty: "parse_type (JStr code) = Ret type" "type \<noteq> ST_UNKNOWN" using assms(4,5) by (auto simp: parse_type_def)
  have "\<exists>r m'. run_statistics lib bin fresh fp type tables' columns types m = Ret (Some (r, m')) \<and> (\<forall>p < 3. ?P p (r p))"
    if "\<forall>p < 3. tables' p = tables p \<and> columns p = sort (names p) \<and> types p = types_of (dts p)" for tables' columns types
  proof -
    have "(\<Union>q \<in> {..<3}. candidates fp type vals columns i q) = (\<Union>q \<in> {..<3}. candidates fp type vals ?cols i q)" for i
      using that by (intro SUP_cong refl) (simp add: candidates_def)
    moreover have "\<forall>p < 3. \<forall>c \<in> set (columns p). (\<forall>v \<in> set (vals p c). small fp v)
       \<and> (\<forall>col. GetColumnByName (tables' p) c = Some col \<longrightarrow> wide col)" using that assms(7) by simp
    ultimately show ?thesis
      using extremes_revealed [OF assms(1-3,5) stat_parties_columns [OF assms(6) that], of fresh m] by simp
  qed
  from task_saves [OF assms(6) ty, of lib bin fresh m ?P, OF this] show ?thesis by blast
qed

section \<open>An instance\<close>

definition demo_party :: "nat \<Rightarrow> party_config" where
  "demo_party p = \<lparr>pc_party_name = (if p = 0 then ''A'' else if p = 1 then ''B'' else ''C''), pc_party_id = Some (of_nat p),
     pc_names = [(0, ''A''), (1, ''B''), (2, ''C'')], pc_nodes = [], pc_info = empty_task_ctx\<rparr>"

definition demo_stat_task :: task_config where
  "demo_stat_task = \<lparr>tk_type = ACTOR_TASK, tk_language = PROTO, tk_code = ''mpc_statistics'',
     tk_params = map_option (\<lambda>s. \<lparr>pm_is_array = False, pm_value = PvString s\<rparr>) \<circ>
       map_of [(''TaskDetail'', ''detail''), (''ColumnInfo'', ''columns'')],
     tk_node_map = [], tk_info = empty_task_ctx, tk_party_name = [],
     tk_datasets = map (\<lambda>p. (p, \<lparr>pd_data = [(''Data_File'', ''ds'')], pd_detail = False\<rparr>)) [''A'', ''B'', ''C''],
     tk_access = [], tk_aux = [PROXY_NODE \<mapsto> empty_node]\<rparr>"

definition demo_stat_env :: "string \<Rightarrow> nat \<Rightarrow> int stats_env" where
  "demo_stat_env code p = \<lparr>se_json = \<lparr>js_dump = (\<lambda>_. None), js_parse = map_of
       [(''detail'', JObj [(''features'', JArr [JObj [(''resourceId'', JStr ''ds''), (''checked'', JArr [JStr ''y'', JStr ''x''])]]),
           (''type'', JStr code)]),
        (''columns'', JObj [(''ds'', JObj [(''columns'', JObj [(''x'', JInt 3), (''y'', JInt 2)]), (''newDataSetId'', JStr ''out''),
           (''outputFilePath'', JStr ''out.csv'')])])]\<rparr>,
     se_read = (\<lambda>_ _. Ret (Some (demo_rows p))), se_storage = ''/data'', se_write = (\<lambda>_ _. 0)\<rparr>"

lemma demo_stat_request:
  assumes "p < 3"
  shows "stat_request (demo_stat_env code p) (demo_party p) demo_stat_task [''y'', ''x''] [(''x'', 3), (''y'', 2)] code (demo_rows p) ''/data/out.csv''"
proof -
  have d: "statistics_dataset (pc_party_name (demo_party p)) demo_stat_task = Some (''ds'', ''ds'', False)"
    by (simp add: statistics_dataset_def demo_party_def demo_stat_task_def)
  have t: "text_param demo_stat_task ''TaskDetail'' = ''detail''" "text_param demo_stat_task ''ColumnInfo'' = ''columns''"
    "ExtractProxyNode demo_stat_task \<noteq> None"
    by (simp_all add: text_param_def demo_stat_task_def param_string_def ExtractProxyNode_def)
  let ?feats = "[(''ds'', [''y'', ''x''])]"
  let ?detail = "[(''features'', JArr (map (\<lambda>(n, cs). JObj [(''resourceId'', JStr n), (''checked'', JArr (map JStr cs))]) ?feats)), (''type'', JStr code)]"
  let ?info = "[(''columns'', JObj [(''x'', JInt 3), (''y'', JInt 2)]), (''newDataSetId'', JStr ''out''), (''outputFilePath'', JStr ''out.csv'')]"
  have e: "js_parse (se_json (demo_stat_env code p)) ''detail'' = Some (JObj ?detail)"
    "js_parse (se_json (demo_stat_env code p)) ''columns'' = Some (JObj [(''ds'', JObj ?info)])"
    "se_read (demo_stat_env code p) ds b = Ret (Some (demo_rows p))" "se_storage (demo_stat_env code p) = ''/data''" for ds b
    by (simp_all add: demo_stat_env_def)
  show ?thesis
    unfolding stat_request_def t(1,2)
  proof (intro conjI)
    show "set [''y'', ''x''] \<subseteq> fst ` {d \<in> set [(''x'', 3), (''y'', 2)]. snd d \<in> {1, 2, 3 :: int}}" by force
  qed (rule t(3), simp, simp,
    rule exI [of _ "''ds''"], rule exI [of _ "''ds''"], rule exI [of _ False], rule exI [of _ ?detail], rule exI [of _ ?feats],
    rule exI [of _ "[(''ds'', JObj ?info)]"], rule exI [of _ ?info], rule exI [of _ "''out''"], rule exI [of _ "''out.csv''"],
    use d e in \<open>simp add: CompletePath_def\<close>)
qed

lemma demo_stat_parties:
  "\<exists>sts. (\<forall>p. new_stats (demo_party p) = Ret (sts p)) \<and> stat_parties int_num (demo_stat_env code) (\<lambda>p. demo_stat_task) sts
     (\<lambda>p. [''y'', ''x'']) demo_rows (\<lambda>p. [(''x'', 3), (''y'', 2)]) code (\<lambda>p. ''/data/out.csv'') demo_values 2"
proof -
  have "\<exists>a :: int stats. new_stats (demo_party p) = Ret a" for p by (simp add: new_stats_def SelfPartyId_def demo_party_def)
  then obtain sts :: "nat \<Rightarrow> int stats" where sts: "\<And>p. new_stats (demo_party p) = Ret (sts p)" by metis
  have ty: "types_of [(''x'', 3), (''y'', 2)] = [(''x'', CD_LONG), (''y'', CD_DOUBLE)]" by (simp add: types_of_def columnDtypeFromInteger_def)
  have "numeric_columns int_num (demo_rows p) (types_of [(''x'', 3), (''y'', 2)]) [''y'', ''x''] (demo_values p)" if "p < 3" for p
    using demo_numeric [OF that] by (simp add: ty numeric_columns_def)
  then have "stat_parties int_num (demo_stat_env code) (\<lambda>p. demo_stat_task) sts
     (\<lambda>p. [''y'', ''x'']) demo_rows (\<lambda>p. [(''x'', 3), (''y'', 2)]) code (\<lambda>p. ''/data/out.csv'') demo_values 2"
    unfolding stat_parties_def
  proof (intro allI impI conjI)
    fix p :: nat
    assume "p < 3"
    then show "\<exists>c. new_stats c = Ret (sts p) \<and> stat_request (demo_stat_env code p) c demo_stat_task [''y'', ''x''] [(''x'', 3), (''y'', 2)] code
        (demo_rows p) ''/data/out.csv''"
      using sts demo_stat_request by blast
  qed (simp_all add: demo_stat_env_def)
  with sts show ?thesis by blast
qed

lemma demo_sorted: "sort [''y'', ''x''] = [''x'', ''y'']"
  by (simp add: sort_key_def list_less_def)

theorem statistics_task_totals_witness:
  "\<exists>sts out. statistics_task demo_aby3 demo_bin (\<lambda>n. []) int_num (demo_stat_env ''1'') (\<lambda>p. demo_stat_task) sts [] = Ret out
    \<and> st_files (snd (out 2)) = [(''/data/out.csv'', [(''x'', 3), (''y'', - 5)])]"
proof -
  obtain sts where s: "stat_parties int_num (demo_stat_env ''1'') (\<lambda>p. demo_stat_task) sts
     (\<lambda>p. [''y'', ''x'']) demo_rows (\<lambda>p. [(''x'', 3), (''y'', 2)]) (if True then ''1'' else ''2'') (\<lambda>p. ''/data/out.csv'') demo_values 2"
    using demo_stat_parties [of "''1''"] by auto
  have n: "\<forall>i < 2. rows_at_place demo_values (\<lambda>p. sort [''y'', ''x'']) i < 2 ^ 47"
    by (auto simp: demo_sorted rows_at_place_def demo_values_def less_2_cases_iff)
  have v: "[0..<2] = [0, 1 :: nat]" by (simp add: upt_rec)
  from statistics_task_totals [OF demo_share_laws int_num_count s n, of demo_bin "\<lambda>n. []" "[]"] obtain out where
    "statistics_task demo_aby3 demo_bin (\<lambda>n. []) int_num (demo_stat_env ''1'') (\<lambda>p. demo_stat_task) sts [] = Ret out"
    "st_files (snd (out 2)) = [(''/data/out.csv'', zip [''x'', ''y''] (map (totals int_num True demo_values (\<lambda>p. [''x'', ''y''])) [0..<2]))]"
    unfolding demo_sorted by fastforce
  then show ?thesis
    by (intro exI [of _ sts] exI [of _ out])
      (simp add: v totals_def rows_at_place_def column_total_def demo_values_def int_num_sel)
qed

theorem statistics_task_extremes_witness:
  "\<exists>sts out. statistics_task demo_aby3 demo_bin (\<lambda>n. []) int_num (demo_stat_env ''3'') (\<lambda>p. demo_stat_task) sts [] = Ret out
    \<and> (\<exists>x. st_files (snd (out 0)) = [(''/data/out.csv'', [(''x'', x), (''y'', 1)])])"
proof -
  obtain sts where s: "stat_parties int_num (demo_stat_env ''3'') (\<lambda>p. demo_stat_task) sts
     (\<lambda>p. [''y'', ''x'']) demo_rows (\<lambda>p. [(''x'', 3), (''y'', 2)]) ''3'' (\<lambda>p. ''/data/out.csv'') demo_values 2"
    using demo_stat_parties [of "''3''"] by auto
  have w: "\<forall>p < 3. \<forall>c \<in> set [''y'', ''x'']. (\<forall>v \<in> set (demo_values p c). small int_num v)
       \<and> (\<forall>col. GetColumnByName (demo_rows p) c = Some col \<longrightarrow> wide col)"
    by (auto simp: demo_values_def small_def int_num_sel GetColumnByName_def demo_rows_def)
  from statistics_task_extremes [OF demo_share_laws demo_bin_msb int_num_order _ _ s w, of ST_MAX "\<lambda>n. []" "[]"] obtain out r where
    o: "statistics_task demo_aby3 demo_bin (\<lambda>n. []) int_num (demo_stat_env ''3'') (\<lambda>p. demo_stat_task) sts [] = Ret out"
    "st_files (snd (out 0)) = [(''/data/out.csv'', zip [''x'', ''y''] (r 0))]" "length (r 0) = 2"
    "extreme_of int_num ST_MAX (\<Union>q \<in> {..<3}. candidates int_num ST_MAX demo_values (\<lambda>p. [''x'', ''y'']) 1 q) (r 0 ! 1)"
    unfolding demo_sorted by fastforce
  have cs: "(\<Union>q \<in> {..<3}. candidates int_num ST_MAX demo_values (\<lambda>p. [''x'', ''y'']) 1 q) = {1, - 4, - 5, - 6}"
    by (auto simp: candidates_def demo_values_def int_num_sel lessThan_Suc numeral_3_eq_3)
  have "r 0 ! 1 = 1" using o(4) unfolding cs by (auto simp: extreme_of_def int_num_sel)
  then have "r 0 = [r 0 ! 0, 1]" using o(3) by (intro nth_equalityI) (auto simp: less_2_cases_iff)
  then have "zip [''x'', ''y''] (r 0) = [(''x'', r 0 ! 0), (''y'', 1)]" by (metis zip_Cons_Cons zip_Nil)
  with o(1,2) show ?thesis by (intro exI [of _ sts] exI [of _ out]) simp
qed

end
