(* ===== verification/Missing_Run.thy ===== *)
theory Missing_Run
  imports Missing_Correct Statistics_Run
begin

text \<open>
  The task that fills missing values from its request to the written file, and where it fails: parties whose
  columns do not match, a party without a valid entry, a database.
\<close>

section \<open>All columns\<close>

text \<open>The columns of the parties at one place: their type and the name that each party gives to its column.\<close>

type_synonym place = "u32 \<times> (nat \<Rightarrow> string)"

definition names_of :: "place list \<Rightarrow> nat \<Rightarrow> string list" where
  "names_of places p = map (\<lambda>(_, names). names p) places"

definition values_at :: "(nat \<Rightarrow> string \<Rightarrow> string option list) \<Rightarrow> place \<Rightarrow> nat \<Rightarrow> i64 list" where
  "values_at es pl p = int_values (es p (snd pl p))"

text \<open>What the columns at a place have to be: of integers, with a valid entry at each party, and sums that fit.\<close>

definition fillable :: "(nat \<Rightarrow> string \<Rightarrow> string option list) \<Rightarrow> place \<Rightarrow> bool" where
  "fillable es pl \<longleftrightarrow> (fst pl = 1 \<or> fst pl = 3) \<and> magnitude (everything (values_at es pl)) < 2 ^ 62
     \<and> (\<forall>p < 3. values_at es pl p \<noteq> [])"

lemma filter_length: "length (List.map_filter f xs) \<le> length xs"
  by (induction xs) (auto simp: map_filter_simps split: option.splits)

lemma places_filled:
  assumes "share_laws lib" "msb_laws bin" "replace_type \<in> {''MAX'', ''MIN'', ''AVG''}" "\<forall>pl \<in> set places. fillable es pl"
    "\<forall>p < 3. distinct (names_of places p) \<and> text_columns (tables p) (names_of places p) (es p)"
  shows "\<exists>xs tables' m'. process_places lib bin fresh fp dt replace_type places tables m = Ret (tables', m')
    \<and> list_all2 (\<lambda>pl x. common_of replace_type (values_at es pl) x) places xs
    \<and> (\<forall>p < 3. tables' p = map (filled (zip (names_of places p) xs)) (tables p))"
  using assms(4,5)
proof (induction places arbitrary: tables m)
  case Nil
  then show ?case by (simp add: names_of_def list.map_ident_strong)
next
  case (Cons pl places)
  obtain ty names where pl: "pl = (ty, names)" by (cases pl)
  let ?vals = "values_at es pl"
  have f: "ty = 1 \<or> ty = 3" "magnitude (everything ?vals) < 2 ^ 62" "\<forall>p < 3. ?vals p \<noteq> []"
    using Cons.prems(1) by (simp_all add: fillable_def pl)
  have t: "text_columns (tables p) (names p # names_of places p) (es p)" "names p \<notin> set (names_of places p)"
    "distinct (names_of places p)" if "p < 3" for p
    using Cons.prems(2) that by (simp_all add: names_of_def pl)
  have part: "magnitude (?vals p) < 2 ^ 63" if "p < 3" for p
    using that f(2) magnitude_nonneg [of "?vals 0"] magnitude_nonneg [of "?vals 1"] magnitude_nonneg [of "?vals 2"]
    by (elim below_3) (simp_all add: everything_def magnitude_append)
  have rows: "length (?vals p) < 2 ^ 31" if "p < 3" for p
  proof -
    have "(names p, TextColumn [es p (names p)]) \<in> set (tables p)" "num_rows (tables p) < 2 ^ 31"
      "\<forall>(_, c) \<in> set (tables p). column_chunks c = [num_rows (tables p)]" using t(1) [OF that] by (simp_all add: text_columns_def)
    then have "length (es p (names p)) < 2 ^ 31" by fastforce
    then show ?thesis using filter_length [of "entry_value int_kind" "es p (names p)"] by (simp add: values_at_def pl valid_values_def)
  qed
  have v: "int_values (es p (names p)) = ?vals p" for p by (simp add: values_at_def pl)
  obtain x tables1 m1 where x: "process_column lib bin fresh int_kind IntColumn scan_integers replace_type names tables m = Ret (tables1, m1)"
    "common_of replace_type ?vals x" "\<forall>p < 3. tables1 p = map (filled [(names p, x)]) (tables p)"
  proof -
    have "\<exists>x tables' m'. process_column lib bin fresh int_kind IntColumn scan_integers replace_type names tables m = Ret (tables', m')
        \<and> common_of replace_type ?vals x \<and> (\<forall>p < 3. tables' p = map (filled [(names p, x)]) (tables p))"
    proof (rule process_column_fills [where ns = "names_of places" and es = es])
      show "\<forall>p < 3. text_columns (tables p) (names p # names_of places p) (es p) \<and> magnitude (int_values (es p (names p))) < 2 ^ 63"
        using t(1) part by (simp add: v)
      fix scans and counts :: "nat \<Rightarrow> u32"
      assume "\<forall>p < 3. scan_of (int_values (es p (names p))) (scans p) \<and> counts p = of_nat (length (int_values (es p (names p))))"
      then show "\<exists>x m'. common_value lib bin fresh int_kind replace_type scans counts m = Some (Ret (x, m')) \<and> common_of replace_type ?vals x"
        using common_value_int [OF assms(1-3) _ f(2), of scans counts fresh m] rows f(3) by (simp add: v)
    qed
    with that show ?thesis by blast
  qed
  have "\<forall>p < 3. distinct (names_of places p) \<and> text_columns (tables1 p) (names_of places p) (es p)"
  proof (intro allI impI)
    fix p :: nat
    assume p: "p < 3"
    show "distinct (names_of places p) \<and> text_columns (tables1 p) (names_of places p) (es p)"
      using text_columns_filled [OF t(1,2) [OF p], of x] t(3) [OF p] x(3) p by simp
  qed
  from Cons.IH [OF _ this, of m1] Cons.prems(1) obtain xs tables' m' where
    xs: "process_places lib bin fresh fp dt replace_type places tables1 m1 = Ret (tables', m')"
      "list_all2 (\<lambda>pl x. common_of replace_type (values_at es pl) x) places xs"
      "\<forall>p < 3. tables' p = map (filled (zip (names_of places p) xs)) (tables1 p)" by auto
  have "process_places lib bin fresh fp dt replace_type (pl # places) tables m = Ret (tables', m')"
    using f(1) x(1) xs(1) by (simp add: pl process_place_def)
  moreover have "tables' p = map (filled (zip (names_of (pl # places) p) (x # xs))) (tables p)" if "p < 3" for p
  proof -
    have "length (names_of places p) = length xs" using xs(2) by (simp add: names_of_def list_all2_lengthD)
    then have "names p \<notin> set (map fst (zip (names_of places p) xs))" using t(2) [OF that] by simp
    note once = filled_once [OF this, of x]
    have "names_of (pl # places) p = names p # names_of places p" by (simp add: names_of_def pl)
    then show ?thesis using x(3) xs(3) that by (simp add: once)
  qed
  ultimately show ?case using x(2) xs(2) by (intro exI [of _ "x # xs"] exI [of _ tables'] exI [of _ m']) simp
qed

section \<open>The request\<close>

lemma map_fst_insort: "map fst (insort_key fst d m) = insort (fst d) (map fst m)"
  by (induction m) simp_all

lemma insert_types_all:
  "\<forall>(_, i) \<in> set dts. - (2 ^ 31) \<le> i \<and> i < 2 ^ 31 \<Longrightarrow> distinct (map fst dts) \<Longrightarrow> distinct (map fst m) \<Longrightarrow>
   sorted (map fst m) \<Longrightarrow> fst ` set dts \<inter> fst ` set m = {} \<Longrightarrow>
   \<exists>m'. insert_types (map (\<lambda>(c, i). (c, JInt i)) dts) m = Ret m' \<and> distinct (map fst m') \<and> sorted (map fst m')
     \<and> set m' = set m \<union> (\<lambda>(c, i). (c, word_of_int i)) ` set dts"
proof (induction dts arbitrary: m)
  case (Cons d dts)
  obtain c i where d: "d = (c, i)" by (cases d)
  let ?m = "insort_key fst (c, word_of_int i :: u32) m"
  have c: "c \<notin> fst ` set m" "c \<notin> fst ` set dts" using Cons.prems d by (auto simp: image_iff)
  have "distinct (map fst ?m)" using c(1) Cons.prems(3) by (simp add: map_fst_insort distinct_insort)
  moreover have "sorted (map fst ?m)" using Cons.prems(4) by (simp add: sorted_insort_key)
  moreover have "fst ` set dts \<inter> fst ` set ?m = {}" using Cons.prems(5) c d by (auto simp: set_insort_key)
  ultimately have "\<exists>m'. insert_types (map (\<lambda>(c, i). (c, JInt i)) dts) ?m = Ret m' \<and> distinct (map fst m') \<and> sorted (map fst m')
     \<and> set m' = set ?m \<union> (\<lambda>(c, i). (c, word_of_int i)) ` set dts"
    using Cons.prems(1,2) d by (intro Cons.IH) auto
  moreover have "map_of m c = None" using c(1) by (simp add: map_of_eq_None_iff)
  ultimately show ?case using Cons.prems(1) by (auto simp: d set_insort_key)
qed simp

text \<open>
  A request about the columns of the party's dataset, whose types are given by numbers, and the way of
  replacing; the dataset is not a database.
\<close>

definition missing_request ::
  "'d missing_env \<Rightarrow> party_config \<Rightarrow> task_config \<Rightarrow> (string \<times> int) list \<Rightarrow> string \<Rightarrow> 'd mtable \<Rightarrow> string \<Rightarrow> bool" where
  "missing_request env c task dts replace_type table path \<longleftrightarrow>
     ExtractProxyNode task \<noteq> None \<and> distinct (map fst dts) \<and> (\<forall>(_, i) \<in> set dts. - (2 ^ 31) \<le> i \<and> i < 2 ^ 31)
     \<and> text_param task ''Replace_Type'' = replace_type \<and> replace_type \<noteq> []
     \<and> (\<exists>ds_path ds detail doc info newid pth.
          statistics_dataset (pc_party_name c) task = Some (ds_path, ds, detail) \<and> \<not> prefix ''sqlite'' ds_path
          \<and> (\<forall>cols. me_read_csv env ds detail cols = Ret (Some table))
          \<and> js_parse (me_json env) (text_param task ''ColumnInfo'') = Some (JObj doc) \<and> map_of doc ds_path = Some (JObj info)
          \<and> map_of info ''columns'' = Some (JObj (map (\<lambda>(c, i). (c, JInt i)) dts))
          \<and> map_of info ''newDataSetId'' = Some (JStr newid) \<and> map_of info ''outputFilePath'' = Some (JStr pth)
          \<and> path = CompletePath (me_storage env) pth)"

lemma missing_prepared:
  assumes "new_missing c = Ret st" "missing_request env c task dts replace_type table path" "table \<noteq> []" "0 < num_rows table"
    "\<forall>(_, c) \<in> set table. column_chunks c = [num_rows table]"
  shows "\<exists>st'. run_steps (prepare_steps (missing env execute) task) st = Ret (SUCCESS, st') \<and> mv_table st' = Some table
    \<and> mv_replace st' = replace_type \<and> mv_new_path st' = path \<and> mv_files st' = []
    \<and> distinct (map fst (mv_types st')) \<and> sorted (map fst (mv_types st'))
    \<and> set (mv_types st') = (\<lambda>(c, i). (c, word_of_int i)) ` set dts"
proof -
  obtain i where i: "SelfPartyId c = Ret i" "st = \<lparr>mv_config = c, mv_party_id = i, mv_types = [], mv_data_path = [], mv_dataset_id = [],
      mv_detail = False, mv_replace = [], mv_conn_info = [], mv_table = None, mv_use_db = False, mv_table_name = [], mv_new_id = [],
      mv_new_path = [], mv_links = None, mv_files = [], mv_registered = []\<rparr>"
    using assms(1) by (auto simp: new_missing_def cbind_Ret_iff)
  obtain ds_path ds detail doc info newid pth where r:
    "statistics_dataset (pc_party_name c) task = Some (ds_path, ds, detail)" "\<not> prefix ''sqlite'' ds_path"
    "\<forall>cols. me_read_csv env ds detail cols = Ret (Some table)"
    "js_parse (me_json env) (text_param task ''ColumnInfo'') = Some (JObj doc)" "map_of doc ds_path = Some (JObj info)"
    "map_of info ''columns'' = Some (JObj (map (\<lambda>(c, i). (c, JInt i)) dts))"
    "map_of info ''newDataSetId'' = Some (JStr newid)" "map_of info ''outputFilePath'' = Some (JStr pth)"
    "path = CompletePath (me_storage env) pth"
    using assms(2) unfolding missing_request_def by blast
  obtain proxy where p: "ExtractProxyNode task = Some proxy" using assms(2) by (auto simp: missing_request_def)
  have d: "\<forall>(_, i) \<in> set dts. - (2 ^ 31) \<le> i \<and> i < 2 ^ 31" "distinct (map fst dts)" "text_param task ''Replace_Type'' = replace_type"
    "replace_type \<noteq> []" using assms(2) by (simp_all add: missing_request_def)
  from insert_types_all [OF d(1,2), of "[]"] obtain types where types: "insert_types (map (\<lambda>(c, i). (c, JInt i)) dts) [] = Ret types"
    "distinct (map fst types)" "sorted (map fst types)" "set types = (\<lambda>(c, i). (c, word_of_int i)) ` set dts" by auto
  let ?st = "st\<lparr>mv_detail := detail, mv_dataset_id := ds, mv_replace := replace_type, mv_data_path := ds_path, mv_types := types,
    mv_new_id := newid, mv_new_path := path\<rparr>"
  have l: "missing_loadParams env task st = Ret (0, ?st)"
    using p r d(3,4) types(1)
    by (simp add: missing_loadParams_def parse_source_def parse_column_info_def member_def member_at_def json_text_def i(2) Let_def)
  have "sum_list (column_chunks (snd (last table))) = num_rows table"
    "\<not> (\<exists>(_, c) \<in> set table. sum_list (column_chunks c) \<noteq> num_rows table)"
    using assms(3,5) last_in_set [OF assms(3)] by (auto simp: case_prod_unfold)
  then have ld: "missing_loadDataset env ?st = Ret (0, ?st\<lparr>mv_table := Some table\<rparr>)"
    using r(3) assms(3,4) by (simp add: missing_loadDataset_def missing_LoadDatasetFromCSV_def i(2) Let_def)
  obtain ls where ls: "initPartyComm c = Ret ls"
    using i(1) by (auto simp: initPartyComm_def NextPartyId_def PrevPartyId_def Let_def)
  show ?thesis
    using l ld ls types(2-4) by (simp add: prepare_steps_def missing_def i(2))
qed

section \<open>The three parties\<close>

text \<open>
  The three parties before a task that replaces by \<open>replace_type\<close>: their requests, tables with the entries \<open>es\<close>, and
  where they save them. The columns of a party are sorted by name, and those at one place have the same type.
\<close>

definition missing_columns :: "(string \<times> int) list \<Rightarrow> string list" where
  "missing_columns dts = sort (map fst dts)"

definition missing_parties ::
  "(nat \<Rightarrow> 'd missing_env) \<Rightarrow> (nat \<Rightarrow> task_config) \<Rightarrow> (nat \<Rightarrow> 'd missing) \<Rightarrow> (nat \<Rightarrow> (string \<times> int) list) \<Rightarrow> int list \<Rightarrow> string
   \<Rightarrow> (nat \<Rightarrow> 'd mtable) \<Rightarrow> (nat \<Rightarrow> string) \<Rightarrow> (nat \<Rightarrow> string \<Rightarrow> string option list) \<Rightarrow> bool" where
  "missing_parties env task sts dts types replace_type tables path es \<longleftrightarrow> (\<forall>p < 3.
     (\<exists>c. new_missing c = Ret (sts p) \<and> missing_request (env p) c (task p) (dts p) replace_type (tables p) (path p))
     \<and> (\<forall>f t. me_write (env p) f t = 0) \<and> map (\<lambda>n. the (map_of (dts p) n)) (missing_columns (dts p)) = types
     \<and> tables p \<noteq> [] \<and> 0 < num_rows (tables p) \<and> text_columns (tables p) (missing_columns (dts p)) (es p))"

lemma sorted_types:
  assumes "distinct (map fst ts)" "sorted (map fst ts)" "distinct (map fst dts)"
    "set ts = (\<lambda>(c, i). (c, word_of_int i :: u32)) ` set dts"
  shows "ts = map (\<lambda>n. (n, word_of_int (the (map_of dts n)))) (missing_columns dts)"
proof -
  have "set (map fst ts) = set (missing_columns dts)"
    by (auto simp: assms(4) missing_columns_def image_image case_prod_unfold image_iff)
  then have names: "map fst ts = missing_columns dts"
    using assms(1-3) by (intro sorted_distinct_set_unique) (simp_all add: missing_columns_def)
  have "t = (fst t, word_of_int (the (map_of dts (fst t))))" if "t \<in> set ts" for t
  proof -
    obtain c i where "(c, i) \<in> set dts" "t = (c, word_of_int i)" using \<open>t \<in> set ts\<close> assms(4) by auto
    then show ?thesis using assms(3) by simp
  qed
  then have "ts = map (\<lambda>t. (fst t, word_of_int (the (map_of dts (fst t))))) ts" by (simp add: list.map_ident_strong)
  also have "\<dots> = map (\<lambda>n. (n, word_of_int (the (map_of dts n)))) (map fst ts)" by (simp add: o_def)
  finally show ?thesis by (simp only: names)
qed

lemma each_party_Ret:
  assumes "\<forall>p < 3. f p = Ret (g p)"
  shows "\<exists>h. each_party f = Ret h \<and> (\<forall>p < 3. h p = g p)"
  unfolding each_party_def by (rule jointly_Ret_all) (use assms in simp)

lemma missing_execute_fills:
  assumes "share_laws lib" "msb_laws bin" "replace_type \<in> {''MAX'', ''MIN'', ''AVG''}"
    "\<forall>p < 3. mv_types (sts p) = zip (columns p) types \<and> length (columns p) = length types
       \<and> mv_replace (sts p) = replace_type \<and> mv_table (sts p) = Some (tables p)
       \<and> distinct (columns p) \<and> text_columns (tables p) (columns p) (es p)"
    "\<forall>i < length types. fillable es (types ! i, \<lambda>p. columns p ! i)"
  shows "\<exists>out xs. missing_execute lib bin fresh fp dt sts m = Ret out \<and> length xs = length types
    \<and> (\<forall>i < length types. common_of replace_type (\<lambda>p. int_values (es p (columns p ! i))) (xs ! i))
    \<and> (\<forall>p < 3. out p = (0, (sts p)\<lparr>mv_table := Some (map (filled (zip (columns p) xs)) (tables p))\<rparr>))"
proof -
  let ?n = "length types"
  let ?places = "map (\<lambda>i. (snd (mv_types (sts 0) ! i), \<lambda>p. fst (mv_types (sts p) ! i))) [0..<?n]"
  have ty: "mv_types (sts p) = zip (columns p) types" "length (columns p) = ?n" if "p < 3" for p using assms(4) that by blast+
  have next_below: "(p + 1) mod 3 < (3 :: nat)" "(p + 2) mod 3 < (3 :: nat)" for p by simp_all
  have "\<forall>p < 3. same_number_of_columns (\<lambda>p. length (mv_types (sts p))) p = Ret ()"
    using ty next_below by (simp add: same_number_of_columns_def Let_def)
  from each_party_Ret [OF this] obtain u1 where u1: "each_party (same_number_of_columns (\<lambda>p. length (mv_types (sts p)))) = Ret u1" by blast
  have "\<forall>p < 3. same_types_of_columns (\<lambda>p. map snd (mv_types (sts p))) p = Ret ()"
    using ty next_below by (simp add: same_types_of_columns_def Let_def)
  from each_party_Ret [OF this] obtain u2 where u2: "each_party (same_types_of_columns (\<lambda>p. map snd (mv_types (sts p)))) = Ret u2" by blast
  have names: "names_of ?places p = columns p" if "p < 3" for p
    using ty [OF that] by (intro nth_equalityI) (simp_all add: names_of_def)
  have vals: "everything (values_at es (?places ! i)) = everything (\<lambda>p. int_values (es p (columns p ! i)))"
    "\<forall>p < 3. values_at es (?places ! i) p = int_values (es p (columns p ! i))" "fst (?places ! i) = types ! i" if "i < ?n" for i
    using that ty [of 0] ty [of 1] ty [of 2] ty by (simp_all add: everything_def values_at_def)
  have same: "common_of replace_type (values_at es (?places ! i)) x = common_of replace_type (\<lambda>p. int_values (es p (columns p ! i))) x"
    if "i < ?n" for i x by (simp only: common_of_def vals(1) [OF that])
  have "\<forall>pl \<in> set ?places. fillable es pl"
    unfolding all_set_conv_all_nth
  proof (intro allI impI)
    fix i
    assume "i < length ?places"
    then have i: "i < ?n" by simp
    have f: "fillable es (types ! i, \<lambda>p. columns p ! i)" using assms(5) i by blast
    have e: "everything (values_at es (types ! i, \<lambda>p. columns p ! i)) = everything (\<lambda>p. int_values (es p (columns p ! i)))"
      by (simp add: everything_def values_at_def)
    have "magnitude (everything (\<lambda>p. int_values (es p (columns p ! i)))) < 2 ^ 62" using f unfolding fillable_def e by blast
    moreover have "values_at es (?places ! i) p \<noteq> []" if p: "p < 3" for p
    proof -
      have q: "values_at es (?places ! i) p = int_values (es p (columns p ! i))" using vals(2) [OF i] p by blast
      have "int_values (es p (columns p ! i)) \<noteq> []" using f p by (simp add: fillable_def values_at_def)
      then show ?thesis by (subst q)
    qed
    moreover have "types ! i = 1 \<or> types ! i = 3" using f by (simp add: fillable_def)
    ultimately show "fillable es (?places ! i)" unfolding fillable_def vals(1,3) [OF i] by blast
  qed
  moreover have "\<forall>p < 3. distinct (names_of ?places p) \<and> text_columns (the (mv_table (sts p))) (names_of ?places p) (es p)"
    using assms(4) names by simp
  ultimately obtain xs tables' m' where xs:
    "process_places lib bin fresh fp dt replace_type ?places (\<lambda>p. the (mv_table (sts p))) m = Ret (tables', m')"
    "list_all2 (\<lambda>pl x. common_of replace_type (values_at es pl) x) ?places xs"
    "\<forall>p < 3. tables' p = map (filled (zip (names_of ?places p) xs)) (the (mv_table (sts p)))"
    using places_filled [OF assms(1-3), of ?places es "\<lambda>p. the (mv_table (sts p))" fresh fp dt m] by blast
  have len: "length xs = ?n" using list_all2_lengthD [OF xs(2)] by simp
  have ok: "all_parties (\<lambda>p. mv_replace (sts p) = mv_replace (sts 0) \<and> mv_table (sts p) \<noteq> None)"
    using assms(4) by (simp add: all_parties_def)
  have r0: "mv_replace (sts 0) = replace_type" "length (mv_types (sts 0)) = ?n" using assms(4) by simp_all
  let ?out = "\<lambda>p. (0 :: int, (sts p)\<lparr>mv_table := Some (tables' p)\<rparr>)"
  have "missing_execute lib bin fresh fp dt sts m = Ret ?out"
    using ok xs(1) by (simp add: missing_execute_def Let_def u1 u2 r0)
  moreover have "\<forall>i < ?n. common_of replace_type (\<lambda>p. int_values (es p (columns p ! i))) (xs ! i)"
    using list_all2_nthD [OF xs(2)] same by simp
  moreover have "\<forall>p < 3. ?out p = (0, (sts p)\<lparr>mv_table := Some (map (filled (zip (columns p) xs)) (tables p))\<rparr>)"
    using xs(3) names assms(4) by simp
  ultimately show ?thesis using len by (intro exI [of _ ?out] exI [of _ xs]) blast
qed

text \<open>
  C10: a task over columns of integers that replaces by the greatest, least or average value ends with success at all
  three parties. Each writes its table with the columns of the request filled: a valid entry stays the
  number that it is, and every other entry becomes the value that all valid entries of the three columns at
  that place have in common.
\<close>

theorem missing_values_filled:
  assumes "share_laws lib" "msb_laws bin" "replace_type \<in> {''MAX'', ''MIN'', ''AVG''}"
    "missing_parties env task sts dts types replace_type tables path es"
    "\<forall>i < length types. (types ! i = 1 \<or> types ! i = 3)
       \<and> (\<forall>p < 3. int_values (es p (missing_columns (dts p) ! i)) \<noteq> [])
       \<and> magnitude (everything (\<lambda>p. int_values (es p (missing_columns (dts p) ! i)))) < 2 ^ 62"
  shows "\<exists>out xs. missing_task lib bin fresh fp dt env task sts m = Ret out \<and> length xs = length types
    \<and> (\<forall>i < length types. common_of replace_type (\<lambda>p. int_values (es p (missing_columns (dts p) ! i))) (xs ! i))
    \<and> (\<forall>p < 3. fst (out p) = SUCCESS
         \<and> mv_files (snd (out p)) = [(path p, map (filled (zip (missing_columns (dts p)) xs)) (tables p))])"
proof -
  let ?cols = "\<lambda>p. missing_columns (dts p)"
  let ?prep = "\<lambda>p. run_steps (prepare_steps (missing (env p) (\<lambda>st. Ret (0, st))) (task p)) (sts p)"
  let ?words = "map word_of_int types :: u32 list"
  have each: "\<exists>st'. ?prep p = Ret (SUCCESS, st') \<and> mv_table st' = Some (tables p) \<and> mv_replace st' = replace_type \<and> mv_new_path st' = path p
      \<and> mv_files st' = [] \<and> mv_types st' = zip (?cols p) ?words" if p: "p < 3" for p
  proof -
    obtain c where c: "new_missing c = Ret (sts p)" "missing_request (env p) c (task p) (dts p) replace_type (tables p) (path p)"
      "tables p \<noteq> []" "0 < num_rows (tables p)" "\<forall>(_, c) \<in> set (tables p). column_chunks c = [num_rows (tables p)]"
      "map (\<lambda>n. the (map_of (dts p) n)) (?cols p) = types"
      using assms(4) p unfolding missing_parties_def text_columns_def by blast
    have "distinct (map fst (dts p))" using c(2) by (simp add: missing_request_def)
    moreover have "map (\<lambda>n. (n, word_of_int (the (map_of (dts p) n)) :: u32)) (?cols p) = zip (?cols p) ?words"
      unfolding c(6) [symmetric] by (intro nth_equalityI) simp_all
    ultimately show ?thesis
      using missing_prepared [OF c(1-5), of "\<lambda>st. Ret (0, st)"] sorted_types [of _ "dts p"] by (metis (no_types, lifting))
  qed
  have "\<forall>p. \<exists>st'. p < 3 \<longrightarrow> ?prep p = Ret (SUCCESS, st') \<and> mv_table st' = Some (tables p) \<and> mv_replace st' = replace_type
      \<and> mv_new_path st' = path p \<and> mv_files st' = [] \<and> mv_types st' = zip (?cols p) ?words"
    using each by blast
  from choice [OF this] obtain ready where ready: "p < 3 \<Longrightarrow> ?prep p = Ret (SUCCESS, ready p)" "p < 3 \<Longrightarrow> mv_table (ready p) = Some (tables p)"
    "p < 3 \<Longrightarrow> mv_replace (ready p) = replace_type" "p < 3 \<Longrightarrow> mv_new_path (ready p) = path p" "p < 3 \<Longrightarrow> mv_files (ready p) = []"
    "p < 3 \<Longrightarrow> mv_types (ready p) = zip (?cols p) ?words" for p by blast
  have "\<forall>p < 3. ?prep p = Ret (SUCCESS, ready p)" using ready(1) by blast
  from jointly_Ret_all [OF this] obtain views where
    views: "jointly ?prep = Ret views" "\<forall>p < 3. views p = (SUCCESS, ready p)" by blast
  have cols: "length (?cols p) = length ?words" "distinct (?cols p)" "text_columns (tables p) (?cols p) (es p)" if p: "p < 3" for p
  proof -
    obtain c where c: "missing_request (env p) c (task p) (dts p) replace_type (tables p) (path p)"
      "map (\<lambda>n. the (map_of (dts p) n)) (?cols p) = types" "text_columns (tables p) (?cols p) (es p)"
      using assms(4) p unfolding missing_parties_def by blast
    show "length (?cols p) = length ?words" using c(2) by (metis length_map)
    have "distinct (map fst (dts p))" using c(1) by (simp add: missing_request_def)
    then show "distinct (?cols p)" by (simp add: missing_columns_def)
    show "text_columns (tables p) (?cols p) (es p)" by (rule c(3))
  qed
  obtain out1 xs where out1: "missing_execute lib bin fresh fp dt (\<lambda>p. snd (views p)) m = Ret out1" "length xs = length ?words"
    "\<forall>i < length ?words. common_of replace_type (\<lambda>p. int_values (es p (?cols p ! i))) (xs ! i)"
    "\<forall>p < 3. out1 p = (0, (snd (views p))\<lparr>mv_table := Some (map (filled (zip (?cols p) xs)) (tables p))\<rparr>)"
  proof -
    have a: "\<forall>p < 3. mv_types (snd (views p)) = zip (?cols p) ?words \<and> length (?cols p) = length ?words
       \<and> mv_replace (snd (views p)) = replace_type \<and> mv_table (snd (views p)) = Some (tables p)
       \<and> distinct (?cols p) \<and> text_columns (tables p) (?cols p) (es p)"
      using ready views(2) cols by simp
    have "\<forall>i < length ?words. fillable es (?words ! i, \<lambda>p. ?cols p ! i)"
      using assms(5) by (auto simp: fillable_def values_at_def [abs_def])
    from missing_execute_fills [OF assms(1-3) a this, of fresh fp dt m] that show thesis by blast
  qed
  let ?save = "\<lambda>p. run_steps [\<lambda>_. Ret (out1 p), missing_saveModel (env p)] (snd (out1 p))"
  have "\<exists>st. ?save p = Ret (SUCCESS, st) \<and> mv_files st = [(path p, map (filled (zip (?cols p) xs)) (tables p))]" if "p < 3" for p
  proof -
    have "me_write (env p) f t = 0" for f t using assms(4) that unfolding missing_parties_def by blast
    then show ?thesis using out1(4) views(2) ready(4,5) that by (simp add: missing_saveModel_def)
  qed
  then obtain fin where fin: "p < 3 \<Longrightarrow> ?save p = Ret (SUCCESS, fin p)"
    "p < 3 \<Longrightarrow> mv_files (fin p) = [(path p, map (filled (zip (?cols p) xs)) (tables p))]" for p by metis
  have "\<forall>p < 3. ?save p = Ret (SUCCESS, fin p)" using fin(1) by blast
  from jointly_Ret_all [OF this] obtain out where out: "jointly ?save = Ret out" "\<forall>p < 3. out p = (SUCCESS, fin p)" by blast
  have "all_parties (\<lambda>p. fst (views p) = SUCCESS)" using views(2) by (simp add: all_parties_def)
  then have "missing_task lib bin fresh fp dt env task sts m = Ret out"
    using views(1) out1(1) out(1) by (simp add: missing_task_def)
  then show ?thesis using out1(2,3) out(2) fin(2) by (intro exI [of _ out] exI [of _ xs]) simp
qed

section \<open>Where it fails\<close>

lemma same_number_throws:
  assumes "cols 0 \<noteq> cols 1 \<or> cols 0 \<noteq> cols 2" "p < 3"
  shows "same_number_of_columns cols p = Throw ''The target data columns of the three parties are inconsistent!''"
proof -
  have m: "(0 + 1) mod 3 = (1 :: nat)" "(0 + 2) mod 3 = (2 :: nat)" "(1 + 1) mod 3 = (2 :: nat)" "(1 + 2) mod 3 = (0 :: nat)"
    "(2 + 1) mod 3 = (0 :: nat)" "(2 + 2) mod 3 = (1 :: nat)" by simp_all
  from assms(2) consider "p = 0" | "p = 1" | "p = 2" by linarith
  then show ?thesis
    by cases (use assms(1) in \<open>auto simp only: same_number_of_columns_def Let_def m split: if_split\<close>)
qed

text \<open>
  The three parties throw together when they do not have the same number of columns, or when the
  types of the columns at one place differ; no column is filled then.
\<close>

theorem mismatched_columns_throw:
  "(\<exists>p < 3. length (mv_types (sts p)) \<noteq> length (mv_types (sts 0))) \<Longrightarrow>
     missing_execute lib bin fresh fp dt sts m = Throw ''In party 0: The target data columns of the three parties are inconsistent!''
     \<and> (\<forall>p < 3. same_number_of_columns (\<lambda>p. length (mv_types (sts p))) p
          = Throw ''The target data columns of the three parties are inconsistent!'')"
proof -
  let ?cols = "\<lambda>p. length (mv_types (sts p))"
  assume "\<exists>p < 3. ?cols p \<noteq> ?cols 0"
  then have "\<not> (\<forall>p < 3. ?cols p = ?cols 0)" by blast
  then have d: "?cols 0 \<noteq> ?cols 1 \<or> ?cols 0 \<noteq> ?cols 2" unfolding all_below_3 by metis
  note t = same_number_throws [OF d]
  have "dec_string 0 = ''0''" by code_simp
  then have "each_party (same_number_of_columns ?cols) = Throw ''In party 0: The target data columns of the three parties are inconsistent!''"
    using t [of 0] by (simp add: each_party_def jointly_def)
  then show ?thesis using t by (simp add: missing_execute_def Let_def)
qed

text \<open>
  C11: when the greatest value is asked for and the first party has no valid entry, while the others have one above
  zero, the missing entries of all three become the least 64-bit integer: it stands for the party's greatest
  value, and the difference from a number above zero overflows.
\<close>

theorem party_without_values_spoils_maximum:
  assumes "share_laws lib" "msb_laws bin"
    "\<forall>p < 3. text_columns (tables p) [names p] (es p) \<and> magnitude (int_values (es p (names p))) < 2 ^ 63"
    "int_values (es 0 (names 0)) = []"
    "\<forall>p \<in> {1, 2}. \<exists>y \<in> set (int_values (es p (names p))). 0 < sint y"
  shows "\<exists>tables' m'. process_column lib bin fresh int_kind IntColumn scan_integers ''MAX'' names tables m = Ret (tables', m')
    \<and> (\<forall>p < 3. tables' p = map (filled [(names p, word_of_int (- (2 ^ 63)))]) (tables p))"
proof -
  let ?low = "word_of_int (- (2 ^ 63)) :: i64"
  have low: "nk_low int_kind = ?low" by (simp add: int_kind_def)
  have "\<exists>x tables' m'. process_column lib bin fresh int_kind IntColumn scan_integers ''MAX'' names tables m = Ret (tables', m')
      \<and> x = ?low \<and> (\<forall>p < 3. tables' p = map (filled [(names p, x)]) (tables p))"
  proof (rule process_column_fills [where ns = "\<lambda>p. []" and es = es, OF assms(3)])
    fix scans and counts :: "nat \<Rightarrow> u32"
    assume s: "\<forall>p < 3. scan_of (int_values (es p (names p))) (scans p) \<and> counts p = of_nat (length (int_values (es p (names p))))"
    let ?v = "\<lambda>p. sc_max (scans p)"
    let ?ms = "\<lambda>p. one_by_one (nk_share int_kind (?v p))"
    have v0: "?v 0 = ?low" using s assms(4) by (simp add: scan_of_def low)
    have pos: "0 < sint (?v p)" if p: "p \<in> {1, 2}" for p
    proof -
      obtain y where y: "y \<in> set (int_values (es p (names p)))" "0 < sint y" using assms(5) p by blast
      moreover have "scan_of (int_values (es p (names p))) (scans p)" using s p by auto
      ultimately have "sint y \<le> sint (?v p)" unfolding scan_of_def by fastforce
      with y(2) show ?thesis by linarith
    qed
    have less: "((sint ?low < sint (?v p)) = difference_fits ?low (?v p)) = False" if "p \<in> {1, 2}" for p
      using pos [OF that] unfolding difference_fits_def limits(1) by auto
    obtain ms1 m1 where 1: "compare_pair bin fresh 0 1 ?ms m = Ret (False, ms1, m1)" "\<forall>r < 3. ms1 r = ?ms r"
      using compare_pair_any [OF assms(2), of 2 ?ms "?v 0" "?v 1" fresh m] less [of 1]
      by (auto simp: provider_1_def provider_2_def int_kind_sel v0)
    obtain ms2 m2 where 2: "compare_pair bin fresh 0 2 ms1 m1 = Ret (False, ms2, m2)" "\<forall>r < 3. ms2 r = ms1 r"
      using compare_pair_any [OF assms(2), of 1 ms1 "?v 0" "?v 2" fresh m1] 1(2) less [of 2]
      by (auto simp: provider_1_def provider_2_def int_kind_sel v0)
    have "greatest_party bin fresh ?ms m = Ret (0, ms2, m2)" using 1(1) 2(1) by (simp add: greatest_party_def)
    moreover have "ms2 0 = one_by_one ?low" using 1(2) 2(2) v0 by (simp add: int_kind_sel)
    moreover obtain m3 where "open_value lib int_kind (one_by_one ?low) m2 = Ret (?low, m3)"
      using open_value_run [OF assms(1), of int_kind ?low m2] by (auto simp: int_kind_sel)
    ultimately show "\<exists>x m'. common_value lib bin fresh int_kind ''MAX'' scans counts m = Some (Ret (x, m')) \<and> x = ?low"
      by (simp add: common_value_def greatest_value_def)
  qed
  then show ?thesis by blast
qed

text \<open>
  C12: a party whose table is one of a database gives up before the others are asked anything: the parts of
  the data path are understood, but nothing can be read.
\<close>

theorem database_never_read:
  assumes "new_missing c = Ret st"
    "statistics_dataset (pc_party_name c) task = Some (join_with ''#'' (driver # db # tab # rest), ds, detail)"
    "prefix ''sqlite'' driver" "\<forall>w \<in> {driver, db, tab} \<union> set rest. CHR ''#'' \<notin> set w"
    "missing_loadParams env task st = Ret (0, st')"
  shows "mv_data_path st' = db \<and> mv_table_name st' = tab \<and> ExecuteImpl (missing env execute) task st = Ret (FAIL, st')"
proof -
  let ?path = "join_with ''#'' (driver # db # tab # rest)"
  have c: "mv_config st = c" using assms(1) by (auto simp: new_missing_def cbind_Ret_iff)
  have "prefix ''sqlite'' ?path" using assms(3) by (auto simp: prefix_def)
  moreover have "spiltStr ?path ''#'' = Some (driver # db # tab # rest)"
    by (rule spiltStr_join) (use assms(4) in auto)
  ultimately have p: "parse_source ?path x = Ret (x\<lparr>mv_use_db := True, mv_conn_info := ?path, mv_data_path := db, mv_table_name := tab\<rparr>)" for x
    by (simp add: parse_source_def Let_def)
  have keep: "mv_data_path b = mv_data_path a \<and> mv_table_name b = mv_table_name a \<and> mv_use_db b = mv_use_db a"
    if "parse_column_info js storage json_str a = Ret b" for js storage json_str and a b :: "'b missing"
    using that by (auto simp: parse_column_info_def cbind_Ret_iff Let_def split: option.splits)
  obtain proxy where e: "ExtractProxyNode task = Some proxy"
    using assms(5) by (auto simp: missing_loadParams_def split: option.splits)
  let ?x = "st\<lparr>mv_detail := detail, mv_dataset_id := ds,
    mv_replace := (if text_param task ''Replace_Type'' = [] then ''MAX'' else text_param task ''Replace_Type''),
    mv_use_db := True, mv_conn_info := ?path, mv_data_path := db, mv_table_name := tab\<rparr>"
  have "parse_column_info (me_json env) (me_storage env) (text_param task ''ColumnInfo'') ?x = Ret st'"
    using assms(5) by (auto simp: missing_loadParams_def e c assms(2) p cbind_Ret_iff Let_def simp del: join_with.simps)
  from keep [OF this] have "mv_data_path st' = db \<and> mv_table_name st' = tab \<and> mv_use_db st'" by simp
  then show ?thesis
    using assms(5) by (simp add: ExecuteImpl_def prepare_steps_def missing_def missing_loadDataset_def LoadDatasetFromDB_def sqlite_read_def)
qed

section \<open>Instances\<close>

definition demo_text :: "int double_text" where
  "demo_text = \<lparr>dt_stod = (\<lambda>_. NotANumber), dt_to_string = (\<lambda>_. [])\<rparr>"

definition demo_entries :: "nat \<Rightarrow> string option list" where
  "demo_entries p = (if p = 0 then [Some ''5'', None, Some ''n/a''] else if p = 1 then [Some ''-7'', Some ''1'', None]
     else [Some ''12'', Some ''3'', Some ''4''])"

definition demo_texts :: "(nat \<Rightarrow> string option list) \<Rightarrow> nat \<Rightarrow> int mtable" where
  "demo_texts es p = [(''x'', TextColumn [es p]), (''name'', OtherColumn [length (es p)])]"

definition demo_missing_task :: "string \<Rightarrow> string \<Rightarrow> task_config" where
  "demo_missing_task replace_type ds = demo_stat_task\<lparr>
     tk_params := map_option (\<lambda>s. \<lparr>pm_is_array = False, pm_value = PvString s\<rparr>) \<circ>
       map_of [(''Replace_Type'', replace_type), (''ColumnInfo'', ''columns'')],
     tk_datasets := map (\<lambda>p. (p, \<lparr>pd_data = [(''Data_File'', ds)], pd_detail = False\<rparr>)) [''A'', ''B'', ''C'']\<rparr>"

definition demo_missing_env :: "nat \<Rightarrow> int missing_env" where
  "demo_missing_env p = \<lparr>me_json = \<lparr>js_dump = (\<lambda>_. None), js_parse = map_of
       [(''columns'', JObj [(''ds'', JObj [(''columns'', JObj [(''x'', JInt 3)]), (''newDataSetId'', JStr ''out''),
           (''outputFilePath'', JStr ''out.csv'')])])]\<rparr>,
     me_read_csv = (\<lambda>_ _ _. Ret (Some (demo_texts demo_entries p))), me_storage = ''/data'', me_write = (\<lambda>_ _. 0)\<rparr>"

lemma demo_ints:
  "strToInt64 ''5'' = Inr 5" "strToInt64 ''n/a'' = Inl (-1)" "strToInt64 ''-7'' = Inr (-7)" "strToInt64 ''1'' = Inr 1"
  "strToInt64 ''12'' = Inr 12" "strToInt64 ''3'' = Inr 3" "strToInt64 ''4'' = Inr 4"
  by code_simp+

lemma demo_int_values:
  "int_values (demo_entries 0) = [5]" "int_values (demo_entries 1) = [- 7, 1]" "int_values (demo_entries 2) = [12, 3, 4]"
  by (simp_all add: demo_entries_def int_kind_sel demo_ints)

lemma demo_text_columns: "length (es p) < 2 ^ 31 \<Longrightarrow> text_columns (demo_texts es p) [''x''] (\<lambda>c. es p)"
  by (simp add: text_columns_def demo_texts_def num_rows_def)

lemma demo_missing_columns: "missing_columns [(''x'', 3 :: int)] = [''x'']"
  by (simp add: missing_columns_def)

lemma demo_missing_parties:
  "\<exists>sts. missing_parties demo_missing_env (\<lambda>p. demo_missing_task ''AVG'' ''ds'') sts (\<lambda>p. [(''x'', 3)]) [3] ''AVG'' (demo_texts demo_entries)
     (\<lambda>p. ''/data/out.csv'') (\<lambda>p c. demo_entries p)"
proof -
  have "\<exists>a :: int missing. new_missing (demo_party p) = Ret a" for p by (simp add: new_missing_def SelfPartyId_def demo_party_def)
  then obtain sts :: "nat \<Rightarrow> int missing" where sts: "\<And>p. new_missing (demo_party p) = Ret (sts p)" by metis
  have "missing_request (demo_missing_env p) (demo_party p) (demo_missing_task ''AVG'' ''ds'') [(''x'', 3)] ''AVG'' (demo_texts demo_entries p)
      ''/data/out.csv''" if p: "p < 3" for p
  proof -
    let ?info = "[(''columns'', JObj [(''x'', JInt 3)]), (''newDataSetId'', JStr ''out''), (''outputFilePath'', JStr ''out.csv'')]"
    have "statistics_dataset (pc_party_name (demo_party p)) (demo_missing_task ''AVG'' ''ds'') = Some (''ds'', ''ds'', False)"
      by (simp add: statistics_dataset_def demo_party_def demo_missing_task_def demo_stat_task_def)
    moreover have "text_param (demo_missing_task ''AVG'' ''ds'') ''ColumnInfo'' = ''columns''"
      "text_param (demo_missing_task ''AVG'' ''ds'') ''Replace_Type'' = ''AVG''" "ExtractProxyNode (demo_missing_task ''AVG'' ''ds'') \<noteq> None"
      by (simp_all add: text_param_def demo_missing_task_def demo_stat_task_def param_string_def ExtractProxyNode_def)
    moreover have "js_parse (me_json (demo_missing_env p)) ''columns'' = Some (JObj [(''ds'', JObj ?info)])"
      "me_storage (demo_missing_env p) = ''/data''" "\<forall>cols. me_read_csv (demo_missing_env p) ds b cols = Ret (Some (demo_texts demo_entries p))"
      for ds b by (simp_all add: demo_missing_env_def)
    ultimately show ?thesis
      unfolding missing_request_def
      by (intro conjI exI [of _ "''ds''"] exI [of _ False] exI [of _ "[(''ds'', JObj ?info)]"] exI [of _ ?info] exI [of _ "''out''"]
          exI [of _ "''out.csv''"]) (simp_all add: CompletePath_def)
  qed
  moreover have "\<forall>f t. me_write (demo_missing_env p) f t = 0" for p by (simp add: demo_missing_env_def)
  moreover have "text_columns (demo_texts demo_entries p) [''x''] (\<lambda>c. demo_entries p)" "demo_texts demo_entries p \<noteq> []"
    "0 < num_rows (demo_texts demo_entries p)" for p
    by (rule demo_text_columns) (simp_all add: demo_entries_def demo_texts_def num_rows_def)
  ultimately have "missing_parties demo_missing_env (\<lambda>p. demo_missing_task ''AVG'' ''ds'') sts (\<lambda>p. [(''x'', 3)]) [3] ''AVG''
      (demo_texts demo_entries) (\<lambda>p. ''/data/out.csv'') (\<lambda>p c. demo_entries p)"
    using sts unfolding missing_parties_def demo_missing_columns by fastforce
  then show ?thesis by blast
qed

theorem missing_values_filled_witness:
  "\<exists>sts out. missing_task demo_aby3 demo_bin (\<lambda>n. []) int_num demo_text demo_missing_env (\<lambda>p. demo_missing_task ''AVG'' ''ds'') sts [] = Ret out
    \<and> mv_files (snd (out 0)) = [(''/data/out.csv'', [(''x'', IntColumn [5, 3, 3]), (''name'', OtherColumn [3])])]"
proof -
  obtain sts where s: "missing_parties demo_missing_env (\<lambda>p. demo_missing_task ''AVG'' ''ds'') sts (\<lambda>p. [(''x'', 3)]) [3] ''AVG''
     (demo_texts demo_entries) (\<lambda>p. ''/data/out.csv'') (\<lambda>p c. demo_entries p)" using demo_missing_parties by blast
  have all: "everything (\<lambda>p. int_values (demo_entries p)) = [5, - 7, 1, 12, 3, 4]"
    unfolding everything_def demo_int_values by simp
  have ne: "\<forall>p < 3. int_values (demo_entries p) \<noteq> []" unfolding all_below_3 demo_int_values by simp
  have h: "\<forall>i < length [3 :: int]. ([3 :: int] ! i = 1 \<or> [3 :: int] ! i = 3) \<and> (\<forall>p < 3. int_values (demo_entries p) \<noteq> [])
      \<and> magnitude (everything (\<lambda>p. int_values (demo_entries p))) < 2 ^ 62"
    using ne unfolding all by simp
  from missing_values_filled [OF demo_share_laws demo_bin_msb _ s h, of "\<lambda>n. []" int_num demo_text "[]"] obtain out xs where
    o: "missing_task demo_aby3 demo_bin (\<lambda>n. []) int_num demo_text demo_missing_env (\<lambda>p. demo_missing_task ''AVG'' ''ds'') sts [] = Ret out"
    "length xs = 1" "common_of ''AVG'' (\<lambda>p. int_values (demo_entries p)) (xs ! 0)"
    "mv_files (snd (out 0)) = [(''/data/out.csv'', map (filled (zip [''x''] xs)) (demo_texts demo_entries 0))]"
    unfolding demo_missing_columns by auto
  have "sint (xs ! 0) = 3" using o(3) unfolding common_of_def all by simp
  then have "sint (xs ! 0) = sint (3 :: i64)" by simp
  then have "xs ! 0 = 3" by (rule signed_word_eqI)
  then have "xs = [3]" using o(2) by (cases xs) auto
  moreover have "map (value_or int_kind 3) (demo_entries 0) = [5, 3, 3]"
    by (simp add: demo_entries_def value_or_def entry_value_def int_kind_sel demo_ints)
  moreover have "length (demo_entries 0) = 3" by (simp add: demo_entries_def)
  ultimately have "mv_files (snd (out 0)) = [(''/data/out.csv'', [(''x'', IntColumn [5, 3, 3]), (''name'', OtherColumn [3])])]"
    using o(4) by (simp add: demo_texts_def)
  with o(1) show ?thesis by blast
qed

theorem mismatched_columns_throw_witness:
  "\<exists>sts :: nat \<Rightarrow> int missing. missing_execute demo_aby3 demo_bin (\<lambda>n. []) int_num demo_text sts []
    = Throw ''In party 0: The target data columns of the three parties are inconsistent!''"
proof -
  obtain st :: "int missing" where "new_missing (demo_party 0) = Ret st" by (simp add: new_missing_def SelfPartyId_def demo_party_def)
  let ?sts = "\<lambda>p :: nat. st\<lparr>mv_types := (if p = 1 then [] else [(''x'', 3)])\<rparr>"
  have "\<exists>p < 3. length (mv_types (?sts p)) \<noteq> length (mv_types (?sts 0))" by (intro exI [of _ 1]) simp
  from mismatched_columns_throw [of ?sts demo_aby3 demo_bin "\<lambda>n. []" int_num demo_text "[]", OF this] show ?thesis by blast
qed

theorem party_without_values_spoils_maximum_witness:
  "\<exists>tables' m'. process_column demo_aby3 demo_bin (\<lambda>n. []) int_kind IntColumn scan_integers ''MAX'' (\<lambda>p. ''x'')
      (demo_texts (\<lambda>p. if p = 0 then [None, Some ''n/a''] else [Some ''5'', None])) [] = Ret (tables', m')
    \<and> snd (hd (tables' 1)) = IntColumn [5, word_of_int (- (2 ^ 63))]"
proof -
  let ?es = "\<lambda>p :: nat. if p = 0 then [None, Some ''n/a''] else [Some ''5'', None]"
  have v: "int_values (?es p) = (if p = 0 then [] else [5])" for p by (simp add: int_kind_sel demo_ints)
  have "\<forall>p < 3. text_columns (demo_texts ?es p) [''x''] (\<lambda>c. ?es p) \<and> magnitude (int_values (?es p)) < 2 ^ 63"
    using demo_text_columns [of ?es] by (simp add: v)
  from party_without_values_spoils_maximum [OF demo_share_laws demo_bin_msb, of "demo_texts ?es" "\<lambda>p. ''x''" "\<lambda>p c. ?es p" "\<lambda>n. []" "[]", OF this]
  obtain tables' m' where t: "process_column demo_aby3 demo_bin (\<lambda>n. []) int_kind IntColumn scan_integers ''MAX'' (\<lambda>p. ''x'')
      (demo_texts ?es) [] = Ret (tables', m')" "\<forall>p < 3. tables' p = map (filled [(''x'', word_of_int (- (2 ^ 63)))]) (demo_texts ?es p)"
    unfolding v by auto
  have "snd (hd (tables' 1)) = IntColumn [5, word_of_int (- (2 ^ 63))]"
    using t(2) by (simp add: demo_texts_def value_or_def entry_value_def int_kind_sel demo_ints)
  with t(1) show ?thesis by blast
qed

theorem database_never_read_witness:
  "\<exists>st st' :: int missing. new_missing (demo_party 0) = Ret st
    \<and> ExecuteImpl (missing (demo_missing_env 0) (\<lambda>_. Undef)) (demo_missing_task ''MAX'' ''sqlite#ds#t'') st = Ret (FAIL, st')"
proof -
  obtain st :: "int missing" where st: "new_missing (demo_party 0) = Ret st" by (simp add: new_missing_def SelfPartyId_def demo_party_def)
  let ?task = "demo_missing_task ''MAX'' ''sqlite#ds#t''"
  have path: "join_with ''#'' (''sqlite'' # ''ds'' # ''t'' # []) = ''sqlite#ds#t''" by simp
  have d: "statistics_dataset (pc_party_name (demo_party 0)) ?task = Some (''sqlite#ds#t'', ''sqlite#ds#t'', False)"
    by (simp add: statistics_dataset_def demo_party_def demo_missing_task_def demo_stat_task_def)
  have t: "text_param ?task ''ColumnInfo'' = ''columns''" "text_param ?task ''Replace_Type'' = ''MAX''" "ExtractProxyNode ?task \<noteq> None"
    by (simp_all add: text_param_def demo_missing_task_def demo_stat_task_def param_string_def ExtractProxyNode_def)
  have "spiltStr ''sqlite#ds#t'' ''#'' = Some [''sqlite'', ''ds'', ''t'']"
    using spiltStr_join [of "[''sqlite'', ''ds'', ''t'']" "CHR ''#''"] by simp
  moreover have "mv_config st = demo_party 0" "mv_types st = []" using st by (auto simp: new_missing_def cbind_Ret_iff)
  ultimately obtain st' where l: "missing_loadParams (demo_missing_env 0) ?task st = Ret (0, st')"
    using d t by (auto simp: missing_loadParams_def parse_source_def parse_column_info_def member_def member_at_def json_text_def
        demo_missing_env_def Let_def split: option.splits)
  from database_never_read [OF st _ _ _ l, of "''sqlite''" "''ds''" "''t''" "[]"] st show ?thesis
    unfolding path d by auto
qed

end
