(* ===== verification/Spec2Isabelle.thy ===== *)
theory Spec2Isabelle
  imports Cond_Queue Channels Grpc_Channel Express_Correct Paillier_Scheme Node_Correct Aby3_Magnitude Aby3_Compare
    Psi_Correct Dataset_Correct Dispatch_Correct Compare_Task Missing_Run
begin

text \<open>
  A model of fediux, a platform in which several parties compute on their data without showing
  it to each other. All paths are under \<^verbatim>\<open>src/src/fediux/\<close>.

  \<^bold>\<open>The program.\<close> A client submits a task to one node. The node looks up where the parties' datasets
  are, and its scheduler sends every party's node a request. Each of these nodes runs the task in a worker
  and reports its state to the scheduling node, which decides when the task is over and tells all nodes
  to stop it if it failed. While the task runs, the parties exchange data through the nodes: a message is put
  into a queue of the receiving task under a key. The tasks run protocols over these messages: private
  set intersection, evaluation of expressions on secret-shared columns with the three-party protocol ABY3,
  or a task in Python that calls the bindings of the same classes. An additively homomorphic Paillier scheme
  is a library of its own.

  \<^bold>\<open>Theories, and the code they model\<close>, from the queue up to the protocols:

  \<^item> \<open>Prelude\<close>: return codes, machine integers, results of C++ code (a value, an exception, or
    undefined behaviour), maps whose \<open>insert\<close> keeps an entry. \<open>Str_Util\<close>, \<open>Node_Common\<close>: splitting, decimal
    numbers and \<open>stoi\<close>, node addresses and their text (\<^verbatim>\<open>common/common.h\<close>, \<^verbatim>\<open>util/util.cc\<close>).
  \<^item> \<open>Threadsafe_Queue\<close>, \<open>Cond_Queue\<close>: \<^verbatim>\<open>util/threadsafe_queue.h\<close>, its operations under the mutex, and
    its condition variable as a step relation over threads that sleep, wake and steal.
  \<^item> \<open>Link_Context\<close>, \<open>Channels\<close>, \<open>Grpc_Channel\<close>: the queues of a task by key, the channels in memory and for
    the protocols' byte streams, and the transport between nodes with its retries and packages
    (\<^verbatim>\<open>util/network\<close>, \<^verbatim>\<open>node/node_interface.cc\<close>).
  \<^item> \<open>Task_Worker\<close>, \<open>Node_Impl\<close>, \<open>Node_Threads\<close>, \<open>Node_Correct\<close>: the worker of a task (\<^verbatim>\<open>node/worker\<close>,
    \<^verbatim>\<open>task/semantic/task.cc\<close>), the node's tables and operations (\<^verbatim>\<open>node/node_impl.cc\<close>), the threads of
    the tasks it executes and of those it schedules as a step relation, and what holds in every reachable state.
  \<^item> \<open>Dataset_Meta\<close>, \<open>Dataset_Service\<close>, \<open>Dataset_Correct\<close>: descriptions of datasets, the services that keep
    them, registration, and the download of files (\<^verbatim>\<open>service/dataset\<close>, \<^verbatim>\<open>node/ds.cc\<close>,
    \<^verbatim>\<open>util/arrow_wrapper_util.cc\<close>).
  \<^item> \<open>Task_Schedule\<close>, \<open>Dispatch_Correct\<close>: from a request to the calls of the parties' nodes
    (\<^verbatim>\<open>task/language\<close>, \<^verbatim>\<open>task/semantic/parser.cc\<close>, \<^verbatim>\<open>task/semantic/scheduler\<close>).
  \<^item> \<open>Psi_Operator\<close>, \<open>Psi_Correct\<close>: the operators of private set intersection
    (\<^verbatim>\<open>kernel/psi/operator\<close>). A party is a program that posts, awaits and ends; two of them with the messages
    between them are a step relation. \<open>Commuting_Steps\<close>: when threads' steps can be exchanged, one
    run that ends shows how all runs end.
  \<^item> \<open>Express_Columns\<close>, \<open>Express_Parse\<close>, \<open>Express_Eval\<close>, \<open>Express_Mpc\<close>, \<open>Express_Local\<close>, \<open>Express_Correct\<close>:
    the expression executors (\<^verbatim>\<open>executor/express.cc\<close>, \<^verbatim>\<open>executor/express.h\<close>): columns, the parser to
    postfix form, the evaluation over a protocol and the local one.
  \<^item> \<open>Aby3_Operator\<close>, \<open>Aby3_Division\<close>, \<open>Aby3_Correct\<close>, \<open>Aby3_Magnitude\<close>, \<open>Aby3_Compare\<close>: the operators on
    shares (\<^verbatim>\<open>operator/aby3_operator.h\<close>, \<^verbatim>\<open>operator/aby3_operator.cc\<close>).
  \<^item> \<open>Mpc_Task\<close>, \<open>Arithmetic_Task\<close>, \<open>Arithmetic_Correct\<close>, \<open>Compare_Task\<close>: the tasks of three parties: who they
    are, the ring of channels between them and the steps of a task (\<^verbatim>\<open>algorithm/base.cc\<close>,
    \<^verbatim>\<open>task/semantic/mpc_task.cc\<close>), and the arithmetic task from the request to the file
    (\<^verbatim>\<open>algorithm/arithmetic.cc\<close>).
  \<^item> \<open>Statistics\<close>, \<open>Statistics_Correct\<close>, \<open>Statistics_Task\<close>, \<open>Statistics_Run\<close>: the executors of sums, averages,
    least and greatest values of the columns of three parties (\<^verbatim>\<open>executor/statistics.cc\<close>), and their task from the
    request to the files (\<^verbatim>\<open>algorithm/mpc_statistics.cc\<close>).
  \<^item> \<open>Missing_Values\<close>, \<open>Missing_Correct\<close>, \<open>Missing_Run\<close>: the task that fills missing values with the greatest, least or
    average value of three parties (\<^verbatim>\<open>algorithm/missing_val_processing.cc\<close>).
  \<^item> \<open>Number_Facts\<close>, \<open>Paillier_Pow\<close>, \<open>Paillier\<close>, \<open>Paillier_Scheme\<close>: \<^verbatim>\<open>algorithm/opt_paillier/src\<close>.

  Definitions have the names of the functions they translate, with the class in front where two
  classes share one. A class is a record of its members, a method a function from the old state to the
  result and the new one; a call that waits gives \<open>None\<close> or \<open>Blocked\<close> until another operation changes
  the state; where threads matter there is an inductive step relation.

  \<^bold>\<open>What the lemmas show.\<close> The theories that end in \<open>_Correct\<close> or \<open>_Scheme\<close> hold the statements about the
  components; the others hold the definitions and how each operation acts. The operations of queues, keyed
  queues, stores, ciphertexts and of the three-party protocol are contracts stated as locales, of which
  the code's definitions are interpretations: first-in first-out, delivery by key, a store that keeps
  first values, homomorphic decryption, and an MPC protocol that computes on shares. The statements
  about a whole task compose them: the data that is sent arrives at the task, what an expression means is what
  is revealed, the intersection is what both parties have. Several statements say where the code does not do
  what it means to do; each names the inputs on which it goes wrong.

  \<^bold>\<open>Parameters.\<close> Code that is not in the repository is an argument: gRPC calls (a reply, or none when
  the status is not OK), the aby3, GMP and private-set-intersection libraries, JSON and Arrow, the file system,
  double arithmetic, random bytes and clocks. What is assumed of them is named (\<open>mpc_laws\<close>, \<open>gmp_laws\<close>,
  \<open>aby3_laws\<close>, \<open>magnitude_laws\<close>, \<open>msb_laws\<close>, \<open>share_laws\<close>, \<open>count_laws\<close>, \<open>order_laws\<close>, \<open>ecdh_exchange\<close>,
  \<open>json_laws\<close>), and each statement that assumes it has
  an example over a library written out in the theory.

  The JSON library is assumed to read back a value whose texts are UTF-8, and to refuse to print any other. The
  conversions of the Arrow library, the exceptions of the JSON library and those of the standard library carry a
  short text of their own in place of the library's.

  \<^bold>\<open>Machine arithmetic.\<close> Signed 64-bit integers are words and wrap around, also where C++ leaves an overflow
  undefined, as in the operations on shares and constants: there the statements say what the two's-complement code
  that compilers emit does. Statements that are about values say when nothing overflows.

  \<^bold>\<open>Bounds.\<close> All functions terminate. Retries count up to their maximum (3); packages shrink the rest of the
  data; the parser and the framing of messages go through a text once. The only fuel is that of the loop that
  fetches status reports, which gets the length of the queue and takes one report per round. Waits without
  a bound are step relations or results that are \<open>None\<close> for as long as the wait lasts.

  \<^bold>\<open>Not modelled.\<close> Reading and writing tables through Arrow, SQLite, MySQL and OpenCV, the training loops over
  matrices of doubles, the keyword search through APSI and SEAL, and the enclaves are calls of libraries whose
  code is not here. Command line, configuration, logging and the Python bindings are input and output or glue.
  A step of a thread is one operation under its lock; the race of a worker that is added to a queue under the
  shared lock with a reader of the queue is not modelled.
  Inside the modelled parts these are left out: time, identifiers and files of \<^verbatim>\<open>util/util.cc\<close>; certificates and
  deadlines; the device report and heartbeat of the node; the conversion of matrices and the scalar fixed-point
  templates of the ABY3 operators; the filling of columns of a database, which the code never gets to; the run of a third party without data, of which only the data it makes
  is modelled; the metadata helpers of the parser that nothing calls.
\<close>

end
